(* ===== verification/Prelude.thy ===== *)
theory Prelude
  imports Main "HOL-Library.Multiset"
begin

text \<open>
  Shared vocabulary of the development: the outcome of a C++ call (value, exception, undefined
  behaviour, or out of fuel), the exceptions the program throws, the parts of the C and C++
  standard library the sources use (character classes, \<open>std::string::find\<close> and
  \<open>std::unordered_map\<close>), and the record of operations the sources take from the external library
  dcl (namespace \<open>dbp\<close>), which are parameters of the model.
\<close>

named_theorems leM_intros \<open>monotonicity of program texts in the called program\<close>
named_theorems pres_intros \<open>preservation of a state relation by program texts\<close>
named_theorems ctx_simps \<open>equations of the variable contexts\<close>

section \<open>Outcomes and exceptions\<close>

datatype exc_kind =
    Context_exception | Tag_exception | Evaluator_exception | Function_exception
  | Type_conversion_exception | Tag_map_exception | Tag_list_exception | Tag_locale_exception
  | Session_exception | Module_exception | Plain_exception

datatype exn =
    Case_exc
  | App_exc string int
  | Parser_exc int string
  | Dbp_exc exc_kind string
  | Std_exc string
  | Broken_connection string

text \<open>\<open>std::exception::what\<close>; the exception a \<open>dbp:case\<close> throws carries the empty message.\<close>

fun what :: "exn \<Rightarrow> string" where
  "what Case_exc = []"
| "what (App_exc msg _) = msg"
| "what (Parser_exc _ msg) = msg"
| "what (Dbp_exc _ msg) = msg"
| "what (Std_exc msg) = msg"
| "what (Broken_connection msg) = msg"

datatype 'a outcome = Ok 'a | Throw exn | Crash | Diverge

fun map_outcome_state :: "('s \<Rightarrow> 't) \<Rightarrow> 's outcome \<Rightarrow> 't outcome" where
  "map_outcome_state f (Ok s) = Ok (f s)"
| "map_outcome_state f (Throw e) = Throw e"
| "map_outcome_state f Crash = Crash"
| "map_outcome_state f Diverge = Diverge"

lemma map_outcome_state_Ok [simp]:
  "map_outcome_state f o1 = Ok t \<longleftrightarrow> (\<exists>s. o1 = Ok s \<and> t = f s)"
  by (cases o1) auto

lemma map_outcome_state_Throw [simp]:
  "map_outcome_state f o1 = Throw e \<longleftrightarrow> o1 = Throw e"
  by (cases o1) auto

section \<open>Characters and strings\<close>

abbreviation code :: "char \<Rightarrow> nat" where
  "code c \<equiv> of_char c"

definition is_digit :: "char \<Rightarrow> bool" where
  "is_digit c \<longleftrightarrow> 48 \<le> code c \<and> code c \<le> 57"

definition is_upper :: "char \<Rightarrow> bool" where
  "is_upper c \<longleftrightarrow> 65 \<le> code c \<and> code c \<le> 90"

definition is_lower :: "char \<Rightarrow> bool" where
  "is_lower c \<longleftrightarrow> 97 \<le> code c \<and> code c \<le> 122"

definition is_alpha :: "char \<Rightarrow> bool" where
  "is_alpha c \<longleftrightarrow> is_upper c \<or> is_lower c"

definition is_alnum :: "char \<Rightarrow> bool" where
  "is_alnum c \<longleftrightarrow> is_alpha c \<or> is_digit c"

definition is_space :: "char \<Rightarrow> bool" where
  "is_space c \<longleftrightarrow> code c = 32 \<or> (9 \<le> code c \<and> code c \<le> 13)"

definition to_upper :: "char \<Rightarrow> char" where
  "to_upper c = (if is_lower c then char_of (code c - 32) else c)"

definition to_lower :: "char \<Rightarrow> char" where
  "to_lower c = (if is_upper c then char_of (code c + 32) else c)"

abbreviation upcase :: "string \<Rightarrow> string" where
  "upcase \<equiv> map to_upper"

abbreviation downcase :: "string \<Rightarrow> string" where
  "downcase \<equiv> map to_lower"

lemma of_char_less_256: "code c < 256"
  using of_char_of [of "code c"] by simp

lemma to_upper_idem [simp]: "to_upper (to_upper c) = to_upper c"
  by (auto simp: to_upper_def is_lower_def of_char_of)

lemma to_upper_to_lower [simp]: "to_upper (to_lower c) = to_upper c"
  by (auto simp: to_upper_def to_lower_def is_lower_def is_upper_def of_char_of)

lemma upcase_idem [simp]: "upcase (upcase s) = upcase s"
  by (simp add: comp_def)

text \<open>\<open>std::string::find (p, i)\<close>: the least position at least \<open>i\<close> where \<open>p\<close> occurs.\<close>

fun find_sub :: "string \<Rightarrow> string \<Rightarrow> nat option" where
  "find_sub p [] = (if p = [] then Some 0 else None)"
| "find_sub p (c # s) =
     (if take (length p) (c # s) = p then Some 0 else map_option Suc (find_sub p s))"

definition str_find :: "string \<Rightarrow> string \<Rightarrow> nat \<Rightarrow> nat option" where
  "str_find s p i =
     (if i \<le> length s then map_option ((+) i) (find_sub p (drop i s)) else None)"

definition occurs_at :: "string \<Rightarrow> string \<Rightarrow> nat \<Rightarrow> bool" where
  "occurs_at p s i \<longleftrightarrow> i + length p \<le> length s \<and> take (length p) (drop i s) = p"

lemma take_length_eq_le: "take (length p) s = p \<Longrightarrow> length p \<le> length s"
  by (metis length_take min.absorb_iff1 nle_le min.commute)

lemma find_sub_Some:
  "find_sub p s = Some i \<Longrightarrow> occurs_at p s i \<and> (\<forall>j<i. \<not> occurs_at p s j)"
proof (induction p s arbitrary: i rule: find_sub.induct)
  case (1 p)
  then show ?case by (auto simp: occurs_at_def split: if_splits)
next
  case (2 p c s)
  show ?case
  proof (cases "take (length p) (c # s) = p")
    case True
    with "2.prems" show ?thesis
      using take_length_eq_le [OF True] by (simp add: occurs_at_def)
  next
    case False
    with "2.prems" obtain k where k: "find_sub p s = Some k" "i = Suc k" by auto
    from "2.IH" [OF False k(1)] have *: "occurs_at p s k" "\<forall>j<k. \<not> occurs_at p s j" by auto
    have "\<not> occurs_at p (c # s) j" if "j < i" for j
      using that False *(2) k(2) by (cases j) (auto simp: occurs_at_def)
    with *(1) k(2) show ?thesis by (auto simp: occurs_at_def)
  qed
qed

lemma find_sub_None: "find_sub p s = None \<Longrightarrow> \<not> occurs_at p s j"
proof (induction p s arbitrary: j rule: find_sub.induct)
  case (1 p)
  then show ?case by (auto simp: occurs_at_def split: if_splits)
next
  case (2 p c s)
  then show ?case by (cases j) (auto simp: occurs_at_def split: if_splits)
qed

lemma find_sub_Nil [simp]: "find_sub [] s = Some 0"
  by (cases s) auto

lemma find_sub_bound: "find_sub p s = Some i \<Longrightarrow> i + length p \<le> length s"
  by (blast dest: find_sub_Some [THEN conjunct1] intro: occurs_at_def [THEN iffD1, THEN conjunct1])

lemma str_find_bound: "str_find s p i = Some j \<Longrightarrow> i \<le> j \<and> j + length p \<le> length s"
  by (auto simp: str_find_def split: if_splits dest!: find_sub_bound)

text \<open>The text at a \<open>const char *\<close> ends with the first zero byte.\<close>

definition c_str :: "string \<Rightarrow> string" where
  "c_str t = takeWhile (\<lambda>c. code c \<noteq> 0) t"

text \<open>\<open>operator<\<close> of \<open>std::string\<close>, a strict linear order by unsigned bytes.\<close>

fun str_less :: "string \<Rightarrow> string \<Rightarrow> bool" where
  "str_less _ [] = False"
| "str_less [] (_ # _) = True"
| "str_less (a # s) (b # t) = (code a < code b \<or> (a = b \<and> str_less s t))"

lemma str_less_irrefl [simp]: "\<not> str_less s s"
  by (induction s) auto

lemma str_less_trans: "str_less a b \<Longrightarrow> str_less b c \<Longrightarrow> str_less a c"
proof (induction a arbitrary: b c)
  case Nil
  then show ?case by (cases b; cases c) auto
next
  case (Cons x a)
  then show ?case by (cases b; cases c) auto
qed

lemma str_less_total: "a \<noteq> b \<Longrightarrow> str_less a b \<or> str_less b a"
proof (induction a arbitrary: b)
  case Nil
  then show ?case by (cases b) auto
next
  case (Cons x a)
  show ?case
  proof (cases b)
    case (Cons y t)
    have "x \<noteq> y \<Longrightarrow> code x < code y \<or> code y < code x"
      using of_char_eqI [where ?'a = nat] by (meson linorder_neqE_nat)
    with Cons Cons.IH [of t] Cons.prems show ?thesis by (cases "x = y") auto
  qed simp
qed

text \<open>Decimal rendering of an unsigned integer, as \<open>operator<<\<close> prints it.\<close>

fun show_nat :: "nat \<Rightarrow> string" where
  "show_nat n =
     (if n < 10 then [char_of (n + 48)] else show_nat (n div 10) @ [char_of (n mod 10 + 48)])"

declare show_nat.simps [simp del]

section \<open>Hash maps\<close>

text \<open>
  A \<open>std::unordered_map\<close> is an association list with distinct keys, in order of insertion; the
  order in which it is iterated is not specified by the language, so every iteration goes through
  a parameter, a permutation of the keys.
\<close>

type_synonym 'v umap = "(string \<times> 'v) list"

fun um_put :: "string \<Rightarrow> 'v \<Rightarrow> 'v umap \<Rightarrow> 'v umap" where
  "um_put k v [] = [(k, v)]"
| "um_put k v ((k', v') # m) = (if k = k' then (k, v) # m else (k', v') # um_put k v m)"

definition um_insert :: "string \<Rightarrow> 'v \<Rightarrow> 'v umap \<Rightarrow> 'v umap" where
  "um_insert k v m = (if map_of m k = None then m @ [(k, v)] else m)"

definition um_erase :: "string \<Rightarrow> 'v umap \<Rightarrow> 'v umap" where
  "um_erase k m = filter (\<lambda>(k', v). k' \<noteq> k) m"

definition um_iter :: "(string list \<Rightarrow> string list) \<Rightarrow> 'v umap \<Rightarrow> 'v umap" where
  "um_iter order m =
     concat (map (\<lambda>k. case map_of m k of None \<Rightarrow> [] | Some v \<Rightarrow> [(k, v)]) (order (map fst m)))"

lemma map_of_um_put [simp]: "map_of (um_put k v m) = (map_of m)(k \<mapsto> v)"
  by (induction m) auto

lemma set_keys_um_put [simp]: "fst ` set (um_put k v m) = insert k (fst ` set m)"
  by (induction k v m rule: um_put.induct) (simp_all add: insert_commute)

lemma distinct_um_put: "distinct (map fst m) \<Longrightarrow> distinct (map fst (um_put k v m))"
  by (induction m) auto

lemma um_put_not_Nil [simp]: "um_put k v m \<noteq> []"
  by (cases m) (auto split: if_splits)

lemma map_of_um_insert:
  "map_of (um_insert k v m) = (map_of m)(k \<mapsto> (case map_of m k of None \<Rightarrow> v | Some u \<Rightarrow> u))"
  by (auto simp: um_insert_def map_add_def fun_eq_iff split: option.splits)

lemma distinct_um_insert: "distinct (map fst m) \<Longrightarrow> distinct (map fst (um_insert k v m))"
  by (auto simp: um_insert_def map_of_eq_None_iff)

lemma map_of_um_erase: "map_of (um_erase k m) = (map_of m)(k := None)"
  by (induction m) (auto simp: um_erase_def fun_eq_iff)

lemma distinct_um_erase: "distinct (map fst m) \<Longrightarrow> distinct (map fst (um_erase k m))"
  by (induction m) (auto simp: um_erase_def)

lemma map_fst_um_iter:
  "set (order (map fst m)) \<subseteq> fst ` set m \<Longrightarrow> map fst (um_iter order m) = order (map fst m)"
proof -
  have "map fst (concat (map (\<lambda>k. case map_of m k of None \<Rightarrow> [] | Some v \<Rightarrow> [(k, v)]) ks)) = ks"
    if "set ks \<subseteq> fst ` set m" for ks
    using that by (induction ks) (auto split: option.splits simp: map_of_eq_None_iff)
  then show "set (order (map fst m)) \<subseteq> fst ` set m \<Longrightarrow> ?thesis" by (simp add: um_iter_def)
qed

lemma map_of_um_iter:
  assumes "set (order (map fst m)) = fst ` set m"
  shows "map_of (um_iter order m) = map_of m"
proof -
  have "map_of (concat (map (\<lambda>k. case map_of m k of None \<Rightarrow> [] | Some v \<Rightarrow> [(k, v)]) ks)) x =
        (if x \<in> set ks then map_of m x else None)" for ks x
    by (induction ks) (auto split: option.splits)
  then show ?thesis
    by (auto simp: um_iter_def assms fun_eq_iff map_of_eq_None_iff [THEN iffD2])
qed

lemma set_um_iter: "set (um_iter order m) \<subseteq> set m"
  by (auto simp: um_iter_def dest: map_of_SomeD [OF sym] split: option.splits)

section \<open>The library dcl\<close>

text \<open>
  The sources call the string and conversion routines of dcl (\<open>dcl/strutils.h\<close>), which is not part
  of the repository, and the floating point unit; both are parameters. \<open>'d\<close> is the type of
  \<open>double\<close> values.
    \<^item> \<open>tokenize s\<close> and \<open>tokenize_by s sep\<close>: \<open>tokenize()(s)\<close>, \<open>tokenize()(s, sep)\<close>;
    \<^item> \<open>split_pair s sep\<close>: the two parts that \<open>tokenize()(s, left, right, false, sep)\<close> stores;
    \<^item> \<open>split_last s sep\<close>: the two parts that \<open>tokenize()(s, left, right, sep)\<close> stores;
    \<^item> \<open>compare\<close> is the function object \<open>compare()\<close>, \<open>fmt\<close> is \<open>format(_(msg)) % args\<close>;
    \<^item> \<open>to_double\<close>, \<open>to_int\<close>, \<open>str_ptr\<close> are \<open>from_string\<close>, where \<open>None\<close> is a
      \<open>type_conversion_exception\<close>, and \<open>of_double\<close>, \<open>of_int\<close>, \<open>ptr_str\<close> are \<open>to_string\<close>;
    \<^item> \<open>um_order\<close> is the iteration order of \<open>std::unordered_map\<close>.
\<close>

datatype arith_op = Add_op | Sub_op | Mul_op | Div_op | Fmod_op | Pow_op

datatype cmp_op = Lt_op | Gt_op | Eq_op | Le_op | Ge_op | Ne_op

record 'd dcl =
  tokenize :: "string \<Rightarrow> string list"
  tokenize_by :: "string \<Rightarrow> string \<Rightarrow> string list"
  split_pair :: "string \<Rightarrow> string \<Rightarrow> string \<times> string"
  split_last :: "string \<Rightarrow> string \<Rightarrow> string \<times> string"
  trim :: "string \<Rightarrow> string"
  compare :: "string \<Rightarrow> string \<Rightarrow> bool"
  fmt :: "string \<Rightarrow> string list \<Rightarrow> string"
  to_double :: "string \<Rightarrow> 'd option"
  of_double :: "'d \<Rightarrow> string"
  arith :: "arith_op \<Rightarrow> 'd \<Rightarrow> 'd \<Rightarrow> 'd"
  cmp :: "cmp_op \<Rightarrow> 'd \<Rightarrow> 'd \<Rightarrow> bool"
  minus_one :: 'd
  to_int :: "string \<Rightarrow> int option"
  of_int_str :: "int \<Rightarrow> string"
  ptr_str :: "nat \<Rightarrow> string"
  str_ptr :: "string \<Rightarrow> nat option"
  um_order :: "string list \<Rightarrow> string list"

end
