(* ===== verification/Contexts.thy ===== *)
theory Contexts
  imports Prelude
begin

text \<open>
  Variable contexts: \<open>libdbpager/context.cpp\<close> and \<open>libdbpager/include/dbpager/context.h\<close>.

  A \<open>context\<close> object owns a stack of variable layers and a stack of calling tags and points to a
  parent context. The model writes a context together with its chain of parents as a list of
  records, the context itself first; a method that forwards to \<open>_parent\<close> recurses on the tail.
  The head of \<open>vstack\<close> is \<open>stack.back()\<close>, the head of \<open>estack\<close> is \<open>exec.back()\<close>.
\<close>

type_synonym vars = "string umap"

record ctx =
  vstack :: "vars list"
  estack :: "nat list"
  vtype :: string
  has_services :: bool

type_synonym contexts = "ctx list"

section \<open>Operations\<close>

text \<open>The constructor enters one layer; \<open>local_context\<close> and its siblings set the type.\<close>

definition new_context :: "string \<Rightarrow> contexts \<Rightarrow> contexts" where
  "new_context ty parent = \<lparr>vstack = [[]], estack = [], vtype = ty, has_services = False\<rparr> # parent"

fun enter :: "contexts \<Rightarrow> contexts outcome" where
  "enter [] = Crash"
| "enter (c # cs) = Ok (c\<lparr>vstack := [] # vstack c\<rparr> # cs)"

fun leave :: "contexts \<Rightarrow> contexts outcome" where
  "leave [] = Crash"
| "leave (c # cs) =
     (case vstack c of [] \<Rightarrow> Crash | _ # ls \<Rightarrow> Ok (c\<lparr>vstack := ls\<rparr> # cs))"

fun find_var :: "vars list \<Rightarrow> string \<Rightarrow> string option" where
  "find_var [] upname = None"
| "find_var (l # ls) upname =
     (case map_of l upname of Some v \<Rightarrow> Some v | None \<Rightarrow> find_var ls upname)"

fun get_value :: "contexts \<Rightarrow> string \<Rightarrow> string" where
  "get_value [] name = []"
| "get_value (c # cs) name =
     (case find_var (vstack c) (upcase name) of
        Some v \<Rightarrow> v
      | None \<Rightarrow> get_value cs name)"

text \<open>
  \<open>get_values\<close> merges the layers of one context, the oldest first, so that newer layers win; the
  order of the entries within a layer does not matter to the merged map.
\<close>

definition merge_layer :: "vars \<Rightarrow> vars \<Rightarrow> vars" where
  "merge_layer l acc = fold (\<lambda>(k, v). um_put k v) l acc"

definition get_values :: "ctx \<Rightarrow> vars" where
  "get_values c = fold merge_layer (rev (vstack c)) []"

fun set_var :: "vars list \<Rightarrow> string \<Rightarrow> string \<Rightarrow> vars list option" where
  "set_var [] upname value = None"
| "set_var (l # ls) upname value =
     (case map_of l upname of
        Some _ \<Rightarrow> Some (um_put upname value l # ls)
      | None \<Rightarrow> map_option ((#) l) (set_var ls upname value))"

fun set_value :: "'d dcl \<Rightarrow> contexts \<Rightarrow> string \<Rightarrow> string \<Rightarrow> contexts outcome" where
  "set_value d [] name value =
     Throw (Dbp_exc Context_exception (fmt d ''variable {0} is not defined'' [name]))"
| "set_value d (c # cs) name value =
     (case set_var (vstack c) (upcase name) value of
        Some ls \<Rightarrow> Ok (c\<lparr>vstack := ls\<rparr> # cs)
      | None \<Rightarrow> map_outcome_state ((#) c) (set_value d cs name value))"

fun add_value :: "'d dcl \<Rightarrow> contexts \<Rightarrow> string \<Rightarrow> string \<Rightarrow> string \<Rightarrow> contexts outcome" where
  "add_value d [] name value type = Crash"
| "add_value d (c # cs) name value type =
     (let ty = (if type = [] then vtype c else type)
      in if compare d ty (vtype c) then
           (case vstack c of
              [] \<Rightarrow> Crash
            | l # ls \<Rightarrow> Ok (c\<lparr>vstack := um_put (upcase name) value l # ls\<rparr> # cs))
         else if cs \<noteq> [] then map_outcome_state ((#) c) (add_value d cs name value ty)
         else Throw (Dbp_exc Context_exception (fmt d ''unknown variable type {0}'' [type])))"

definition ctx_empty :: "ctx \<Rightarrow> bool" where
  "ctx_empty c = (case vstack c of [] \<Rightarrow> True | l # _ \<Rightarrow> l = [])"

fun push_caller :: "nat \<Rightarrow> contexts \<Rightarrow> contexts outcome" where
  "push_caller t [] = Crash"
| "push_caller t (c # cs) = Ok (c\<lparr>estack := t # estack c\<rparr> # cs)"

fun pop_caller :: "contexts \<Rightarrow> (nat option \<times> contexts) outcome" where
  "pop_caller [] = Crash"
| "pop_caller (c # cs) =
     (case estack c of
        [] \<Rightarrow> Ok (None, c # cs)
      | t # ts \<Rightarrow> Ok (Some t, c\<lparr>estack := ts\<rparr> # cs))"

section \<open>The abstract environment\<close>

text \<open>
  What a context chain means: one partial map from upper-cased names to values, the innermost
  binding winning.
\<close>

fun abs_stack :: "vars list \<Rightarrow> string \<rightharpoonup> string" where
  "abs_stack [] = Map.empty"
| "abs_stack (l # ls) = abs_stack ls ++ map_of l"

fun abs_context :: "contexts \<Rightarrow> string \<rightharpoonup> string" where
  "abs_context [] = Map.empty"
| "abs_context (c # cs) = abs_context cs ++ abs_stack (vstack c)"

lemma find_var_abs [simp]: "find_var ls n = abs_stack ls n"
  by (induction ls) (auto simp: map_add_def split: option.splits)

lemma get_value_abs:
  "get_value cs name = (case abs_context cs (upcase name) of None \<Rightarrow> [] | Some v \<Rightarrow> v)"
  by (induction cs) (auto simp: map_add_def split: option.splits)

lemma set_var_Some:
  "set_var ls n v = Some ls' \<Longrightarrow>
     abs_stack ls n \<noteq> None \<and> abs_stack ls' = (abs_stack ls)(n \<mapsto> v) \<and> length ls' = length ls"
proof (induction ls arbitrary: ls')
  case (Cons l ls)
  show ?case
  proof (cases "map_of l n")
    case None
    with Cons.prems obtain ls0 where 0: "set_var ls n v = Some ls0" "ls' = l # ls0" by auto
    from Cons.IH [OF 0(1)] 0(2) None show ?thesis
      by (auto simp: map_add_def fun_eq_iff split: option.splits)
  next
    case (Some u)
    with Cons.prems show ?thesis
      by (auto simp: map_add_def fun_eq_iff split: option.splits)
  qed
qed simp

lemma set_var_None_iff: "set_var ls n v = None \<longleftrightarrow> abs_stack ls n = None"
  by (induction ls) (auto simp: map_add_def split: option.splits)

lemma set_value_refines:
  "set_value d cs name v = Ok cs' \<Longrightarrow>
     upcase name \<in> dom (abs_context cs) \<and>
     abs_context cs' = (abs_context cs)(upcase name \<mapsto> v)"
proof (induction cs arbitrary: cs')
  case (Cons c cs)
  show ?case
  proof (cases "set_var (vstack c) (upcase name) v")
    case None
    with Cons.prems obtain cs0 where 0: "set_value d cs name v = Ok cs0" "cs' = c # cs0"
      by auto
    from Cons.IH [OF 0(1)] None 0(2) show ?thesis
      by (auto simp: set_var_None_iff map_add_def fun_eq_iff dom_def split: option.splits)
  next
    case (Some ls)
    with Cons.prems set_var_Some [OF Some] show ?thesis
      by (auto simp: map_add_def fun_eq_iff dom_def split: option.splits)
  qed
qed simp

lemma set_value_undefined_iff:
  "(\<exists>e. set_value d cs name v = Throw e) \<longleftrightarrow> upcase name \<notin> dom (abs_context cs)"
  by (induction cs) (auto simp: set_var_None_iff map_add_def dom_def
      split: option.splits dest: set_var_Some)

lemma set_value_total: "set_value d cs name v \<noteq> Crash \<and> set_value d cs name v \<noteq> Diverge"
proof (induction cs)
  case (Cons c cs)
  then show ?case by (cases "set_value d cs name v") (auto split: option.splits)
qed simp

lemma add_value_Ok_cases:
  "add_value d (c # cs) name v ty = Ok cs' \<Longrightarrow>
     (\<exists>l ls. vstack c = l # ls \<and> cs' = c\<lparr>vstack := um_put (upcase name) v l # ls\<rparr> # cs) \<or>
     (\<exists>cs0. cs' = c # cs0 \<and>
        add_value d cs name v (if ty = [] then vtype c else ty) = Ok cs0)"
  by (auto simp: Let_def split: if_splits list.splits)

section \<open>The shape of a context chain\<close>

text \<open>
  The part of a chain that running a tag has to leave as it found it: how many contexts there are,
  their types, how many variable layers each has, and the stack of calling tags.
\<close>

definition same_ctx :: "ctx \<Rightarrow> ctx \<Rightarrow> bool" where
  "same_ctx c c' \<longleftrightarrow> length (vstack c') = length (vstack c) \<and> estack c' = estack c \<and>
     vtype c' = vtype c \<and> has_services c' = has_services c"

definition same_shape :: "contexts \<Rightarrow> contexts \<Rightarrow> bool" where
  "same_shape = list_all2 same_ctx"

lemma same_ctx_refl [simp]: "same_ctx c c"
  by (simp add: same_ctx_def)

lemma same_shape_refl [simp]: "same_shape cs cs"
  by (simp add: same_shape_def list_all2_refl)

lemma same_shape_trans: "same_shape a b \<Longrightarrow> same_shape b c \<Longrightarrow> same_shape a c"
  unfolding same_shape_def by (rule list_all2_trans [of same_ctx same_ctx same_ctx])
    (auto simp: same_ctx_def)

lemma same_shape_Cons [simp]:
  "same_shape (c # cs) cs' \<longleftrightarrow> (\<exists>c' cs''. cs' = c' # cs'' \<and> same_ctx c c' \<and> same_shape cs cs'')"
  by (cases cs') (auto simp: same_shape_def)

lemma same_shape_Nil [simp]: "same_shape [] cs \<longleftrightarrow> cs = []"
  by (simp add: same_shape_def)

lemma set_value_shape: "set_value d cs n v = Ok cs' \<Longrightarrow> same_shape cs cs'"
proof (induction cs arbitrary: cs')
  case (Cons c cs)
  then show ?case
    by (cases "set_var (vstack c) (upcase n) v") (auto simp: same_ctx_def dest: set_var_Some)
qed simp

lemma add_value_shape: "add_value d cs n v ty = Ok cs' \<Longrightarrow> same_shape cs cs'"
proof (induction cs arbitrary: ty cs')
  case (Cons c cs)
  from add_value_Ok_cases [OF Cons.prems] Cons.IH show ?case
    by (auto simp: same_ctx_def)
qed simp

text \<open>
  A layer entered and left again is gone, whatever happened to the chain in between, as long as
  its shape was kept.
\<close>

lemma leave_after_enter_shape:
  assumes "enter cs = Ok cs1" and "same_shape cs1 cs2"
  shows "\<exists>cs3. leave cs2 = Ok cs3 \<and> same_shape cs cs3"
proof -
  from assms(1) obtain c r where cs: "cs = c # r" by (cases cs) auto
  with assms obtain c2 r2 where c2: "cs2 = c2 # r2" "same_ctx (c\<lparr>vstack := [] # vstack c\<rparr>) c2"
    "same_shape r r2" by auto
  then obtain l ls where "vstack c2 = l # ls" by (cases "vstack c2") (auto simp: same_ctx_def)
  with c2 cs show ?thesis by (auto simp: same_ctx_def)
qed

section \<open>Scoping\<close>

lemma get_value_add_value:
  assumes "add_value d cs n v ty = Ok cs'" and "compare d (if ty = [] then vtype (hd cs) else ty) (vtype (hd cs))"
  shows "get_value cs' m = (if upcase m = upcase n then v else get_value cs m)"
  using assms
  by (cases cs) (auto simp: Let_def map_add_def split: if_splits list.splits option.splits)

lemma enter_abs: "enter cs = Ok cs' \<Longrightarrow> abs_context cs' = abs_context cs"
  by (cases cs) auto

lemma leave_restores:
  assumes "enter cs = Ok cs1" and "add_value d cs1 n v [] = Ok cs2"
    and "compare d (vtype (hd cs)) (vtype (hd cs))"
  shows "leave cs2 = Ok cs"
  using assms by (cases cs) (auto simp: Let_def)

lemma merge_layer_map: "map_of (merge_layer l acc) = map_of acc ++ map_of (rev l)"
  unfolding merge_layer_def
  by (induction l arbitrary: acc) (auto simp: map_add_upds fun_eq_iff map_add_def split: option.splits)

lemma merge_layer_distinct: "distinct (map fst acc) \<Longrightarrow> distinct (map fst (merge_layer l acc))"
  unfolding merge_layer_def by (induction l arbitrary: acc) (auto intro: distinct_um_put)

definition wf_layers :: "vars list \<Rightarrow> bool" where
  "wf_layers ls \<longleftrightarrow> (\<forall>l\<in>set ls. distinct (map fst l))"

lemma map_of_rev_distinct: "distinct (map fst l) \<Longrightarrow> map_of (rev l) = map_of l"
  by (subst map_of_inject_set) (simp_all flip: rev_map)

lemma fold_merge_abs:
  "wf_layers ls \<Longrightarrow> map_of (fold merge_layer (rev ls) acc) = map_of acc ++ abs_stack ls"
proof (induction ls arbitrary: acc)
  case (Cons l ls)
  then show ?case by (simp add: wf_layers_def merge_layer_map map_of_rev_distinct)
qed simp

lemma get_values_abs: "wf_layers (vstack c) \<Longrightarrow> map_of (get_values c) = abs_stack (vstack c)"
  using fold_merge_abs [of "vstack c" "[]"] by (simp add: get_values_def)

lemma get_values_distinct: "distinct (map fst (get_values c))"
proof -
  have "distinct (map fst acc) \<Longrightarrow> distinct (map fst (fold merge_layer ls acc))" for ls acc
    by (induction ls arbitrary: acc) (auto intro: merge_layer_distinct)
  then show ?thesis by (simp add: get_values_def)
qed

section \<open>The length of a chain\<close>

lemma same_shape_length: "same_shape cs cs' \<Longrightarrow> length cs' = length cs"
  by (simp add: same_shape_def list_all2_lengthD)

lemma pop_caller_length: "pop_caller cs = Ok (t, cs') \<Longrightarrow> length cs' = length cs"
  by (cases cs) (auto split: list.splits)

lemma push_caller_length: "push_caller t cs = Ok cs' \<Longrightarrow> length cs' = length cs"
  by (cases cs) auto

lemma enter_length: "enter cs = Ok cs' \<Longrightarrow> length cs' = length cs"
  by (cases cs) auto

lemma leave_length: "leave cs = Ok cs' \<Longrightarrow> length cs' = length cs"
  by (cases cs) (auto split: list.splits)

lemmas ctx_lengths = enter_length leave_length push_caller_length
  same_shape_length [OF add_value_shape] same_shape_length [OF set_value_shape]

end
