(* ===== verification/Tag_Store.thy ===== *)
theory Tag_Store
  imports Contexts
begin

text \<open>
  The tag tree: \<open>libdbpager/include/dbpager/tag_impl.h\<close>, \<open>libdbpager/tag_impl.cpp\<close> and the
  class hierarchy of tags. Tags refer to each other by pointer (parent, children, parameters, the
  custom tag a call is linked to), so the model keeps them in a store from addresses to nodes.
  Dereferencing an address that is not allocated is undefined behaviour, the outcome \<open>Crash\<close>.
\<close>

datatype map_class =
    C_tag_map | C_tag_map_set | C_tag_map_unset | C_tag_map_element | C_tag_map_elements
  | C_tag_map_values | C_tag_map_from_json | C_tag_map_to_json

datatype list_class =
    C_tag_list | C_tag_list_add | C_tag_list_remove | C_tag_list_element | C_tag_list_elements
  | C_tag_list_from_json

datatype io_class =
    C_tag_read | C_tag_write | C_tag_system | C_tag_delete | C_tag_rename
  | C_tag_log | C_tag_http | C_tag_locale | C_tag_regexp

datatype function_class =
    C_function_iif | C_function_byte | C_function_trim | C_function_length
  | C_function_concatenate | C_function_pos | C_function_encode_base64
  | C_function_decode_base64 | C_function_md5 | C_function_sha256 | C_function_crypt
  | C_function_uuid | C_function_rnd | C_function_upper | C_function_lower
  | C_function_urlencode | C_function_urldecode | C_function_date_utc | C_function_date_from
  | C_function_date_fmt | C_function_now | C_function_env | C_function_translate

datatype tag_class =
    C_tag_impl | C_tag_var | C_tag_set
  | C_tag_try | C_tag_catch | C_tag_throw | C_tag_case | C_tag_switch | C_tag_while
  | C_tag_split | C_tag_substr
  | C_tag_tag | C_tag_usr | C_tag_call | C_tag_execute | C_tag_async
  | C_tag_expression | C_tag_cdata | C_tag_unknown
  | C_map map_class | C_list list_class | C_io io_class | C_function function_class

record node =
  cls :: tag_class
  nname :: string
  ndepth :: int
  nparent :: "nat option"
  nparams :: "nat umap"
  nchilds :: "nat list"
  ntext :: string
  user_tag :: "nat option"

type_synonym store = "nat \<rightharpoonup> node"

definition new_node :: "tag_class \<Rightarrow> string \<Rightarrow> node" where
  "new_node k name = \<lparr>cls = k, nname = name, ndepth = 0, nparent = None, nparams = [],
     nchilds = [], ntext = [], user_tag = None\<rparr>"

text \<open>\<open>set_text\<close> folds every run of bytes up to 32 into one space.\<close>

fun squeeze :: "bool \<Rightarrow> string \<Rightarrow> string" where
  "squeeze was_space [] = []"
| "squeeze was_space (c # s) =
     (if code c \<le> 32 then (if was_space then squeeze True s else CHR '' '' # squeeze True s)
      else c # squeeze False s)"

definition set_text :: "string \<Rightarrow> node \<Rightarrow> node" where
  "set_text value n = n\<lparr>ntext := squeeze False value\<rparr>"

definition upd :: "nat \<Rightarrow> (node \<Rightarrow> node) \<Rightarrow> store \<Rightarrow> store outcome" where
  "upd t f h = (case h t of None \<Rightarrow> Crash | Some n \<Rightarrow> Ok (h(t \<mapsto> f n)))"

definition set_parent :: "nat \<Rightarrow> nat \<Rightarrow> store \<Rightarrow> store outcome" where
  "set_parent t p h =
     (case h p of
        None \<Rightarrow> Crash
      | Some pn \<Rightarrow> upd t (\<lambda>n. n\<lparr>nparent := Some p, ndepth := ndepth pn + 1\<rparr>) h)"

definition add_child :: "nat \<Rightarrow> nat \<Rightarrow> store \<Rightarrow> store outcome" where
  "add_child p c h =
     (case set_parent c p h of
        Ok h1 \<Rightarrow> upd p (\<lambda>n. n\<lparr>nchilds := nchilds n @ [c]\<rparr>) h1
      | r \<Rightarrow> r)"

fun first_named :: "store \<Rightarrow> nat list \<Rightarrow> string \<Rightarrow> nat option outcome" where
  "first_named h [] name = Ok None"
| "first_named h (c # cs) name =
     (case h c of
        None \<Rightarrow> Crash
      | Some n \<Rightarrow> if nname n = name then Ok (Some c) else first_named h cs name)"

definition get_child :: "store \<Rightarrow> nat \<Rightarrow> string \<Rightarrow> nat option outcome" where
  "get_child h t name = (case h t of None \<Rightarrow> Crash | Some n \<Rightarrow> first_named h (nchilds n) name)"

fun add_childs :: "nat \<Rightarrow> nat list \<Rightarrow> store \<Rightarrow> store outcome" where
  "add_childs p [] h = Ok h"
| "add_childs p (c # cs) h =
     (case add_child p c h of Ok h1 \<Rightarrow> add_childs p cs h1 | r \<Rightarrow> r)"

text \<open>Moving the children of a node to itself appends to the vector being iterated.\<close>

definition move_childs_to :: "nat \<Rightarrow> nat \<Rightarrow> store \<Rightarrow> store outcome" where
  "move_childs_to src dest h =
     (if src = dest then Crash
      else case h src of
        None \<Rightarrow> Crash
      | Some n \<Rightarrow>
         (case add_childs dest (nchilds n) h of
            Ok h1 \<Rightarrow> upd src (\<lambda>n. n\<lparr>nchilds := []\<rparr>) h1
          | r \<Rightarrow> r))"

definition add_parameter :: "nat \<Rightarrow> string \<Rightarrow> nat \<Rightarrow> store \<Rightarrow> store outcome" where
  "add_parameter t name value = upd t (\<lambda>n. n\<lparr>nparams := um_insert name value (nparams n)\<rparr>)"

text \<open>
  The search for a custom tag from a node outwards, as \<open>tag_usr::link\<close>, \<open>tag_usr::execute\<close> and
  \<open>tag_call::execute\<close> write it: the first ancestor with a child of that name. The number of steps
  is bounded by the first argument.
\<close>

fun find_scope :: "nat \<Rightarrow> store \<Rightarrow> nat option \<Rightarrow> string \<Rightarrow> nat option outcome" where
  "find_scope k h None name = Ok None"
| "find_scope 0 h (Some p) name = Diverge"
| "find_scope (Suc k) h (Some p) name =
     (case get_child h p name of
        Ok (Some c) \<Rightarrow> Ok (Some c)
      | Ok None \<Rightarrow>
         (case h p of None \<Rightarrow> Crash | Some n \<Rightarrow> find_scope k h (nparent n) name)
      | Throw e \<Rightarrow> Throw e
      | Crash \<Rightarrow> Crash
      | Diverge \<Rightarrow> Diverge)"

definition link :: "nat \<Rightarrow> nat \<Rightarrow> store \<Rightarrow> store outcome" where
  "link k t h =
     (case h t of
        None \<Rightarrow> Crash
      | Some n \<Rightarrow>
         (case find_scope k h (nparent n) (''@'' @ nname n) of
            Ok c \<Rightarrow> Ok (h(t \<mapsto> n\<lparr>user_tag := c\<rparr>))
          | Throw e \<Rightarrow> Throw e
          | Crash \<Rightarrow> Crash
          | Diverge \<Rightarrow> Diverge))"

section \<open>Text normalisation\<close>

lemma squeeze_idem: "squeeze b (squeeze b s) = squeeze b s"
  by (induction b s rule: squeeze.induct) auto

lemma squeeze_code: "c \<in> set (squeeze b s) \<Longrightarrow> 32 \<le> code c"
  by (induction b s rule: squeeze.induct) (auto split: if_splits)

lemma squeeze_filter: "filter (\<lambda>c. 32 < code c) (squeeze b s) = filter (\<lambda>c. 32 < code c) s"
  by (induction b s rule: squeeze.induct) auto

text \<open>No two adjacent spaces remain.\<close>

fun no_double_space :: "string \<Rightarrow> bool" where
  "no_double_space (a # b # s) = (\<not> (a = CHR '' '' \<and> b = CHR '' '') \<and> no_double_space (b # s))"
| "no_double_space _ = True"

lemma squeeze_no_double_space:
  "no_double_space (squeeze b s) \<and> (b \<longrightarrow> (squeeze b s = [] \<or> hd (squeeze b s) \<noteq> CHR '' ''))"
proof (induction b s rule: squeeze.induct)
  case (2 b c s)
  have *: "no_double_space (x # t)" if "no_double_space t" "t = [] \<or> x \<noteq> CHR '' '' \<or> hd t \<noteq> CHR '' ''" for x t
    using that by (cases t) auto
  from 2 show ?case by (auto intro!: *)
qed simp

section \<open>Tree structure\<close>

text \<open>
  A store is a well-formed forest when a rank decreases strictly from every node to its parent and
  every pointer is allocated.
\<close>

definition wf_store :: "store \<Rightarrow> bool" where
  "wf_store h \<longleftrightarrow>
     (\<forall>t n. h t = Some n \<longrightarrow>
        (\<forall>p. nparent n = Some p \<longrightarrow> p \<in> dom h) \<and>
        (\<forall>c\<in>set (nchilds n). c \<in> dom h) \<and>
        (\<forall>c\<in>snd ` set (nparams n). c \<in> dom h))"

definition ranked :: "(nat \<Rightarrow> nat) \<Rightarrow> store \<Rightarrow> bool" where
  "ranked rk h \<longleftrightarrow> (\<forall>t n p. h t = Some n \<longrightarrow> nparent n = Some p \<longrightarrow> rk p < rk t)"

lemma first_named_wf:
  "\<forall>c\<in>set cs. c \<in> dom h \<Longrightarrow>
     \<exists>r. first_named h cs name = Ok r \<and>
       (\<forall>c. r = Some c \<longrightarrow> c \<in> set cs \<and> (\<exists>n. h c = Some n \<and> nname n = name))"
  by (induction cs) (auto split: option.splits)

lemma get_child_wf:
  assumes "wf_store h" and "h t = Some n"
  shows "\<exists>r. get_child h t name = Ok r \<and>
     (\<forall>c. r = Some c \<longrightarrow> c \<in> set (nchilds n) \<and> (\<exists>m. h c = Some m \<and> nname m = name))"
  using first_named_wf [of "nchilds n" h name] assms by (auto simp: get_child_def wf_store_def)

text \<open>In a well-formed forest the scope search always ends, within the rank of its start.\<close>

lemma find_scope_terminates:
  assumes "wf_store h" and "ranked rk h" and "\<forall>p. q = Some p \<longrightarrow> p \<in> dom h \<and> rk p < k"
  shows "\<exists>r. find_scope k h q name = Ok r \<and>
     (\<forall>c. r = Some c \<longrightarrow> (\<exists>n. h c = Some n \<and> nname n = name))"
  using assms(3)
proof (induction k arbitrary: q)
  case 0
  then show ?case by (cases q) auto
next
  case (Suc k)
  show ?case
  proof (cases q)
    case None
    then show ?thesis by simp
  next
    case (Some p)
    with Suc.prems obtain n where n: "h p = Some n" "rk p < Suc k" by auto
    from get_child_wf [OF assms(1) n(1), of name] obtain r where
      r: "get_child h p name = Ok r" "\<forall>c. r = Some c \<longrightarrow> (\<exists>m. h c = Some m \<and> nname m = name)"
      by blast
    show ?thesis
    proof (cases r)
      case None
      have "\<exists>r. find_scope k h (nparent n) name = Ok r \<and>
          (\<forall>c. r = Some c \<longrightarrow> (\<exists>n. h c = Some n \<and> nname n = name))"
      proof (rule Suc.IH, intro allI impI)
        fix p' assume "nparent n = Some p'"
        with assms(1,2) n show "p' \<in> dom h \<and> rk p' < k"
          by (fastforce simp: wf_store_def ranked_def)
      qed
      with None Some n r show ?thesis by simp
    next
      case (Some c)
      with \<open>q = Some p\<close> r show ?thesis by simp
    qed
  qed
qed

text \<open>Attaching a child: the child is last, points back, and sits one level below.\<close>

lemma add_child_Ok:
  assumes "h p = Some pn" and "h c = Some cn" and "p \<noteq> c"
  shows "add_child p c h =
     Ok (h(c \<mapsto> cn\<lparr>nparent := Some p, ndepth := ndepth pn + 1\<rparr>,
           p \<mapsto> pn\<lparr>nchilds := nchilds pn @ [c]\<rparr>))"
  using assms by (simp add: add_child_def set_parent_def upd_def)

lemma add_childs_Ok:
  assumes "h p = Some pn" and "\<forall>c\<in>set cs. c \<in> dom h \<and> c \<noteq> p" and "distinct cs"
  shows "\<exists>h'. add_childs p cs h = Ok h' \<and> dom h' = dom h \<and>
     h' p = Some (pn\<lparr>nchilds := nchilds pn @ cs\<rparr>) \<and>
     (\<forall>c\<in>set cs. \<exists>cn. h c = Some cn \<and> h' c = Some (cn\<lparr>nparent := Some p, ndepth := ndepth pn + 1\<rparr>)) \<and>
     (\<forall>t. t \<notin> set cs \<and> t \<noteq> p \<longrightarrow> h' t = h t)"
  using assms
proof (induction cs arbitrary: h pn)
  case Nil
  then show ?case by simp
next
  case (Cons c cs)
  then obtain cn where cn: "h c = Some cn" "c \<noteq> p" by auto
  let ?h1 = "h(c \<mapsto> cn\<lparr>nparent := Some p, ndepth := ndepth pn + 1\<rparr>,
               p \<mapsto> pn\<lparr>nchilds := nchilds pn @ [c]\<rparr>)"
  have 1: "add_child p c h = Ok ?h1" using Cons.prems cn by (intro add_child_Ok) auto
  have "\<exists>h'. add_childs p cs ?h1 = Ok h' \<and> dom h' = dom ?h1 \<and>
     h' p = Some ((pn\<lparr>nchilds := nchilds pn @ [c]\<rparr>)\<lparr>nchilds := nchilds (pn\<lparr>nchilds := nchilds pn @ [c]\<rparr>) @ cs\<rparr>) \<and>
     (\<forall>x\<in>set cs. \<exists>n. ?h1 x = Some n \<and>
        h' x = Some (n\<lparr>nparent := Some p, ndepth := ndepth (pn\<lparr>nchilds := nchilds pn @ [c]\<rparr>) + 1\<rparr>)) \<and>
     (\<forall>t. t \<notin> set cs \<and> t \<noteq> p \<longrightarrow> h' t = ?h1 t)"
    using Cons.prems by (intro Cons.IH) auto
  then obtain h' where h': "add_childs p cs ?h1 = Ok h'" "dom h' = dom ?h1"
    "h' p = Some (pn\<lparr>nchilds := nchilds pn @ c # cs\<rparr>)"
    "\<forall>x\<in>set cs. \<exists>n. ?h1 x = Some n \<and> h' x = Some (n\<lparr>nparent := Some p, ndepth := ndepth pn + 1\<rparr>)"
    "\<forall>t. t \<notin> set cs \<and> t \<noteq> p \<longrightarrow> h' t = ?h1 t" by auto
  have "h' c = Some (cn\<lparr>nparent := Some p, ndepth := ndepth pn + 1\<rparr>)"
    using h'(5) Cons.prems(3) cn by auto
  moreover have "\<forall>x\<in>set cs. \<exists>n. h x = Some n \<and> h' x = Some (n\<lparr>nparent := Some p, ndepth := ndepth pn + 1\<rparr>)"
    using h'(4) Cons.prems(2,3) by (auto split: if_splits)
  moreover have "dom h' = dom h" using h'(2) Cons.prems(1) cn by auto
  ultimately show ?case using 1 h'(1,3,5) cn by auto
qed

end
