(* ===== verification/Exec_Monad.thy ===== *)
theory Exec_Monad
  imports Tag_Store
begin

text \<open>
  The state a running page acts on and the combinators in which the tag classes are written.

  A program text is a function from the state to an outcome, the text it wrote to its \<open>ostream\<close>
  and the new state. State and output survive an exception, as they do in C++: what was written
  before the \<open>throw\<close> stays written. \<open>Crash\<close> (undefined behaviour) and \<open>Diverge\<close> (out of fuel) are
  not exceptions and no handler catches them.
\<close>

section \<open>External services\<close>

datatype json =
    J_null | J_bool bool | J_int int | J_real string | J_string string
  | J_array "json list" | J_object "(string \<times> json) list"

datatype curl_opt =
    Opt_nosignal | Opt_url string | Opt_useragent string | Opt_followlocation
  | Opt_sslcert string | Opt_sslkey string
  | Opt_sslcert_blob string | Opt_sslkey_blob string | Opt_sslcerttype string
  | Opt_cainfo string | Opt_cainfo_blob string | Opt_verifypeer
  | Opt_userpwd string | Opt_httpauth_basic | Opt_bearer string | Opt_httpauth_bearer
  | Opt_postfields string | Opt_post | Opt_customrequest string | Opt_httpheader "string list"

text \<open>
  Libraries and system services the tags call, as functions of their arguments; those whose answer
  changes from call to call (\<open>uuid\<close>, \<open>rand\<close>, \<open>time\<close>, HTTP requests, subprocesses) also take the
  number of such calls made before.
    \<^item> \<open>re_replace expr rewrite s\<close> and \<open>re_find expr s\<close>: \<open>GlobalReplace\<close> and \<open>FindAndConsume\<close> of
      PCRE (the number of replacements and the new text; the first group and the rest);
    \<^item> \<open>json_text v\<close>: \<open>Some (v.asString ())\<close> if \<open>v\<close> is convertible to a string;
    \<^item> \<open>file_read\<close>, \<open>file_write\<close>, \<open>file_remove\<close>, \<open>file_rename\<close>: whether the operating system lets
      the operation through.
\<close>

record ext =
  b64_encode :: "string \<Rightarrow> string"
  b64_decode :: "string \<Rightarrow> string"
  md5_hex :: "string \<Rightarrow> string"
  sha256_bytes :: "string \<Rightarrow> nat list"
  crypt_r :: "string \<Rightarrow> string \<Rightarrow> string option"
  uuid_at :: "nat \<Rightarrow> string"
  rand_at :: "nat \<Rightarrow> nat"
  time_at :: "nat \<Rightarrow> int"
  getenv :: "string \<Rightarrow> string option"
  url_encode :: "string \<Rightarrow> string"
  url_decode :: "string \<Rightarrow> string"
  translate :: "string \<Rightarrow> string \<Rightarrow> string \<Rightarrow> string"
  loc_upper :: "char \<Rightarrow> char"
  loc_lower :: "char \<Rightarrow> char"
  date_parse :: "string \<Rightarrow> string \<Rightarrow> string + int"
  date_gmt :: "int \<Rightarrow> string"
  date_str :: "int \<Rightarrow> string \<Rightarrow> string"
  re_replace :: "string \<Rightarrow> string \<Rightarrow> string \<Rightarrow> nat \<times> string"
  re_find :: "string \<Rightarrow> string \<Rightarrow> (string \<times> string) option"
  json_parse :: "string \<Rightarrow> json option"
  json_write :: "json \<Rightarrow> string"
  json_text :: "json \<Rightarrow> string option"
  std_stoi :: "string \<Rightarrow> int option"
  std_stod :: "string \<Rightarrow> string option"
  curl_perform :: "nat \<Rightarrow> curl_opt list \<Rightarrow> string + (int \<times> string)"
  process_run :: "nat \<Rightarrow> string \<Rightarrow> string \<Rightarrow> string \<Rightarrow> exn + (string \<times> string)"
  file_read :: "string \<Rightarrow> bool"
  file_write :: "string \<Rightarrow> bool"
  file_remove :: "string \<Rightarrow> bool"
  file_rename :: "string \<Rightarrow> string \<Rightarrow> bool"
  app_full_name :: string

record 'd world =
  dclib :: "'d dcl"
  ext :: ext

section \<open>The state\<close>

datatype token_type =
    T_NAME | T_FUNC | T_NUMBER | T_END
  | T_PLUS | T_MINUS | T_MUL | T_DIV | T_MOD | T_PWR | T_LP | T_RP
  | T_LT | T_GT | T_EQ | T_LTEQ | T_GTEQ | T_NOTEQ | T_AND | T_OR | T_NOT

text \<open>
  The evaluator's local stream and token. The type of a fresh token is not initialised (\<open>None\<close>).
\<close>

record lexer =
  input :: string
  tok :: "token_type option"
  tname :: string
  tvalue :: string

text \<open>
  A connection of a module to its server: the context of the client library, and whether it was
  configured.
\<close>

record connection =
  handle :: "nat option"
  configured :: bool

text \<open>
  \<open>pooled\<close> holds the connection that a module keeps for an argument of \<open>acquire\<close>, and \<open>remote\<close> what the
  servers outside of the process hold, in a form only their client libraries know.
\<close>

record state =
  ctxs :: contexts
  heap :: store
  next_tag :: nat
  lx :: lexer
  umaps :: "nat \<rightharpoonup> string umap"
  vlists :: "nat \<rightharpoonup> string list"
  next_addr :: nat
  files :: "string \<rightharpoonup> string"
  logged :: "string list"
  tick :: nat
  pooled :: "string \<times> string \<rightharpoonup> connection"
  remote :: "string \<rightharpoonup> string"

type_synonym 'a prog = "state \<Rightarrow> 'a outcome \<times> string \<times> state"
type_synonym exec_fn = "nat \<Rightarrow> nat option \<Rightarrow> unit prog"

section \<open>Combinators\<close>

definition ret :: "'a \<Rightarrow> 'a prog" where
  "ret x s = (Ok x, [], s)"

definition throwM :: "exn \<Rightarrow> 'a prog" where
  "throwM e s = (Throw e, [], s)"

definition crashM :: "'a prog" where
  "crashM s = (Crash, [], s)"

definition divergeM :: "'a prog" where
  "divergeM s = (Diverge, [], s)"

definition bindM :: "'a prog \<Rightarrow> ('a \<Rightarrow> 'b prog) \<Rightarrow> 'b prog" where
  "bindM m f s =
     (case m s of
        (Ok x, w, s1) \<Rightarrow> (case f x s1 of (r, w', s2) \<Rightarrow> (r, w @ w', s2))
      | (Throw e, w, s1) \<Rightarrow> (Throw e, w, s1)
      | (Crash, w, s1) \<Rightarrow> (Crash, w, s1)
      | (Diverge, w, s1) \<Rightarrow> (Diverge, w, s1))"

definition seqM :: "unit prog \<Rightarrow> 'b prog \<Rightarrow> 'b prog" where
  "seqM m k = bindM m (\<lambda>_. k)"

definition outM :: "string \<Rightarrow> unit prog" where
  "outM t s = (Ok (), t, s)"

definition getM :: "(state \<Rightarrow> 'a) \<Rightarrow> 'a prog" where
  "getM f s = (Ok (f s), [], s)"

definition modM :: "(state \<Rightarrow> state) \<Rightarrow> unit prog" where
  "modM f s = (Ok (), [], f s)"

text \<open>Running a program text into a local \<open>ostringstream\<close> and taking its contents.\<close>

definition capture :: "unit prog \<Rightarrow> string prog" where
  "capture m s =
     (case m s of
        (Ok _, w, s1) \<Rightarrow> (Ok w, [], s1)
      | (Throw e, w, s1) \<Rightarrow> (Throw e, [], s1)
      | (Crash, w, s1) \<Rightarrow> (Crash, [], s1)
      | (Diverge, w, s1) \<Rightarrow> (Diverge, [], s1))"

definition tryM :: "'a prog \<Rightarrow> (exn \<Rightarrow> 'a prog) \<Rightarrow> 'a prog" where
  "tryM m h s =
     (case m s of
        (Throw e, w, s1) \<Rightarrow> (case h e s1 of (r, w', s2) \<Rightarrow> (r, w @ w', s2))
      | r \<Rightarrow> r)"

text \<open>\<open>try { m } catch (...) { f; throw; } f\<close>\<close>

definition finallyM :: "'a prog \<Rightarrow> unit prog \<Rightarrow> 'a prog" where
  "finallyM m f = bindM (tryM m (\<lambda>e. seqM f (throwM e))) (\<lambda>x. seqM f (ret x))"

fun forM :: "'a list \<Rightarrow> ('a \<Rightarrow> unit prog) \<Rightarrow> unit prog" where
  "forM [] f = ret ()"
| "forM (x # xs) f = seqM (f x) (forM xs f)"

fun mapM :: "'a list \<Rightarrow> ('a \<Rightarrow> 'b prog) \<Rightarrow> 'b list prog" where
  "mapM [] f = ret []"
| "mapM (x # xs) f = bindM (f x) (\<lambda>y. bindM (mapM xs f) (\<lambda>ys. ret (y # ys)))"

definition liftO :: "'a outcome \<Rightarrow> 'a prog" where
  "liftO r s = (r, [], s)"

text \<open>An operation on the current context chain.\<close>

definition ctxM :: "(contexts \<Rightarrow> contexts outcome) \<Rightarrow> unit prog" where
  "ctxM f s =
     (case f (ctxs s) of
        Ok cs \<Rightarrow> (Ok (), [], s\<lparr>ctxs := cs\<rparr>)
      | Throw e \<Rightarrow> (Throw e, [], s)
      | Crash \<Rightarrow> (Crash, [], s)
      | Diverge \<Rightarrow> (Diverge, [], s))"

definition enterM :: "unit prog" where
  "enterM = ctxM enter"

definition leaveM :: "unit prog" where
  "leaveM = ctxM leave"

definition addM :: "'d world \<Rightarrow> string \<Rightarrow> string \<Rightarrow> string \<Rightarrow> unit prog" where
  "addM w n v ty = ctxM (\<lambda>cs. add_value (dclib w) cs n v ty)"

definition setM :: "'d world \<Rightarrow> string \<Rightarrow> string \<Rightarrow> unit prog" where
  "setM w n v = ctxM (\<lambda>cs. set_value (dclib w) cs n v)"

definition valueM :: "string \<Rightarrow> string prog" where
  "valueM n = getM (\<lambda>s. get_value (ctxs s) n)"

definition pushM :: "nat \<Rightarrow> unit prog" where
  "pushM t = ctxM (push_caller t)"

definition popM :: "nat option prog" where
  "popM s =
     (case pop_caller (ctxs s) of
        Ok (t, cs) \<Rightarrow> (Ok t, [], s\<lparr>ctxs := cs\<rparr>)
      | Throw e \<Rightarrow> (Throw e, [], s)
      | Crash \<Rightarrow> (Crash, [], s)
      | Diverge \<Rightarrow> (Diverge, [], s))"

text \<open>
  The two brackets that the tag classes write out by hand:
  \<open>ctx.enter (); try { m } catch (...) { ctx.leave (); throw; } ctx.leave ();\<close>
  and the same with \<open>ctx.push (this)\<close> and \<open>ctx.pop ()\<close>.
\<close>

definition scoped :: "'a prog \<Rightarrow> 'a prog" where
  "scoped m = seqM enterM (finallyM m leaveM)"

definition calling :: "nat \<Rightarrow> 'a prog \<Rightarrow> 'a prog" where
  "calling t m = seqM (pushM t) (finallyM m (bindM popM (\<lambda>_. ret ())))"

definition derefM :: "nat \<Rightarrow> node prog" where
  "derefM t s = (case heap s t of None \<Rightarrow> (Crash, [], s) | Some n \<Rightarrow> (Ok n, [], s))"

text \<open>\<open>new\<close>, a body, and \<open>delete\<close> on every path: temporary tags.\<close>

definition allocM :: "node \<Rightarrow> nat prog" where
  "allocM n s = (Ok (next_tag s), [], s\<lparr>heap := (heap s)(next_tag s \<mapsto> n), next_tag := Suc (next_tag s)\<rparr>)"

definition freeM :: "nat \<Rightarrow> unit prog" where
  "freeM t = modM (\<lambda>s. s\<lparr>heap := (heap s)(t := None)\<rparr>)"

definition storeM :: "(store \<Rightarrow> store outcome) \<Rightarrow> unit prog" where
  "storeM f s =
     (case f (heap s) of
        Ok h \<Rightarrow> (Ok (), [], s\<lparr>heap := h\<rparr>)
      | Throw e \<Rightarrow> (Throw e, [], s)
      | Crash \<Rightarrow> (Crash, [], s)
      | Diverge \<Rightarrow> (Diverge, [], s))"

text \<open>An automatic variable of type \<open>unordered_map\<close> or \<open>vector\<close> whose address escapes.\<close>

definition with_umap :: "(nat \<Rightarrow> 'a prog) \<Rightarrow> 'a prog" where
  "with_umap f =
     bindM (getM next_addr) (\<lambda>a.
     seqM (modM (\<lambda>s. s\<lparr>umaps := (umaps s)(a \<mapsto> []), next_addr := Suc a\<rparr>))
       (finallyM (f a) (modM (\<lambda>s. s\<lparr>umaps := (umaps s)(a := None)\<rparr>))))"

definition with_vlist :: "(nat \<Rightarrow> 'a prog) \<Rightarrow> 'a prog" where
  "with_vlist f =
     bindM (getM next_addr) (\<lambda>a.
     seqM (modM (\<lambda>s. s\<lparr>vlists := (vlists s)(a \<mapsto> []), next_addr := Suc a\<rparr>))
       (finallyM (f a) (modM (\<lambda>s. s\<lparr>vlists := (vlists s)(a := None)\<rparr>))))"

definition get_umap :: "nat \<Rightarrow> string umap prog" where
  "get_umap a s = (case umaps s a of None \<Rightarrow> (Crash, [], s) | Some m \<Rightarrow> (Ok m, [], s))"

definition put_umap :: "nat \<Rightarrow> string umap \<Rightarrow> unit prog" where
  "put_umap a m s =
     (if umaps s a = None then (Crash, [], s) else (Ok (), [], s\<lparr>umaps := (umaps s)(a \<mapsto> m)\<rparr>))"

definition get_vlist :: "nat \<Rightarrow> string list prog" where
  "get_vlist a s = (case vlists s a of None \<Rightarrow> (Crash, [], s) | Some m \<Rightarrow> (Ok m, [], s))"

definition put_vlist :: "nat \<Rightarrow> string list \<Rightarrow> unit prog" where
  "put_vlist a m s =
     (if vlists s a = None then (Crash, [], s) else (Ok (), [], s\<lparr>vlists := (vlists s)(a \<mapsto> m)\<rparr>))"

definition tickM :: "nat prog" where
  "tickM s = (Ok (tick s), [], s\<lparr>tick := Suc (tick s)\<rparr>)"

definition throw_fmt :: "'d world \<Rightarrow> exc_kind \<Rightarrow> string \<Rightarrow> string list \<Rightarrow> 'a prog" where
  "throw_fmt w k msg args = throwM (Dbp_exc k (fmt (dclib w) msg args))"

text \<open>\<open>from_string<int>\<close> and \<open>from_string<void*>\<close>.\<close>

definition type_error :: exn where
  "type_error = Dbp_exc Type_conversion_exception ''type conversion error''"

definition to_intM :: "'d world \<Rightarrow> string \<Rightarrow> int prog" where
  "to_intM w t = (case to_int (dclib w) t of None \<Rightarrow> throwM type_error | Some i \<Rightarrow> ret i)"

definition to_ptrM :: "'d world \<Rightarrow> string \<Rightarrow> nat prog" where
  "to_ptrM w t = (case str_ptr (dclib w) t of None \<Rightarrow> throwM type_error | Some i \<Rightarrow> ret i)"

lemmas prog_defs = ret_def throwM_def crashM_def divergeM_def bindM_def seqM_def outM_def getM_def
  modM_def capture_def tryM_def liftO_def ctxM_def derefM_def

lemma bind_ret [simp]: "bindM (ret x) f = f x"
  by (simp add: prog_defs fun_eq_iff split: prod.split)

lemma bind_ret_right [simp]: "bindM m ret = m"
  by (auto simp: prog_defs fun_eq_iff split: prod.split outcome.split)

lemma bind_throw [simp]: "bindM (throwM e) f = throwM e"
  by (simp add: prog_defs fun_eq_iff)

lemma bind_assoc: "bindM (bindM m f) g = bindM m (\<lambda>x. bindM (f x) g)"
  by (auto simp: prog_defs fun_eq_iff split: prod.split outcome.split)

lemma try_ret [simp]: "tryM (ret x) h = ret x"
  by (simp add: prog_defs fun_eq_iff)

lemma try_throw [simp]: "tryM (throwM e) h = h e"
  by (simp add: prog_defs fun_eq_iff split: prod.split)

lemma seq_ret [simp]: "seqM m (ret ()) = m"
  by (auto simp: prog_defs fun_eq_iff split: prod.split outcome.split)

lemma forM_map: "forM (map g xs) f = forM xs (\<lambda>x. f (g x))"
  by (induction xs) auto

text \<open>Running a step whose result is known.\<close>

lemma bind_Ok: "m s = (Ok x, [], s1) \<Longrightarrow> bindM m f s = f x s1"
  by (simp add: bindM_def split: prod.split)

lemma bind_Throw: "m s = (Throw e, [], s1) \<Longrightarrow> bindM m f s = (Throw e, [], s1)"
  by (simp add: bindM_def)

lemma seq_Ok: "m s = (Ok (), [], s1) \<Longrightarrow> seqM m k s = k s1"
  by (simp add: seqM_def bind_Ok)

lemma seq_Throw: "m s = (Throw e, [], s1) \<Longrightarrow> seqM m k s = (Throw e, [], s1)"
  by (simp add: seqM_def bind_Throw)

section \<open>Approximation by fuel\<close>

text \<open>
  \<open>leM m m'\<close>: wherever \<open>m\<close> comes to an end, \<open>m'\<close> does exactly the same. Every combinator is
  monotone, so giving a program text more fuel never changes a result it already had.
\<close>

definition leM :: "'a prog \<Rightarrow> 'a prog \<Rightarrow> bool" where
  "leM m m' \<longleftrightarrow> (\<forall>s. fst (m s) = Diverge \<or> m s = m' s)"

lemma leM_refl [leM_intros]: "leM m m"
  by (simp add: leM_def)

lemma leM_trans: "leM a b \<Longrightarrow> leM b c \<Longrightarrow> leM a c"
  unfolding leM_def by metis

lemma leM_diverge [leM_intros]: "leM divergeM m"
  by (simp add: leM_def divergeM_def)

lemma leM_D: "leM m m' \<Longrightarrow> fst (m s) \<noteq> Diverge \<Longrightarrow> m' s = m s"
  by (auto simp: leM_def)

lemma leM_step: "leM m m' \<Longrightarrow> m s = (r, w, s1) \<Longrightarrow> r = Diverge \<or> m' s = (r, w, s1)"
  by (auto simp: leM_def dest!: spec [of _ s])

lemma leM_bind [leM_intros]:
  assumes "leM m m'" and "\<And>x. leM (f x) (f' x)"
  shows "leM (bindM m f) (bindM m' f')"
  unfolding leM_def
proof
  fix s
  obtain r w s1 where m: "m s = (r, w, s1)" by (cases "m s")
  show "fst (bindM m f s) = Diverge \<or> bindM m f s = bindM m' f' s"
  proof (cases r)
    case (Ok x)
    obtain r2 w2 s2 where f: "f x s1 = (r2, w2, s2)" by (cases "f x s1")
    from leM_step [OF assms(1) m] leM_step [OF assms(2) f] m f Ok show ?thesis
      by (auto simp: bindM_def)
  qed (use leM_step [OF assms(1) m] m in \<open>auto simp: bindM_def\<close>)
qed

lemma leM_seq [leM_intros]: "leM m m' \<Longrightarrow> leM k k' \<Longrightarrow> leM (seqM m k) (seqM m' k')"
  unfolding seqM_def by (rule leM_bind)

lemma leM_capture [leM_intros]: "leM m m' \<Longrightarrow> leM (capture m) (capture m')"
  unfolding leM_def [of "capture m"]
proof
  fix s
  assume le: "leM m m'"
  obtain r w s1 where m: "m s = (r, w, s1)" by (cases "m s")
  from leM_step [OF le m] m show "fst (capture m s) = Diverge \<or> capture m s = capture m' s"
    by (cases r) (auto simp: capture_def)
qed

lemma leM_try [leM_intros]:
  assumes "leM m m'" and "\<And>e. leM (h e) (h' e)"
  shows "leM (tryM m h) (tryM m' h')"
  unfolding leM_def
proof
  fix s
  obtain r w s1 where m: "m s = (r, w, s1)" by (cases "m s")
  show "fst (tryM m h s) = Diverge \<or> tryM m h s = tryM m' h' s"
  proof (cases r)
    case (Throw e)
    obtain r2 w2 s2 where h: "h e s1 = (r2, w2, s2)" by (cases "h e s1")
    from leM_step [OF assms(1) m] leM_step [OF assms(2) h] m h Throw show ?thesis
      by (auto simp: tryM_def)
  qed (use leM_step [OF assms(1) m] m in \<open>auto simp: tryM_def\<close>)
qed

lemma leM_finally [leM_intros]: "leM m m' \<Longrightarrow> leM f f' \<Longrightarrow> leM (finallyM m f) (finallyM m' f')"
  unfolding finallyM_def by (intro leM_intros)

lemma leM_forM [leM_intros]: "(\<And>x. leM (f x) (f' x)) \<Longrightarrow> leM (forM xs f) (forM xs f')"
  by (induction xs) (auto intro!: leM_intros)

lemma leM_mapM [leM_intros]: "(\<And>x. leM (f x) (f' x)) \<Longrightarrow> leM (mapM xs f) (mapM xs f')"
  by (induction xs) (auto intro!: leM_intros)

lemma leM_scoped [leM_intros]: "leM m m' \<Longrightarrow> leM (scoped m) (scoped m')"
  unfolding scoped_def by (intro leM_intros)

lemma leM_calling [leM_intros]: "leM m m' \<Longrightarrow> leM (calling t m) (calling t m')"
  unfolding calling_def by (intro leM_intros)

lemma leM_with_umap [leM_intros]: "(\<And>a. leM (f a) (f' a)) \<Longrightarrow> leM (with_umap f) (with_umap f')"
  unfolding with_umap_def by (intro leM_intros)

lemma leM_with_vlist [leM_intros]: "(\<And>a. leM (f a) (f' a)) \<Longrightarrow> leM (with_vlist f) (with_vlist f')"
  unfolding with_vlist_def by (intro leM_intros)

lemma leM_if [leM_intros]:
  "(b \<Longrightarrow> leM m m') \<Longrightarrow> (\<not> b \<Longrightarrow> leM k k') \<Longrightarrow> leM (if b then m else k) (if b then m' else k')"
  by simp

lemma leM_option [leM_intros]:
  "leM m m' \<Longrightarrow> (\<And>x. leM (f x) (f' x)) \<Longrightarrow>
     leM (case v of None \<Rightarrow> m | Some x \<Rightarrow> f x) (case v of None \<Rightarrow> m' | Some x \<Rightarrow> f' x)"
  by (cases v) auto

lemma leM_list [leM_intros]:
  "leM m m' \<Longrightarrow> (\<And>x xs. leM (f x xs) (f' x xs)) \<Longrightarrow>
     leM (case v of [] \<Rightarrow> m | x # xs \<Rightarrow> f x xs) (case v of [] \<Rightarrow> m' | x # xs \<Rightarrow> f' x xs)"
  by (cases v) auto

lemma leM_prod [leM_intros]:
  "(\<And>x y. leM (f x y) (f' x y)) \<Longrightarrow> leM (case v of (x, y) \<Rightarrow> f x y) (case v of (x, y) \<Rightarrow> f' x y)"
  by (cases v) auto

lemma leM_sum [leM_intros]:
  "(\<And>x. leM (f x) (f' x)) \<Longrightarrow> (\<And>x. leM (g x) (g' x)) \<Longrightarrow>
     leM (case v of Inl x \<Rightarrow> f x | Inr x \<Rightarrow> g x) (case v of Inl x \<Rightarrow> f' x | Inr x \<Rightarrow> g' x)"
  by (cases v) auto

section \<open>Relations kept by program texts\<close>

text \<open>
  \<open>pres R m\<close>: whenever \<open>m\<close> returns or throws, the state it leaves is related by \<open>R\<close> to the state
  it started in. The locale below is the interface between the tag classes and the state they act
  on: the laws are one per primitive operation the tag classes use, and a relation that satisfies
  them is kept by every tag class.
\<close>

definition pres :: "(state \<Rightarrow> state \<Rightarrow> bool) \<Rightarrow> 'a prog \<Rightarrow> bool" where
  "pres R m \<longleftrightarrow> (\<forall>s r w s'. m s = (r, w, s') \<longrightarrow> r \<noteq> Crash \<longrightarrow> r \<noteq> Diverge \<longrightarrow> R s s')"

lemma presI: "(\<And>s r w s'. m s = (r, w, s') \<Longrightarrow> r \<noteq> Crash \<Longrightarrow> r \<noteq> Diverge \<Longrightarrow> R s s') \<Longrightarrow> pres R m"
  by (simp add: pres_def)

lemma presD: "pres R m \<Longrightarrow> m s = (r, w, s') \<Longrightarrow> r \<noteq> Crash \<Longrightarrow> r \<noteq> Diverge \<Longrightarrow> R s s'"
  by (simp add: pres_def)

locale kept =
  fixes R :: "state \<Rightarrow> state \<Rightarrow> bool"
  assumes R_refl: "R s s"
    and R_trans: "R s t \<Longrightarrow> R t u \<Longrightarrow> R s u"
begin

lemma pres_ret [pres_intros]: "pres R (ret x)"
  by (auto intro!: presI R_refl simp: ret_def)

lemma pres_throw [pres_intros]: "pres R (throwM e)"
  by (auto intro!: presI R_refl simp: throwM_def)

lemma pres_crash [pres_intros]: "pres R crashM"
  by (auto intro!: presI simp: crashM_def)

lemma pres_diverge [pres_intros]: "pres R divergeM"
  by (auto intro!: presI simp: divergeM_def)

lemma pres_out [pres_intros]: "pres R (outM t)"
  by (auto intro!: presI R_refl simp: outM_def)

lemma pres_get [pres_intros]: "pres R (getM f)"
  by (auto intro!: presI R_refl simp: getM_def)

lemma pres_value [pres_intros]: "pres R (valueM n)"
  unfolding valueM_def by (rule pres_get)

lemma pres_deref [pres_intros]: "pres R (derefM t)"
  by (auto intro!: presI R_refl simp: derefM_def split: option.splits)

lemma pres_get_umap [pres_intros]: "pres R (get_umap a)"
  by (auto intro!: presI R_refl simp: get_umap_def split: option.splits)

lemma pres_get_vlist [pres_intros]: "pres R (get_vlist a)"
  by (auto intro!: presI R_refl simp: get_vlist_def split: option.splits)

lemma pres_liftO [pres_intros]: "pres R (liftO r)"
  by (auto intro!: presI R_refl simp: liftO_def)

lemma pres_mod: "(\<And>s. R s (f s)) \<Longrightarrow> pres R (modM f)"
  by (auto intro!: presI simp: modM_def)

lemma pres_bind [pres_intros]:
  assumes "pres R m" and "\<And>x. pres R (f x)"
  shows "pres R (bindM m f)"
proof (rule presI)
  fix s r w s' assume *: "bindM m f s = (r, w, s')" "r \<noteq> Crash" "r \<noteq> Diverge"
  obtain r1 w1 s1 where m: "m s = (r1, w1, s1)" by (cases "m s")
  show "R s s'"
  proof (cases r1)
    case (Ok x)
    obtain r2 w2 s2 where f: "f x s1 = (r2, w2, s2)" by (cases "f x s1")
    with m Ok * have "r2 = r" "s2 = s'" by (auto simp: bindM_def)
    with presD [OF assms(1) m] presD [OF assms(2) f] Ok * show ?thesis by (auto intro: R_trans)
  next
    case (Throw e)
    with m * presD [OF assms(1) m] show ?thesis by (auto simp: bindM_def)
  qed (use m * in \<open>auto simp: bindM_def\<close>)
qed

lemma pres_seq [pres_intros]: "pres R m \<Longrightarrow> pres R k \<Longrightarrow> pres R (seqM m k)"
  unfolding seqM_def by (rule pres_bind)

lemma pres_capture [pres_intros]:
  assumes "pres R m" shows "pres R (capture m)"
proof (rule presI)
  fix s r w s' assume *: "capture m s = (r, w, s')" "r \<noteq> Crash" "r \<noteq> Diverge"
  obtain r1 w1 s1 where m: "m s = (r1, w1, s1)" by (cases "m s")
  with * presD [OF assms m] show "R s s'" by (cases r1) (auto simp: capture_def)
qed

lemma pres_try [pres_intros]:
  assumes "pres R m" and "\<And>e. pres R (h e)"
  shows "pres R (tryM m h)"
proof (rule presI)
  fix s r w s' assume *: "tryM m h s = (r, w, s')" "r \<noteq> Crash" "r \<noteq> Diverge"
  obtain r1 w1 s1 where m: "m s = (r1, w1, s1)" by (cases "m s")
  show "R s s'"
  proof (cases r1)
    case (Throw e)
    obtain r2 w2 s2 where h: "h e s1 = (r2, w2, s2)" by (cases "h e s1")
    with m Throw * have "r2 = r" "s2 = s'" by (auto simp: tryM_def)
    with presD [OF assms(1) m] presD [OF assms(2) h] Throw * show ?thesis by (auto intro: R_trans)
  qed (use m * presD [OF assms(1) m] in \<open>auto simp: tryM_def\<close>)
qed

lemma pres_finally [pres_intros]: "pres R m \<Longrightarrow> pres R f \<Longrightarrow> pres R (finallyM m f)"
  unfolding finallyM_def by (intro pres_bind pres_try pres_seq pres_throw pres_ret)

lemma pres_forM [pres_intros]: "(\<And>x. pres R (f x)) \<Longrightarrow> pres R (forM xs f)"
  by (induction xs) (auto intro!: pres_seq pres_ret)

lemma pres_mapM [pres_intros]: "(\<And>x. pres R (f x)) \<Longrightarrow> pres R (mapM xs f)"
  by (induction xs) (auto intro!: pres_bind pres_ret)

lemma pres_if [pres_intros]: "(b \<Longrightarrow> pres R m) \<Longrightarrow> (\<not> b \<Longrightarrow> pres R k) \<Longrightarrow> pres R (if b then m else k)"
  by simp

lemma pres_option [pres_intros]:
  "pres R m \<Longrightarrow> (\<And>x. pres R (f x)) \<Longrightarrow> pres R (case v of None \<Rightarrow> m | Some x \<Rightarrow> f x)"
  by (cases v) auto

lemma pres_list [pres_intros]:
  "pres R m \<Longrightarrow> (\<And>x xs. pres R (f x xs)) \<Longrightarrow> pres R (case v of [] \<Rightarrow> m | x # xs \<Rightarrow> f x xs)"
  by (cases v) auto

lemma pres_prod [pres_intros]: "(\<And>x y. pres R (f x y)) \<Longrightarrow> pres R (case v of (x, y) \<Rightarrow> f x y)"
  by (cases v) auto

lemma pres_sum [pres_intros]:
  "(\<And>x. pres R (f x)) \<Longrightarrow> (\<And>x. pres R (g x)) \<Longrightarrow> pres R (case v of Inl x \<Rightarrow> f x | Inr x \<Rightarrow> g x)"
  by (cases v) auto

lemma pres_to_int [pres_intros]: "pres R (to_intM w t)"
  unfolding to_intM_def by (intro pres_option pres_throw pres_ret)

lemma pres_to_ptr [pres_intros]: "pres R (to_ptrM w t)"
  unfolding to_ptrM_def by (intro pres_option pres_throw pres_ret)

lemma pres_throw_fmt [pres_intros]: "pres R (throw_fmt w k msg args)"
  unfolding throw_fmt_def by (rule pres_throw)

end

end
