(* ===== verification/Tag_Factory.thy ===== *)
theory Tag_Factory
  imports Exec_Monad
begin

text \<open>
  \<open>tag/tag_factory.cpp\<close>: the table of built-in tags and functions, the table of plugins, and the
  creation of a tag object from a namespace and a local name.
\<close>

definition dbpager_uri :: string where
  "dbpager_uri = ''http://dbpager.org.ru/schemas/dbp/3.0''"

definition builtin_table :: "(string \<times> tag_class) list" where
  "builtin_table =
    [(''module'', C_tag_impl), (''include'', C_tag_impl), (''var'', C_tag_var), (''set'', C_tag_set),
     (''map'', C_map C_tag_map), (''map-set'', C_map C_tag_map_set),
     (''map-unset'', C_map C_tag_map_unset), (''map-element'', C_map C_tag_map_element),
     (''map-elements'', C_map C_tag_map_elements), (''map-values'', C_map C_tag_map_values),
     (''map-from-json'', C_map C_tag_map_from_json), (''map-to-json'', C_map C_tag_map_to_json),
     (''list'', C_list C_tag_list), (''list-add'', C_list C_tag_list_add),
     (''list-remove'', C_list C_tag_list_remove), (''list-element'', C_list C_tag_list_element),
     (''list-elements'', C_list C_tag_list_elements), (''list-from-json'', C_list C_tag_list_from_json),
     (''try'', C_tag_try), (''catch'', C_tag_catch), (''throw'', C_tag_throw), (''case'', C_tag_case),
     (''switch'', C_tag_switch), (''while'', C_tag_while), (''split'', C_tag_split),
     (''substr'', C_tag_substr), (''regexp'', C_io C_tag_regexp), (''tag'', C_tag_tag),
     (''call'', C_tag_call), (''execute'', C_tag_execute), (''read'', C_io C_tag_read),
     (''write'', C_io C_tag_write), (''locale'', C_io C_tag_locale), (''system'', C_io C_tag_system),
     (''delete'', C_io C_tag_delete), (''rename'', C_io C_tag_rename), (''log'', C_io C_tag_log),
     (''http'', C_io C_tag_http), (''async'', C_tag_async),
     (''@iif'', C_function C_function_iif), (''@byte'', C_function C_function_byte),
     (''@trim'', C_function C_function_trim), (''@len'', C_function C_function_length),
     (''@concat'', C_function C_function_concatenate), (''@pos'', C_function C_function_pos),
     (''@encode_base64'', C_function C_function_encode_base64),
     (''@decode_base64'', C_function C_function_decode_base64),
     (''@md5'', C_function C_function_md5), (''@sha256'', C_function C_function_sha256),
     (''@crypt'', C_function C_function_crypt), (''@uuid'', C_function C_function_uuid),
     (''@rnd'', C_function C_function_rnd), (''@upper'', C_function C_function_upper),
     (''@lower'', C_function C_function_lower), (''@encode_url'', C_function C_function_urlencode),
     (''@decode_url'', C_function C_function_urldecode), (''@date_utc'', C_function C_function_date_utc),
     (''@date_from'', C_function C_function_date_from), (''@date_fmt'', C_function C_function_date_fmt),
     (''@now'', C_function C_function_now), (''@env'', C_function C_function_env),
     (''@_'', C_function C_function_translate)]"

text \<open>A plugin is the function its \<open>create_object\<close> exports: a class, or \<open>NULL\<close>.\<close>

type_synonym plugin = "string \<Rightarrow> tag_class option"

record factory =
  builtins :: "(string \<times> (string \<times> tag_class) list) list"
  plugins :: "plugin list umap"

definition tag_factory :: factory where
  "tag_factory = \<lparr>builtins = [(dbpager_uri, builtin_table)], plugins = []\<rparr>"

definition register_plugin :: "string \<Rightarrow> plugin \<Rightarrow> factory \<Rightarrow> factory" where
  "register_plugin uri p f =
     f\<lparr>plugins := um_put uri ((case map_of (plugins f) uri of None \<Rightarrow> [] | Some ps \<Rightarrow> ps) @ [p]) (plugins f)\<rparr>"

fun first_object :: "plugin list \<Rightarrow> string \<Rightarrow> tag_class option" where
  "first_object [] obj = None"
| "first_object (p # ps) obj = (case p obj of Some k \<Rightarrow> Some k | None \<Rightarrow> first_object ps obj)"

definition unknown_tag :: "'d dcl \<Rightarrow> string \<Rightarrow> exn" where
  "unknown_tag d obj = Parser_exc 0 (fmt d ''unknown tag found ({0})'' [obj])"

text \<open>
  \<open>create\<close> ends with \<open>t->set_name (object)\<close>: when the namespace has neither built-in tags nor
  plugins, \<open>t\<close> is still \<open>NULL\<close> there.
\<close>

definition create_tag :: "'d dcl \<Rightarrow> factory \<Rightarrow> string \<Rightarrow> string \<Rightarrow> node outcome" where
  "create_tag d f uri obj =
     (case map_of (builtins f) uri of
        Some tab \<Rightarrow>
          (case map_of tab obj of
             Some k \<Rightarrow> Ok (new_node k obj)
           | None \<Rightarrow> Throw (unknown_tag d obj))
      | None \<Rightarrow>
          (case map_of (plugins f) uri of
             Some ps \<Rightarrow>
               (case first_object ps obj of
                  Some k \<Rightarrow> Ok (new_node k obj)
                | None \<Rightarrow> Throw (unknown_tag d obj))
           | None \<Rightarrow> Crash))"

section \<open>Properties\<close>

lemma builtin_table_distinct: "distinct (map fst builtin_table)"
  by (simp add: builtin_table_def)

text \<open>A tag that is created carries the requested name, no parameters, children or parent.\<close>

lemma create_tag_Ok:
  "create_tag d f uri obj = Ok n \<Longrightarrow> \<exists>k. n = new_node k obj"
  by (auto simp: create_tag_def split: option.splits)

lemma create_tag_crash_iff:
  "create_tag d f uri obj = Crash \<longleftrightarrow> map_of (builtins f) uri = None \<and> map_of (plugins f) uri = None"
  by (auto simp: create_tag_def split: option.splits)

lemma first_object_append:
  "first_object (ps @ qs) obj =
     (case first_object ps obj of Some k \<Rightarrow> Some k | None \<Rightarrow> first_object qs obj)"
  by (induction ps) (auto split: option.splits)

text \<open>Registering a plugin makes its objects available unless an earlier plugin already has them.\<close>

lemma create_after_register:
  assumes "map_of (builtins f) uri = None"
  shows "create_tag d (register_plugin uri p f) uri obj =
     (case create_tag d f uri obj of
        Ok n \<Rightarrow> Ok n
      | _ \<Rightarrow> (case p obj of Some k \<Rightarrow> Ok (new_node k obj) | None \<Rightarrow> Throw (unknown_tag d obj)))"
  using assms
  by (auto simp: create_tag_def register_plugin_def first_object_append split: option.splits)

end
