(* ===== verification/Evaluator.thy ===== *)
theory Evaluator
  imports Tag_Factory
begin

text \<open>
  The expression evaluator, \<open>tag/tag_expression.cpp\<close>: the scanner that replaces every
  \<open>{...}\<close> of a text by its value, the tokenizer and the recursive-descent calculator.

  The stream \<open>in\<close> and the token \<open>curr_tok\<close> are local variables of \<open>calc\<close>; they live in the field
  \<open>lx\<close> of the state, which \<open>calc\<close> saves and restores. Operands of the binary operators are
  evaluated left to right (the order the compiler the project is built with uses; C++ leaves it
  open). Recursion depth is bounded by a fuel argument.
\<close>

section \<open>The tokenizer\<close>

fun read_args :: "int \<Rightarrow> string \<Rightarrow> string \<Rightarrow> int \<times> string \<times> string" where
  "read_args braces value [] = (braces, value, [])"
| "read_args braces value (c # r) =
     (if braces \<le> 0 then (braces, value, r)
      else if c = CHR ''('' then
        (let b = braces + 1 - 1 in if b = 0 then read_args b value r else read_args b (value @ [c]) r)
      else if c = CHR '')'' then
        (let b = braces - 1 in if b = 0 then read_args b value r else read_args b (value @ [c]) r)
      else read_args braces (value @ [c]) r)"

definition number_char :: "char \<Rightarrow> bool" where
  "number_char c \<longleftrightarrow> is_digit c \<or> c = CHR ''.''"

definition name_char :: "char \<Rightarrow> bool" where
  "name_char c \<longleftrightarrow> is_alnum c \<or> c = CHR ''_'' \<or> c = CHR ''-''"

definition func_char :: "char \<Rightarrow> bool" where
  "func_char c \<longleftrightarrow> is_alnum c \<or> c = CHR ''_'' \<or> c = CHR ''@''"

definition blank :: "char \<Rightarrow> bool" where
  "blank c \<longleftrightarrow> c \<noteq> CHR 0x0A \<and> is_space c"

definition simple_token :: "char \<Rightarrow> token_type option" where
  "simple_token = map_of
     [(CHR ''*'', T_MUL), (CHR ''/'', T_DIV), (CHR ''%'', T_MOD), (CHR ''^'', T_PWR),
      (CHR ''+'', T_PLUS), (CHR ''-'', T_MINUS), (CHR ''('', T_LP), (CHR '')'', T_RP),
      (CHR ''='', T_EQ), (CHR ''&'', T_AND), (CHR ''|'', T_OR)]"

definition eval_error :: "'d dcl \<Rightarrow> string \<Rightarrow> string list \<Rightarrow> exn option" where
  "eval_error d msg args = Some (Dbp_exc Evaluator_exception (fmt d msg args))"

definition msg_no_params :: string where
  "msg_no_params =
     ''parameter(s) are not defined for function '{0}', expected '(', found '{1}'' @ [CHR 0x27]"

definition lex_quoted :: "'d dcl \<Rightarrow> char \<Rightarrow> string \<Rightarrow> lexer \<Rightarrow> exn option \<times> lexer" where
  "lex_quoted d q rest l =
     (let v = takeWhile (\<lambda>c. c \<noteq> q) rest in
      case dropWhile (\<lambda>c. c \<noteq> q) rest of
        [] \<Rightarrow> (eval_error d ''invalid expression: {0} expected'' [[last (q # rest)]],
              l\<lparr>input := [], tvalue := tvalue l @ v\<rparr>)
      | _ # r \<Rightarrow> (None, l\<lparr>input := r, tvalue := tvalue l @ v, tok := Some T_NUMBER\<rparr>))"

definition lex_func :: "'d dcl \<Rightarrow> string \<Rightarrow> lexer \<Rightarrow> exn option \<times> lexer" where
  "lex_func d s l =
     (let nm = tname l @ takeWhile func_char s in
      case dropWhile func_char s of
        [] \<Rightarrow> (eval_error d msg_no_params
                [nm, [last s]], l\<lparr>input := [], tname := nm\<rparr>)
      | c # r \<Rightarrow>
          if c \<noteq> CHR ''('' then
            (eval_error d msg_no_params
                [nm, [c]], l\<lparr>input := r, tname := nm\<rparr>)
          else
            (case read_args 1 (tvalue l) r of (b, v, r') \<Rightarrow>
               if b \<noteq> 0 then
                 (eval_error d ''invalid expression: \")\" expected'' [], l\<lparr>input := r', tname := nm, tvalue := v\<rparr>)
               else (None, l\<lparr>input := r', tname := nm, tvalue := v, tok := Some T_FUNC\<rparr>)))"

definition get_token :: "'d dcl \<Rightarrow> lexer \<Rightarrow> exn option \<times> lexer" where
  "get_token d l =
     (case dropWhile blank (input l) of
        [] \<Rightarrow> (None, l\<lparr>input := [], tok := Some T_END\<rparr>)
      | ch # rest \<Rightarrow>
         (case simple_token ch of
            Some t \<Rightarrow> (None, l\<lparr>input := rest, tok := Some t\<rparr>)
          | None \<Rightarrow>
             if ch = CHR ''<'' then
               (case rest of
                  [] \<Rightarrow> (None, l\<lparr>input := []\<rparr>)
                | c # r \<Rightarrow>
                    if c = CHR ''='' then (None, l\<lparr>input := r, tok := Some T_LTEQ\<rparr>)
                    else if c = CHR ''>'' then (None, l\<lparr>input := r, tok := Some T_NOTEQ\<rparr>)
                    else (None, l\<lparr>input := rest, tok := Some T_LT\<rparr>))
             else if ch = CHR ''>'' then
               (if rest \<noteq> [] \<and> hd rest = CHR ''='' then (None, l\<lparr>input := tl rest, tok := Some T_GTEQ\<rparr>)
                else (None, l\<lparr>input := rest, tok := Some T_GT\<rparr>))
             else if ch = CHR ''!'' then
               (if rest \<noteq> [] \<and> hd rest = CHR ''='' then (None, l\<lparr>input := tl rest, tok := Some T_NOTEQ\<rparr>)
                else (None, l\<lparr>input := rest, tok := Some T_NOT\<rparr>))
             else if number_char ch then
               (None, l\<lparr>input := dropWhile number_char (ch # rest),
                  tvalue := tvalue l @ takeWhile number_char (ch # rest), tok := Some T_NUMBER\<rparr>)
             else if ch = CHR ''$'' then
               (None, l\<lparr>input := dropWhile name_char rest,
                  tname := takeWhile name_char rest, tok := Some T_NAME\<rparr>)
             else if ch = CHR 0x27 \<or> ch = CHR 0x22 then lex_quoted d ch rest l
             else if is_alpha ch \<or> ch = CHR ''_'' \<or> ch = CHR ''@'' then lex_func d (ch # rest) l
             else (eval_error d (''unknown expression token '{0}'' @ [CHR 0x27]) [[ch]], l\<lparr>input := rest\<rparr>)))"

definition tokM :: "'d world \<Rightarrow> unit prog" where
  "tokM w s =
     (case get_token (dclib w) (lx s) of
        (None, l) \<Rightarrow> (Ok (), [], s\<lparr>lx := l\<rparr>)
      | (Some e, l) \<Rightarrow> (Throw e, [], s\<lparr>lx := l\<rparr>))"

definition tok_type :: "token_type prog" where
  "tok_type s = (case tok (lx s) of None \<Rightarrow> (Crash, [], s) | Some t \<Rightarrow> (Ok t, [], s))"

section \<open>Function calls\<close>

text \<open>
  \<open>execute_function\<close> makes a temporary tag below the expression, with one temporary expression per
  argument, runs it and deletes it. \<open>install_call\<close> is the part before \<open>rslt->execute\<close>.
\<close>

definition call_param :: "nat \<Rightarrow> int \<Rightarrow> string \<Rightarrow> node" where
  "call_param t depth arg =
     set_text (''{'' @ arg @ ''}'') ((new_node C_tag_expression [])\<lparr>nparent := Some t, ndepth := depth\<rparr>)"

definition call_params :: "'d dcl \<Rightarrow> nat \<Rightarrow> nat \<Rightarrow> nat umap" where
  "call_params d t k =
     map (\<lambda>i. (''arg'' @ of_int_str d (int i + 1), Suc (t + i))) [0..<k]"

definition install_call :: "'d dcl \<Rightarrow> nat \<Rightarrow> node \<Rightarrow> string list \<Rightarrow> state \<Rightarrow> state option" where
  "install_call d self n args s =
     (case heap s self of
        None \<Rightarrow> None
      | Some me \<Rightarrow>
         (let t = next_tag s;
              depth = ndepth me + 1;
              ps = fold (\<lambda>(nm, p). um_insert nm p) (call_params d t (length args)) [];
              h1 = (heap s)(t \<mapsto> n\<lparr>nparent := Some self, ndepth := depth, nparams := ps\<rparr>);
              h2 = fold (\<lambda>(i, a) h. h(Suc (t + i) \<mapsto> call_param t (depth + 1) a))
                     (zip [0..<length args] args) h1
          in Some (s\<lparr>heap := h2, next_tag := Suc (t + length args)\<rparr>)))"

definition delete_call :: "nat \<Rightarrow> nat \<Rightarrow> unit prog" where
  "delete_call t k = modM (\<lambda>s. s\<lparr>heap := (\<lambda>a. if t \<le> a \<and> a \<le> t + k then None else heap s a)\<rparr>)"

definition run_call :: "'d dcl \<Rightarrow> exec_fn \<Rightarrow> nat \<Rightarrow> node \<Rightarrow> string list \<Rightarrow> string prog" where
  "run_call d ex self n args s =
     (case install_call d self n args s of
        None \<Rightarrow> (Crash, [], s)
      | Some s1 \<Rightarrow>
          finallyM (capture (ex (next_tag s) None)) (delete_call (next_tag s) (length args)) s1)"

definition execute_function :: "'d world \<Rightarrow> exec_fn \<Rightarrow> nat \<Rightarrow> string \<Rightarrow> string \<Rightarrow> string prog" where
  "execute_function w ex self name params =
     (if name \<noteq> [] \<and> hd name \<noteq> CHR ''@'' then
        (case create_tag (dclib w) tag_factory dbpager_uri (''@'' @ name) of
           Ok n \<Rightarrow> run_call (dclib w) ex self n (tokenize (dclib w) params)
         | r \<Rightarrow> liftO (map_outcome_state (\<lambda>_. []) r))
      else if name = [] then throwM (Std_exc ''basic_string::substr'')
      else run_call (dclib w) ex self (new_node C_tag_usr (tl name)) (tokenize (dclib w) params))"

section \<open>The calculator\<close>

definition to_doubleM :: "'d world \<Rightarrow> string \<Rightarrow> 'd prog" where
  "to_doubleM w t = (case to_double (dclib w) t of None \<Rightarrow> throwM type_error | Some x \<Rightarrow> ret x)"

fun str_cmp :: "cmp_op \<Rightarrow> string \<Rightarrow> string \<Rightarrow> bool" where
  "str_cmp Lt_op a b = str_less a b"
| "str_cmp Gt_op a b = str_less b a"
| "str_cmp Eq_op a b = (a = b)"
| "str_cmp Le_op a b = (\<not> str_less b a)"
| "str_cmp Ge_op a b = (\<not> str_less a b)"
| "str_cmp Ne_op a b = (a \<noteq> b)"

fun cmp_token :: "token_type \<Rightarrow> cmp_op option" where
  "cmp_token T_LT = Some Lt_op"
| "cmp_token T_GT = Some Gt_op"
| "cmp_token T_EQ = Some Eq_op"
| "cmp_token T_LTEQ = Some Le_op"
| "cmp_token T_GTEQ = Some Ge_op"
| "cmp_token T_NOTEQ = Some Ne_op"
| "cmp_token _ = None"

fun add_token :: "token_type \<Rightarrow> arith_op option" where
  "add_token T_PLUS = Some Add_op"
| "add_token T_MINUS = Some Sub_op"
| "add_token _ = None"

fun mul_token :: "token_type \<Rightarrow> arith_op option" where
  "mul_token T_MUL = Some Mul_op"
| "mul_token T_DIV = Some Div_op"
| "mul_token T_MOD = Some Fmod_op"
| "mul_token T_PWR = Some Pow_op"
| "mul_token _ = None"

definition truth :: "bool \<Rightarrow> string" where
  "truth b = (if b then ''1'' else ''0'')"

text \<open>\<open>catch (type_conversion_exception &e)\<close> around the arithmetic loops.\<close>

definition number_errors :: "'d world \<Rightarrow> 'a prog \<Rightarrow> 'a prog" where
  "number_errors w m = tryM m (\<lambda>e. case e of
       Dbp_exc Type_conversion_exception _ \<Rightarrow>
         throw_fmt w Evaluator_exception ''can't convert the string to a number'' []
     | _ \<Rightarrow> throwM e)"

definition arith_step :: "'d world \<Rightarrow> arith_op \<Rightarrow> string \<Rightarrow> string prog \<Rightarrow> string prog" where
  "arith_step w f left operand =
     seqM (tokM w)
      (bindM (to_doubleM w left) (\<lambda>a.
       bindM operand (\<lambda>right.
       bindM (to_doubleM w right) (\<lambda>b.
         ret (of_double (dclib w) (arith (dclib w) f a b))))))"

definition compare_step :: "'d world \<Rightarrow> cmp_op \<Rightarrow> string \<Rightarrow> string prog \<Rightarrow> string prog" where
  "compare_step w f left operand =
     seqM (tokM w)
      (tryM
        (bindM (to_doubleM w left) (\<lambda>a.
         bindM operand (\<lambda>right.
         bindM (to_doubleM w right) (\<lambda>b.
           ret (truth (cmp (dclib w) f a b))))))
        (\<lambda>_. bindM operand (\<lambda>right. ret (truth (str_cmp f left right)))))"

fun lexpr :: "'d world \<Rightarrow> exec_fn \<Rightarrow> nat \<Rightarrow> nat \<Rightarrow> string prog"
and expr :: "'d world \<Rightarrow> exec_fn \<Rightarrow> nat \<Rightarrow> nat \<Rightarrow> string prog"
and expr_loop :: "'d world \<Rightarrow> exec_fn \<Rightarrow> nat \<Rightarrow> nat \<Rightarrow> string \<Rightarrow> string prog"
and term_expr :: "'d world \<Rightarrow> exec_fn \<Rightarrow> nat \<Rightarrow> nat \<Rightarrow> string prog"
and term_loop :: "'d world \<Rightarrow> exec_fn \<Rightarrow> nat \<Rightarrow> nat \<Rightarrow> string \<Rightarrow> string prog"
and prim :: "'d world \<Rightarrow> exec_fn \<Rightarrow> nat \<Rightarrow> nat \<Rightarrow> string prog"
where
  "lexpr w ex self 0 = divergeM"
| "lexpr w ex self (Suc n) =
     bindM (expr w ex self n) (\<lambda>left.
     bindM tok_type (\<lambda>t.
       case cmp_token t of
         Some f \<Rightarrow> compare_step w f left (expr w ex self n)
       | None \<Rightarrow>
          if t = T_AND then
            seqM (tokM w)
             (if left = ''1'' then bindM (expr w ex self n) (\<lambda>r. ret (truth (r = ''1'')))
              else ret ''0'')
          else if t = T_OR then
            seqM (tokM w)
             (if left = ''1'' then ret ''1''
              else bindM (expr w ex self n) (\<lambda>r. ret (truth (r = ''1''))))
          else ret left))"
| "expr w ex self 0 = divergeM"
| "expr w ex self (Suc n) =
     bindM (term_expr w ex self n) (\<lambda>left. number_errors w (expr_loop w ex self n left))"
| "expr_loop w ex self 0 left = divergeM"
| "expr_loop w ex self (Suc n) left =
     bindM tok_type (\<lambda>t.
       case add_token t of
         Some f \<Rightarrow> bindM (arith_step w f left (term_expr w ex self n)) (\<lambda>r. expr_loop w ex self n r)
       | None \<Rightarrow> ret left)"
| "term_expr w ex self 0 = divergeM"
| "term_expr w ex self (Suc n) =
     bindM (prim w ex self n) (\<lambda>left. number_errors w (term_loop w ex self n left))"
| "term_loop w ex self 0 left = divergeM"
| "term_loop w ex self (Suc n) left =
     bindM tok_type (\<lambda>t.
       case mul_token t of
         Some f \<Rightarrow> bindM (arith_step w f left (prim w ex self n)) (\<lambda>r. term_loop w ex self n r)
       | None \<Rightarrow> ret left)"
| "prim w ex self 0 = divergeM"
| "prim w ex self (Suc n) =
     bindM tok_type (\<lambda>t.
       case t of
         T_FUNC \<Rightarrow>
           seqM (tokM w)
            (bindM (getM lx) (\<lambda>l.
             bindM (execute_function w ex self (tname l) (tvalue l)) (\<lambda>r.
             seqM (modM (\<lambda>s. s\<lparr>lx := (lx s)\<lparr>tvalue := []\<rparr>\<rparr>)) (ret r))))
       | T_NUMBER \<Rightarrow>
           seqM (tokM w)
            (bindM (getM lx) (\<lambda>l.
             seqM (modM (\<lambda>s. s\<lparr>lx := (lx s)\<lparr>tvalue := []\<rparr>\<rparr>)) (ret (tvalue l))))
       | T_NAME \<Rightarrow>
           seqM (tokM w)
            (bindM (getM lx) (\<lambda>l.
             seqM (modM (\<lambda>s. s\<lparr>lx := (lx s)\<lparr>tname := []\<rparr>\<rparr>)) (valueM (tname l))))
       | T_MINUS \<Rightarrow>
           seqM (tokM w)
            (number_errors w
              (bindM (prim w ex self n) (\<lambda>v.
               bindM (to_doubleM w v) (\<lambda>x.
                 ret (of_double (dclib w) (arith (dclib w) Mul_op (minus_one (dclib w)) x))))))
       | T_NOT \<Rightarrow>
           seqM (tokM w) (bindM (prim w ex self n) (\<lambda>v. ret (truth (v \<noteq> ''1''))))
       | T_LP \<Rightarrow>
           seqM (tokM w)
            (bindM (lexpr w ex self n) (\<lambda>e.
             bindM tok_type (\<lambda>t'.
               if t' \<noteq> T_RP then
                 throw_fmt w Evaluator_exception ''invalid expression: \")\" expected'' []
               else seqM (tokM w) (ret e))))
       | T_END \<Rightarrow> ret ''1''
       | _ \<Rightarrow> throw_fmt w Evaluator_exception ''invalid expression: primary expected'' [])"

definition fresh_lexer :: "string \<Rightarrow> lexer" where
  "fresh_lexer e = \<lparr>input = e, tok = None, tname = [], tvalue = []\<rparr>"

definition calc :: "'d world \<Rightarrow> exec_fn \<Rightarrow> nat \<Rightarrow> nat \<Rightarrow> string \<Rightarrow> string prog" where
  "calc w ex self n e =
     bindM (getM lx) (\<lambda>saved.
     seqM (modM (\<lambda>s. s\<lparr>lx := fresh_lexer e\<rparr>))
      (finallyM
        (seqM (tokM w) (bindM tok_type (\<lambda>t. if t = T_END then ret [] else lexpr w ex self n)))
        (modM (\<lambda>s. s\<lparr>lx := saved\<rparr>))))"

section \<open>Brace substitution\<close>

fun eval_scan :: "'d world \<Rightarrow> (string \<Rightarrow> string prog) \<Rightarrow> char \<Rightarrow> int \<Rightarrow> string \<Rightarrow> string \<Rightarrow> unit prog" where
  "eval_scan w ce prev br cur [] =
     (if br \<noteq> 0 then throw_fmt w Evaluator_exception ''unbalanced expression braces found'' [] else ret ())"
| "eval_scan w ce prev br cur (c # s) =
     (if prev = CHR 0x5C then seqM (outM [c]) (eval_scan w ce c br cur s)
      else if c = CHR 0x5C then eval_scan w ce c br cur s
      else if c = CHR 0x7B then
        eval_scan w ce c (br + 1) (if br + 1 > 1 then cur @ [c] else cur) s
      else if c = CHR 0x7D then
        (if br - 1 = 0 then bindM (ce cur) (\<lambda>v. seqM (outM v) (eval_scan w ce c (br - 1) [] s))
         else eval_scan w ce c (br - 1) (cur @ [c]) s)
      else if br > 0 then eval_scan w ce c br (cur @ [c]) s
      else seqM (outM [c]) (eval_scan w ce c br cur s))"

fun eval :: "'d world \<Rightarrow> exec_fn \<Rightarrow> nat \<Rightarrow> nat \<Rightarrow> string \<Rightarrow> string prog" where
  "eval w ex self 0 e = divergeM"
| "eval w ex self (Suc n) e =
     capture (eval_scan w (\<lambda>x. bindM (eval w ex self n x) (calc w ex self n)) (CHR 0x00) 0 [] e)"

definition tag_expression_execute :: "'d world \<Rightarrow> exec_fn \<Rightarrow> nat \<Rightarrow> nat \<Rightarrow> unit prog" where
  "tag_expression_execute w ex n self =
     bindM (derefM self) (\<lambda>me. bindM (eval w ex self n (ntext me)) outM)"

end
