(* ===== verification/Core_Tags.thy ===== *)
theory Core_Tags
  imports Evaluator
begin

text \<open>
  The tag classes of the language core: \<open>libdbpager/tag_impl.cpp\<close>, \<open>tag_tag.cpp\<close>, \<open>tag_usr.cpp\<close>
  and, under \<open>dbpager/tag\<close>, variables, conditionals, loops, exceptions, string tags, calls and
  \<open>async\<close>. Every definition takes the virtual method \<open>execute\<close> as the argument \<open>ex\<close>
  and the address of \<open>this\<close> as \<open>self\<close>; \<open>n\<close> is the fuel left for loops.
\<close>

section \<open>The base class\<close>

definition impl_execute :: "exec_fn \<Rightarrow> nat \<Rightarrow> nat option \<Rightarrow> unit prog" where
  "impl_execute ex self caller =
     bindM (derefM self) (\<lambda>me. seqM (forM (nchilds me) (\<lambda>c. ex c caller)) (outM (ntext me)))"

definition get_parameter :: "exec_fn \<Rightarrow> nat \<Rightarrow> string \<Rightarrow> string prog" where
  "get_parameter ex self name =
     bindM (derefM self) (\<lambda>me.
       case map_of (nparams me) name of
         None \<Rightarrow> ret []
       | Some p \<Rightarrow> capture (ex p (Some self)))"

definition get_childM :: "nat \<Rightarrow> string \<Rightarrow> nat option prog" where
  "get_childM t name = bindM (getM heap) (\<lambda>h. liftO (get_child h t name))"

section \<open>Custom tags\<close>

definition is_usr :: "tag_class \<Rightarrow> bool" where
  "is_usr k \<longleftrightarrow> k = C_tag_usr \<or> k = C_tag_call"

definition tag_tag_execute :: "exec_fn \<Rightarrow> nat \<Rightarrow> nat option \<Rightarrow> unit prog" where
  "tag_tag_execute ex self caller =
     (case caller of
        None \<Rightarrow> ret ()
      | Some c \<Rightarrow>
          bindM (derefM c) (\<lambda>cn. if is_usr (cls cn) then impl_execute ex self caller else ret ()))"

definition bind_params :: "'d world \<Rightarrow> exec_fn \<Rightarrow> nat \<Rightarrow> (string \<times> nat) list \<Rightarrow> unit prog" where
  "bind_params w ex self ps =
     forM ps (\<lambda>(k, p). bindM (capture (ex p (Some self))) (\<lambda>v. addM w k v []))"

definition scopeM :: "nat \<Rightarrow> nat option \<Rightarrow> string \<Rightarrow> nat option prog" where
  "scopeM n p name s = (find_scope n (heap s) p name, [], s)"

definition no_custom_tag :: "'d world \<Rightarrow> string \<Rightarrow> 'a prog" where
  "no_custom_tag w name =
     throw_fmt w Tag_exception ''custom tag '{0}' is not defined at this scope'' [name]"

definition tag_usr_execute :: "'d world \<Rightarrow> exec_fn \<Rightarrow> nat \<Rightarrow> nat \<Rightarrow> unit prog" where
  "tag_usr_execute w ex n self =
     scoped
      (bindM (derefM self) (\<lambda>me.
       seqM (bind_params w ex self (um_iter (um_order (dclib w)) (nparams me)))
        (bindM (case user_tag me of
                  Some t \<Rightarrow> ret (Some t)
                | None \<Rightarrow> scopeM n (nparent me) (''@'' @ nname me)) (\<lambda>t.
           case t of
             None \<Rightarrow> no_custom_tag w (nname me)
           | Some t \<Rightarrow> calling self (ex t (Some self))))))"

definition execute_direct :: "exec_fn \<Rightarrow> nat \<Rightarrow> nat option \<Rightarrow> unit prog" where
  "execute_direct ex self caller = seqM (impl_execute ex self caller) (pushM self)"

definition tag_call_execute :: "'d world \<Rightarrow> exec_fn \<Rightarrow> nat \<Rightarrow> nat \<Rightarrow> unit prog" where
  "tag_call_execute w ex n self =
     bindM (get_parameter ex self ''name'') (\<lambda>name.
       scoped
        (bindM (derefM self) (\<lambda>me.
         seqM (bind_params w ex self
                (filter (\<lambda>(k, p). k \<noteq> ''name'') (um_iter (um_order (dclib w)) (nparams me))))
          (bindM (scopeM n (nparent me) (''@'' @ name)) (\<lambda>t.
             case t of
               None \<Rightarrow> no_custom_tag w name
             | Some t \<Rightarrow> calling self (ex t (Some self)))))))"

definition tag_execute_execute :: "exec_fn \<Rightarrow> nat \<Rightarrow> unit prog" where
  "tag_execute_execute ex self =
     bindM popM (\<lambda>c.
       case c of
         None \<Rightarrow> ret ()
       | Some c \<Rightarrow>
           bindM (get_parameter ex self ''name'') (\<lambda>name.
             if name \<noteq> [] then
               bindM (get_childM c (''@'' @ name)) (\<lambda>t.
               seqM (case t of None \<Rightarrow> ret () | Some t \<Rightarrow> ex t (Some c)) (pushM c))
             else execute_direct ex c (Some self)))"

section \<open>Variables\<close>

definition tag_var_execute :: "'d world \<Rightarrow> exec_fn \<Rightarrow> nat \<Rightarrow> nat option \<Rightarrow> unit prog" where
  "tag_var_execute w ex self caller =
     scoped
      (bindM (get_parameter ex self ''name'') (\<lambda>names.
       seqM
        (forM (tokenize (dclib w) names) (\<lambda>v.
           bindM (get_parameter ex self ''type'') (\<lambda>p_type.
           bindM (get_parameter ex self ''value'') (\<lambda>value.
             addM w v value (if p_type = [] then ''local'' else p_type)))))
        (impl_execute ex self caller)))"

definition tag_set_execute :: "'d world \<Rightarrow> exec_fn \<Rightarrow> nat \<Rightarrow> nat option \<Rightarrow> unit prog" where
  "tag_set_execute w ex self caller =
     bindM (capture (impl_execute ex self caller)) (\<lambda>s.
     bindM (get_parameter ex self ''name'') (\<lambda>names.
       forM (tokenize (dclib w) names) (\<lambda>v. setM w v s)))"

section \<open>Control flow\<close>

fun while_loop :: "nat \<Rightarrow> string prog \<Rightarrow> unit prog \<Rightarrow> unit prog" where
  "while_loop 0 test body = divergeM"
| "while_loop (Suc n) test body =
     bindM test (\<lambda>v. if v = ''1'' then seqM body (while_loop n test body) else ret ())"

definition tag_while_execute :: "exec_fn \<Rightarrow> nat \<Rightarrow> nat \<Rightarrow> nat option \<Rightarrow> unit prog" where
  "tag_while_execute ex n self caller =
     while_loop n (get_parameter ex self ''test'') (impl_execute ex self caller)"

definition tag_switch_execute :: "'d world \<Rightarrow> exec_fn \<Rightarrow> nat \<Rightarrow> nat option \<Rightarrow> unit prog" where
  "tag_switch_execute w ex self caller =
     scoped
      (tryM
        (bindM (get_parameter ex self ''test'') (\<lambda>v.
         seqM (addM w ''@DBP:SWITCH@'' v []) (impl_execute ex self caller)))
        (\<lambda>e. if e = Case_exc then ret () else throwM e))"

definition tag_case_execute :: "exec_fn \<Rightarrow> nat \<Rightarrow> nat option \<Rightarrow> unit prog" where
  "tag_case_execute ex self caller =
     bindM (get_parameter ex self ''match'') (\<lambda>p.
     bindM (valueM ''@DBP:SWITCH@'') (\<lambda>v.
       if p = [] \<or> v = p then seqM (impl_execute ex self caller) (throwM Case_exc)
       else ret ()))"

definition process_exception :: "'d world \<Rightarrow> exec_fn \<Rightarrow> nat \<Rightarrow> exn \<Rightarrow> nat option \<Rightarrow> unit prog" where
  "process_exception w ex self e caller =
     scoped
      (seqM
        (case e of
           App_exc _ c \<Rightarrow> addM w ''error_code'' (of_int_str (dclib w) c) []
         | _ \<Rightarrow> ret ())
        (seqM (addM w ''error_message'' (what e) []) (impl_execute ex self caller)))"

definition tag_try_execute :: "'d world \<Rightarrow> exec_fn \<Rightarrow> nat \<Rightarrow> nat option \<Rightarrow> unit prog" where
  "tag_try_execute w ex self caller =
     tryM
      (bindM (capture (impl_execute ex self caller)) outM)
      (\<lambda>e.
         bindM (get_childM self ''catch'') (\<lambda>c.
           case c of
             None \<Rightarrow> throwM e
           | Some c \<Rightarrow>
               bindM (derefM c) (\<lambda>cn.
                 if cls cn = C_tag_catch then process_exception w ex c e caller else crashM)))"

definition tag_catch_execute :: "unit prog" where
  "tag_catch_execute = ret ()"

definition tag_throw_execute :: "'d world \<Rightarrow> exec_fn \<Rightarrow> nat \<Rightarrow> nat option \<Rightarrow> unit prog" where
  "tag_throw_execute w ex self caller =
     bindM (get_parameter ex self ''message'') (\<lambda>m0.
     bindM (if m0 = [] then capture (impl_execute ex self caller) else ret m0) (\<lambda>message.
     bindM (get_parameter ex self ''code'') (\<lambda>c.
       if c \<noteq> [] then bindM (to_intM w c) (\<lambda>i. throwM (App_exc message i))
       else throwM (Dbp_exc Plain_exception message))))"

section \<open>Strings\<close>

fun replace_loop :: "nat \<Rightarrow> string \<Rightarrow> string \<Rightarrow> string \<Rightarrow> nat \<Rightarrow> string outcome" where
  "replace_loop 0 source pat repl i = Diverge"
| "replace_loop (Suc n) source pat repl i =
     (case str_find source pat i of
        None \<Rightarrow> Ok source
      | Some j \<Rightarrow>
          replace_loop n (take j source @ repl @ drop (j + length pat) source) pat repl
            (j + length repl))"

definition replace_with :: "nat \<Rightarrow> string \<Rightarrow> string \<Rightarrow> string \<Rightarrow> string outcome" where
  "replace_with n source pat repl = replace_loop n source pat repl 0"

definition tag_substr_execute :: "'d world \<Rightarrow> exec_fn \<Rightarrow> nat \<Rightarrow> nat \<Rightarrow> nat option \<Rightarrow> unit prog" where
  "tag_substr_execute w ex n self caller =
     scoped
      (bindM (get_parameter ex self ''value'') (\<lambda>str.
       bindM (get_parameter ex self ''what'') (\<lambda>wh.
       bindM (get_parameter ex self ''with'') (\<lambda>wi.
       bindM (liftO (replace_with n str wh wi)) (\<lambda>r.
       bindM (get_parameter ex self ''name'') (\<lambda>name.
         seqM (addM w name r []) (impl_execute ex self caller)))))))"

text \<open>
  The splitting loop of \<open>tag_split\<close>. The separator is never empty there, so the position grows;
  on an empty separator, where the loop of the source would not end, the model does not recurse.
\<close>

function split_pieces :: "string \<Rightarrow> string \<Rightarrow> nat \<Rightarrow> string list" where
  "split_pieces source sep old_pos =
     (if sep = [] then [drop old_pos source]
      else case str_find source sep old_pos of
        None \<Rightarrow> [drop old_pos source]
      | Some pos \<Rightarrow> take (pos - old_pos) (drop old_pos source) # split_pieces source sep (pos + length sep))"
  by pat_completeness auto
termination
proof (relation "measure (\<lambda>(source, sep, old_pos). Suc (length source) - old_pos)", goal_cases)
  case (2 source sep old_pos pos)
  then have "0 < length sep" by simp
  with str_find_bound [OF 2(2)] show ?case unfolding in_measure prod.case by linarith
qed simp

declare split_pieces.simps [simp del]

definition split_each :: "'d world \<Rightarrow> unit prog \<Rightarrow> string \<Rightarrow> string list \<Rightarrow> unit prog" where
  "split_each w body x str = forM str (\<lambda>v. seqM (setM w x v) body)"

definition split_many :: "'d world \<Rightarrow> unit prog \<Rightarrow> string \<Rightarrow> string list \<Rightarrow> string list \<Rightarrow> unit prog" where
  "split_many w body sep names str =
     seqM (forM (zip names str) (\<lambda>(i, j). addM w i j []))
      (seqM
        (if length names < length str then
           bindM (valueM (last names)) (\<lambda>v.
             setM w (last names) (v @ concat (map (\<lambda>j. sep @ j) (drop (length names) str))))
         else ret ())
        body)"

definition tag_split_execute :: "'d world \<Rightarrow> exec_fn \<Rightarrow> nat \<Rightarrow> nat option \<Rightarrow> unit prog" where
  "tag_split_execute w ex self caller =
     seqM enterM
      (bindM (get_parameter ex self ''separator'') (\<lambda>sep0.
       let sep = (if sep0 = [] then '','' else sep0) in
       bindM (get_parameter ex self ''value'') (\<lambda>source.
       let str = map (trim (dclib w)) (split_pieces source sep 0) in
       finallyM
        (bindM (get_parameter ex self ''name'') (\<lambda>names.
           case tokenize_by (dclib w) names '','' of
             [] \<Rightarrow> throw_fmt w Tag_exception ''parameter 'name' is undefined'' []
           | [x] \<Rightarrow>
               seqM (addM w x [] [])
                (bindM (get_parameter ex self ''order'') (\<lambda>order0.
                 let order = (if order0 = [] then ''asc'' else order0) in
                 if order = ''asc'' then split_each w (impl_execute ex self caller) x str
                 else if order = ''desc'' then split_each w (impl_execute ex self caller) x (rev str)
                 else throw_fmt w Tag_exception
                   ''invalid 'order' parameter value. expected (asc,desc). found: {0}'' [order]))
           | x # y # xs \<Rightarrow> split_many w (impl_execute ex self caller) sep (x # y # xs) str))
        leaveM)))"

section \<open>Concurrent children\<close>

text \<open>
  \<open>tag_async\<close> runs every child in a thread of its own with a new local context on top of the
  shared chain and drops what a failing child threw. The model runs the children one after the
  other, one of the schedules of the threads.
\<close>

definition async_child :: "exec_fn \<Rightarrow> nat option \<Rightarrow> nat \<Rightarrow> string prog" where
  "async_child ex caller c s =
     (case ex c caller (s\<lparr>ctxs := new_context ''local'' (ctxs s)\<rparr>) of
        (r, t, s1) \<Rightarrow>
          let s2 = s1\<lparr>ctxs := tl (ctxs s1)\<rparr> in
          (case r of
             Ok _ \<Rightarrow> (Ok t, [], s2)
           | Throw e \<Rightarrow> (Ok [], [], s2)
           | Crash \<Rightarrow> (Crash, [], s2)
           | Diverge \<Rightarrow> (Diverge, [], s2)))"

definition tag_async_execute :: "exec_fn \<Rightarrow> nat \<Rightarrow> nat option \<Rightarrow> unit prog" where
  "tag_async_execute ex self caller =
     bindM (derefM self) (\<lambda>me.
     bindM (mapM (nchilds me) (async_child ex caller)) (\<lambda>ts. outM (concat ts)))"

end
