(* ===== verification/Strings.thy ===== *)
theory Strings
  imports Core_Tags
begin

section \<open>Replacement\<close>

text \<open>The reference: left to right, non-overlapping, never looking again at what was inserted.\<close>

function replace_all :: "string \<Rightarrow> string \<Rightarrow> string \<Rightarrow> string" where
  "replace_all pat repl s =
     (if s = [] \<or> pat = [] then s
      else if take (length pat) s = pat then repl @ replace_all pat repl (drop (length pat) s)
      else hd s # replace_all pat repl (tl s))"
  by pat_completeness auto
termination
  by (relation "measure (\<lambda>(pat, repl, s). length s)") auto

declare replace_all.simps [simp del]

lemma replace_all_find:
  assumes "pat \<noteq> []"
  shows "replace_all pat repl s = (case find_sub pat s of
      None \<Rightarrow> s
    | Some j \<Rightarrow> take j s @ repl @ replace_all pat repl (drop (j + length pat) s))"
proof (induction s)
  case Nil
  with assms show ?case by (simp add: replace_all.simps)
next
  case (Cons c s)
  show ?case
  proof (cases "take (length pat) (c # s) = pat")
    case True
    with assms show ?thesis by (subst replace_all.simps) simp
  next
    case False
    with assms Cons show ?thesis by (subst replace_all.simps) (auto split: option.splits)
  qed
qed

lemma replace_loop_all:
  assumes "pat \<noteq> []" and "i \<le> length s" and "length s - i < n"
  shows "replace_loop n s pat repl i = Ok (take i s @ replace_all pat repl (drop i s))"
  using assms(2,3)
proof (induction n arbitrary: s i)
  case (Suc n)
  show ?case
  proof (cases "find_sub pat (drop i s)")
    case None
    with Suc.prems replace_all_find [OF assms(1), of repl "drop i s"] show ?thesis
      by (simp add: str_find_def)
  next
    case (Some k)
    let ?s = "take (i + k) s @ repl @ drop (i + k + length pat) s"
    have b: "k + length pat \<le> length s - i" "0 < length pat"
      using find_sub_bound [OF Some] assms(1) by auto
    with Suc.prems have len: "length (take (i + k) s) = i + k" by simp
    have IH: "replace_loop n ?s pat repl (i + k + length repl) =
        Ok (take (i + k + length repl) ?s @ replace_all pat repl (drop (i + k + length repl) ?s))"
    proof (rule Suc.IH)
      show "i + k + length repl \<le> length ?s" using len by simp
      have "length ?s - (i + k + length repl) = length s - (i + k + length pat)" using len by simp
      with b Suc.prems show "length ?s - (i + k + length repl) < n" by linarith
    qed
    have "take (i + k + length repl) ?s = take i s @ take k (drop i s) @ repl"
      and "drop (i + k + length repl) ?s = drop (k + length pat) (drop i s)"
      using len Suc.prems b by (simp_all add: take_add add.commute add.left_commute)
    with IH Some Suc.prems replace_all_find [OF assms(1), of repl "drop i s"] show ?thesis
      by (simp add: str_find_def)
  qed
qed simp

lemma replace_loop_empty_pattern:
  "i \<le> length s \<Longrightarrow> replace_loop n s [] repl i = Diverge"
  by (induction n arbitrary: s i) (auto simp: str_find_def)

section \<open>Splitting\<close>

fun join :: "string \<Rightarrow> string list \<Rightarrow> string" where
  "join sep [] = []"
| "join sep [x] = x"
| "join sep (x # xs) = x @ sep @ join sep xs"

lemma split_pieces_not_Nil [simp]: "split_pieces source sep i \<noteq> []"
  by (subst split_pieces.simps) (auto split: option.splits)

lemma join_Cons: "xs \<noteq> [] \<Longrightarrow> join sep (x # xs) = x @ sep @ join sep xs"
  by (cases xs) auto

lemma split_pieces_join:
  "i \<le> length source \<Longrightarrow> join sep (split_pieces source sep i) = drop i source"
proof (induction source sep i rule: split_pieces.induct)
  case (1 source sep i)
  show ?case
  proof (cases "sep = [] \<or> str_find source sep i = None")
    case True
    then show ?thesis by (subst split_pieces.simps) auto
  next
    case False
    then obtain pos where pos: "sep \<noteq> []" "str_find source sep i = Some pos" by auto
    from str_find_bound [OF pos(2)] have b: "i \<le> pos" "pos + length sep \<le> length source" by auto
    from pos(2) "1.prems" obtain k where k: "find_sub sep (drop i source) = Some k" "pos = i + k"
      by (auto simp: str_find_def)
    then have "take (length sep) (drop pos source) = sep"
      using find_sub_Some [OF k(1)] by (simp add: occurs_at_def add.commute)
    then have "drop pos source = sep @ drop (pos + length sep) source"
      by (metis append_take_drop_id drop_drop add.commute)
    moreover have "drop i source = take (pos - i) (drop i source) @ drop pos source"
      using b by (metis append_take_drop_id drop_drop le_add_diff_inverse2)
    ultimately show ?thesis
      using "1.IH" [OF pos(1) pos(2)] b pos
      by (subst split_pieces.simps) (simp add: join_Cons)
  qed
qed

lemma split_pieces_no_sep:
  assumes "sep \<noteq> []" and "x \<in> set (split_pieces source sep i)"
  shows "find_sub sep x = None"
  using assms
proof (induction source sep i rule: split_pieces.induct)
  case (1 source sep i)
  show ?case
  proof (cases "str_find source sep i")
    case None
    then have "x = drop i source" using "1.prems" by (subst (asm) split_pieces.simps) auto
    with None "1.prems"(1) show ?thesis by (cases sep) (auto simp: str_find_def split: if_splits)
  next
    case (Some pos)
    then obtain k where k: "find_sub sep (drop i source) = Some k" "pos = i + k"
      by (auto simp: str_find_def split: if_splits)
    show ?thesis
    proof (cases "x \<in> set (split_pieces source sep (pos + length sep))")
      case True
      with "1.IH" [OF "1.prems"(1) Some "1.prems"(1)] show ?thesis by blast
    next
      case False
      have "split_pieces source sep i =
          take (pos - i) (drop i source) # split_pieces source sep (pos + length sep)"
        using "1.prems"(1) Some by (subst split_pieces.simps) simp
      with "1.prems"(2) False k(2) have x: "x = take k (drop i source)" by simp
      show ?thesis
      proof (cases "find_sub sep x")
        case (Some j)
        from find_sub_Some [OF this] have j: "j + length sep \<le> length x" "take (length sep) (drop j x) = sep"
          by (auto simp: occurs_at_def)
        have "take (length sep) (drop j (drop i source)) = sep"
          using j unfolding x by (simp add: drop_take min_def split: if_splits)
        moreover have "j < k" using j "1.prems"(1) x by (cases sep) auto
        moreover have "j + length sep \<le> length (drop i source)" using j(1) x by simp
        ultimately have "occurs_at sep (drop i source) j" "j < k" by (auto simp: occurs_at_def)
        with find_sub_Some [OF k(1)] show ?thesis by blast
      qed
    qed
  qed
qed

end
