(* ===== verification/Functions.thy ===== *)
theory Functions
  imports Core_Tags
begin

text \<open>
  The built-in expression functions, \<open>tag/functions.cpp\<close>. A function is a tag whose parameters
  are the arguments of the call, named \<open>arg1\<close>, \<open>arg2\<close> and so on.
\<close>

definition wrong_args :: "'d world \<Rightarrow> nat \<Rightarrow> nat \<Rightarrow> 'a prog" where
  "wrong_args w given expected =
     throw_fmt w Function_exception ''wrong number of arguments ({0} instead {1} expected)''
       [show_nat given, show_nat expected]"

definition with_args :: "'d world \<Rightarrow> nat \<Rightarrow> nat \<Rightarrow> (node \<Rightarrow> unit prog) \<Rightarrow> unit prog" where
  "with_args w k self body =
     bindM (derefM self) (\<lambda>me.
       if length (nparams me) \<noteq> k then wrong_args w (length (nparams me)) k else body me)"

text \<open>\<open>(params.begin ()->second)->execute (ctx, s, this)\<close>, for a function of one argument.\<close>

definition with_arg :: "'d world \<Rightarrow> exec_fn \<Rightarrow> nat \<Rightarrow> (string \<Rightarrow> unit prog) \<Rightarrow> unit prog" where
  "with_arg w ex self body =
     with_args w 1 self (\<lambda>me.
       case um_iter (um_order (dclib w)) (nparams me) of
         [] \<Rightarrow> crashM
       | (k, p) # _ \<Rightarrow> bindM (capture (ex p (Some self))) body)"

definition function_iif :: "'d world \<Rightarrow> exec_fn \<Rightarrow> nat \<Rightarrow> unit prog" where
  "function_iif w ex self =
     with_args w 3 self (\<lambda>_.
       bindM (get_parameter ex self ''arg1'') (\<lambda>c.
       bindM (get_parameter ex self (if c = [] then ''arg3'' else ''arg2'')) outM))"

definition function_byte :: "'d world \<Rightarrow> exec_fn \<Rightarrow> nat \<Rightarrow> unit prog" where
  "function_byte w ex self =
     with_arg w ex self (\<lambda>t. bindM (to_intM w t) (\<lambda>i. outM [char_of (nat (i mod 256))]))"

definition function_length :: "'d world \<Rightarrow> exec_fn \<Rightarrow> nat \<Rightarrow> unit prog" where
  "function_length w ex self = with_arg w ex self (\<lambda>t. outM (show_nat (length t)))"

definition function_trim :: "'d world \<Rightarrow> exec_fn \<Rightarrow> nat \<Rightarrow> unit prog" where
  "function_trim w ex self = with_arg w ex self (\<lambda>t. outM (trim (dclib w) t))"

definition function_concatenate :: "'d world \<Rightarrow> exec_fn \<Rightarrow> nat \<Rightarrow> nat option \<Rightarrow> unit prog" where
  "function_concatenate w ex self caller =
     bindM (derefM self) (\<lambda>me.
       forM (um_iter (um_order (dclib w)) (nparams me)) (\<lambda>(k, p). ex p caller))"

definition function_pos :: "'d world \<Rightarrow> exec_fn \<Rightarrow> nat \<Rightarrow> unit prog" where
  "function_pos w ex self =
     with_args w 2 self (\<lambda>_.
       bindM (get_parameter ex self ''arg1'') (\<lambda>wh.
       bindM (get_parameter ex self ''arg2'') (\<lambda>str.
         case str_find str wh 0 of
           None \<Rightarrow> outM ''-1''
         | Some i \<Rightarrow> outM (show_nat i))))"

definition function_encode_base64 :: "'d world \<Rightarrow> exec_fn \<Rightarrow> nat \<Rightarrow> unit prog" where
  "function_encode_base64 w ex self = with_arg w ex self (\<lambda>t. outM (b64_encode (ext w) t))"

definition function_decode_base64 :: "'d world \<Rightarrow> exec_fn \<Rightarrow> nat \<Rightarrow> unit prog" where
  "function_decode_base64 w ex self = with_arg w ex self (\<lambda>t. outM (b64_decode (ext w) t))"

definition function_md5 :: "'d world \<Rightarrow> exec_fn \<Rightarrow> nat \<Rightarrow> unit prog" where
  "function_md5 w ex self = with_arg w ex self (\<lambda>t. outM (md5_hex (ext w) t))"

text \<open>\<open>std::hex\<close>, \<open>setw (2)\<close>, \<open>setfill ('0')\<close>.\<close>

definition hex_digit :: "nat \<Rightarrow> char" where
  "hex_digit i = char_of (if i < 10 then i + 48 else i + 87)"

definition hex_byte :: "nat \<Rightarrow> string" where
  "hex_byte b = [hex_digit (b div 16), hex_digit (b mod 16)]"

definition function_sha256 :: "'d world \<Rightarrow> exec_fn \<Rightarrow> nat \<Rightarrow> unit prog" where
  "function_sha256 w ex self =
     with_arg w ex self (\<lambda>t. outM (concat (map hex_byte (sha256_bytes (ext w) t))))"

definition function_crypt :: "'d world \<Rightarrow> exec_fn \<Rightarrow> nat \<Rightarrow> unit prog" where
  "function_crypt w ex self =
     with_args w 2 self (\<lambda>_.
       bindM (get_parameter ex self ''arg1'') (\<lambda>key.
       bindM (get_parameter ex self ''arg2'') (\<lambda>salt.
         case crypt_r (ext w) key salt of None \<Rightarrow> crashM | Some t \<Rightarrow> outM t)))"

definition function_uuid :: "'d world \<Rightarrow> unit prog" where
  "function_uuid w = bindM tickM (\<lambda>i. outM (uuid_at (ext w) i))"

definition function_urlencode :: "'d world \<Rightarrow> exec_fn \<Rightarrow> nat \<Rightarrow> unit prog" where
  "function_urlencode w ex self = with_arg w ex self (\<lambda>t. outM (url_encode (ext w) t))"

definition function_urldecode :: "'d world \<Rightarrow> exec_fn \<Rightarrow> nat \<Rightarrow> unit prog" where
  "function_urldecode w ex self = with_arg w ex self (\<lambda>t. outM (url_decode (ext w) t))"

definition function_translate :: "'d world \<Rightarrow> exec_fn \<Rightarrow> nat \<Rightarrow> unit prog" where
  "function_translate w ex self =
     with_arg w ex self (\<lambda>t.
       bindM (valueM ''@LANG_LOCALE@'') (\<lambda>loc.
       bindM (valueM ''@LANG_DOMAIN@'') (\<lambda>dom. outM (translate (ext w) loc dom t))))"

text \<open>\<open>istream_iterator<char>\<close> reads with \<open>operator>>\<close>, which skips white space.\<close>

definition function_upper :: "'d world \<Rightarrow> exec_fn \<Rightarrow> nat \<Rightarrow> unit prog" where
  "function_upper w ex self =
     with_arg w ex self (\<lambda>t. outM (map (loc_upper (ext w)) (filter (\<lambda>c. \<not> is_space c) t)))"

definition function_lower :: "'d world \<Rightarrow> exec_fn \<Rightarrow> nat \<Rightarrow> unit prog" where
  "function_lower w ex self =
     with_arg w ex self (\<lambda>t. outM (map (loc_lower (ext w)) (filter (\<lambda>c. \<not> is_space c) t)))"

text \<open>\<open>rand () % base\<close> truncates towards zero; a zero base divides by zero.\<close>

definition function_rnd :: "'d world \<Rightarrow> exec_fn \<Rightarrow> nat \<Rightarrow> unit prog" where
  "function_rnd w ex self =
     bindM (derefM self) (\<lambda>me.
       if length (nparams me) = 1 then
         with_arg w ex self (\<lambda>t.
           bindM (to_intM w t) (\<lambda>base.
             if base = 0 then crashM
             else bindM tickM (\<lambda>i. outM (show_nat (rand_at (ext w) i mod nat \<bar>base\<bar>)))))
       else bindM tickM (\<lambda>i. outM (show_nat (rand_at (ext w) i))))"

definition parse_date :: "'d world \<Rightarrow> string \<Rightarrow> string \<Rightarrow> int prog" where
  "parse_date w t f =
     (case date_parse (ext w) t f of
        Inl msg \<Rightarrow> throwM (Dbp_exc Plain_exception msg)
      | Inr d \<Rightarrow> ret d)"

definition function_date_utc :: "'d world \<Rightarrow> exec_fn \<Rightarrow> nat \<Rightarrow> unit prog" where
  "function_date_utc w ex self =
     with_args w 1 self (\<lambda>_.
       bindM (get_parameter ex self ''arg1'') (\<lambda>t.
       bindM (parse_date w t ''%s'') (\<lambda>d. outM (date_gmt (ext w) d))))"

definition function_date_from :: "'d world \<Rightarrow> exec_fn \<Rightarrow> nat \<Rightarrow> unit prog" where
  "function_date_from w ex self =
     with_args w 2 self (\<lambda>_.
       bindM (get_parameter ex self ''arg1'') (\<lambda>t.
       bindM (get_parameter ex self ''arg2'') (\<lambda>f.
       bindM (parse_date w t f) (\<lambda>d. outM (date_str (ext w) d ''%s'')))))"

definition function_date_fmt :: "'d world \<Rightarrow> exec_fn \<Rightarrow> nat \<Rightarrow> unit prog" where
  "function_date_fmt w ex self =
     with_args w 2 self (\<lambda>_.
       bindM (get_parameter ex self ''arg2'') (\<lambda>t.
       bindM (parse_date w t ''%s'') (\<lambda>d.
       bindM (get_parameter ex self ''arg1'') (\<lambda>f. outM (date_str (ext w) d f)))))"

text \<open>\<open>(int) time (NULL)\<close>: the low 32 bits, read as a signed number.\<close>

definition int32 :: "int \<Rightarrow> int" where
  "int32 t = (t + 2 ^ 31) mod 2 ^ 32 - 2 ^ 31"

definition show_int :: "int \<Rightarrow> string" where
  "show_int i = (if i < 0 then ''-'' @ show_nat (nat (- i)) else show_nat (nat i))"

definition function_now :: "'d world \<Rightarrow> unit prog" where
  "function_now w = bindM tickM (\<lambda>i. outM (show_int (int32 (time_at (ext w) i))))"

definition function_env :: "'d world \<Rightarrow> exec_fn \<Rightarrow> nat \<Rightarrow> unit prog" where
  "function_env w ex self =
     with_args w 1 self (\<lambda>_.
       bindM (get_parameter ex self ''arg1'') (\<lambda>t.
         case getenv (ext w) t of None \<Rightarrow> ret () | Some v \<Rightarrow> outM v))"

definition function_execute :: "'d world \<Rightarrow> exec_fn \<Rightarrow> function_class \<Rightarrow> nat \<Rightarrow> nat option \<Rightarrow> unit prog" where
  "function_execute w ex k self caller =
     (case k of
        C_function_iif \<Rightarrow> function_iif w ex self
      | C_function_byte \<Rightarrow> function_byte w ex self
      | C_function_trim \<Rightarrow> function_trim w ex self
      | C_function_length \<Rightarrow> function_length w ex self
      | C_function_concatenate \<Rightarrow> function_concatenate w ex self caller
      | C_function_pos \<Rightarrow> function_pos w ex self
      | C_function_encode_base64 \<Rightarrow> function_encode_base64 w ex self
      | C_function_decode_base64 \<Rightarrow> function_decode_base64 w ex self
      | C_function_md5 \<Rightarrow> function_md5 w ex self
      | C_function_sha256 \<Rightarrow> function_sha256 w ex self
      | C_function_crypt \<Rightarrow> function_crypt w ex self
      | C_function_uuid \<Rightarrow> function_uuid w
      | C_function_rnd \<Rightarrow> function_rnd w ex self
      | C_function_upper \<Rightarrow> function_upper w ex self
      | C_function_lower \<Rightarrow> function_lower w ex self
      | C_function_urlencode \<Rightarrow> function_urlencode w ex self
      | C_function_urldecode \<Rightarrow> function_urldecode w ex self
      | C_function_date_utc \<Rightarrow> function_date_utc w ex self
      | C_function_date_from \<Rightarrow> function_date_from w ex self
      | C_function_date_fmt \<Rightarrow> function_date_fmt w ex self
      | C_function_now \<Rightarrow> function_now w
      | C_function_env \<Rightarrow> function_env w ex self
      | C_function_translate \<Rightarrow> function_translate w ex self)"

lemmas function_defs = function_iif_def function_byte_def function_length_def function_trim_def
  function_concatenate_def function_pos_def function_encode_base64_def function_decode_base64_def
  function_md5_def function_sha256_def function_crypt_def function_uuid_def function_urlencode_def
  function_urldecode_def function_translate_def function_upper_def function_lower_def
  function_rnd_def function_date_utc_def function_date_from_def function_date_fmt_def
  function_now_def function_env_def

end
