(* ===== verification/Sample.thy ===== *)
theory Sample
  imports Functions
begin

text \<open>
  A concrete instance of the external library and services, with integers for \<open>double\<close>. It shows
  that the laws the properties assume of those parameters can hold, and gives the witnesses a world
  in which pages can be evaluated.
\<close>

definition trim_text :: "string \<Rightarrow> string" where
  "trim_text s = rev (dropWhile is_space (rev (dropWhile is_space s)))"

fun read_digits :: "nat \<Rightarrow> string \<Rightarrow> nat option" where
  "read_digits acc [] = Some acc"
| "read_digits acc (c # s) = (if is_digit c then read_digits (acc * 10 + (code c - 48)) s else None)"

fun read_int :: "string \<Rightarrow> int option" where
  "read_int [] = None"
| "read_int (c # s) =
     (if c = CHR ''-'' then (if s = [] then None else map_option (\<lambda>n. - int n) (read_digits 0 s))
      else map_option int (read_digits 0 (c # s)))"

fun int_arith :: "arith_op \<Rightarrow> int \<Rightarrow> int \<Rightarrow> int" where
  "int_arith Add_op a b = a + b"
| "int_arith Sub_op a b = a - b"
| "int_arith Mul_op a b = a * b"
| "int_arith Div_op a b = a div b"
| "int_arith Fmod_op a b = a mod b"
| "int_arith Pow_op a b = a ^ nat b"

fun int_cmp :: "cmp_op \<Rightarrow> int \<Rightarrow> int \<Rightarrow> bool" where
  "int_cmp Lt_op a b = (a < b)"
| "int_cmp Gt_op a b = (b < a)"
| "int_cmp Eq_op a b = (a = b)"
| "int_cmp Le_op a b = (a \<le> b)"
| "int_cmp Ge_op a b = (b \<le> a)"
| "int_cmp Ne_op a b = (a \<noteq> b)"

definition cut_at :: "string \<Rightarrow> string \<Rightarrow> string \<times> string" where
  "cut_at s sep = (case str_find s sep 0 of None \<Rightarrow> (s, []) | Some i \<Rightarrow> (take i s, drop (i + length sep) s))"

definition cut_last :: "string \<Rightarrow> string \<Rightarrow> string \<times> string" where
  "cut_last s sep = (case cut_at (rev s) (rev sep) of (r, l) \<Rightarrow> (rev l, rev r))"

definition sample_dcl :: "int dcl" where
  "sample_dcl =
     \<lparr>tokenize = (\<lambda>s. if s = [] then [] else split_pieces s '','' 0),
      tokenize_by = (\<lambda>s sep. if s = [] then [] else split_pieces s sep 0),
      split_pair = cut_at, split_last = cut_last, trim = trim_text,
      compare = (\<lambda>a b. upcase a = upcase b), fmt = (\<lambda>msg args. msg),
      to_double = read_int, of_double = show_int, arith = int_arith, cmp = int_cmp, minus_one = -1,
      to_int = read_int, of_int_str = show_int, ptr_str = show_nat,
      str_ptr = (\<lambda>s. if s = [] then None else read_digits 0 s), um_order = (\<lambda>ks. ks)\<rparr>"

definition sample_ext :: ext where
  "sample_ext =
     \<lparr>b64_encode = (\<lambda>s. s), b64_decode = (\<lambda>s. s), md5_hex = (\<lambda>s. s), sha256_bytes = (\<lambda>s. []),
      crypt_r = (\<lambda>k s. Some (s @ k)), uuid_at = show_nat, rand_at = (\<lambda>n. n), time_at = int,
      getenv = (\<lambda>_. None), url_encode = (\<lambda>s. s), url_decode = (\<lambda>s. s), translate = (\<lambda>l d t. t),
      loc_upper = to_upper, loc_lower = to_lower, date_parse = (\<lambda>t f. Inr 0), date_gmt = show_int,
      date_str = (\<lambda>d f. show_int d), re_replace = (\<lambda>e r s. (0, s)), re_find = (\<lambda>e s. None),
      json_parse = (\<lambda>_. None), json_write = (\<lambda>_. []), json_text = (\<lambda>_. None),
      std_stoi = read_int, std_stod = Some, curl_perform = (\<lambda>n os. Inr (200, [])),
      process_run = (\<lambda>n p a i. Inr (i, [])), file_read = (\<lambda>_. True), file_write = (\<lambda>_. True),
      file_remove = (\<lambda>_. True), file_rename = (\<lambda>_ _. True), app_full_name = ''dbPager''\<rparr>"

definition sample_world :: "int world" where
  "sample_world = \<lparr>dclib = sample_dcl, ext = sample_ext\<rparr>"

text \<open>A state with one empty local context below the application's chain and a given tag tree.\<close>

definition sample_contexts :: contexts where
  "sample_contexts =
     new_context ''local'' (new_context ''user'' (new_context ''global'' (new_context ''system'' [])))"

definition sample_state :: "(nat \<times> node) list \<Rightarrow> state" where
  "sample_state nodes =
     \<lparr>ctxs = sample_contexts, heap = map_of nodes, next_tag = 100, lx = fresh_lexer [],
      umaps = Map.empty, vlists = Map.empty, next_addr = 1000, files = Map.empty, logged = [], tick = 0,
      pooled = Map.empty, remote = Map.empty\<rparr>"

definition text_tag :: "string \<Rightarrow> node" where
  "text_tag u = (new_node C_tag_expression [])\<lparr>ntext := u\<rparr>"

lemma sample_compare [simp]: "compare (dclib sample_world) a b \<longleftrightarrow> upcase a = upcase b"
  by (simp add: sample_world_def sample_dcl_def)

lemma sample_order [simp]: "um_order (dclib sample_world) = (\<lambda>ks. ks)"
  by (simp add: sample_world_def sample_dcl_def)

end
