(* ===== verification/Data_Tags.thy ===== *)
theory Data_Tags
  imports Functions
begin

text \<open>
  Maps and lists as values of the language: \<open>tag/tag_map.cpp\<close> and \<open>tag/tag_list.cpp\<close>. The enclosing
  \<open>dbp:map\<close> or \<open>dbp:list\<close> holds the container in an automatic variable and passes its address to the
  nested tags as text, in a variable of the context; the nested tags turn the text back into a
  pointer. The containers live in the fields \<open>umaps\<close> and \<open>vlists\<close> of the state; a pointer to no
  live container is undefined behaviour.
\<close>

section \<open>Maps\<close>

definition no_map :: "'d world \<Rightarrow> string \<Rightarrow> 'a prog" where
  "no_map w name =
     throw_fmt w Tag_map_exception ''map '{0}' was not defined in the current context'' [name]"

definition container :: "'d world \<Rightarrow> string \<Rightarrow> nat prog \<Rightarrow> nat prog" where
  "container w var missing =
     bindM (valueM var) (\<lambda>p. if p = [] then missing else to_ptrM w p)"

definition map_ptr :: "'d world \<Rightarrow> string \<Rightarrow> nat prog" where
  "map_ptr w name = container w (''@MAP@'' @ name) (no_map w name)"

definition map_types_ptr :: "'d world \<Rightarrow> string \<Rightarrow> nat prog" where
  "map_types_ptr w name = container w (''@MAP_TYPES@'' @ name) (no_map w name)"

definition tag_map_execute :: "'d world \<Rightarrow> exec_fn \<Rightarrow> nat \<Rightarrow> nat option \<Rightarrow> unit prog" where
  "tag_map_execute w ex self caller =
     bindM (get_parameter ex self ''name'') (\<lambda>name.
     with_umap (\<lambda>data.
     with_umap (\<lambda>data_types.
       scoped
        (seqM (addM w (''@MAP@'' @ name) (ptr_str (dclib w) data) [])
         (seqM (addM w (''@MAP_TYPES@'' @ name) (ptr_str (dclib w) data_types) [])
           (impl_execute ex self caller))))))"

definition tag_map_set_execute :: "'d world \<Rightarrow> exec_fn \<Rightarrow> nat \<Rightarrow> unit prog" where
  "tag_map_set_execute w ex self =
     bindM (get_parameter ex self ''name'') (\<lambda>name.
     bindM (get_parameter ex self ''key'') (\<lambda>key.
     bindM (get_parameter ex self ''type'') (\<lambda>type.
     bindM (get_parameter ex self ''value'') (\<lambda>value.
     bindM (map_ptr w name) (\<lambda>data.
     bindM (get_umap data) (\<lambda>m.
     seqM (put_umap data (um_insert key value m))
      (if type \<noteq> [] then
         bindM (map_types_ptr w name) (\<lambda>data_types.
         bindM (get_umap data_types) (\<lambda>ts. put_umap data_types (um_insert key type ts)))
       else ret ())))))))"

definition tag_map_unset_execute :: "'d world \<Rightarrow> exec_fn \<Rightarrow> nat \<Rightarrow> unit prog" where
  "tag_map_unset_execute w ex self =
     bindM (get_parameter ex self ''name'') (\<lambda>name.
     bindM (get_parameter ex self ''key'') (\<lambda>key.
     bindM (map_ptr w name) (\<lambda>data.
     bindM (get_umap data) (\<lambda>m. put_umap data (um_erase key m)))))"

definition tag_map_element_execute :: "'d world \<Rightarrow> exec_fn \<Rightarrow> nat \<Rightarrow> nat option \<Rightarrow> unit prog" where
  "tag_map_element_execute w ex self caller =
     bindM (get_parameter ex self ''name'') (\<lambda>name.
     bindM (get_parameter ex self ''key'') (\<lambda>key.
     bindM (map_ptr w name) (\<lambda>data.
       scoped
        (bindM (get_umap data) (\<lambda>m.
         seqM (case map_of m key of
                 None \<Rightarrow> ret ()
               | Some v \<Rightarrow> addM w (name @ ''_'' @ key) v [])
          (impl_execute ex self caller))))))"

text \<open>
  The loop of \<open>tag_map_elements\<close> walks the live container; a body that changes the container
  under the iterator is not modelled, the entries are those found when the loop starts.
\<close>

definition tag_map_elements_execute :: "'d world \<Rightarrow> exec_fn \<Rightarrow> nat \<Rightarrow> nat option \<Rightarrow> unit prog" where
  "tag_map_elements_execute w ex self caller =
     bindM (get_parameter ex self ''name'') (\<lambda>name.
     bindM (map_ptr w name) (\<lambda>data.
     bindM (get_umap data) (\<lambda>m.
       forM (um_iter (um_order (dclib w)) m) (\<lambda>(k, v).
         scoped
          (seqM (addM w (name @ ''_key'') k [])
           (seqM (addM w (name @ ''_value'') v []) (impl_execute ex self caller)))))))"

definition tag_map_values_execute :: "'d world \<Rightarrow> exec_fn \<Rightarrow> nat \<Rightarrow> nat option \<Rightarrow> unit prog" where
  "tag_map_values_execute w ex self caller =
     bindM (get_parameter ex self ''name'') (\<lambda>name.
     bindM (get_parameter ex self ''prefix'') (\<lambda>prefix0.
     let prefix = (if prefix0 = [] then name else prefix0) in
     bindM (map_ptr w name) (\<lambda>data.
     bindM (get_umap data) (\<lambda>m.
       seqM enterM
        (seqM (forM (um_iter (um_order (dclib w)) m) (\<lambda>(k, v). addM w (prefix @ ''_'' @ k) v []))
          (finallyM (impl_execute ex self caller) leaveM))))))"

text \<open>The text of a JSON value in a map or list.\<close>

definition json_value :: "'d world \<Rightarrow> json \<Rightarrow> string" where
  "json_value w v =
     (if v = J_null then []
      else case json_text (ext w) v of Some t \<Rightarrow> t | None \<Rightarrow> json_write (ext w) v)"

definition bad_json :: "'d world \<Rightarrow> exc_kind \<Rightarrow> string \<Rightarrow> 'a prog" where
  "bad_json w k buf = throw_fmt w k (''invalid JSON structure '{0}'' @ [CHR 0x27]) [buf]"

definition tag_map_from_json_execute :: "'d world \<Rightarrow> exec_fn \<Rightarrow> nat \<Rightarrow> nat option \<Rightarrow> unit prog" where
  "tag_map_from_json_execute w ex self caller =
     bindM (get_parameter ex self ''name'') (\<lambda>name.
     bindM (map_ptr w name) (\<lambda>data.
     bindM (capture (impl_execute ex self caller)) (\<lambda>buf.
       if buf = [] then ret ()
       else case json_parse (ext w) buf of
         None \<Rightarrow> bad_json w Tag_map_exception buf
       | Some root \<Rightarrow>
          (case root of
             J_object kvs \<Rightarrow>
               bindM (get_umap data) (\<lambda>_.
                 put_umap data (fold (\<lambda>(k, v). um_insert k (json_value w v)) kvs []))
           | _ \<Rightarrow> ret ()))))"

text \<open>\<open>std::stoi\<close> and \<open>std::stod\<close> throw on text that is no number.\<close>

definition typed_json :: "'d world \<Rightarrow> string option \<Rightarrow> string \<Rightarrow> json prog" where
  "typed_json w type v =
     (case type of
        None \<Rightarrow> ret (J_string v)
      | Some ty \<Rightarrow>
         if ty = ''integer'' then
           (case std_stoi (ext w) v of None \<Rightarrow> throwM (Std_exc ''stoi'') | Some i \<Rightarrow> ret (J_int i))
         else if ty = ''number'' then
           (case std_stod (ext w) v of None \<Rightarrow> throwM (Std_exc ''stod'') | Some r \<Rightarrow> ret (J_real r))
         else if ty = ''boolean'' then ret (J_bool (v = ''true''))
         else if ty = ''object'' then
           (case json_parse (ext w) v of
              None \<Rightarrow> bad_json w Tag_map_exception v
            | Some j \<Rightarrow> ret j)
         else ret (J_string v))"

text \<open>A \<open>Json::Value\<close> object keeps its members sorted by name; an empty one stays \<open>null\<close>.\<close>

fun json_member :: "string \<Rightarrow> json \<Rightarrow> (string \<times> json) list \<Rightarrow> (string \<times> json) list" where
  "json_member k v [] = [(k, v)]"
| "json_member k v ((k', v') # r) =
     (if k = k' then (k, v) # r
      else if str_less k k' then (k, v) # (k', v') # r
      else (k', v') # json_member k v r)"

fun json_root :: "(string \<times> json) list \<Rightarrow> json" where
  "json_root [] = J_null"
| "json_root kvs = J_object (fold (\<lambda>(k, v). json_member k v) kvs [])"

definition tag_map_to_json_execute :: "'d world \<Rightarrow> exec_fn \<Rightarrow> nat \<Rightarrow> unit prog" where
  "tag_map_to_json_execute w ex self =
     bindM (get_parameter ex self ''name'') (\<lambda>name.
     bindM (map_ptr w name) (\<lambda>data.
     bindM (map_types_ptr w name) (\<lambda>data_types.
     bindM (get_umap data) (\<lambda>m.
     bindM (get_umap data_types) (\<lambda>ts.
     bindM (mapM (um_iter (um_order (dclib w)) m) (\<lambda>(k, v).
             bindM (typed_json w (map_of ts k) v) (\<lambda>j. ret (k, j)))) (\<lambda>kvs.
       outM (json_write (ext w) (json_root kvs))))))))"

definition map_execute :: "'d world \<Rightarrow> exec_fn \<Rightarrow> map_class \<Rightarrow> nat \<Rightarrow> nat option \<Rightarrow> unit prog" where
  "map_execute w ex k self caller =
     (case k of
        C_tag_map \<Rightarrow> tag_map_execute w ex self caller
      | C_tag_map_set \<Rightarrow> tag_map_set_execute w ex self
      | C_tag_map_unset \<Rightarrow> tag_map_unset_execute w ex self
      | C_tag_map_element \<Rightarrow> tag_map_element_execute w ex self caller
      | C_tag_map_elements \<Rightarrow> tag_map_elements_execute w ex self caller
      | C_tag_map_values \<Rightarrow> tag_map_values_execute w ex self caller
      | C_tag_map_from_json \<Rightarrow> tag_map_from_json_execute w ex self caller
      | C_tag_map_to_json \<Rightarrow> tag_map_to_json_execute w ex self)"

section \<open>Lists\<close>

definition list_ptr :: "'d world \<Rightarrow> string \<Rightarrow> nat prog" where
  "list_ptr w name = container w (''@LIST@'' @ name)
     (throw_fmt w Tag_list_exception ''list '{0}' was not defined in the current context'' [name])"

definition tag_list_execute :: "'d world \<Rightarrow> exec_fn \<Rightarrow> nat \<Rightarrow> nat option \<Rightarrow> unit prog" where
  "tag_list_execute w ex self caller =
     bindM (get_parameter ex self ''name'') (\<lambda>name.
     with_vlist (\<lambda>data.
       scoped
        (seqM (addM w (''@LIST@'' @ name) (ptr_str (dclib w) data) [])
          (impl_execute ex self caller))))"

definition tag_list_add_execute :: "'d world \<Rightarrow> exec_fn \<Rightarrow> nat \<Rightarrow> unit prog" where
  "tag_list_add_execute w ex self =
     bindM (get_parameter ex self ''name'') (\<lambda>name.
     bindM (get_parameter ex self ''value'') (\<lambda>value.
     bindM (list_ptr w name) (\<lambda>data.
     bindM (get_vlist data) (\<lambda>xs. put_vlist data (xs @ [value])))))"

text \<open>\<open>data->erase (data->begin () + i)\<close> is undefined outside the vector.\<close>

definition tag_list_remove_execute :: "'d world \<Rightarrow> exec_fn \<Rightarrow> nat \<Rightarrow> unit prog" where
  "tag_list_remove_execute w ex self =
     bindM (get_parameter ex self ''name'') (\<lambda>name.
     bindM (get_parameter ex self ''number'') (\<lambda>key.
     bindM (list_ptr w name) (\<lambda>data.
     bindM (get_vlist data) (\<lambda>xs.
     bindM (to_intM w key) (\<lambda>i.
       if 0 \<le> i \<and> i < int (length xs) then put_vlist data (take (nat i) xs @ drop (Suc (nat i)) xs)
       else crashM)))))"

text \<open>\<open>data->at (i)\<close> converts \<open>i\<close> to \<open>size_t\<close> and throws \<open>std::out_of_range\<close>.\<close>

definition tag_list_element_execute :: "'d world \<Rightarrow> exec_fn \<Rightarrow> nat \<Rightarrow> nat option \<Rightarrow> unit prog" where
  "tag_list_element_execute w ex self caller =
     bindM (get_parameter ex self ''name'') (\<lambda>name.
     bindM (get_parameter ex self ''number'') (\<lambda>key.
     bindM (list_ptr w name) (\<lambda>data.
       scoped
        (bindM (get_vlist data) (\<lambda>xs.
         bindM (to_intM w key) (\<lambda>i.
           if 0 \<le> i \<and> i < int (length xs) then
             seqM (addM w (name @ ''_value'') (xs ! nat i) []) (impl_execute ex self caller)
           else throwM (Std_exc ''vector::_M_range_check'')))))))"

definition tag_list_elements_execute :: "'d world \<Rightarrow> exec_fn \<Rightarrow> nat \<Rightarrow> nat option \<Rightarrow> unit prog" where
  "tag_list_elements_execute w ex self caller =
     bindM (get_parameter ex self ''name'') (\<lambda>name.
     bindM (list_ptr w name) (\<lambda>data.
     bindM (get_vlist data) (\<lambda>xs.
       forM xs (\<lambda>v.
         scoped (seqM (addM w (name @ ''_value'') v []) (impl_execute ex self caller))))))"

definition tag_list_from_json_execute :: "'d world \<Rightarrow> exec_fn \<Rightarrow> nat \<Rightarrow> nat option \<Rightarrow> unit prog" where
  "tag_list_from_json_execute w ex self caller =
     bindM (get_parameter ex self ''name'') (\<lambda>name.
     bindM (list_ptr w name) (\<lambda>data.
     bindM (capture (impl_execute ex self caller)) (\<lambda>buf.
       if buf = [] then ret ()
       else case json_parse (ext w) buf of
         None \<Rightarrow> bad_json w Tag_list_exception buf
       | Some root \<Rightarrow>
          (case root of
             J_array vs \<Rightarrow> put_vlist data (map (json_value w) vs)
           | J_object kvs \<Rightarrow> put_vlist data (map (json_value w \<circ> snd) kvs)
           | _ \<Rightarrow> ret ()))))"

definition list_execute :: "'d world \<Rightarrow> exec_fn \<Rightarrow> list_class \<Rightarrow> nat \<Rightarrow> nat option \<Rightarrow> unit prog" where
  "list_execute w ex k self caller =
     (case k of
        C_tag_list \<Rightarrow> tag_list_execute w ex self caller
      | C_tag_list_add \<Rightarrow> tag_list_add_execute w ex self
      | C_tag_list_remove \<Rightarrow> tag_list_remove_execute w ex self
      | C_tag_list_element \<Rightarrow> tag_list_element_execute w ex self caller
      | C_tag_list_elements \<Rightarrow> tag_list_elements_execute w ex self caller
      | C_tag_list_from_json \<Rightarrow> tag_list_from_json_execute w ex self caller)"

lemmas map_defs = tag_map_execute_def tag_map_set_execute_def tag_map_unset_execute_def
  tag_map_element_execute_def tag_map_elements_execute_def tag_map_values_execute_def
  tag_map_from_json_execute_def tag_map_to_json_execute_def

lemmas list_defs = tag_list_execute_def tag_list_add_execute_def tag_list_remove_execute_def
  tag_list_element_execute_def tag_list_elements_execute_def tag_list_from_json_execute_def

end
