(* ===== verification/Html_Tags.thy ===== *)
theory Html_Tags
  imports Core_Tags
begin

text \<open>
  Output of the page's own markup: \<open>tag/tag_unknown.cpp\<close> and \<open>tag/tag_cdata.cpp\<close>. Inside the
  outermost HTML element the characters \<open>' \" < >\<close> of generated markup travel as the bytes 1 to 4,
  so that escaping the text of an element does not escape the markup of its children; the outermost
  element turns the bytes back.
\<close>

fun entity :: "char \<Rightarrow> string" where
  "entity c =
     (if c = CHR 0x27 then ''&apos;''
      else if c = CHR 0x22 then ''&quot;''
      else if c = CHR ''<'' then ''&lt;''
      else if c = CHR ''>'' then ''&gt;''
      else [c])"

definition htmlentities :: "string \<Rightarrow> string" where
  "htmlentities s = concat (map entity s)"

fun stub_char :: "char \<Rightarrow> char" where
  "stub_char c =
     (if c = CHR 0x27 then CHR 0x01
      else if c = CHR 0x22 then CHR 0x02
      else if c = CHR ''<'' then CHR 0x03
      else if c = CHR ''>'' then CHR 0x04
      else c)"

definition stub :: "string \<Rightarrow> string" where
  "stub s = map stub_char s"

fun unstub_char :: "char \<Rightarrow> char" where
  "unstub_char c =
     (if c = CHR 0x01 then CHR 0x27
      else if c = CHR 0x02 then CHR 0x22
      else if c = CHR 0x03 then CHR ''<''
      else if c = CHR 0x04 then CHR ''>''
      else c)"

definition htmlentitiesout :: "string \<Rightarrow> string" where
  "htmlentitiesout s = map unstub_char s"

definition keep_entities :: "string \<Rightarrow> string" where
  "keep_entities s = map stub_char s"

declare entity.simps [simp del] stub_char.simps [simp del] unstub_char.simps [simp del]

definition void_tags :: "string list" where
  "void_tags = [''base'', ''meta'', ''link'', ''hr'', ''br'', ''basefont'', ''param'', ''img'',
     ''area'', ''input'', ''isindex'', ''col'']"

definition is_prefix :: "string \<Rightarrow> string \<Rightarrow> bool" where
  "is_prefix p s \<longleftrightarrow> take (length p) s = p"

definition write_attribute :: "exec_fn \<Rightarrow> nat \<Rightarrow> (string \<Rightarrow> string) \<Rightarrow> string \<times> nat \<Rightarrow> unit prog" where
  "write_attribute ex self convert kp =
     (case kp of (k, p) \<Rightarrow>
        if k = [] then ret ()
        else if is_prefix ''@DBP:PARAM@attr'' k then
          bindM (capture (ex p (Some self))) (\<lambda>v. if v \<noteq> [] then outM ('' '' @ v) else ret ())
        else if is_prefix ''@DBP:PARAM@'' k then ret ()
        else
          bindM (capture (ex p (Some self))) (\<lambda>v.
            if v \<noteq> [] then outM ('' '' @ k @ ''='' @ [CHR 0x02] @ convert v @ [CHR 0x02]) else ret ()))"

definition asis_param :: "node \<Rightarrow> bool prog" where
  "asis_param me =
     (case map_of (nparams me) ''@DBP:PARAM@asis'' of
        None \<Rightarrow> ret False
      | Some p \<Rightarrow> bindM (derefM p) (\<lambda>pn. ret (ntext pn = ''1'')))"

definition close_tag :: "string \<Rightarrow> string \<Rightarrow> string" where
  "close_tag name content = [CHR 0x04] @ content @ [CHR 0x03] @ ''/'' @ name @ [CHR 0x04]"

definition real_execute :: "'d world \<Rightarrow> exec_fn \<Rightarrow> nat \<Rightarrow> nat option \<Rightarrow> unit prog" where
  "real_execute w ex self caller =
     bindM (derefM self) (\<lambda>me.
     bindM (asis_param me) (\<lambda>asis.
     let convert = (if asis then stub else htmlentities) in
     seqM (outM ([CHR 0x03] @ nname me))
      (seqM (forM (um_iter (um_order (dclib w)) (nparams me)) (write_attribute ex self convert))
        (bindM (capture (impl_execute ex self caller)) (\<lambda>data.
           if nname me \<notin> set void_tags then outM (close_tag (nname me) (convert data))
           else if data = [] then outM (''/'' @ [CHR 0x04])
           else outM (close_tag (nname me) (convert data)))))))"

definition tag_unknown_execute :: "'d world \<Rightarrow> exec_fn \<Rightarrow> nat \<Rightarrow> nat option \<Rightarrow> unit prog" where
  "tag_unknown_execute w ex self caller =
     bindM (valueM ''@HTML:FIRST@'') (\<lambda>root.
       if root = [] then
         seqM enterM
          (seqM (addM w ''@HTML:FIRST@'' ''1'' [])
            (finallyM
              (bindM (capture (real_execute w ex self caller)) (\<lambda>t. outM (htmlentitiesout t)))
              leaveM))
       else real_execute w ex self caller)"

definition tag_cdata_execute :: "nat \<Rightarrow> unit prog" where
  "tag_cdata_execute self =
     bindM (derefM self) (\<lambda>me.
     bindM (valueM ''@HTML:FIRST@'') (\<lambda>root.
       outM (if root = [] then ntext me else keep_entities (ntext me))))"

end
