(* ===== verification/IO_Tags.thy ===== *)
theory IO_Tags
  imports Core_Tags
begin

text \<open>
  Tags that reach outside the page: \<open>tag_read.cpp\<close>, \<open>tag_write.cpp\<close>, \<open>tag_delete.cpp\<close>,
  \<open>tag_rename.cpp\<close>, \<open>tag_system.cpp\<close>, \<open>tag_log.cpp\<close>, \<open>tag_http.cpp\<close>, \<open>tag_locale.cpp\<close> and
  \<open>tag_regexp.cpp\<close>. Files are the field \<open>files\<close> of the state, guarded by the permissions of the
  external services; cURL, PCRE and subprocesses are parameters.
\<close>

definition tag_read_execute :: "'d world \<Rightarrow> exec_fn \<Rightarrow> nat \<Rightarrow> nat option \<Rightarrow> unit prog" where
  "tag_read_execute w ex self caller =
     seqM (impl_execute ex self caller)
      (bindM (get_parameter ex self ''href'') (\<lambda>href.
       bindM (getM files) (\<lambda>fs.
         case (if file_read (ext w) href then fs href else None) of
           None \<Rightarrow> throw_fmt w Tag_exception ''file {0} not found or read error'' [href]
         | Some t \<Rightarrow> outM t)))"

definition tag_write_execute :: "'d world \<Rightarrow> exec_fn \<Rightarrow> nat \<Rightarrow> nat option \<Rightarrow> unit prog" where
  "tag_write_execute w ex self caller =
     bindM (capture (impl_execute ex self caller)) (\<lambda>buf.
     bindM (get_parameter ex self ''href'') (\<lambda>href.
       if file_write (ext w) href then modM (\<lambda>s. s\<lparr>files := (files s)(href \<mapsto> buf)\<rparr>)
       else throw_fmt w Tag_exception ''can't write to file {0}'' [href]))"

definition tag_delete_execute :: "'d world \<Rightarrow> exec_fn \<Rightarrow> nat \<Rightarrow> nat option \<Rightarrow> unit prog" where
  "tag_delete_execute w ex self caller =
     bindM (get_parameter ex self ''href'') (\<lambda>href.
     bindM (getM files) (\<lambda>fs.
       if fs href \<noteq> None \<and> file_remove (ext w) href then
         seqM (modM (\<lambda>s. s\<lparr>files := (files s)(href := None)\<rparr>)) (impl_execute ex self caller)
       else throw_fmt w Tag_exception ''file {0} can't be deleted'' [href]))"

definition tag_rename_execute :: "'d world \<Rightarrow> exec_fn \<Rightarrow> nat \<Rightarrow> nat option \<Rightarrow> unit prog" where
  "tag_rename_execute w ex self caller =
     bindM (get_parameter ex self ''href'') (\<lambda>href.
     bindM (get_parameter ex self ''as'') (\<lambda>to.
     bindM (getM files) (\<lambda>fs.
       if fs href \<noteq> None \<and> file_rename (ext w) href to then
         seqM (modM (\<lambda>s. s\<lparr>files := (files s)(href := None, to := fs href)\<rparr>))
           (impl_execute ex self caller)
       else throw_fmt w Tag_exception ''file {0} can't be renamed'' [href])))"

text \<open>\<open>process p (_in, out, _err)\<close> writes the output of the program straight to \<open>out\<close>.\<close>

definition tag_system_execute :: "'d world \<Rightarrow> exec_fn \<Rightarrow> nat \<Rightarrow> nat option \<Rightarrow> unit prog" where
  "tag_system_execute w ex self caller =
     bindM (get_parameter ex self ''href'') (\<lambda>href.
     bindM (get_parameter ex self ''parameters'') (\<lambda>args.
     bindM (capture (impl_execute ex self caller)) (\<lambda>inp.
     bindM tickM (\<lambda>i.
       case process_run (ext w) i href args inp of
         Inl e \<Rightarrow> throwM e
       | Inr oe \<Rightarrow>
          (case oe of (out, err) \<Rightarrow>
             seqM (outM out)
              (if err \<noteq> [] then throwM (Dbp_exc Tag_exception err) else ret ()))))))"

text \<open>Only the context of the application has a services provider; elsewhere the pointer is \<open>NULL\<close>.\<close>

definition tag_log_execute :: "exec_fn \<Rightarrow> nat \<Rightarrow> nat option \<Rightarrow> unit prog" where
  "tag_log_execute ex self caller =
     bindM (capture (impl_execute ex self caller)) (\<lambda>t.
     bindM (getM (\<lambda>s. ctxs s \<noteq> [] \<and> has_services (hd (ctxs s)))) (\<lambda>ok.
       if ok then modM (\<lambda>s. s\<lparr>logged := logged s @ [t]\<rparr>) else crashM))"

definition tag_locale_execute :: "'d world \<Rightarrow> exec_fn \<Rightarrow> nat \<Rightarrow> nat option \<Rightarrow> unit prog" where
  "tag_locale_execute w ex self caller =
     bindM (get_parameter ex self ''domain'') (\<lambda>domain.
     bindM (get_parameter ex self ''path'') (\<lambda>path.
     bindM (get_parameter ex self ''locale'') (\<lambda>locale.
       if domain = [] then throw_fmt w Tag_locale_exception ''message domain (domain) is not defined'' []
       else if path = [] then
         throw_fmt w Tag_locale_exception
           ''base directory of the hierarchy containing message catalogs (path) is not defined'' []
       else
         scoped
          (seqM (addM w ''@LANG_DOMAIN@'' domain [])
           (seqM (addM w ''@LANG_LOCALE@'' locale []) (impl_execute ex self caller))))))"

fun find_loop :: "nat \<Rightarrow> 'd world \<Rightarrow> string \<Rightarrow> string \<Rightarrow> unit prog \<Rightarrow> string \<Rightarrow> unit prog" where
  "find_loop 0 w expression variable body inp = divergeM"
| "find_loop (Suc n) w expression variable body inp =
     (case re_find (ext w) expression inp of
        None \<Rightarrow> ret ()
      | Some fr \<Rightarrow>
         (case fr of (found, rest) \<Rightarrow>
            seqM (scoped (seqM (addM w variable found []) body))
              (find_loop n w expression variable body rest)))"

definition tag_regexp_execute :: "'d world \<Rightarrow> exec_fn \<Rightarrow> nat \<Rightarrow> nat \<Rightarrow> nat option \<Rightarrow> unit prog" where
  "tag_regexp_execute w ex n self caller =
     bindM (get_parameter ex self ''expr'') (\<lambda>expr0.
     let expression = (if CHR ''('' \<in> set expr0 then expr0 else ''('' @ expr0 @ '')'') in
     bindM (get_parameter ex self ''value'') (\<lambda>value.
     bindM (get_parameter ex self ''name'') (\<lambda>name.
     bindM (get_parameter ex self ''with'') (\<lambda>wi.
     let variable = (if name = [] then ''result'' else name) in
       if wi \<noteq> [] then
         (case re_replace (ext w) expression wi value of (cnt, v) \<Rightarrow>
            if cnt > 0 then scoped (seqM (addM w variable v []) (impl_execute ex self caller))
            else ret ())
       else find_loop n w expression variable (impl_execute ex self caller) value))))"

section \<open>HTTP requests\<close>

definition http_reserved :: "string list" where
  "http_reserved = [''href'', ''method'', ''user'', ''password'', ''certificate'', ''private-key'',
     ''ca-certificate'', ''certificate-data'', ''private-key-data'', ''ca-certificate-data'']"

definition ssl_options :: "string \<Rightarrow> string \<Rightarrow> string \<Rightarrow> string \<Rightarrow> curl_opt list" where
  "ssl_options cert key cert_data key_data =
     (if cert \<noteq> [] \<and> key \<noteq> [] then [Opt_sslcert cert, Opt_sslkey key]
      else if cert_data \<noteq> [] \<and> key_data \<noteq> [] then
        [Opt_sslcert_blob cert_data, Opt_sslkey_blob key_data, Opt_sslcerttype ''PEM'']
      else [])"

definition ca_options :: "string \<Rightarrow> string \<Rightarrow> curl_opt list" where
  "ca_options ca ca_data =
     (if ca \<noteq> [] then [Opt_cainfo ca, Opt_verifypeer]
      else if ca_data \<noteq> [] then [Opt_cainfo_blob ca_data, Opt_verifypeer]
      else [])"

definition auth_options :: "string \<Rightarrow> string \<Rightarrow> curl_opt list" where
  "auth_options user password =
     (if user \<noteq> [] then [Opt_userpwd (user @ '':'' @ password), Opt_httpauth_basic]
      else if password \<noteq> [] then [Opt_bearer password, Opt_httpauth_bearer]
      else [])"

definition method_options :: "string \<Rightarrow> curl_opt list" where
  "method_options m =
     (if m = ''POST'' then [Opt_post] else if m \<noteq> ''GET'' then [Opt_customrequest m] else [])"

text \<open>Other attributes become request headers, with their text as it stands in the page.\<close>

definition http_header :: "string \<times> nat \<Rightarrow> string list prog" where
  "http_header kp =
     (case kp of (k, p) \<Rightarrow>
        if k \<in> set http_reserved then ret []
        else bindM (derefM p) (\<lambda>pn. ret [k @ '': '' @ ntext pn]))"

definition tag_http_execute :: "'d world \<Rightarrow> exec_fn \<Rightarrow> nat \<Rightarrow> nat option \<Rightarrow> unit prog" where
  "tag_http_execute w ex self caller =
     bindM (mapM [''href'', ''user'', ''password'', ''certificate'', ''private-key'',
                  ''ca-certificate'', ''certificate-data'', ''private-key-data'',
                  ''ca-certificate-data'', ''method''] (get_parameter ex self)) (\<lambda>ps.
     let m = (if ps ! 9 = [] then ''GET'' else upcase (ps ! 9)) in
     bindM (capture (impl_execute ex self caller)) (\<lambda>content.
     bindM (derefM self) (\<lambda>me.
     bindM (mapM (um_iter (um_order (dclib w)) (nparams me)) http_header) (\<lambda>hs.
     bindM tickM (\<lambda>i.
       case curl_perform (ext w) i
         ([Opt_nosignal, Opt_url (ps ! 0), Opt_useragent (app_full_name (ext w)), Opt_followlocation] @
          ssl_options (ps ! 3) (ps ! 4) (ps ! 6) (ps ! 7) @
          ca_options (ps ! 5) (ps ! 8) @
          auth_options (ps ! 1) (ps ! 2) @
          (if content \<noteq> [] then [Opt_postfields content] else []) @
          method_options m @
          [Opt_httpheader (concat hs)]) of
         Inl err \<Rightarrow> throw_fmt w Tag_exception ''http request failed: {0}'' [err]
       | Inr cb \<Rightarrow>
          (case cb of (http_code, body) \<Rightarrow>
             if http_code \<ge> 400 then throwM (Dbp_exc Tag_exception body) else outM body))))))"

definition io_execute :: "'d world \<Rightarrow> exec_fn \<Rightarrow> io_class \<Rightarrow> nat \<Rightarrow> nat \<Rightarrow> nat option \<Rightarrow> unit prog" where
  "io_execute w ex k n self caller =
     (case k of
        C_tag_read \<Rightarrow> tag_read_execute w ex self caller
      | C_tag_write \<Rightarrow> tag_write_execute w ex self caller
      | C_tag_system \<Rightarrow> tag_system_execute w ex self caller
      | C_tag_delete \<Rightarrow> tag_delete_execute w ex self caller
      | C_tag_rename \<Rightarrow> tag_rename_execute w ex self caller
      | C_tag_log \<Rightarrow> tag_log_execute ex self caller
      | C_tag_http \<Rightarrow> tag_http_execute w ex self caller
      | C_tag_locale \<Rightarrow> tag_locale_execute w ex self caller
      | C_tag_regexp \<Rightarrow> tag_regexp_execute w ex n self caller)"

lemmas io_defs = tag_read_execute_def tag_write_execute_def tag_system_execute_def
  tag_delete_execute_def tag_rename_execute_def tag_log_execute_def tag_http_execute_def
  tag_locale_execute_def tag_regexp_execute_def

end
