(* ===== verification/Interp.thy ===== *)
theory Interp
  imports Data_Tags Html_Tags IO_Tags
begin

text \<open>Virtual dispatch: \<open>tag::execute\<close> of the class of the tag, with a bound on the nesting of calls.\<close>

definition dispatch :: "'d world \<Rightarrow> exec_fn \<Rightarrow> nat \<Rightarrow> tag_class \<Rightarrow> nat \<Rightarrow> nat option \<Rightarrow> unit prog" where
  "dispatch w ex n k self caller =
     (case k of
        C_tag_impl \<Rightarrow> impl_execute ex self caller
      | C_tag_var \<Rightarrow> tag_var_execute w ex self caller
      | C_tag_set \<Rightarrow> tag_set_execute w ex self caller
      | C_tag_try \<Rightarrow> tag_try_execute w ex self caller
      | C_tag_catch \<Rightarrow> tag_catch_execute
      | C_tag_throw \<Rightarrow> tag_throw_execute w ex self caller
      | C_tag_case \<Rightarrow> tag_case_execute ex self caller
      | C_tag_switch \<Rightarrow> tag_switch_execute w ex self caller
      | C_tag_while \<Rightarrow> tag_while_execute ex n self caller
      | C_tag_split \<Rightarrow> tag_split_execute w ex self caller
      | C_tag_substr \<Rightarrow> tag_substr_execute w ex n self caller
      | C_tag_tag \<Rightarrow> tag_tag_execute ex self caller
      | C_tag_usr \<Rightarrow> tag_usr_execute w ex n self
      | C_tag_call \<Rightarrow> tag_call_execute w ex n self
      | C_tag_execute \<Rightarrow> tag_execute_execute ex self
      | C_tag_async \<Rightarrow> tag_async_execute ex self caller
      | C_tag_expression \<Rightarrow> tag_expression_execute w ex n self
      | C_tag_cdata \<Rightarrow> tag_cdata_execute self
      | C_tag_unknown \<Rightarrow> tag_unknown_execute w ex self caller
      | C_map m \<Rightarrow> map_execute w ex m self caller
      | C_list l \<Rightarrow> list_execute w ex l self caller
      | C_io i \<Rightarrow> io_execute w ex i n self caller
      | C_function f \<Rightarrow> function_execute w ex f self caller)"

primrec execute :: "'d world \<Rightarrow> nat \<Rightarrow> exec_fn" where
  "execute w 0 = (\<lambda>self caller. divergeM)"
| "execute w (Suc n) =
     (\<lambda>self caller. bindM (derefM self) (\<lambda>me. dispatch w (execute w n) n (cls me) self caller))"

end
