(* ===== verification/Parser.thy ===== *)
theory Parser
  imports Interp
begin

text \<open>
  The page parser, \<open>parser/dbpx_parser.cpp\<close>, and the optimizer it ends with. libxml2's text reader is
  a parameter: opening a file gives the sequence of nodes the reader visits and the code of the last
  read, or fails. Parsing runs in the same state as execution, because the parser evaluates
  attributes of \<open>dbp:include\<close> and \<open>dbp:tag\<close> while it builds the tree.
\<close>

record xml_attr =
  a_prefixed :: bool
  a_uri :: string
  a_local :: string
  a_name :: string
  a_value :: string

datatype xml_event =
    Ev_element (e_local: string) (e_uri: string) (e_name: string) (e_depth: int) (e_attrs: "xml_attr list")
  | Ev_end
  | Ev_text string int
  | Ev_cdata string int
  | Ev_other

text \<open>
  The reader of a file, its last error message, and the URL an include resolves to (\<open>url::copy_from\<close>
  and \<open>url::normalize\<close> of dcl).
\<close>

record reader_env =
  xml_open :: "string \<Rightarrow> (xml_event list \<times> int) option"
  xml_error :: "string \<Rightarrow> string"
  include_url :: "string \<Rightarrow> string \<Rightarrow> string"

definition dbpager_custom_uri :: string where
  "dbpager_custom_uri = ''http://dbpager.org.ru/schemas/dbp/3.0/custom''"

definition its_uri :: string where
  "its_uri = ''http://www.w3.org/2005/11/its''"

section \<open>Tree building\<close>

text \<open>The climb of \<open>make_relationship\<close>: \<open>k\<close> steps up from \<open>p\<close>.\<close>

fun climb :: "nat \<Rightarrow> store \<Rightarrow> nat option \<Rightarrow> exn \<Rightarrow> nat outcome" where
  "climb 0 h p e = (case p of None \<Rightarrow> Crash | Some t \<Rightarrow> Ok t)"
| "climb (Suc k) h p e =
     (case p of
        None \<Rightarrow> Crash
      | Some t \<Rightarrow>
         (case h t of
            None \<Rightarrow> Crash
          | Some n \<Rightarrow> (case nparent n of None \<Rightarrow> Throw e | Some q \<Rightarrow> climb k h (Some q) e)))"

definition nested_error :: "'d dcl \<Rightarrow> string \<Rightarrow> exn" where
  "nested_error d name = Parser_exc 0 (fmt d ''invalid nested tags ({0})'' [name])"

definition make_relationship :: "'d dcl \<Rightarrow> string \<Rightarrow> nat option \<Rightarrow> nat \<Rightarrow> store \<Rightarrow> store outcome" where
  "make_relationship d name current rslt h =
     (case current of
        None \<Rightarrow> Ok h
      | Some c \<Rightarrow>
         (case (h c, h rslt) of
            (Some cn, Some rn) \<Rightarrow>
              if ndepth rn = ndepth cn then
                (case nparent cn of
                   None \<Rightarrow> Throw (nested_error d name)
                 | Some p \<Rightarrow> add_child p rslt h)
              else if ndepth rn > ndepth cn then add_child c rslt h
              else
                (case climb (nat (ndepth cn - ndepth rn)) h (nparent cn) (nested_error d name) of
                   Ok p \<Rightarrow> add_child p rslt h
                 | Throw e \<Rightarrow> Throw e
                 | Crash \<Rightarrow> Crash
                 | Diverge \<Rightarrow> Diverge)
          | _ \<Rightarrow> Crash))"

text \<open>A local \<open>context ctx (NULL)\<close>, for as long as the body runs.\<close>

definition in_new_context :: "'a prog \<Rightarrow> 'a prog" where
  "in_new_context m s =
     (case m (s\<lparr>ctxs := new_context [] []\<rparr>) of (r, t, s1) \<Rightarrow> (r, t, s1\<lparr>ctxs := ctxs s\<rparr>))"

text \<open>\<open>tag_impl::add_parameter\<close>, and its override \<open>tag_tag::add_parameter\<close> that names a custom tag.\<close>

definition add_parameterM :: "exec_fn \<Rightarrow> nat \<Rightarrow> string \<Rightarrow> nat \<Rightarrow> unit prog" where
  "add_parameterM ex t name p =
     seqM (storeM (add_parameter t name p))
      (bindM (derefM t) (\<lambda>n.
         if cls n = C_tag_tag \<and> name = ''name'' then
           bindM (in_new_context (capture (ex p (Some t)))) (\<lambda>v.
             storeM (upd t (\<lambda>n. n\<lparr>nname := ''@'' @ v\<rparr>)))
         else ret ()))"

definition process_attribute :: "exec_fn \<Rightarrow> nat \<Rightarrow> xml_attr \<Rightarrow> unit prog" where
  "process_attribute ex t a =
     bindM (allocM (new_node C_tag_expression [])) (\<lambda>p.
     seqM (storeM (set_parent p t))
      (seqM (storeM (upd p (set_text (a_value a))))
        (if \<not> a_prefixed a then add_parameterM ex t (a_name a) p
         else if is_prefix dbpager_uri (a_uri a) then
           add_parameterM ex t (''@DBP:PARAM@'' @ a_local a) p
         else ret ())))"

definition process_attributes :: "exec_fn \<Rightarrow> nat \<Rightarrow> xml_attr list \<Rightarrow> unit prog" where
  "process_attributes ex t as = forM as (process_attribute ex t)"

section \<open>Nodes\<close>

text \<open>The tag object of an element; \<open>None\<close> for the ignored namespace.\<close>

definition element_tag :: "'d world \<Rightarrow> factory \<Rightarrow> string \<Rightarrow> string \<Rightarrow> string \<Rightarrow> node option outcome" where
  "element_tag w f uri object qname =
     (if is_prefix dbpager_custom_uri uri then Ok (Some (new_node C_tag_usr object))
      else if is_prefix dbpager_uri uri then map_outcome_state Some (create_tag (dclib w) f uri object)
      else if uri = its_uri then Ok None
      else Ok (Some (new_node C_tag_unknown qname)))"

text \<open>
  \<open>delete\<close> of a tag without children: the tag and its parameters. The two tags the parser deletes, the
  include tag and the root of the included tree after its children were moved, have none.
\<close>

definition delete_tag :: "nat \<Rightarrow> unit prog" where
  "delete_tag t =
     bindM (derefM t) (\<lambda>n.
       modM (\<lambda>s. s\<lparr>heap := (\<lambda>a. if a = t \<or> a \<in> snd ` set (nparams n) then None else heap s a)\<rparr>))"

definition splice_include :: "nat option \<Rightarrow> nat \<Rightarrow> nat option \<Rightarrow> nat option prog" where
  "splice_include current rslt included =
     (case included of
        None \<Rightarrow> crashM
      | Some r \<Rightarrow>
          bindM (derefM r) (\<lambda>rn.
          seqM
           (case current of
              None \<Rightarrow> if nchilds rn = [] then ret () else crashM
            | Some c \<Rightarrow> storeM (move_childs_to r c))
           (seqM (delete_tag rslt) (seqM (delete_tag r) (ret current)))))"

definition text_child :: "'d world \<Rightarrow> tag_class \<Rightarrow> string \<Rightarrow> string \<Rightarrow> int \<Rightarrow> nat option \<Rightarrow> nat option prog" where
  "text_child w k name value depth current =
     bindM (allocM ((set_text value (new_node k []))\<lparr>ndepth := depth\<rparr>)) (\<lambda>t.
     seqM (storeM (make_relationship (dclib w) name current t)) (ret current))"

text \<open>
  \<open>tag_usr::link\<close>; in a tree the climb visits every node at most once, so the number of addresses
  ever allocated bounds it.
\<close>

definition linkM :: "nat \<Rightarrow> unit prog" where
  "linkM t s = storeM (link (next_tag s) t) s"

text \<open>
  \<open>process_node\<close>; \<open>sub\<close> parses an included file. The result is the node the function returns, \<open>None\<close>
  for \<open>NULL\<close>.
\<close>

definition process_element ::
  "'d world \<Rightarrow> factory \<Rightarrow> exec_fn \<Rightarrow> (string \<Rightarrow> nat option prog) \<Rightarrow> nat option \<Rightarrow>
     string \<Rightarrow> string \<Rightarrow> string \<Rightarrow> int \<Rightarrow> xml_attr list \<Rightarrow> nat option prog" where
  "process_element w f ex sub current object uri qname depth as =
     bindM (liftO (element_tag w f uri object qname)) (\<lambda>tn.
       case tn of
         None \<Rightarrow> ret None
       | Some tn \<Rightarrow>
           bindM (allocM (tn\<lparr>ndepth := depth\<rparr>)) (\<lambda>rslt.
           seqM (process_attributes ex rslt as)
            (bindM (derefM rslt) (\<lambda>rn.
               if nname rn = ''include'' then
                 bindM (in_new_context (get_parameter ex rslt ''href'')) (\<lambda>href.
                   if href = [] then throwM (Parser_exc 0 ''href parameter missing for tag include'')
                   else bindM (sub href) (splice_include current rslt))
               else
                 seqM (storeM (make_relationship (dclib w) qname current rslt))
                  (seqM (if cls rn = C_tag_usr then linkM rslt else ret ())
                    (ret (Some rslt)))))))"

definition process_end :: "nat option \<Rightarrow> nat option prog" where
  "process_end current =
     (case current of
        None \<Rightarrow> crashM
      | Some c \<Rightarrow>
          bindM (derefM c) (\<lambda>cn. ret (if nname cn = ''module'' then Some c else nparent cn)))"

definition process_node ::
  "'d world \<Rightarrow> factory \<Rightarrow> exec_fn \<Rightarrow> (string \<Rightarrow> nat option prog) \<Rightarrow> nat option \<Rightarrow> xml_event \<Rightarrow> nat option prog" where
  "process_node w f ex sub current ev =
     (case ev of
        Ev_element object uri qname depth as \<Rightarrow>
          process_element w f ex sub current object uri qname depth as
      | Ev_end \<Rightarrow> process_end current
      | Ev_text value depth \<Rightarrow> text_child w C_tag_expression ''#text'' value depth current
      | Ev_cdata value depth \<Rightarrow> text_child w C_tag_cdata ''#cdata-section'' value depth current
      | Ev_other \<Rightarrow> ret current)"

section \<open>Files\<close>

text \<open>The loop of \<open>parse\<close>, with the root and the current node.\<close>

fun parse_loop :: "(nat option \<Rightarrow> xml_event \<Rightarrow> nat option prog) \<Rightarrow> xml_event list \<Rightarrow> nat option \<Rightarrow> nat option \<Rightarrow> nat option prog" where
  "parse_loop pn [] root current = ret root"
| "parse_loop pn (ev # evs) root current =
     bindM (pn current ev) (\<lambda>node.
       parse_loop pn evs (if root = None then node else root) (if node = None then current else node))"

text \<open>The passes of the optimizer are commented out: it returns the tree.\<close>

definition optimize :: "nat option \<Rightarrow> nat option" where
  "optimize tree = tree"

fun parse :: "'d world \<Rightarrow> factory \<Rightarrow> reader_env \<Rightarrow> exec_fn \<Rightarrow> nat \<Rightarrow> string \<Rightarrow> nat option prog" where
  "parse w f env ex 0 url = divergeM"
| "parse w f env ex (Suc n) url =
     (case xml_open env url of
        None \<Rightarrow> throwM (Parser_exc 1 (fmt (dclib w) ''unable to open file '{0}'. {1}'' [url, []]))
      | Some er \<Rightarrow>
         (case er of (evs, last_read) \<Rightarrow>
            bindM (parse_loop (process_node w f ex (\<lambda>href. parse w f env ex n (include_url env url href)))
                     evs None None) (\<lambda>root.
              if last_read \<noteq> 0 then
                throwM (Parser_exc 0
                  (fmt (dclib w) ''failed to parse file '{0}'. {1}'' [url, xml_error env url]))
              else ret (optimize root))))"

end
