(* ===== verification/Core_Properties.thy ===== *)
theory Core_Properties
  imports Strings Sample Parser
begin

text \<open>Properties of variable contexts, the tag store and the tag factory.\<close>

section \<open>Contexts\<close>

text \<open>
  C32: Assignment follows the abstract environment: after a successful \<open>set_value\<close> the variable has the
  new value and every other variable of the whole chain keeps its own; names are compared without
  regard to case.
\<close>

theorem set_value_updates_one:
  assumes "set_value d cs name v = Ok cs'"
  shows "get_value cs' m = (if upcase m = upcase name then v else get_value cs m)"
  using set_value_refines [OF assms] by (simp add: get_value_abs)

definition one_var :: contexts where
  "one_var = [\<lparr>vstack = [[], [(''X'', ''1'')]], estack = [], vtype = ''local'', has_services = False\<rparr>]"

theorem set_value_updates_one_witness:
  "set_value sample_dcl one_var ''x'' ''2'' = Ok [(hd one_var)\<lparr>vstack := [[], [(''X'', ''2'')]]\<rparr>] \<and>
   get_value [(hd one_var)\<lparr>vstack := [[], [(''X'', ''2'')]]\<rparr>] ''X'' = ''2''"
proof -
  have "set_value sample_dcl one_var ''x'' ''2'' = Ok [(hd one_var)\<lparr>vstack := [[], [(''X'', ''2'')]]\<rparr>]"
    by code_simp
  from this set_value_updates_one [OF this, of "''X''"] show ?thesis
    by (simp add: to_upper_def is_lower_def)
qed

text \<open>
  \<open>set_value\<close> fails exactly on a variable that is defined nowhere in the chain: assignment never
  creates a variable and never fails otherwise.
\<close>

theorem set_value_error_iff_undefined:
  "(\<exists>e. set_value d cs name v = Throw e) \<longleftrightarrow> upcase name \<notin> dom (abs_context cs)"
  by (rule set_value_undefined_iff)

text \<open>
  A variable declared in a layer of its own disappears with the layer: after \<open>enter\<close>, \<open>add_value\<close> and
  \<open>leave\<close> the chain is exactly what it was.
\<close>

theorem scope_restores:
  assumes "enter cs = Ok cs1" and "add_value d cs1 name v [] = Ok cs2"
    and "compare d (vtype (hd cs)) (vtype (hd cs))"
  shows "leave cs2 = Ok cs"
  using assms by (rule leave_restores)

theorem scope_restores_witness:
  "leave [(hd one_var)\<lparr>vstack := [(''Y'', ''3'')] # vstack (hd one_var)\<rparr>] = Ok one_var"
  by (rule scope_restores [where d = sample_dcl and name = "''Y''" and v = "''3''"
        and ?cs1.0 = "[(hd one_var)\<lparr>vstack := [] # vstack (hd one_var)\<rparr>]"])
    (simp_all add: one_var_def sample_dcl_def Let_def to_upper_def is_lower_def)

text \<open>
  \<open>get_values\<close>, from which response headers and session data are made, lists for each variable of a
  context the value of its innermost layer, once.
\<close>

theorem get_values_innermost:
  assumes "wf_layers (vstack c)"
  shows "map_of (get_values c) = abs_stack (vstack c) \<and> distinct (map fst (get_values c))"
  using get_values_abs [OF assms] get_values_distinct by blast

theorem get_values_innermost_witness:
  "map_of (get_values \<lparr>vstack = [[(''A'', ''2'')], [(''A'', ''1''), (''B'', ''3'')]], estack = [], vtype = [], has_services = False\<rparr>) ''A'' = Some ''2''"
  using get_values_innermost [of "\<lparr>vstack = [[(''A'', ''2'')], [(''A'', ''1''), (''B'', ''3'')]], estack = [], vtype = [], has_services = False\<rparr>"]
  by (simp add: wf_layers_def map_add_def)

section \<open>Tags\<close>

text \<open>
  \<open>set_text\<close> keeps every character above the space in order, leaves no control character and no two
  spaces in a row, and is idempotent.
\<close>

theorem set_text_normalises:
  "filter (\<lambda>c. 32 < code c) (ntext (set_text u n)) = filter (\<lambda>c. 32 < code c) u \<and>
   no_double_space (ntext (set_text u n)) \<and> set_text (ntext (set_text u n)) n = set_text u n"
  using squeeze_filter squeeze_no_double_space squeeze_idem by (simp add: set_text_def)

text \<open>
  In a well-formed forest the search for a custom tag always ends, without a crash, within the
  rank of its start, and what it finds carries the wanted name.
\<close>

theorem custom_tag_search_ends:
  assumes "wf_store h" and "ranked rk h" and "\<forall>p. q = Some p \<longrightarrow> p \<in> dom h \<and> rk p < k"
  shows "\<exists>r. find_scope k h q name = Ok r \<and>
    (\<forall>c. r = Some c \<longrightarrow> (\<exists>n. h c = Some n \<and> nname n = name))"
  using assms by (rule find_scope_terminates)

definition two_tags :: store where
  "two_tags = [0 \<mapsto> (new_node C_tag_impl ''module'')\<lparr>nchilds := [1]\<rparr>,
     1 \<mapsto> (new_node C_tag_tag ''@menu'')\<lparr>nparent := Some 0\<rparr>]"

theorem custom_tag_search_ends_witness:
  "\<exists>r. find_scope 2 two_tags (Some 1) ''@menu'' = Ok r \<and>
     (\<forall>c. r = Some c \<longrightarrow> (\<exists>n. two_tags c = Some n \<and> nname n = ''@menu''))"
  by (rule custom_tag_search_ends [where rk = "\<lambda>t. t"])
    (auto simp: wf_store_def ranked_def two_tags_def new_node_def split: if_splits)

text \<open>
  The factory crashes on exactly the namespaces for which it has neither built-in tags nor a
  plugin: it calls a method of the \<open>NULL\<close> it found.
\<close>

theorem factory_crashes_on_unknown_namespace:
  "create_tag d f uri obj = Crash \<longleftrightarrow> map_of (builtins f) uri = None \<and> map_of (plugins f) uri = None"
  by (rule create_tag_crash_iff)

text \<open>
  A registered plugin provides its objects unless a plugin registered earlier for the namespace
  already does, and changes nothing else.
\<close>

theorem plugin_objects_available:
  assumes "map_of (builtins f) uri = None"
  shows "create_tag d (register_plugin uri p f) uri obj =
    (case create_tag d f uri obj of
       Ok n \<Rightarrow> Ok n
     | _ \<Rightarrow> (case p obj of Some k \<Rightarrow> Ok (new_node k obj) | None \<Rightarrow> Throw (unknown_tag d obj)))"
  using assms by (rule create_after_register)

theorem plugin_objects_available_witness:
  "create_tag sample_dcl (register_plugin ''urn:x'' (\<lambda>x. if x = ''q'' then Some C_tag_impl else None) tag_factory) ''urn:x'' ''q'' =
     Ok (new_node C_tag_impl ''q'')"
  using plugin_objects_available [of tag_factory "''urn:x''" sample_dcl "\<lambda>x. if x = ''q'' then Some C_tag_impl else None" "''q''"]
  by (simp add: tag_factory_def dbpager_uri_def create_tag_def)

end
