(* ===== verification/Fuel.thy ===== *)
theory Fuel
  imports Interp
begin

text \<open>
  More fuel never changes a result. The interface \<open>more_fuel\<close> relates two programs of which the
  second does at least as much as the first; every tag class is monotone in the program it calls
  and in its own bound, so the interpreter is monotone in its fuel.
\<close>

section \<open>Loops and operators\<close>

lemma leM_at: "leM m m' \<Longrightarrow> fst (m s) = Diverge \<or> m s = m' s"
  by (simp add: leM_def)

lemma find_scope_mono: "n \<le> m \<Longrightarrow> find_scope n h p name = Diverge \<or> find_scope n h p name = find_scope m h p name"
proof (induction n h p name arbitrary: m rule: find_scope.induct)
  case (3 k h p name)
  then obtain m' where "m = Suc m'" "k \<le> m'" by (cases m) auto
  with 3 show ?case by (auto split: outcome.splits option.splits)
qed auto

lemma leM_scopeM [leM_intros]: "n \<le> m \<Longrightarrow> leM (scopeM n p name) (scopeM m p name)"
  using find_scope_mono by (auto simp: leM_def scopeM_def)

lemma replace_loop_mono:
  "n \<le> m \<Longrightarrow> replace_loop n s p r i = Diverge \<or> replace_loop n s p r i = replace_loop m s p r i"
proof (induction n arbitrary: m s i)
  case (Suc n)
  then obtain m' where "m = Suc m'" "n \<le> m'" by (cases m) auto
  with Suc.IH show ?case by (auto split: option.splits)
qed simp

lemma leM_replace [leM_intros]: "n \<le> m \<Longrightarrow> leM (liftO (replace_with n s p r)) (liftO (replace_with m s p r))"
  using replace_loop_mono by (auto simp: leM_def liftO_def replace_with_def)

lemma leM_while [leM_intros]:
  "leM t t' \<Longrightarrow> leM b b' \<Longrightarrow> n \<le> m \<Longrightarrow> leM (while_loop n t b) (while_loop m t' b')"
proof (induction n arbitrary: m)
  case (Suc n)
  then obtain m' where "m = Suc m'" "n \<le> m'" by (cases m) auto
  with Suc show ?case by (auto intro!: leM_intros)
qed (auto intro: leM_intros)

lemma leM_find_loop [leM_intros]:
  "leM b b' \<Longrightarrow> n \<le> m \<Longrightarrow> leM (find_loop n w e v b i) (find_loop m w e v b' i)"
proof (induction n arbitrary: m i)
  case (Suc n)
  then obtain m' where "m = Suc m'" "n \<le> m'" by (cases m) auto
  with Suc show ?case by (auto intro!: leM_intros)
qed (auto intro: leM_intros)

lemma leM_number_errors [leM_intros]: "leM m m' \<Longrightarrow> leM (number_errors w m) (number_errors w m')"
  unfolding number_errors_def by (intro leM_intros)

lemma leM_arith_step [leM_intros]: "leM m m' \<Longrightarrow> leM (arith_step w f l m) (arith_step w f l m')"
  unfolding arith_step_def by (intro leM_intros)

lemma leM_compare_step [leM_intros]: "leM m m' \<Longrightarrow> leM (compare_step w f l m) (compare_step w f l m')"
  unfolding compare_step_def by (intro leM_intros)

lemma leM_eval_scan [leM_intros]:
  "(\<And>x. leM (ce x) (ce' x)) \<Longrightarrow> leM (eval_scan w ce prev br cur s) (eval_scan w ce' prev br cur s)"
  by (induction s arbitrary: prev br cur) (auto intro!: leM_intros)

section \<open>Tag classes\<close>

text \<open>The interface: a called program and one that does at least as much.\<close>

locale more_fuel =
  fixes ex ex' :: exec_fn
  assumes le [leM_intros]: "leM (ex t c) (ex' t c)"
begin

lemma run_call_mono [leM_intros]: "leM (run_call d ex self nd args) (run_call d ex' self nd args)"
  unfolding leM_def
proof
  fix s
  have "leM (finallyM (capture (ex t None)) f) (finallyM (capture (ex' t None)) f)" for t f
    by (intro leM_intros)
  from leM_at [OF this]
  show "fst (run_call d ex self nd args s) = Diverge \<or>
      run_call d ex self nd args s = run_call d ex' self nd args s"
    by (cases "install_call d self nd args s") (simp_all add: run_call_def)
qed

lemma execute_function_mono [leM_intros]:
  "leM (execute_function w ex self name ps) (execute_function w ex' self name ps)"
  unfolding execute_function_def by (auto intro!: leM_intros split: outcome.split)

lemma calculator_mono:
  "n \<le> m \<Longrightarrow>
    leM (lexpr w ex self n) (lexpr w ex' self m) \<and>
    leM (expr w ex self n) (expr w ex' self m) \<and>
    (\<forall>l. leM (expr_loop w ex self n l) (expr_loop w ex' self m l)) \<and>
    leM (term_expr w ex self n) (term_expr w ex' self m) \<and>
    (\<forall>l. leM (term_loop w ex self n l) (term_loop w ex' self m l)) \<and>
    leM (prim w ex self n) (prim w ex' self m)"
proof (induction n arbitrary: m)
  case 0
  then show ?case by (auto intro: leM_intros)
next
  case (Suc n)
  then obtain k where m: "m = Suc k" and le: "n \<le> k" by (cases m) auto
  note IH = Suc.IH [OF le]
  have "leM (prim w ex self (Suc n)) (prim w ex' self m)"
    unfolding m prim.simps
    by (rule leM_bind, rule leM_refl) (use IH in \<open>auto intro!: leM_intros split: token_type.split\<close>)
  moreover have "leM (lexpr w ex self (Suc n)) (lexpr w ex' self m)"
    unfolding m lexpr.simps using IH by (auto intro!: leM_intros)
  ultimately show ?case
    using IH unfolding m by (auto intro!: leM_intros)
qed

lemma calc_mono [leM_intros]: "n \<le> m \<Longrightarrow> leM (calc w ex self n e) (calc w ex' self m e)"
  unfolding calc_def using calculator_mono [of n m w self] by (intro leM_intros) auto

lemma eval_mono [leM_intros]: "n \<le> m \<Longrightarrow> leM (eval w ex self n e) (eval w ex' self m e)"
proof (induction n arbitrary: m e)
  case (Suc n)
  then obtain k where "m = Suc k" and "n \<le> k" by (cases m) auto
  with Suc.IH show ?case by (auto intro!: leM_intros)
qed (auto intro: leM_intros)

lemma tag_expression_mono [leM_intros]:
  "n \<le> m \<Longrightarrow> leM (tag_expression_execute w ex n self) (tag_expression_execute w ex' m self)"
  unfolding tag_expression_execute_def by (intro leM_intros)

lemma impl_mono [leM_intros]: "leM (impl_execute ex self c) (impl_execute ex' self c)"
  unfolding impl_execute_def by (intro leM_intros)

lemma get_parameter_mono [leM_intros]: "leM (get_parameter ex self name) (get_parameter ex' self name)"
  unfolding get_parameter_def by (intro leM_intros)

lemma bind_params_mono [leM_intros]: "leM (bind_params w ex self ps) (bind_params w ex' self ps)"
  unfolding bind_params_def by (intro leM_intros)

lemma execute_direct_mono [leM_intros]: "leM (execute_direct ex self c) (execute_direct ex' self c)"
  unfolding execute_direct_def by (intro leM_intros)

lemma process_exception_mono [leM_intros]:
  "leM (process_exception w ex self e c) (process_exception w ex' self e c)"
  unfolding process_exception_def by (intro leM_intros)

lemma async_child_mono [leM_intros]: "leM (async_child ex c t) (async_child ex' c t)"
  unfolding leM_def
proof
  fix s
  from leM_at [OF le [of t c], of "s\<lparr>ctxs := new_context ''local'' (ctxs s)\<rparr>"]
  show "fst (async_child ex c t s) = Diverge \<or> async_child ex c t s = async_child ex' c t s"
    by (auto simp: async_child_def Let_def split: prod.splits outcome.splits)
qed

lemma write_attribute_mono [leM_intros]:
  "leM (write_attribute ex self conv kp) (write_attribute ex' self conv kp)"
  unfolding write_attribute_def by (intro leM_intros)

lemma real_execute_mono [leM_intros]: "leM (real_execute w ex self c) (real_execute w ex' self c)"
  unfolding real_execute_def Let_def by (intro leM_intros)

lemma with_arg_mono [leM_intros]:
  "(\<And>t. leM (b t) (b' t)) \<Longrightarrow> leM (with_arg w ex self b) (with_arg w ex' self b')"
  unfolding with_arg_def with_args_def by (intro leM_intros)

lemma with_args_mono [leM_intros]:
  "(\<And>t. leM (b t) (b' t)) \<Longrightarrow> leM (with_args w k self b) (with_args w k self b')"
  unfolding with_args_def by (intro leM_intros)

lemma function_mono [leM_intros]:
  "leM (function_execute w ex k self c) (function_execute w ex' k self c)"
  unfolding function_execute_def function_defs by (cases k; simp; intro leM_intros)

lemma map_mono [leM_intros]: "leM (map_execute w ex k self c) (map_execute w ex' k self c)"
  unfolding map_execute_def map_defs Let_def by (cases k; simp; intro leM_intros)

lemma list_mono [leM_intros]: "leM (list_execute w ex k self c) (list_execute w ex' k self c)"
  unfolding list_execute_def list_defs by (cases k; simp; intro leM_intros)

lemma io_mono [leM_intros]:
  "n \<le> m \<Longrightarrow> leM (io_execute w ex k n self c) (io_execute w ex' k m self c)"
  unfolding io_execute_def io_defs Let_def by (cases k; simp; intro leM_intros)

lemmas core_defs = tag_var_execute_def tag_set_execute_def tag_try_execute_def
  tag_catch_execute_def tag_throw_execute_def tag_case_execute_def tag_switch_execute_def
  tag_while_execute_def tag_split_execute_def split_each_def split_many_def tag_substr_execute_def
  tag_tag_execute_def tag_usr_execute_def tag_call_execute_def tag_execute_execute_def
  tag_async_execute_def tag_unknown_execute_def

lemma dispatch_mono:
  "n \<le> m \<Longrightarrow> leM (dispatch w ex n k self c) (dispatch w ex' m k self c)"
  unfolding dispatch_def core_defs Let_def by (cases k; simp; intro leM_intros)

end

lemma execute_mono: "n \<le> m \<Longrightarrow> leM (execute w n t c) (execute w m t c)"
proof (induction n arbitrary: m t c)
  case (Suc n)
  then obtain k where m: "m = Suc k" and le: "n \<le> k" by (cases m) auto
  from Suc.IH [OF le] have "more_fuel (execute w n) (execute w k)" by unfold_locales
  from more_fuel.dispatch_mono [OF this le] show ?case
    unfolding m execute.simps by (intro leM_intros)
qed (simp add: leM_diverge)

interpretation fuel_step: more_fuel "execute w n" "execute w (n + k)" for w n k
  by unfold_locales (rule execute_mono, simp)

end
