(* ===== verification/Frame.thy ===== *)
theory Frame
  imports Fuel
begin

text \<open>
  What running a page leaves as it found it. The locale \<open>tag_frame\<close> is the interface between the
  tag classes and the state: one law per primitive the tag classes use. A relation between states
  that satisfies the laws is kept by every tag class, hence by the interpreter, on every path that
  returns or throws. The locale \<open>data_frame\<close> gives the laws for relations that do not look at the
  contexts at all.
\<close>

definition leaky :: "tag_class \<Rightarrow> bool" where
  "leaky k \<longleftrightarrow> k = C_tag_split \<or> k = C_tag_execute"

definition call_class :: "tag_class \<Rightarrow> bool" where
  "call_class k \<longleftrightarrow> k = C_tag_usr \<or> (\<exists>f. k = C_function f)"

locale tag_frame = kept R for R :: "state \<Rightarrow> state \<Rightarrow> bool" +
  fixes w :: "'d world"
  assumes R_lx: "R s (s\<lparr>lx := l\<rparr>)"
    and R_files: "R s (s\<lparr>files := fs\<rparr>)"
    and R_logged: "R s (s\<lparr>logged := ls\<rparr>)"
    and R_tick: "R s (s\<lparr>tick := i\<rparr>)"
    and pres_put_umap [pres_intros]: "pres R (put_umap a um)"
    and pres_put_vlist [pres_intros]: "pres R (put_vlist a xs)"
    and pres_with_umap [pres_intros]: "(\<And>a. pres R (f a)) \<Longrightarrow> pres R (with_umap f :: unit prog)"
    and pres_with_vlist [pres_intros]: "(\<And>a. pres R (g a)) \<Longrightarrow> pres R (with_vlist g :: unit prog)"
    and pres_add [pres_intros]: "pres R (addM w k v ty)"
    and pres_set [pres_intros]: "pres R (setM w k v)"
    and pres_scoped [pres_intros]: "pres R (m :: unit prog) \<Longrightarrow> pres R (scoped m)"
    and pres_calling [pres_intros]: "pres R (m :: unit prog) \<Longrightarrow> pres R (calling t m)"
    and pres_bracket: "pres R (m :: unit prog) \<Longrightarrow>
      pres R (seqM enterM (seqM (forM kvs (\<lambda>(k, v). addM w k v [])) (finallyM m leaveM)))"
    and pres_call: "(\<And>t. pres R (ex t None)) \<Longrightarrow> call_class (cls nd) \<Longrightarrow>
      pres R (run_call (dclib w) ex self nd args)"
    and pres_async [pres_intros]: "pres R (ex c caller) \<Longrightarrow> pres R (async_child ex caller c)"
    and pres_leaky: "(\<And>t c. pres R (ex t c)) \<Longrightarrow>
      pres R (bindM (derefM self) (\<lambda>me. if leaky (cls me) then dispatch w ex n (cls me) self caller else ret ()))"
begin

lemma pres_tok [pres_intros]: "pres R (tokM w)"
  by (auto intro!: presI R_lx simp: tokM_def split: prod.splits option.splits)

lemma pres_tok_type [pres_intros]: "pres R tok_type"
  by (auto intro!: presI R_refl simp: tok_type_def split: option.splits)

lemma pres_mod_lx [pres_intros]: "pres R (modM (\<lambda>s. s\<lparr>lx := f s\<rparr>))"
  by (intro pres_mod R_lx)

lemma pres_mod_files [pres_intros]: "pres R (modM (\<lambda>s. s\<lparr>files := f s\<rparr>))"
  by (intro pres_mod R_files)

lemma pres_mod_logged [pres_intros]: "pres R (modM (\<lambda>s. s\<lparr>logged := f s\<rparr>))"
  by (intro pres_mod R_logged)

lemma pres_tick [pres_intros]: "pres R tickM"
  by (auto intro!: presI R_tick simp: tickM_def)

lemma pres_scopeM [pres_intros]: "pres R (scopeM n p name)"
  by (auto intro!: presI R_refl simp: scopeM_def)

lemma pres_to_double [pres_intros]: "pres R (to_doubleM w t)"
  unfolding to_doubleM_def by (intro pres_intros)

lemma pres_number_errors [pres_intros]: "pres R m \<Longrightarrow> pres R (number_errors w m)"
  unfolding number_errors_def by (auto intro!: pres_intros split: exn.split exc_kind.split)

lemma pres_arith_step [pres_intros]: "pres R m \<Longrightarrow> pres R (arith_step w f l m)"
  unfolding arith_step_def by (intro pres_intros)

lemma pres_compare_step [pres_intros]: "pres R m \<Longrightarrow> pres R (compare_step w f l m)"
  unfolding compare_step_def by (intro pres_intros)

lemma pres_eval_scan [pres_intros]: "(\<And>x. pres R (ce x)) \<Longrightarrow> pres R (eval_scan w ce prev br cur s)"
  by (induction s arbitrary: prev br cur) (auto intro!: pres_intros)

lemma pres_while [pres_intros]: "pres R t \<Longrightarrow> pres R b \<Longrightarrow> pres R (while_loop n t b)"
  by (induction n) (auto intro!: pres_intros)

lemma pres_find_loop [pres_intros]: "pres R b \<Longrightarrow> pres R (find_loop n w e v b i)"
  by (induction n arbitrary: i) (auto intro!: pres_intros)

lemma builtin_function_class:
  "create_tag d tag_factory dbpager_uri (CHR ''@'' # name) = Ok nd \<Longrightarrow> call_class (cls nd)"
  by (auto simp: create_tag_def tag_factory_def builtin_table_def new_node_def call_class_def
      split: if_splits)

end

text \<open>The tag classes, with the called program as a second interface.\<close>

locale tag_frame_calls = tag_frame +
  fixes ex :: exec_fn
  assumes pres_ex [pres_intros]: "pres R (ex t c)"
begin

lemma pres_execute_function [pres_intros]: "pres R (execute_function w ex self name ps)"
proof -
  have usr: "pres R (run_call (dclib w) ex self (new_node C_tag_usr t) args)" for t args
    by (rule pres_call [OF pres_ex]) (simp add: call_class_def new_node_def)
  have builtin: "pres R (run_call (dclib w) ex self nd args)"
    if "create_tag (dclib w) tag_factory dbpager_uri (''@'' @ name) = Ok nd" for nd args
    using that by (intro pres_call [OF pres_ex]) (auto dest: builtin_function_class)
  show ?thesis unfolding execute_function_def
    by (auto intro: pres_throw pres_liftO usr builtin split: outcome.split)
qed

lemma pres_calculator:
  "pres R (lexpr w ex self n) \<and> pres R (expr w ex self n) \<and> (\<forall>l. pres R (expr_loop w ex self n l)) \<and>
   pres R (term_expr w ex self n) \<and> (\<forall>l. pres R (term_loop w ex self n l)) \<and> pres R (prim w ex self n)"
proof (induction n)
  case 0
  show ?case by (auto intro: pres_intros)
next
  case (Suc n)
  then have "pres R (prim w ex self (Suc n))"
    unfolding prim.simps
    by (intro pres_bind pres_tok_type) (auto intro!: pres_intros split: token_type.split)
  moreover from Suc have "pres R (lexpr w ex self (Suc n))"
    unfolding lexpr.simps by (auto intro!: pres_intros)
  ultimately show ?case using Suc by (auto intro!: pres_intros)
qed

lemma pres_calc [pres_intros]: "pres R (calc w ex self n e)"
  unfolding calc_def using pres_calculator by (intro pres_intros) auto

lemma pres_eval [pres_intros]: "pres R (eval w ex self n e)"
  by (induction n arbitrary: e) (auto intro!: pres_intros)

lemma pres_tag_expression [pres_intros]: "pres R (tag_expression_execute w ex n self)"
  unfolding tag_expression_execute_def by (intro pres_intros)

lemma pres_impl [pres_intros]: "pres R (impl_execute ex self c)"
  unfolding impl_execute_def by (intro pres_intros)

lemma pres_get_parameter [pres_intros]: "pres R (get_parameter ex self name)"
  unfolding get_parameter_def by (intro pres_intros)

lemma pres_get_child [pres_intros]: "pres R (get_childM t name)"
  unfolding get_childM_def by (intro pres_intros)

lemma pres_no_custom_tag [pres_intros]: "pres R (no_custom_tag w name)"
  unfolding no_custom_tag_def by (intro pres_intros)

lemma pres_bind_params [pres_intros]: "pres R (bind_params w ex self ps)"
  unfolding bind_params_def by (intro pres_intros)

lemma pres_process_exception [pres_intros]: "pres R (process_exception w ex self e c)"
  unfolding process_exception_def by (auto intro!: pres_intros split: exn.split)

lemma pres_write_attribute [pres_intros]: "pres R (write_attribute ex self conv kp)"
  unfolding write_attribute_def by (intro pres_intros)

lemma pres_asis [pres_intros]: "pres R (asis_param me)"
  unfolding asis_param_def by (intro pres_intros)

lemma pres_real_execute [pres_intros]: "pres R (real_execute w ex self c)"
  unfolding real_execute_def Let_def by (intro pres_intros)

lemma pres_with_args [pres_intros]: "(\<And>t. pres R (b t)) \<Longrightarrow> pres R (with_args w k self b)"
  unfolding with_args_def wrong_args_def by (intro pres_intros)

lemma pres_with_arg [pres_intros]: "(\<And>t. pres R (b t)) \<Longrightarrow> pres R (with_arg w ex self b)"
  unfolding with_arg_def by (intro pres_intros)

lemma pres_parse_date [pres_intros]: "pres R (parse_date w t f)"
  unfolding parse_date_def by (intro pres_intros)

lemma pres_function [pres_intros]: "pres R (function_execute w ex k self c)"
  unfolding function_execute_def function_defs by (cases k; simp; intro pres_intros)

lemma pres_container [pres_intros]:
  "pres R (map_ptr w name)" "pres R (map_types_ptr w name)" "pres R (list_ptr w name)"
  unfolding map_ptr_def map_types_ptr_def list_ptr_def container_def no_map_def
  by (intro pres_intros)+

lemma pres_bad_json [pres_intros]: "pres R (bad_json w k buf)"
  unfolding bad_json_def by (intro pres_intros)

lemma pres_typed_json [pres_intros]: "pres R (typed_json w ty v)"
  unfolding typed_json_def by (intro pres_intros)

lemma pres_json_case [pres_intros]:
  assumes "\<And>vs. pres R (f vs)" "\<And>kvs. pres R (g kvs)" "pres R m"
  shows "pres R (case j of J_array vs \<Rightarrow> f vs | J_object kvs \<Rightarrow> g kvs | _ \<Rightarrow> m)"
    and "pres R (case j of J_object kvs \<Rightarrow> g kvs | _ \<Rightarrow> m)"
  using assms by (auto split: json.split)

lemma pres_map_values: "pres R (tag_map_values_execute w ex self c)"
  unfolding tag_map_values_execute_def Let_def
proof (intro pres_bind pres_get_parameter pres_container pres_get_umap)
  fix name prefix0 :: string and m
  let ?prefix = "if prefix0 = [] then name else prefix0"
  show "pres R (seqM enterM
        (seqM (forM (um_iter (um_order (dclib w)) m) (\<lambda>(k, v). addM w (?prefix @ ''_'' @ k) v []))
          (finallyM (impl_execute ex self c) leaveM)))"
    using pres_bracket [OF pres_impl, of "map (\<lambda>(k, v). (?prefix @ ''_'' @ k, v)) (um_iter (um_order (dclib w)) m)"]
    by (simp add: forM_map case_prod_unfold comp_def)
qed

lemma pres_map [pres_intros]: "pres R (map_execute w ex k self c)"
proof (cases "k = C_tag_map_values")
  case True
  then show ?thesis by (simp add: map_execute_def pres_map_values)
next
  case False
  then show ?thesis unfolding map_execute_def map_defs
    by (cases k; simp; intro pres_intros)
qed

lemma pres_list_tags [pres_intros]: "pres R (list_execute w ex k self c)"
  unfolding list_execute_def list_defs by (cases k; simp; intro pres_intros)

lemma pres_http_header [pres_intros]: "pres R (http_header kp)"
  unfolding http_header_def by (intro pres_intros)

lemma pres_io [pres_intros]: "pres R (io_execute w ex k n self c)"
  unfolding io_execute_def io_defs Let_def by (cases k; simp; intro pres_intros)

lemma pres_unknown [pres_intros]: "pres R (tag_unknown_execute w ex self c)"
proof -
  have 1: "pres R (seqM enterM (seqM (addM w k v []) (finallyM m leaveM)))"
    if "pres R (m :: unit prog)" for k v m
    using pres_bracket [OF that, of "[(k, v)]"] by simp
  show ?thesis unfolding tag_unknown_execute_def
    by (rule pres_bind [OF pres_value], rule pres_if, rule 1) (intro pres_intros)+
qed

lemma pres_cdata [pres_intros]: "pres R (tag_cdata_execute self)"
  unfolding tag_cdata_execute_def by (intro pres_intros)

lemma pres_dispatch: "\<not> leaky k \<Longrightarrow> pres R (dispatch w ex n k self c)"
  unfolding dispatch_def leaky_def
    tag_var_execute_def tag_set_execute_def tag_try_execute_def
    tag_catch_execute_def tag_throw_execute_def tag_case_execute_def tag_switch_execute_def
    tag_while_execute_def tag_substr_execute_def
    tag_tag_execute_def tag_usr_execute_def tag_call_execute_def tag_async_execute_def
  by (cases k; simp; intro pres_intros)

lemma pres_execute_step: "pres R (bindM (derefM self) (\<lambda>me. dispatch w ex n (cls me) self c))"
proof (rule presI)
  fix s r out s'
  assume *: "bindM (derefM self) (\<lambda>me. dispatch w ex n (cls me) self c) s = (r, out, s')"
    "r \<noteq> Crash" "r \<noteq> Diverge"
  show "R s s'"
  proof (cases "heap s self")
    case None
    with * show ?thesis by (simp add: bindM_def derefM_def)
  next
    case (Some me)
    show ?thesis
    proof (cases "leaky (cls me)")
      case True
      with Some * presD [OF pres_leaky [of ex self n c, OF pres_ex], of s] show ?thesis
        by (simp add: bindM_def derefM_def)
    next
      case False
      from Some * presD [OF pres_dispatch [OF False, of n self c], of s] show ?thesis
        by (auto simp: bindM_def derefM_def split: prod.splits)
    qed
  qed
qed

end

context tag_frame
begin

lemma pres_execute: "pres R (execute w n t c)"
proof (induction n arbitrary: t c)
  case (Suc n)
  then have "tag_frame_calls R w (execute w n)" by unfold_locales
  then show ?case unfolding execute.simps by (rule tag_frame_calls.pres_execute_step)
qed (simp add: pres_diverge)

end

section \<open>Relations that allow changes of variables\<close>

text \<open>
  A relation that any change of variables keeps, as long as the chain keeps its length, is kept by
  every tag, the two leaking ones included.
\<close>

locale chain_frame = kept R for R :: "state \<Rightarrow> state \<Rightarrow> bool" +
  fixes w :: "'d world"
  assumes D_chain: "length cs = length (ctxs s) \<Longrightarrow> R s (s\<lparr>ctxs := cs\<rparr>)"
    and D_lx: "R s (s\<lparr>lx := l\<rparr>)"
    and D_files: "R s (s\<lparr>files := fs\<rparr>)"
    and D_logged: "R s (s\<lparr>logged := ls\<rparr>)"
    and D_tick: "R s (s\<lparr>tick := i\<rparr>)"
    and D_put_umap: "pres R (put_umap a um)"
    and D_put_vlist: "pres R (put_vlist a xs)"
    and D_with_umap: "(\<And>a. pres R (f a)) \<Longrightarrow> pres R (with_umap f :: unit prog)"
    and D_with_vlist: "(\<And>a. pres R (g a)) \<Longrightarrow> pres R (with_vlist g :: unit prog)"
    and D_call: "(\<And>t. pres R (ex t None)) \<Longrightarrow> call_class (cls nd) \<Longrightarrow>
      pres R (run_call (dclib w) ex self nd args)"
    and D_async: "pres R (ex c caller) \<Longrightarrow> pres R (async_child ex caller c)"
begin

lemma pres_ctxM: "(\<And>cs cs'. f cs = Ok cs' \<Longrightarrow> length cs' = length cs) \<Longrightarrow> pres R (ctxM f)"
  by (auto intro!: presI D_chain R_refl simp: ctxM_def split: outcome.splits)

lemma pres_ctx_ops [pres_intros]:
  "pres R enterM" "pres R leaveM" "pres R (addM w k v ty)" "pres R (setM w k v)" "pres R (pushM t)"
  unfolding enterM_def leaveM_def addM_def setM_def pushM_def by (rule pres_ctxM, simp add: ctx_lengths)+

lemma pres_pop [pres_intros]: "pres R popM"
  by (auto intro!: presI D_chain R_refl simp: popM_def pop_caller_length split: outcome.splits prod.splits)

lemma pres_leaky_data:
  assumes [pres_intros]: "\<And>t c. pres R (ex t c)"
  shows "pres R (bindM (derefM self)
     (\<lambda>me. if leaky (cls me) then dispatch w ex n (cls me) self caller else ret ()))"
proof -
  have [pres_intros]: "pres R (impl_execute ex t c)" "pres R (get_parameter ex t name)"
    "pres R (get_childM t name)" for t c name
    unfolding impl_execute_def get_parameter_def get_childM_def by (intro pres_intros)+
  have "pres R (tag_split_execute w ex self caller)"
    unfolding tag_split_execute_def Let_def split_each_def split_many_def by (intro pres_intros)
  moreover have "pres R (tag_execute_execute ex self)"
    unfolding tag_execute_execute_def execute_direct_def by (intro pres_intros)
  ultimately show ?thesis
    by (auto intro!: pres_intros simp: leaky_def dispatch_def)
qed

end

sublocale chain_frame \<subseteq> tag_frame
proof unfold_locales
  fix m :: "unit prog" assume "pres R m"
  then show "pres R (scoped m)" "pres R (calling t m)"
    "pres R (seqM enterM (seqM (forM kvs (\<lambda>(k, v). addM w k v [])) (finallyM m leaveM)))" for t kvs
    unfolding scoped_def calling_def by (intro pres_intros; simp)+
qed (fact D_lx D_files D_logged D_tick D_put_umap D_put_vlist D_with_umap D_with_vlist D_call
      pres_ctx_ops D_async pres_leaky_data)+

section \<open>Relations on the data\<close>

locale data_frame = kept R for R :: "state \<Rightarrow> state \<Rightarrow> bool" +
  fixes w :: "'d world"
  assumes E_ctxs: "R s (s\<lparr>ctxs := cs\<rparr>)"
    and E_lx: "R s (s\<lparr>lx := l\<rparr>)"
    and E_files: "R s (s\<lparr>files := fs\<rparr>)"
    and E_logged: "R s (s\<lparr>logged := ls\<rparr>)"
    and E_tick: "R s (s\<lparr>tick := i\<rparr>)"
    and E_put_umap: "pres R (put_umap a um)"
    and E_put_vlist: "pres R (put_vlist a xs)"
    and E_with_umap: "(\<And>a. pres R (f a)) \<Longrightarrow> pres R (with_umap f :: unit prog)"
    and E_with_vlist: "(\<And>a. pres R (g a)) \<Longrightarrow> pres R (with_vlist g :: unit prog)"
    and E_call: "(\<And>t. pres R (ex t None)) \<Longrightarrow> call_class (cls nd) \<Longrightarrow>
      pres R (run_call (dclib w) ex self nd args)"
begin

lemma pres_async_data: "pres R (ex c caller) \<Longrightarrow> pres R (async_child ex caller c)"
proof (rule presI)
  fix s r t s'
  assume ex: "pres R (ex c caller)" and *: "async_child ex caller c s = (r, t, s')" "r \<noteq> Crash" "r \<noteq> Diverge"
  let ?s = "s\<lparr>ctxs := new_context ''local'' (ctxs s)\<rparr>"
  obtain r1 t1 s1 where 1: "ex c caller ?s = (r1, t1, s1)" by (cases "ex c caller ?s")
  with * have 2: "s' = s1\<lparr>ctxs := tl (ctxs s1)\<rparr>" "r1 \<noteq> Crash" "r1 \<noteq> Diverge"
    by (auto simp: async_child_def Let_def split: outcome.splits)
  from presD [OF ex 1 2(2,3)] E_ctxs show "R s s'" unfolding 2(1) by (blast intro: R_trans)
qed

end

sublocale data_frame \<subseteq> chain_frame
  by unfold_locales (rule E_ctxs, (fact E_lx E_files E_logged E_tick E_put_umap E_put_vlist E_with_umap E_with_vlist
      E_call pres_async_data)+)

end
