(* ===== verification/Invariants.thy ===== *)
theory Invariants
  imports Frame
begin

text \<open>
  Three relations kept by the interpreter: the tag tree is read-only while a page runs, the
  containers of \<open>dbp:map\<close> and \<open>dbp:list\<close> are gone when their tag ends, and the contexts keep their
  shape on pages without the two tag classes that do not restore them on an exception.
\<close>

section \<open>Temporary tags\<close>

lemma finally_mod:
  "finallyM m (modM f) s = (case m s of
      (Ok x, t, s1) \<Rightarrow> (Ok x, t, f s1)
    | (Throw e, t, s1) \<Rightarrow> (Throw e, t, f s1)
    | (Crash, t, s1) \<Rightarrow> (Crash, t, s1)
    | (Diverge, t, s1) \<Rightarrow> (Diverge, t, s1))"
  by (auto simp: finallyM_def prog_defs split: prod.split outcome.split)

text \<open>Hence a body followed by a clean-up on both paths.\<close>

lemma finally_mod_cases:
  assumes "finallyM m (modM f) s = (r, t, s')" and "r \<noteq> Crash" and "r \<noteq> Diverge"
  obtains s1 where "m s = (r, t, s1)" and "s' = f s1"
  using assms by (auto simp: finally_mod split: prod.splits outcome.splits)

lemma fold_upd_outside:
  "x \<notin> g ` fst ` set ps \<Longrightarrow> fold (\<lambda>(i, a) h. h(g i \<mapsto> f a)) ps h x = h x"
  by (induction ps arbitrary: h) auto

lemma fold_upd_range:
  "fold (\<lambda>(i, a) h. h(g i \<mapsto> f a)) ps h x = Some n \<Longrightarrow> h x = Some n \<or> (\<exists>a. n = f a)"
proof (induction ps arbitrary: h)
  case (Cons p ps)
  obtain i a where p: "p = (i, a)" by (cases p)
  from Cons.prems [unfolded p] Cons.IH [of "h(g i \<mapsto> f a)"] show ?case by (auto split: if_splits)
qed simp

lemma fold_call_outside:
  "x \<le> t \<or> t + k < x \<Longrightarrow>
     fold (\<lambda>(i, a) h. h(Suc (t + i) \<mapsto> f a)) (zip [0..<k] xs) h x = h x"
  by (rule fold_upd_outside) (auto dest: set_zip_leftD)

lemma install_call_frame:
  assumes "install_call d self nd args s = Some s1"
  shows "next_tag s1 = Suc (next_tag s + length args)"
    and "\<And>x. x < next_tag s \<or> next_tag s + length args < x \<Longrightarrow> heap s1 x = heap s x"
    and "ctxs s1 = ctxs s" and "umaps s1 = umaps s" and "vlists s1 = vlists s"
    and "next_addr s1 = next_addr s"
  using assms by (auto simp: install_call_def Let_def fold_call_outside split: option.splits)

lemma install_call_classes:
  assumes "install_call d self nd args s = Some s1" and "heap s1 x = Some n"
  shows "heap s x = Some n \<or> cls n = cls nd \<or> cls n = C_tag_expression"
  using assms by (auto simp: install_call_def Let_def call_param_def set_text_def new_node_def
      split: option.splits if_splits dest!: fold_upd_range)

lemma run_call_cases:
  assumes "run_call d ex self nd args s = (r, t, s')" and "r \<noteq> Crash" and "r \<noteq> Diverge"
  obtains s1 s2 where "install_call d self nd args s = Some s1"
    and "capture (ex (next_tag s) None) s1 = (r, t, s2)"
    and "s' = s2\<lparr>heap := (\<lambda>a. if next_tag s \<le> a \<and> a \<le> next_tag s + length args then None else heap s2 a)\<rparr>"
  using assms
  by (auto simp: run_call_def delete_call_def split: option.splits elim!: finally_mod_cases)

section \<open>Automatic containers\<close>

lemma with_umap_cases:
  assumes "with_umap f s = (r, t, s')" and "r \<noteq> Crash" and "r \<noteq> Diverge"
  obtains s1 where "f (next_addr s) (s\<lparr>umaps := (umaps s)(next_addr s \<mapsto> []), next_addr := Suc (next_addr s)\<rparr>) = (r, t, s1)"
    and "s' = s1\<lparr>umaps := (umaps s1)(next_addr s := None)\<rparr>"
  using assms
  by (auto simp: with_umap_def bindM_def seqM_def getM_def modM_def elim!: finally_mod_cases
      split: prod.splits)

lemma with_vlist_cases:
  assumes "with_vlist f s = (r, t, s')" and "r \<noteq> Crash" and "r \<noteq> Diverge"
  obtains s1 where "f (next_addr s) (s\<lparr>vlists := (vlists s)(next_addr s \<mapsto> []), next_addr := Suc (next_addr s)\<rparr>) = (r, t, s1)"
    and "s' = s1\<lparr>vlists := (vlists s1)(next_addr s := None)\<rparr>"
  using assms
  by (auto simp: with_vlist_def bindM_def seqM_def getM_def modM_def elim!: finally_mod_cases
      split: prod.splits)

lemma pres_with_umapI:
  assumes f: "\<And>a. pres R (f a)"
    and R: "\<And>s s1. R (s\<lparr>umaps := (umaps s)(next_addr s \<mapsto> []), next_addr := Suc (next_addr s)\<rparr>) s1 \<Longrightarrow>
      R s (s1\<lparr>umaps := (umaps s1)(next_addr s := None)\<rparr>)"
  shows "pres R (with_umap f)"
proof (rule presI)
  fix s r t s'
  assume *: "with_umap f s = (r, t, s')" "r \<noteq> Crash" "r \<noteq> Diverge"
  then obtain s1 where 1: "f (next_addr s) (s\<lparr>umaps := (umaps s)(next_addr s \<mapsto> []), next_addr := Suc (next_addr s)\<rparr>) = (r, t, s1)"
    and s': "s' = s1\<lparr>umaps := (umaps s1)(next_addr s := None)\<rparr>"
    by (rule with_umap_cases)
  from R [OF presD [OF f 1 *(2,3)]] show "R s s'" unfolding s' .
qed

lemma pres_with_vlistI:
  assumes f: "\<And>a. pres R (f a)"
    and R: "\<And>s s1. R (s\<lparr>vlists := (vlists s)(next_addr s \<mapsto> []), next_addr := Suc (next_addr s)\<rparr>) s1 \<Longrightarrow>
      R s (s1\<lparr>vlists := (vlists s1)(next_addr s := None)\<rparr>)"
  shows "pres R (with_vlist f)"
proof (rule presI)
  fix s r t s'
  assume *: "with_vlist f s = (r, t, s')" "r \<noteq> Crash" "r \<noteq> Diverge"
  then obtain s1 where 1: "f (next_addr s) (s\<lparr>vlists := (vlists s)(next_addr s \<mapsto> []), next_addr := Suc (next_addr s)\<rparr>) = (r, t, s1)"
    and s': "s' = s1\<lparr>vlists := (vlists s1)(next_addr s := None)\<rparr>"
    by (rule with_vlist_cases)
  from R [OF presD [OF f 1 *(2,3)]] show "R s s'" unfolding s' .
qed

section \<open>The tag tree is read-only\<close>

definition fresh_tags :: "state \<Rightarrow> bool" where
  "fresh_tags s \<longleftrightarrow> (\<forall>a\<ge>next_tag s. heap s a = None)"

definition R_tree :: "state \<Rightarrow> state \<Rightarrow> bool" where
  "R_tree s s' \<longleftrightarrow> (fresh_tags s \<longrightarrow> heap s' = heap s \<and> next_tag s \<le> next_tag s')"

interpretation rt: kept R_tree
  by unfold_locales (auto simp: R_tree_def fresh_tags_def)

lemma R_tree_call:
  assumes ex: "\<And>t. pres R_tree (ex t None)"
  shows "pres R_tree (run_call d ex self nd args)"
proof (rule presI)
  fix s r t s'
  assume "run_call d ex self nd args s = (r, t, s')" and r: "r \<noteq> Crash" "r \<noteq> Diverge"
  then obtain s1 s2 where 1: "install_call d self nd args s = Some s1"
    and 2: "capture (ex (next_tag s) None) s1 = (r, t, s2)"
    and s': "s' = s2\<lparr>heap := (\<lambda>a. if next_tag s \<le> a \<and> a \<le> next_tag s + length args then None else heap s2 a)\<rparr>"
    by (rule run_call_cases)
  note inst = install_call_frame [OF 1]
  from presD [OF rt.pres_capture [OF ex] 2 r] have R: "R_tree s1 s2" .
  show "R_tree s s'"
    unfolding R_tree_def
  proof
    assume fresh: "fresh_tags s"
    then have "fresh_tags s1" using inst(1,2) by (auto simp: fresh_tags_def)
    with R have h: "heap s2 = heap s1" "next_tag s1 \<le> next_tag s2" by (auto simp: R_tree_def)
    have "heap s' a = heap s a" for a
      using fresh inst(2) [of a] by (auto simp: s' h fresh_tags_def not_le)
    then show "heap s' = heap s \<and> next_tag s \<le> next_tag s'" using h inst(1) by (auto simp: s')
  qed
qed

lemma R_tree_put: "pres R_tree (put_umap a um)" "pres R_tree (put_vlist a xs)"
  by (auto intro!: presI simp: put_umap_def put_vlist_def R_tree_def split: if_splits)

lemma R_tree_with:
  "(\<And>a. pres R_tree (f a)) \<Longrightarrow> pres R_tree (with_umap f)"
  "(\<And>a. pres R_tree (g a)) \<Longrightarrow> pres R_tree (with_vlist g)"
  by (rule pres_with_umapI pres_with_vlistI; simp add: R_tree_def fresh_tags_def)+

interpretation tree: data_frame R_tree w for w
  by unfold_locales (auto intro: R_tree_put R_tree_call R_tree_with simp: R_tree_def)

section \<open>Containers end with their tag\<close>

definition fresh_data :: "state \<Rightarrow> bool" where
  "fresh_data s \<longleftrightarrow> (\<forall>a\<ge>next_addr s. umaps s a = None \<and> vlists s a = None)"

definition R_data :: "state \<Rightarrow> state \<Rightarrow> bool" where
  "R_data s s' \<longleftrightarrow> (fresh_data s \<longrightarrow>
     dom (umaps s') = dom (umaps s) \<and> dom (vlists s') = dom (vlists s) \<and>
     next_addr s \<le> next_addr s')"

lemma fresh_data_dom: "fresh_data s \<longleftrightarrow> dom (umaps s) \<union> dom (vlists s) \<subseteq> {..<next_addr s}"
  by (force simp: fresh_data_def dom_def not_le)

lemma fresh_data_kept: "fresh_data s \<Longrightarrow> R_data s t \<Longrightarrow> fresh_data t"
  by (simp add: R_data_def fresh_data_dom) (meson lessThan_subset_iff subset_trans)

interpretation rd: kept R_data
proof unfold_locales
  show "R_data s s" for s by (simp add: R_data_def)
  show "R_data s u" if "R_data s t" "R_data t u" for s t u
    using that fresh_data_kept [of s t] by (auto simp: R_data_def simp del: domIff dest: le_trans)
qed

lemma R_data_call:
  assumes ex: "\<And>t. pres R_data (ex t None)"
  shows "pres R_data (run_call d ex self nd args)"
proof (rule presI)
  fix s r t s'
  assume "run_call d ex self nd args s = (r, t, s')" and r: "r \<noteq> Crash" "r \<noteq> Diverge"
  then obtain s1 s2 where 1: "install_call d self nd args s = Some s1"
    and 2: "capture (ex (next_tag s) None) s1 = (r, t, s2)"
    and s': "s' = s2\<lparr>heap := (\<lambda>a. if next_tag s \<le> a \<and> a \<le> next_tag s + length args then None else heap s2 a)\<rparr>"
    by (rule run_call_cases)
  from presD [OF rd.pres_capture [OF ex] 2 r] install_call_frame [OF 1] show "R_data s s'"
    by (simp add: R_data_def fresh_data_def s')
qed

lemma R_data_put: "pres R_data (put_umap a um)" "pres R_data (put_vlist a xs)"
  by (auto intro!: presI simp: put_umap_def put_vlist_def R_data_def split: if_splits)

lemma R_data_umap:
  assumes "R_data (s\<lparr>umaps := (umaps s)(next_addr s \<mapsto> []), next_addr := Suc (next_addr s)\<rparr>) s1"
  shows "R_data s (s1\<lparr>umaps := (umaps s1)(next_addr s := None)\<rparr>)"
  unfolding R_data_def
proof
  assume "fresh_data s"
  moreover then have "fresh_data (s\<lparr>umaps := (umaps s)(next_addr s \<mapsto> []), next_addr := Suc (next_addr s)\<rparr>)"
    by (simp add: fresh_data_def)
  ultimately show "dom (umaps (s1\<lparr>umaps := (umaps s1)(next_addr s := None)\<rparr>)) = dom (umaps s) \<and>
      dom (vlists (s1\<lparr>umaps := (umaps s1)(next_addr s := None)\<rparr>)) = dom (vlists s) \<and>
      next_addr s \<le> next_addr (s1\<lparr>umaps := (umaps s1)(next_addr s := None)\<rparr>)"
    using assms by (simp add: R_data_def fresh_data_def domIff)
qed

lemma R_data_vlist:
  assumes "R_data (s\<lparr>vlists := (vlists s)(next_addr s \<mapsto> []), next_addr := Suc (next_addr s)\<rparr>) s1"
  shows "R_data s (s1\<lparr>vlists := (vlists s1)(next_addr s := None)\<rparr>)"
  unfolding R_data_def
proof
  assume "fresh_data s"
  moreover then have "fresh_data (s\<lparr>vlists := (vlists s)(next_addr s \<mapsto> []), next_addr := Suc (next_addr s)\<rparr>)"
    by (simp add: fresh_data_def)
  ultimately show "dom (umaps (s1\<lparr>vlists := (vlists s1)(next_addr s := None)\<rparr>)) = dom (umaps s) \<and>
      dom (vlists (s1\<lparr>vlists := (vlists s1)(next_addr s := None)\<rparr>)) = dom (vlists s) \<and>
      next_addr s \<le> next_addr (s1\<lparr>vlists := (vlists s1)(next_addr s := None)\<rparr>)"
    using assms by (simp add: R_data_def fresh_data_def domIff)
qed

lemma R_data_with:
  "(\<And>a. pres R_data (f a)) \<Longrightarrow> pres R_data (with_umap f)"
  "(\<And>a. pres R_data (g a)) \<Longrightarrow> pres R_data (with_vlist g)"
  by (rule pres_with_umapI pres_with_vlistI; simp add: R_data_umap R_data_vlist)+

interpretation data: data_frame R_data w for w
  by unfold_locales (auto intro: R_data_put R_data_call R_data_with simp: R_data_def)

section \<open>Contexts keep their shape\<close>

text \<open>
  \<open>tag_split\<close> enters a layer before its \<open>try\<close> block and \<open>tag_execute\<close> does not push back the caller
  it popped when the body throws; every other class restores the contexts on both paths. The law of
  the external library used is that \<open>compare\<close> finds a text equal to itself.
\<close>

definition leak_free :: "store \<Rightarrow> bool" where
  "leak_free h \<longleftrightarrow> (\<forall>t n. h t = Some n \<longrightarrow> \<not> leaky (cls n))"

definition compare_refl :: "'d dcl \<Rightarrow> bool" where
  "compare_refl d \<longleftrightarrow> (\<forall>x. compare d x x)"

definition R_shape :: "'d world \<Rightarrow> state \<Rightarrow> state \<Rightarrow> bool" where
  "R_shape w s s' \<longleftrightarrow> (compare_refl (dclib w) \<longrightarrow> leak_free (heap s) \<longrightarrow>
     leak_free (heap s') \<and> same_shape (ctxs s) (ctxs s'))"

interpretation rs: kept "R_shape w" for w
  by unfold_locales (auto simp: R_shape_def intro: same_shape_trans)

lemma R_shape_call:
  assumes ex: "\<And>t. pres (R_shape w) (ex t None)" and nd: "call_class (cls nd)"
  shows "pres (R_shape w) (run_call d ex self nd args)"
proof (rule presI)
  fix s r t s'
  assume "run_call d ex self nd args s = (r, t, s')" and r: "r \<noteq> Crash" "r \<noteq> Diverge"
  then obtain s1 s2 where 1: "install_call d self nd args s = Some s1"
    and 2: "capture (ex (next_tag s) None) s1 = (r, t, s2)"
    and s': "s' = s2\<lparr>heap := (\<lambda>a. if next_tag s \<le> a \<and> a \<le> next_tag s + length args then None else heap s2 a)\<rparr>"
    by (rule run_call_cases)
  have nl: "\<not> leaky (cls nd)" "\<not> leaky C_tag_expression"
    using nd by (auto simp: call_class_def leaky_def)
  have inst: "leak_free (heap s1)" if "leak_free (heap s)"
    unfolding leak_free_def
  proof (intro allI impI)
    fix x n assume "heap s1 x = Some n"
    from install_call_classes [OF 1 this] that nl show "\<not> leaky (cls n)"
      by (auto simp: leak_free_def)
  qed
  have del: "leak_free (heap s')" if "leak_free (heap s2)"
    using that by (simp add: leak_free_def s')
  from presD [OF rs.pres_capture [OF ex] 2 r] inst del show "R_shape w s s'"
    by (simp add: R_shape_def install_call_frame(3) [OF 1] s')
qed

text \<open>A bracket: what opens it extends the shape, and what closes it undoes that.\<close>

lemma finally_ctx_cases:
  assumes "finallyM m (ctxM f) s = (r, t, s')" and "r \<noteq> Crash" and "r \<noteq> Diverge"
    and f: "\<And>cs e. f cs \<noteq> Throw e"
  obtains s1 cs where "m s = (r, t, s1)" and "f (ctxs s1) = Ok cs" and "s' = s1\<lparr>ctxs := cs\<rparr>"
proof -
  obtain r1 t1 s1 where 1: "m s = (r1, t1, s1)" by (cases "m s")
  obtain cs where "f (ctxs s1) = Ok cs \<and> r1 = r \<and> t1 = t \<and> s' = s1\<lparr>ctxs := cs\<rparr>"
    using assms(1-3) 1 f [of "ctxs s1"]
    by (cases "f (ctxs s1)"; cases r1) (auto simp: finallyM_def prog_defs)
  with 1 that show thesis by blast
qed

lemma R_shape_bracket:
  assumes m: "pres (R_shape w) m"
    and opens: "\<And>s r t s1. b s = (r, t, s1) \<Longrightarrow> compare_refl (dclib w) \<Longrightarrow> 
      r = Crash \<or> (r = Ok () \<and> heap s1 = heap s \<and> Opened (ctxs s) (ctxs s1))"
    and f: "\<And>cs e. f cs \<noteq> Throw e"
    and closes: "\<And>cs cs1 cs2 cs3. Opened cs cs1 \<Longrightarrow> same_shape cs1 cs2 \<Longrightarrow> f cs2 = Ok cs3 \<Longrightarrow> same_shape cs cs3"
  shows "pres (R_shape w) (seqM b (finallyM m (ctxM f)))"
proof (rule presI)
  fix s r t s'
  assume *: "seqM b (finallyM m (ctxM f)) s = (r, t, s')" "r \<noteq> Crash" "r \<noteq> Diverge"
  show "R_shape w s s'"
    unfolding R_shape_def
  proof (intro impI)
    assume c: "compare_refl (dclib w)" and l: "leak_free (heap s)"
    obtain r1 t1 s1 where 1: "b s = (r1, t1, s1)" by (cases "b s")
    from opens [OF 1 c] 1 * have 2: "r1 = Ok ()" "heap s1 = heap s" "Opened (ctxs s) (ctxs s1)"
      by (auto simp: seqM_def bindM_def)
    obtain r2 t2 s2 where 3: "finallyM m (ctxM f) s1 = (r2, t2, s2)" by (cases "finallyM m (ctxM f) s1")
    with 1 2 * have 4: "r2 = r" "s2 = s'" by (auto simp: seqM_def bindM_def)
    from 3 * obtain s3 cs where 5: "m s1 = (r, t2, s3)" "f (ctxs s3) = Ok cs" "s' = s3\<lparr>ctxs := cs\<rparr>"
      unfolding 4 by (elim finally_ctx_cases [OF _ _ _ f])
    from presD [OF m 5(1) *(2,3)] c l have "leak_free (heap s3)" "same_shape (ctxs s1) (ctxs s3)"
      unfolding R_shape_def 2(2) by auto
    with closes [OF 2(3) _ 5(2)] show "leak_free (heap s') \<and> same_shape (ctxs s) (ctxs s')"
      by (simp add: 5(3))
  qed
qed

definition entered :: "contexts \<Rightarrow> contexts \<Rightarrow> bool" where
  "entered cs cs1 \<longleftrightarrow> (\<exists>cs0. enter cs = Ok cs0 \<and> same_shape cs0 cs1)"

lemma entered_closes: "entered cs cs1 \<Longrightarrow> same_shape cs1 cs2 \<Longrightarrow> leave cs2 = Ok cs3 \<Longrightarrow> same_shape cs cs3"
  unfolding entered_def using leave_after_enter_shape same_shape_trans by fastforce

lemma leave_no_throw: "leave cs \<noteq> Throw e"
  by (cases cs) (auto split: list.splits)

lemma enter_no_throw: "enter cs \<noteq> Throw e" "enter cs \<noteq> Diverge"
  by (cases cs; simp)+

lemma adds_Ok:
  assumes "compare_refl (dclib w)" and "ctxs s = c # cs" and "vstack c \<noteq> []"
  shows "\<exists>cs'. forM kvs (\<lambda>(k, v). addM w k v []) s = (Ok (), [], s\<lparr>ctxs := cs'\<rparr>) \<and>
    same_shape (ctxs s) cs'"
  using assms(2,3)
proof (induction kvs arbitrary: s c)
  case Nil
  then show ?case by (auto simp: ret_def intro!: exI [of _ "ctxs s"])
next
  case (Cons kv kvs)
  obtain k v where kv: "kv = (k, v)" by (cases kv)
  from Cons.prems obtain l ls where l: "vstack c = l # ls" by (cases "vstack c") auto
  let ?c = "c\<lparr>vstack := um_put (upcase k) v l # ls\<rparr>"
  have 1: "addM w k v [] s = (Ok (), [], s\<lparr>ctxs := ?c # cs\<rparr>)"
    using assms(1) Cons.prems l by (simp add: addM_def ctxM_def compare_refl_def)
  have "\<exists>cs'. forM kvs (\<lambda>(k, v). addM w k v []) (s\<lparr>ctxs := ?c # cs\<rparr>) =
      (Ok (), [], (s\<lparr>ctxs := ?c # cs\<rparr>)\<lparr>ctxs := cs'\<rparr>) \<and> same_shape (ctxs (s\<lparr>ctxs := ?c # cs\<rparr>)) cs'"
    by (rule Cons.IH [of _ ?c]) simp_all
  then obtain cs' where 2: "forM kvs (\<lambda>(k, v). addM w k v []) (s\<lparr>ctxs := ?c # cs\<rparr>) =
      (Ok (), [], s\<lparr>ctxs := cs'\<rparr>)" "same_shape (?c # cs) cs'" by auto
  from 2(2) have "same_shape (c # cs) cs'" using l by (auto simp: same_ctx_def)
  with 1 2(1) show ?case by (auto simp: kv seqM_def bindM_def Cons.prems)
qed

lemma R_shape_scoped: "pres (R_shape w) m \<Longrightarrow> pres (R_shape w) (scoped m)"
  unfolding scoped_def enterM_def leaveM_def
  by (rule R_shape_bracket [where Opened = entered])
    (auto simp: ctxM_def entered_def leave_no_throw enter_no_throw intro: entered_closes
       split: outcome.splits)

lemma seq_assoc: "seqM (seqM a b) c = seqM a (seqM b c)"
  by (simp add: seqM_def bind_assoc)

lemma enter_adds:
  assumes "seqM enterM (forM kvs (\<lambda>(k, v). addM w k v [])) s = (r, t, s1)" and "compare_refl (dclib w)"
  shows "r = Crash \<or> (r = Ok () \<and> heap s1 = heap s \<and> entered (ctxs s) (ctxs s1))"
proof (cases "ctxs s")
  case Nil
  with assms(1) show ?thesis by (auto simp: seqM_def bindM_def enterM_def ctxM_def)
next
  case (Cons c cs)
  let ?cs = "c\<lparr>vstack := [] # vstack c\<rparr> # cs"
  have 1: "enterM s = (Ok (), [], s\<lparr>ctxs := ?cs\<rparr>)" using Cons by (simp add: enterM_def ctxM_def)
  from adds_Ok [OF assms(2), of "s\<lparr>ctxs := ?cs\<rparr>" _ _ kvs] obtain cs' where
    2: "forM kvs (\<lambda>(k, v). addM w k v []) (s\<lparr>ctxs := ?cs\<rparr>) = (Ok (), [], s\<lparr>ctxs := cs'\<rparr>)"
      "same_shape ?cs cs'" by fastforce
  with 1 assms(1) Cons show ?thesis by (auto simp: seqM_def bindM_def entered_def)
qed

lemma R_shape_enter_adds:
  "pres (R_shape w) m \<Longrightarrow>
     pres (R_shape w) (seqM enterM (seqM (forM kvs (\<lambda>(k, v). addM w k v [])) (finallyM m leaveM)))"
  unfolding seq_assoc [symmetric] leaveM_def
  by (rule R_shape_bracket [where Opened = entered])
    (auto simp: leave_no_throw intro: entered_closes dest: enter_adds)

definition pushed :: "contexts \<Rightarrow> contexts \<Rightarrow> bool" where
  "pushed cs cs1 \<longleftrightarrow> (\<exists>t. push_caller t cs = Ok cs1)"

lemma pop_ctxM: "bindM popM (\<lambda>_. ret ()) = ctxM (\<lambda>cs. map_outcome_state snd (pop_caller cs))"
  by (auto simp: prog_defs popM_def fun_eq_iff split: prod.split outcome.split)

lemma pop_no_throw: "pop_caller cs \<noteq> Throw e"
  by (cases cs) (auto split: list.splits)

lemma pushed_closes:
  assumes "pushed cs cs1" and "same_shape cs1 cs2" and "pop_caller cs2 = Ok (t, cs3)"
  shows "same_shape cs cs3"
  using assms by (cases cs) (auto simp: pushed_def same_ctx_def split: list.splits)

lemma R_shape_calling:
  assumes "pres (R_shape w) m" shows "pres (R_shape w) (calling t m)"
  unfolding calling_def pushM_def pop_ctxM using assms
proof (rule R_shape_bracket [where Opened = pushed])
  fix s r out s1 assume *: "ctxM (push_caller t) s = (r, out, s1)"
  show "r = Crash \<or> (r = Ok () \<and> heap s1 = heap s \<and> pushed (ctxs s) (ctxs s1))"
  proof (cases "ctxs s")
    case (Cons c cs)
    have "pushed (c # cs) (c\<lparr>estack := t # estack c\<rparr> # cs)"
      unfolding pushed_def by (rule exI [of _ t]) simp
    with * Cons show ?thesis by (auto simp: ctxM_def)
  qed (use * in \<open>simp add: ctxM_def\<close>)
qed (auto simp: pop_no_throw intro: pushed_closes)

lemma R_shape_async:
  assumes ex: "pres (R_shape w) (ex c caller)"
  shows "pres (R_shape w) (async_child ex caller c)"
proof (rule presI)
  fix s r t s'
  assume *: "async_child ex caller c s = (r, t, s')" "r \<noteq> Crash" "r \<noteq> Diverge"
  let ?s = "s\<lparr>ctxs := new_context ''local'' (ctxs s)\<rparr>"
  obtain r1 t1 s1 where 1: "ex c caller ?s = (r1, t1, s1)" by (cases "ex c caller ?s")
  with * have 2: "s' = s1\<lparr>ctxs := tl (ctxs s1)\<rparr>" "r1 \<noteq> Crash" "r1 \<noteq> Diverge"
    by (auto simp: async_child_def Let_def split: outcome.splits)
  from presD [OF ex 1 2(2,3)] show "R_shape w s s'"
    by (auto simp: R_shape_def 2(1) new_context_def)
qed

lemma R_shape_leaky:
  "pres (R_shape w) (bindM (derefM self)
     (\<lambda>me. if leaky (cls me) then dispatch w ex n (cls me) self caller else ret ()))"
  by (auto intro!: presI simp: bindM_def derefM_def R_shape_def leak_free_def ret_def
      split: option.splits if_splits)

lemma R_shape_ctx:
  "pres (R_shape w) (addM w k v ty)" "pres (R_shape w) (setM w k v)"
  by (auto intro!: presI simp: addM_def setM_def ctxM_def R_shape_def split: outcome.splits
      dest: add_value_shape set_value_shape)

lemma R_shape_put: "pres (R_shape w) (put_umap a um)" "pres (R_shape w) (put_vlist a xs)"
  by (auto intro!: presI simp: put_umap_def put_vlist_def R_shape_def split: if_splits)

lemma R_shape_with:
  "(\<And>a. pres (R_shape w) (f a)) \<Longrightarrow> pres (R_shape w) (with_umap f)"
  "(\<And>a. pres (R_shape w) (g a)) \<Longrightarrow> pres (R_shape w) (with_vlist g)"
  by (rule pres_with_umapI pres_with_vlistI; simp add: R_shape_def)+

interpretation shape: tag_frame "R_shape w" w for w
  by unfold_locales
    (auto intro: R_shape_put R_shape_with R_shape_ctx R_shape_scoped R_shape_calling
       R_shape_enter_adds R_shape_call R_shape_async R_shape_leaky simp: R_shape_def)

section \<open>The chain of contexts keeps its length\<close>

text \<open>Leaking tags leave layers behind, never contexts.\<close>

definition R_chain :: "state \<Rightarrow> state \<Rightarrow> bool" where
  "R_chain s s' \<longleftrightarrow> length (ctxs s') = length (ctxs s)"

interpretation rc: kept R_chain
  by unfold_locales (auto simp: R_chain_def)

lemma R_chain_call:
  assumes ex: "\<And>t. pres R_chain (ex t None)"
  shows "pres R_chain (run_call d ex self nd args)"
proof (rule presI)
  fix s r t s'
  assume "run_call d ex self nd args s = (r, t, s')" and r: "r \<noteq> Crash" "r \<noteq> Diverge"
  then obtain s1 s2 where 1: "install_call d self nd args s = Some s1"
    and 2: "capture (ex (next_tag s) None) s1 = (r, t, s2)"
    and s': "s' = s2\<lparr>heap := (\<lambda>a. if next_tag s \<le> a \<and> a \<le> next_tag s + length args then None else heap s2 a)\<rparr>"
    by (rule run_call_cases)
  from presD [OF rc.pres_capture [OF ex] 2 r] install_call_frame [OF 1] show "R_chain s s'"
    by (simp add: R_chain_def s')
qed

lemma R_chain_async:
  assumes ex: "pres R_chain (ex c caller)"
  shows "pres R_chain (async_child ex caller c)"
proof (rule presI)
  fix s r t s'
  assume *: "async_child ex caller c s = (r, t, s')" "r \<noteq> Crash" "r \<noteq> Diverge"
  let ?s = "s\<lparr>ctxs := new_context ''local'' (ctxs s)\<rparr>"
  obtain r1 t1 s1 where 1: "ex c caller ?s = (r1, t1, s1)" by (cases "ex c caller ?s")
  with * have 2: "s' = s1\<lparr>ctxs := tl (ctxs s1)\<rparr>" "r1 \<noteq> Crash" "r1 \<noteq> Diverge"
    by (auto simp: async_child_def Let_def split: outcome.splits)
  from presD [OF ex 1 2(2,3)] show "R_chain s s'" by (simp add: R_chain_def 2(1) new_context_def)
qed

lemma R_chain_put: "pres R_chain (put_umap a um)" "pres R_chain (put_vlist a xs)"
  by (auto intro!: presI simp: put_umap_def put_vlist_def R_chain_def split: if_splits)

lemma R_chain_with:
  "(\<And>a. pres R_chain (f a)) \<Longrightarrow> pres R_chain (with_umap f)"
  "(\<And>a. pres R_chain (g a)) \<Longrightarrow> pres R_chain (with_vlist g)"
  by (rule pres_with_umapI pres_with_vlistI; simp add: R_chain_def)+

interpretation chain: chain_frame R_chain w for w
  by unfold_locales (auto intro: R_chain_put R_chain_with R_chain_call R_chain_async simp: R_chain_def)

end
