(* ===== verification/Evaluator_Correct.thy ===== *)
theory Evaluator_Correct
  imports Evaluator
begin

text \<open>
  Correctness of the expression evaluator. Templates: the scanner replaces exactly the \<open>{...}\<close>
  parts of a text. Expressions: a grammar with the precedence levels of the language, its meaning,
  and the proof that the calculator, run on the printed form, computes that meaning.
\<close>

section \<open>Templates\<close>

definition plain_char :: "char \<Rightarrow> bool" where
  "plain_char c \<longleftrightarrow> c \<noteq> CHR 0x5C \<and> c \<noteq> CHR 0x7B \<and> c \<noteq> CHR 0x7D"

datatype part = Lit string | Esc char | Sub string

fun print_part :: "part \<Rightarrow> string" where
  "print_part (Lit u) = u"
| "print_part (Esc c) = [CHR 0x5C, c]"
| "print_part (Sub e) = [CHR 0x7B] @ e @ [CHR 0x7D]"

fun wf_part :: "part \<Rightarrow> bool" where
  "wf_part (Lit u) = list_all plain_char u"
| "wf_part (Esc c) = (c \<noteq> CHR 0x5C)"
| "wf_part (Sub e) = list_all plain_char e"

fun run_part :: "(string \<Rightarrow> string prog) \<Rightarrow> part \<Rightarrow> unit prog" where
  "run_part ce (Lit u) = outM u"
| "run_part ce (Esc c) = outM [c]"
| "run_part ce (Sub e) = bindM (ce e) outM"

lemma out_append: "seqM (outM u) (seqM (outM v) m) = seqM (outM (u @ v)) m"
  by (auto simp: prog_defs fun_eq_iff split: prod.split)

lemma out_Nil [simp]: "outM [] = ret ()"
  by (simp add: prog_defs fun_eq_iff)

lemma seq_ret_left [simp]: "seqM (ret x) m = m"
  by (simp add: seqM_def)

lemma scan_literal:
  "list_all plain_char u \<Longrightarrow> prev \<noteq> CHR 0x5C \<Longrightarrow>
     \<exists>prev'. prev' \<noteq> CHR 0x5C \<and>
       eval_scan w ce prev 0 [] (u @ v) = seqM (outM u) (eval_scan w ce prev' 0 [] v)"
proof (induction u arbitrary: prev)
  case (Cons c u)
  then have c: "plain_char c" "list_all plain_char u" by auto
  from Cons.IH [OF c(2), of c] c(1) obtain prev' where p: "prev' \<noteq> CHR 0x5C"
    "eval_scan w ce c 0 [] (u @ v) = seqM (outM u) (eval_scan w ce prev' 0 [] v)"
    by (auto simp: plain_char_def)
  have "eval_scan w ce prev 0 [] ((c # u) @ v) = seqM (outM (c # u)) (eval_scan w ce prev' 0 [] v)"
    using c(1) Cons.prems(2) p(2) by (auto simp: plain_char_def out_append)
  with p(1) show ?case by blast
qed auto

lemma scan_braced:
  "list_all plain_char e \<Longrightarrow> prev \<noteq> CHR 0x5C \<Longrightarrow>
     eval_scan w ce prev 1 cur (e @ CHR 0x7D # v) =
       bindM (ce (cur @ e)) (\<lambda>t. seqM (outM t) (eval_scan w ce (CHR 0x7D) 0 [] v))"
  by (induction e arbitrary: prev cur) (auto simp: plain_char_def)

lemma scan_part:
  assumes "wf_part p" and "prev \<noteq> CHR 0x5C"
  shows "\<exists>prev'. prev' \<noteq> CHR 0x5C \<and>
    eval_scan w ce prev 0 [] (print_part p @ v) = seqM (run_part ce p) (eval_scan w ce prev' 0 [] v)"
proof (cases p)
  case (Lit u)
  with assms scan_literal [of u prev w ce v] show ?thesis by simp
next
  case (Esc c)
  with assms show ?thesis by (auto intro!: exI [of _ c])
next
  case (Sub e)
  with assms scan_braced [of e "CHR 0x7B" w ce "[]" v] show ?thesis
    by (auto intro!: exI [of _ "CHR 0x7D"] simp: seqM_def bind_assoc)
qed

lemma scan_template:
  assumes "list_all wf_part ps" and "prev \<noteq> CHR 0x5C"
  shows "eval_scan w ce prev 0 [] (concat (map print_part ps)) = forM ps (run_part ce)"
  using assms
proof (induction ps arbitrary: prev)
  case (Cons p ps)
  from Cons.prems have p: "wf_part p" and ps: "list_all wf_part ps" by auto
  from scan_part [OF p Cons.prems(2), of w ce "concat (map print_part ps)"] obtain prev' where
    "prev' \<noteq> CHR 0x5C"
    "eval_scan w ce prev 0 [] (print_part p @ concat (map print_part ps)) =
       seqM (run_part ce p) (eval_scan w ce prev' 0 [] (concat (map print_part ps)))" by blast
  with Cons.IH [OF ps] show ?case by simp
qed simp

lemma eval_plain: "list_all plain_char e \<Longrightarrow> eval w ex self (Suc n) e = ret e"
  using scan_template [of "[Lit e]" "CHR 0x00" w]
  by (auto simp: prog_defs fun_eq_iff split: prod.split outcome.split)

lemma eval_template:
  assumes "list_all wf_part ps"
  shows "eval w ex self (Suc (Suc n)) (concat (map print_part ps)) =
    capture (forM ps (run_part (calc w ex self (Suc n))))"
proof -
  have ce: "run_part (\<lambda>x. bindM (eval w ex self (Suc n) x) (calc w ex self (Suc n))) p =
      run_part (calc w ex self (Suc n)) p" if "wf_part p" for p
    using that by (cases p) (simp_all add: eval_plain del: eval.simps)
  have "forM ps (run_part (\<lambda>x. bindM (eval w ex self (Suc n) x) (calc w ex self (Suc n)))) =
      forM ps (run_part (calc w ex self (Suc n)))"
    using assms by (induction ps) (simp_all add: ce del: eval.simps)
  then show ?thesis
    using scan_template [OF assms, of "CHR 0x00" w]
    by (simp add: eval.simps(2) [of w ex self "Suc n"] del: eval.simps)
qed

section \<open>Tokens\<close>

datatype etok = K_num string | K_str char string | K_var string | K_op token_type

fun op_text :: "token_type \<Rightarrow> string" where
  "op_text T_PLUS = ''+''"
| "op_text T_MINUS = ''-''"
| "op_text T_MUL = ''*''"
| "op_text T_DIV = ''/''"
| "op_text T_MOD = ''%''"
| "op_text T_PWR = ''^''"
| "op_text T_LP = ''(''"
| "op_text T_RP = '')''"
| "op_text T_LT = ''<''"
| "op_text T_GT = ''>''"
| "op_text T_EQ = ''=''"
| "op_text T_LTEQ = ''<=''"
| "op_text T_GTEQ = ''>=''"
| "op_text T_NOTEQ = ''<>''"
| "op_text T_AND = ''&''"
| "op_text T_OR = ''|''"
| "op_text T_NOT = ''!''"
| "op_text _ = []"

fun print_tok :: "etok \<Rightarrow> string" where
  "print_tok (K_num v) = v @ '' ''"
| "print_tok (K_str q v) = [q] @ v @ [q] @ '' ''"
| "print_tok (K_var x) = ''$'' @ x @ '' ''"
| "print_tok (K_op t) = op_text t @ '' ''"

definition print_toks :: "etok list \<Rightarrow> string" where
  "print_toks ks = concat (map print_tok ks)"

fun wf_tok :: "etok \<Rightarrow> bool" where
  "wf_tok (K_num v) = (v \<noteq> [] \<and> list_all number_char v)"
| "wf_tok (K_str q v) = ((q = CHR 0x27 \<or> q = CHR 0x22) \<and> q \<notin> set v)"
| "wf_tok (K_var x) = list_all name_char x"
| "wf_tok (K_op t) = (op_text t \<noteq> [])"

text \<open>The lexer after it has read the first token of a list, and the step from any lexer.\<close>

fun next_lexer :: "lexer \<Rightarrow> etok list \<Rightarrow> lexer" where
  "next_lexer l [] = l\<lparr>input := [], tok := Some T_END\<rparr>"
| "next_lexer l (K_num v # ks) =
     l\<lparr>input := '' '' @ print_toks ks, tvalue := tvalue l @ v, tok := Some T_NUMBER\<rparr>"
| "next_lexer l (K_str q v # ks) =
     l\<lparr>input := '' '' @ print_toks ks, tvalue := tvalue l @ v, tok := Some T_NUMBER\<rparr>"
| "next_lexer l (K_var x # ks) =
     l\<lparr>input := '' '' @ print_toks ks, tname := x, tok := Some T_NAME\<rparr>"
| "next_lexer l (K_op t # ks) = l\<lparr>input := '' '' @ print_toks ks, tok := Some t\<rparr>"

lemma print_toks_simps [simp]:
  "print_toks [] = []" "print_toks (k # ks) = print_tok k @ print_toks ks"
  "print_toks (ks @ js) = print_toks ks @ print_toks js"
  by (simp_all add: print_toks_def)

lemma span_space:
  assumes "list_all P v" and "\<not> P (CHR '' '')"
  shows "takeWhile P (v @ CHR '' '' # r) = v" and "dropWhile P (v @ CHR '' '' # r) = CHR '' '' # r"
  using assms by (induction v) auto

lemma span_quote:
  assumes "q \<notin> set v"
  shows "takeWhile (\<lambda>c. c \<noteq> q) (v @ q # r) = v" and "dropWhile (\<lambda>c. c \<noteq> q) (v @ q # r) = q # r"
  using assms by (induction v) auto

lemma space_classes [simp]:
  "\<not> number_char (CHR '' '')" "\<not> name_char (CHR '' '')" "blank (CHR '' '')"
  by (simp_all add: number_char_def name_char_def blank_def is_digit_def is_alnum_def is_alpha_def
      is_upper_def is_lower_def is_space_def)

lemma number_char_first:
  assumes "number_char c"
  shows "\<not> blank c" "simple_token c = None" "c \<noteq> CHR ''<''" "c \<noteq> CHR ''>''" "c \<noteq> CHR ''!''"
proof -
  have "\<not> number_char c" if "simple_token c = Some t" for t
    using that by (auto simp: simple_token_def number_char_def is_digit_def split: if_splits)
  with assms show "simple_token c = None" by (cases "simple_token c") auto
qed (use assms in \<open>auto simp: number_char_def blank_def is_digit_def is_space_def\<close>)

lemma get_token_number:
  assumes "v \<noteq> []" and "list_all number_char v"
  shows "get_token d (l\<lparr>input := v @ CHR '' '' # r\<rparr>) =
    (None, l\<lparr>input := CHR '' '' # r, tvalue := tvalue l @ v, tok := Some T_NUMBER\<rparr>)"
proof -
  from assms obtain c v' where v: "v = c # v'" "number_char c" by (cases v) auto
  from span_space [OF assms(2) space_classes(1), of r] number_char_first [OF v(2)] v
  show ?thesis by (simp add: get_token_def)
qed

lemma get_token_op:
  "op_text t \<noteq> [] \<Longrightarrow>
     get_token d (l\<lparr>input := op_text t @ CHR '' '' # r\<rparr>) = (None, l\<lparr>input := CHR '' '' # r, tok := Some t\<rparr>)"
  by (cases t) (simp_all add: get_token_def simple_token_def blank_def is_space_def)

lemma get_token_var:
  "list_all name_char x \<Longrightarrow>
     get_token d (l\<lparr>input := CHR ''$'' # x @ CHR '' '' # r\<rparr>) =
       (None, l\<lparr>input := CHR '' '' # r, tname := x, tok := Some T_NAME\<rparr>)"
  using span_space [of name_char x r]
  by (simp add: get_token_def simple_token_def blank_def is_space_def number_char_def is_digit_def)

lemma lex_quoted_closed:
  "q \<notin> set v \<Longrightarrow> lex_quoted d q (v @ q # r) l =
     (None, l\<lparr>input := r, tvalue := tvalue l @ v, tok := Some T_NUMBER\<rparr>)"
  by (simp add: lex_quoted_def span_quote)

lemma get_token_str:
  assumes "wf_tok (K_str q v)"
  shows "get_token d (l\<lparr>input := q # v @ q # CHR '' '' # r\<rparr>) =
    (None, l\<lparr>input := CHR '' '' # r, tvalue := tvalue l @ v, tok := Some T_NUMBER\<rparr>)"
proof -
  from assms have q: "q = CHR 0x27 \<or> q = CHR 0x22" and v: "q \<notin> set v" by auto
  from q have "get_token d (l\<lparr>input := q # v @ q # CHR '' '' # r\<rparr>) =
      lex_quoted d q (v @ q # CHR '' '' # r) (l\<lparr>input := q # v @ q # CHR '' '' # r\<rparr>)"
    by (elim disjE; hypsubst) (simp_all add: get_token_def simple_token_def blank_def is_space_def
        number_char_def is_digit_def)
  then show ?thesis by (simp only: lex_quoted_closed [OF v]) simp
qed

lemma get_token_blank: "get_token d (l\<lparr>input := CHR '' '' # r\<rparr>) = get_token d (l\<lparr>input := r\<rparr>)"
  by (cases l) (simp add: get_token_def lex_quoted_def lex_func_def Let_def
      cong: list.case_cong option.case_cong if_cong prod.case_cong)

lemma get_token_next:
  assumes "ks \<noteq> [] \<Longrightarrow> wf_tok (hd ks)"
  shows "get_token d (l\<lparr>input := print_toks ks\<rparr>) = (None, next_lexer l ks)"
proof (cases ks)
  case Nil
  then show ?thesis by (simp add: get_token_def)
next
  case (Cons k ks')
  with assms show ?thesis
    by (cases k) (simp_all add: get_token_number get_token_var get_token_str get_token_op)
qed

lemma tok_step:
  assumes "ks \<noteq> [] \<Longrightarrow> wf_tok (hd ks)" and "input (lx s) = '' '' @ print_toks ks"
  shows "tokM w s = (Ok (), [], s\<lparr>lx := next_lexer (lx s) ks\<rparr>)"
proof -
  have "lx s = (lx s)\<lparr>input := CHR '' '' # print_toks ks\<rparr>"
    using assms(2) by simp
  then have "get_token (dclib w) (lx s) = (None, next_lexer (lx s) ks)"
    by (metis get_token_blank get_token_next assms(1))
  then show ?thesis by (simp add: tokM_def)
qed

section \<open>The grammar\<close>

datatype prim_e = P_num string | P_str char string | P_var string | P_neg prim_e | P_not prim_e
  | P_paren lexp_e
and term_e = T_prim prim_e | T_op term_e token_type prim_e
and expr_e = E_term term_e | E_op expr_e token_type term_e
and lexp_e = L_expr expr_e | L_cmp expr_e token_type expr_e

fun toks_prim :: "prim_e \<Rightarrow> etok list"
and toks_term :: "term_e \<Rightarrow> etok list"
and toks_expr :: "expr_e \<Rightarrow> etok list"
and toks_lexp :: "lexp_e \<Rightarrow> etok list"
where
  "toks_prim (P_num v) = [K_num v]"
| "toks_prim (P_str q v) = [K_str q v]"
| "toks_prim (P_var x) = [K_var x]"
| "toks_prim (P_neg p) = K_op T_MINUS # toks_prim p"
| "toks_prim (P_not p) = K_op T_NOT # toks_prim p"
| "toks_prim (P_paren e) = K_op T_LP # toks_lexp e @ [K_op T_RP]"
| "toks_term (T_prim p) = toks_prim p"
| "toks_term (T_op t f p) = toks_term t @ K_op f # toks_prim p"
| "toks_expr (E_term t) = toks_term t"
| "toks_expr (E_op e f t) = toks_expr e @ K_op f # toks_term t"
| "toks_lexp (L_expr e) = toks_expr e"
| "toks_lexp (L_cmp e f e') = toks_expr e @ K_op f # toks_expr e'"

text \<open>The meaning of the operator symbols, written on the symbols themselves.\<close>

definition product_op :: "token_type \<Rightarrow> arith_op option" where
  "product_op f = map_of [(''*'', Mul_op), (''/'', Div_op), (''%'', Fmod_op), (''^'', Pow_op)] (op_text f)"

definition sum_op :: "token_type \<Rightarrow> arith_op option" where
  "sum_op f = map_of [(''+'', Add_op), (''-'', Sub_op)] (op_text f)"

definition compare_op :: "token_type \<Rightarrow> cmp_op option" where
  "compare_op f = map_of [(''<'', Lt_op), (''>'', Gt_op), (''='', Eq_op), (''<='', Le_op),
     (''>='', Ge_op), (''<>'', Ne_op)] (op_text f)"

lemma operator_tables [simp]: "product_op f = mul_token f" "sum_op f = add_token f" "compare_op f = cmp_token f"
  by (cases f; simp add: product_op_def sum_op_def compare_op_def)+

fun wf_prim :: "prim_e \<Rightarrow> bool"
and wf_term :: "term_e \<Rightarrow> bool"
and wf_expr :: "expr_e \<Rightarrow> bool"
and wf_lexp :: "lexp_e \<Rightarrow> bool"
where
  "wf_prim (P_num v) = wf_tok (K_num v)"
| "wf_prim (P_str q v) = wf_tok (K_str q v)"
| "wf_prim (P_var x) = wf_tok (K_var x)"
| "wf_prim (P_neg p) = wf_prim p"
| "wf_prim (P_not p) = wf_prim p"
| "wf_prim (P_paren e) = wf_lexp e"
| "wf_term (T_prim p) = wf_prim p"
| "wf_term (T_op t f p) = (wf_term t \<and> product_op f \<noteq> None \<and> wf_prim p)"
| "wf_expr (E_term t) = wf_term t"
| "wf_expr (E_op e f t) = (wf_expr e \<and> sum_op f \<noteq> None \<and> wf_term t)"
| "wf_lexp (L_expr e) = wf_expr e"
| "wf_lexp (L_cmp e f e') = (wf_expr e \<and> compare_op f \<noteq> None \<and> wf_expr e')"

text \<open>
  The meaning of an expression in a context; \<open>None\<close> where an operand of an arithmetic operator is
  no number, or the right side of a comparison with a number is none.
\<close>

definition arith_val :: "'d dcl \<Rightarrow> arith_op \<Rightarrow> string \<Rightarrow> string \<Rightarrow> string option" where
  "arith_val d f x y =
     (case to_double d x of None \<Rightarrow> None | Some a \<Rightarrow>
      case to_double d y of None \<Rightarrow> None | Some b \<Rightarrow> Some (of_double d (arith d f a b)))"

definition cmp_val :: "'d dcl \<Rightarrow> cmp_op \<Rightarrow> string \<Rightarrow> string \<Rightarrow> string option" where
  "cmp_val d f x y =
     (case to_double d x of None \<Rightarrow> Some (truth (str_cmp f x y)) | Some a \<Rightarrow>
      case to_double d y of None \<Rightarrow> None | Some b \<Rightarrow> Some (truth (cmp d f a b)))"

fun val_prim :: "'d dcl \<Rightarrow> contexts \<Rightarrow> prim_e \<Rightarrow> string option"
and val_term :: "'d dcl \<Rightarrow> contexts \<Rightarrow> term_e \<Rightarrow> string option"
and val_expr :: "'d dcl \<Rightarrow> contexts \<Rightarrow> expr_e \<Rightarrow> string option"
and val_lexp :: "'d dcl \<Rightarrow> contexts \<Rightarrow> lexp_e \<Rightarrow> string option"
where
  "val_prim d cs (P_num v) = Some v"
| "val_prim d cs (P_str q v) = Some v"
| "val_prim d cs (P_var x) = Some (get_value cs x)"
| "val_prim d cs (P_neg p) =
     (case val_prim d cs p of None \<Rightarrow> None | Some x \<Rightarrow>
      case to_double d x of None \<Rightarrow> None | Some a \<Rightarrow>
        Some (of_double d (arith d Mul_op (minus_one d) a)))"
| "val_prim d cs (P_not p) = map_option (\<lambda>x. truth (x \<noteq> ''1'')) (val_prim d cs p)"
| "val_prim d cs (P_paren e) = val_lexp d cs e"
| "val_term d cs (T_prim p) = val_prim d cs p"
| "val_term d cs (T_op t f p) =
     (case val_term d cs t of None \<Rightarrow> None | Some x \<Rightarrow>
      case val_prim d cs p of None \<Rightarrow> None | Some y \<Rightarrow>
      case product_op f of None \<Rightarrow> None | Some g \<Rightarrow> arith_val d g x y)"
| "val_expr d cs (E_term t) = val_term d cs t"
| "val_expr d cs (E_op e f t) =
     (case val_expr d cs e of None \<Rightarrow> None | Some x \<Rightarrow>
      case val_term d cs t of None \<Rightarrow> None | Some y \<Rightarrow>
      case sum_op f of None \<Rightarrow> None | Some g \<Rightarrow> arith_val d g x y)"
| "val_lexp d cs (L_expr e) = val_expr d cs e"
| "val_lexp d cs (L_cmp e f e') =
     (case val_expr d cs e of None \<Rightarrow> None | Some x \<Rightarrow>
      case val_expr d cs e' of None \<Rightarrow> None | Some y \<Rightarrow>
      case compare_op f of None \<Rightarrow> None | Some g \<Rightarrow> cmp_val d g x y)"

section \<open>The calculator on printed expressions\<close>

fun fuel_prim :: "prim_e \<Rightarrow> nat"
and fuel_term :: "term_e \<Rightarrow> nat"
and fuel_expr :: "expr_e \<Rightarrow> nat"
and fuel_lexp :: "lexp_e \<Rightarrow> nat"
where
  "fuel_prim (P_neg p) = Suc (fuel_prim p)"
| "fuel_prim (P_not p) = Suc (fuel_prim p)"
| "fuel_prim (P_paren e) = Suc (fuel_lexp e)"
| "fuel_prim _ = 1"
| "fuel_term (T_prim p) = fuel_prim p + 2"
| "fuel_term (T_op t f p) = fuel_term t + fuel_prim p + 1"
| "fuel_expr (E_term t) = fuel_term t + 2"
| "fuel_expr (E_op e f t) = fuel_expr e + fuel_term t + 1"
| "fuel_lexp (L_expr e) = fuel_expr e + 1"
| "fuel_lexp (L_cmp e f e') = fuel_expr e + fuel_expr e' + 1"

fun ops_term :: "term_e \<Rightarrow> nat" where
  "ops_term (T_prim p) = 0"
| "ops_term (T_op t f p) = Suc (ops_term t)"

fun ops_expr :: "expr_e \<Rightarrow> nat" where
  "ops_expr (E_term t) = 0"
| "ops_expr (E_op e f t) = Suc (ops_expr e)"

lemma ops_term_fuel: "ops_term t + 2 \<le> fuel_term t"
  by (induction t rule: ops_term.induct) simp_all

lemma ops_expr_fuel: "ops_expr e + 2 \<le> fuel_expr e"
  by (induction e rule: ops_expr.induct) simp_all

lemma fuel_prim_pos: "1 \<le> fuel_prim p"
  by (cases p) simp_all

lemma fuel_term_min: "3 \<le> fuel_term t"
  using fuel_prim_pos by (induction t rule: ops_term.induct) (auto simp: eval_nat_numeral)

lemma fuel_expr_min: "4 \<le> fuel_expr e"
proof (induction e rule: ops_expr.induct)
  case (1 t)
  with fuel_term_min [of t] show ?case by simp
qed simp

definition lexer_at :: "etok list \<Rightarrow> lexer" where
  "lexer_at ks = next_lexer (fresh_lexer []) ks"

abbreviation at :: "state \<Rightarrow> etok list \<Rightarrow> state" where
  "at s ks \<equiv> s\<lparr>lx := lexer_at ks\<rparr>"

text \<open>What may follow an operand: nothing or an operator.\<close>

fun follow :: "(token_type \<Rightarrow> bool) \<Rightarrow> etok list \<Rightarrow> bool" where
  "follow P [] = True"
| "follow P (K_op t # ks) = (op_text t \<noteq> [] \<and> P t)"
| "follow P _ = False"

lemma follow_mono: "follow P ks \<Longrightarrow> (\<And>t. P t \<Longrightarrow> Q t) \<Longrightarrow> follow Q ks"
  by (cases "(P, ks)" rule: follow.cases) auto

lemma follow_wf: "follow P ks \<Longrightarrow> ks \<noteq> [] \<Longrightarrow> wf_tok (hd ks)"
  by (cases "(P, ks)" rule: follow.cases) auto

lemma first_wf:
  "wf_prim p \<Longrightarrow> toks_prim p \<noteq> [] \<and> wf_tok (hd (toks_prim p))"
  "wf_term t \<Longrightarrow> toks_term t \<noteq> [] \<and> wf_tok (hd (toks_term t))"
  "wf_expr e \<Longrightarrow> toks_expr e \<noteq> [] \<and> wf_tok (hd (toks_expr e))"
  "wf_lexp l \<Longrightarrow> toks_lexp l \<noteq> [] \<and> wf_tok (hd (toks_lexp l))"
  by (induction p and t and e and l) simp_all

lemma fresh_lexer_simps [simp]:
  "tname (fresh_lexer e) = []" "tvalue (fresh_lexer e) = []" "input (fresh_lexer e) = e"
  by (simp_all add: fresh_lexer_def)

lemma lexer_at_input [simp]: "input (lexer_at (k # ks)) = '' '' @ print_toks ks"
  by (cases k) (simp_all add: lexer_at_def)

lemma lexer_at_tok:
  "tok (lexer_at []) = Some T_END" "tok (lexer_at (K_op t # ks)) = Some t"
  "tok (lexer_at (K_num v # ks)) = Some T_NUMBER" "tok (lexer_at (K_str q v # ks)) = Some T_NUMBER"
  "tok (lexer_at (K_var x # ks)) = Some T_NAME"
  by (simp_all add: lexer_at_def)

lemma next_after_op: "next_lexer (lexer_at (K_op t # ks)) js = lexer_at js"
  by (cases "(fresh_lexer [], js)" rule: next_lexer.cases) (auto simp: lexer_at_def fresh_lexer_def)

lemma next_clear:
  assumes "follow P ks"
  shows "(next_lexer (lexer_at (K_num v # js)) ks)\<lparr>tvalue := []\<rparr> = lexer_at ks"
    and "(next_lexer (lexer_at (K_str q v # js)) ks)\<lparr>tvalue := []\<rparr> = lexer_at ks"
    and "(next_lexer (lexer_at (K_var x # js)) ks)\<lparr>tname := []\<rparr> = lexer_at ks"
    and "tvalue (next_lexer (lexer_at (K_num v # js)) ks) = v"
    and "tvalue (next_lexer (lexer_at (K_str q v # js)) ks) = v"
    and "tname (next_lexer (lexer_at (K_var x # js)) ks) = x"
  using assms by (cases "(P, ks)" rule: follow.cases; simp add: lexer_at_def fresh_lexer_def)+

lemma tok_at:
  assumes "ks \<noteq> [] \<Longrightarrow> wf_tok (hd ks)"
  shows "tokM w (at s (k # ks)) = (Ok (), [], s\<lparr>lx := next_lexer (lexer_at (k # ks)) ks\<rparr>)"
  using tok_step [OF assms, of "at s (k # ks)"] by simp

lemma tok_type_at: "tok (lexer_at ks) = Some t \<Longrightarrow> tok_type (at s ks) = (Ok t, [], at s ks)"
  by (simp add: tok_type_def)


definition no_mul :: "token_type \<Rightarrow> bool" where
  "no_mul t \<longleftrightarrow> mul_token t = None"

definition no_arith :: "token_type \<Rightarrow> bool" where
  "no_arith t \<longleftrightarrow> mul_token t = None \<and> add_token t = None"

definition closing :: "token_type \<Rightarrow> bool" where
  "closing t \<longleftrightarrow> t = T_RP"

lemma mul_op_text: "mul_token t \<noteq> None \<Longrightarrow> op_text t \<noteq> [] \<and> add_token t = None \<and> cmp_token t = None"
  by (cases t) simp_all

lemma add_op_text: "add_token t \<noteq> None \<Longrightarrow> op_text t \<noteq> [] \<and> no_mul t"
  by (cases t) (simp_all add: no_mul_def)

lemma cmp_op_text: "cmp_token t \<noteq> None \<Longrightarrow> op_text t \<noteq> [] \<and> no_arith t"
  by (cases t) (simp_all add: no_arith_def)

lemma number_errors_Ok: "m s = (Ok x, t, s1) \<Longrightarrow> number_errors w m s = (Ok x, t, s1)"
  by (simp add: number_errors_def tryM_def)

lemma bind_number_errors:
  assumes "bindM m f s = (Ok x, t, s1)"
  shows "bindM m (\<lambda>l. number_errors w (f l)) s = (Ok x, t, s1)"
proof -
  obtain r0 t0 s0 where m: "m s = (r0, t0, s0)" by (cases "m s")
  with assms obtain y where y: "r0 = Ok y" by (cases r0) (auto simp: bindM_def)
  obtain r2 t2 s2 where f: "f y s0 = (r2, t2, s2)" by (cases "f y s0")
  with assms m y have r2: "r2 = Ok x" "t = t0 @ t2" "s2 = s1" by (auto simp: bindM_def)
  with f have "number_errors w (f y) s0 = (Ok x, t2, s1)" by (simp add: number_errors_Ok)
  with m y r2 show ?thesis by (simp add: bindM_def)
qed

lemma arith_step_Ok:
  assumes "op_text k \<noteq> []" and "ks \<noteq> [] \<Longrightarrow> wf_tok (hd ks)"
    and "operand (at s ks) = (Ok y, [], s1)" and "arith_val (dclib w) f x y = Some v"
  shows "arith_step w f x operand (at s (K_op k # ks)) = (Ok v, [], s1)"
  using assms(3,4) tok_at [OF assms(2), of w "K_op k" s]
  by (auto simp: arith_step_def arith_val_def seq_Ok bind_Ok to_doubleM_def next_after_op ret_def
      split: option.splits)

lemma compare_step_Ok:
  assumes "ks \<noteq> [] \<Longrightarrow> wf_tok (hd ks)"
    and "operand (at s ks) = (Ok y, [], s1)" and "cmp_val (dclib w) f x y = Some v"
  shows "compare_step w f x operand (at s (K_op k # ks)) = (Ok v, [], s1)"
proof -
  have 1: "tokM w (at s (K_op k # ks)) = (Ok (), [], at s ks)"
    using tok_at [OF assms(1), of w "K_op k" s] by (simp add: next_after_op)
  show ?thesis
  proof (cases "to_double (dclib w) x")
    case None
    with assms(2,3) show ?thesis
      by (simp add: compare_step_def cmp_val_def seq_Ok 1 to_doubleM_def bind_Ok ret_def)
  next
    case (Some a)
    with assms(3) obtain b where "to_double (dclib w) y = Some b" "v = truth (cmp (dclib w) f a b)"
      by (auto simp: cmp_val_def split: option.splits)
    with Some assms(2) show ?thesis
      by (simp add: compare_step_def seq_Ok 1 to_doubleM_def tryM_def bind_Ok ret_def)
  qed
qed


definition runs_prim :: "'d world \<Rightarrow> exec_fn \<Rightarrow> nat \<Rightarrow> prim_e \<Rightarrow> bool" where
  "runs_prim w ex self p \<longleftrightarrow> (\<forall>n s ks v. wf_prim p \<longrightarrow> follow (\<lambda>_. True) ks \<longrightarrow>
     val_prim (dclib w) (ctxs s) p = Some v \<longrightarrow> fuel_prim p \<le> n \<longrightarrow>
     prim w ex self n (at s (toks_prim p @ ks)) = (Ok v, [], at s ks))"

definition runs_term :: "'d world \<Rightarrow> exec_fn \<Rightarrow> nat \<Rightarrow> term_e \<Rightarrow> bool" where
  "runs_term w ex self t \<longleftrightarrow> (\<forall>n s ks v. wf_term t \<longrightarrow> follow (\<lambda>_. True) ks \<longrightarrow>
     val_term (dclib w) (ctxs s) t = Some v \<longrightarrow> fuel_term t \<le> Suc n \<longrightarrow>
     bindM (prim w ex self n) (term_loop w ex self n) (at s (toks_term t @ ks)) =
       term_loop w ex self (n - ops_term t) v (at s ks))"

definition runs_expr :: "'d world \<Rightarrow> exec_fn \<Rightarrow> nat \<Rightarrow> expr_e \<Rightarrow> bool" where
  "runs_expr w ex self e \<longleftrightarrow> (\<forall>n s ks v. wf_expr e \<longrightarrow> follow no_mul ks \<longrightarrow>
     val_expr (dclib w) (ctxs s) e = Some v \<longrightarrow> fuel_expr e \<le> Suc n \<longrightarrow>
     bindM (term_expr w ex self n) (expr_loop w ex self n) (at s (toks_expr e @ ks)) =
       expr_loop w ex self (n - ops_expr e) v (at s ks))"

definition runs_lexp :: "'d world \<Rightarrow> exec_fn \<Rightarrow> nat \<Rightarrow> lexp_e \<Rightarrow> bool" where
  "runs_lexp w ex self e \<longleftrightarrow> (\<forall>n s ks v. wf_lexp e \<longrightarrow> follow closing ks \<longrightarrow>
     val_lexp (dclib w) (ctxs s) e = Some v \<longrightarrow> fuel_lexp e \<le> n \<longrightarrow>
     lexpr w ex self n (at s (toks_lexp e @ ks)) = (Ok v, [], at s ks))"

lemma follow_tok:
  assumes "follow P ks"
  obtains t where "tok (lexer_at ks) = Some t" and "t = T_END \<or> P t"
  using assms by (cases "(P, ks)" rule: follow.cases) (auto simp: lexer_at_tok)

lemma term_loop_stops:
  assumes "follow no_mul ks" shows "term_loop w ex self (Suc n) v (at s ks) = (Ok v, [], at s ks)"
proof -
  obtain t where "tok (lexer_at ks) = Some t" and "t = T_END \<or> no_mul t"
    using assms by (rule follow_tok)
  then show ?thesis by (auto simp: bind_Ok tok_type_at no_mul_def ret_def)
qed

lemma expr_loop_stops:
  assumes "follow no_arith ks" shows "expr_loop w ex self (Suc n) v (at s ks) = (Ok v, [], at s ks)"
proof -
  obtain t where "tok (lexer_at ks) = Some t" and "t = T_END \<or> no_arith t"
    using assms by (rule follow_tok)
  then show ?thesis by (auto simp: bind_Ok tok_type_at no_arith_def ret_def)
qed

lemma term_expr_runs:
  assumes "runs_term w ex self t" and "wf_term t" and "follow no_mul ks"
    and "val_term (dclib w) (ctxs s) t = Some v" and "fuel_term t \<le> n"
  shows "term_expr w ex self n (at s (toks_term t @ ks)) = (Ok v, [], at s ks)"
proof -
  obtain m where n: "n = Suc m" using ops_term_fuel [of t] assms(5) by (cases n) auto
  obtain k where k: "m - ops_term t = Suc k" using ops_term_fuel [of t] assms(5) n
    by (cases "m - ops_term t") auto
  have "bindM (prim w ex self m) (term_loop w ex self m) (at s (toks_term t @ ks)) = (Ok v, [], at s ks)"
    using assms n k term_loop_stops [OF assms(3), of w ex self k v s]
    by (auto simp: runs_term_def follow_mono simp del: term_loop.simps)
  from bind_number_errors [OF this] show ?thesis by (simp add: n)
qed

lemma expr_runs:
  assumes "runs_expr w ex self e" and "wf_expr e" and "follow no_arith ks"
    and "val_expr (dclib w) (ctxs s) e = Some v" and "fuel_expr e \<le> n"
  shows "expr w ex self n (at s (toks_expr e @ ks)) = (Ok v, [], at s ks)"
proof -
  obtain m where n: "n = Suc m" using ops_expr_fuel [of e] assms(5) by (cases n) auto
  obtain k where k: "m - ops_expr e = Suc k" using ops_expr_fuel [of e] assms(5) n
    by (cases "m - ops_expr e") auto
  have "follow no_mul ks" using assms(3) by (rule follow_mono) (simp add: no_arith_def no_mul_def)
  then have "bindM (term_expr w ex self m) (expr_loop w ex self m) (at s (toks_expr e @ ks)) = (Ok v, [], at s ks)"
    using assms n k expr_loop_stops [OF assms(3), of w ex self k v s]
    by (auto simp: runs_expr_def simp del: expr_loop.simps term_expr.simps)
  from bind_number_errors [OF this] show ?thesis by (simp add: n)
qed


lemma prim_step:
  assumes "fuel_prim p \<le> n" obtains m where "n = Suc m"
  using assms by (cases p; cases n) auto

lemma tok_at_op:
  "(ks \<noteq> [] \<Longrightarrow> wf_tok (hd ks)) \<Longrightarrow> tokM w (at s (K_op t # ks)) = (Ok (), [], at s ks)"
  using tok_at [of ks w "K_op t" s] by (simp add: next_after_op)

lemmas run_simps = bind_Ok seq_Ok tok_type_at lexer_at_tok tok_at next_clear getM_def modM_def ret_def
  valueM_def

lemma runs_primI:
  "(\<And>n s ks v. wf_prim p \<Longrightarrow> follow (\<lambda>_. True) ks \<Longrightarrow> val_prim (dclib w) (ctxs s) p = Some v \<Longrightarrow>
     fuel_prim p \<le> n \<Longrightarrow> prim w ex self n (at s (toks_prim p @ ks)) = (Ok v, [], at s ks)) \<Longrightarrow>
   runs_prim w ex self p"
  by (simp add: runs_prim_def)

lemma runs_primD:
  "runs_prim w ex self p \<Longrightarrow> wf_prim p \<Longrightarrow> follow (\<lambda>_. True) ks \<Longrightarrow>
     val_prim (dclib w) (ctxs s) p = Some v \<Longrightarrow> fuel_prim p \<le> n \<Longrightarrow>
     prim w ex self n (at s (toks_prim p @ ks)) = (Ok v, [], at s ks)"
  by (simp add: runs_prim_def)

lemma runs_num: "runs_prim w ex self (P_num u)"
proof (rule runs_primI)
  fix n ks v and s :: state
  assume *: "follow (\<lambda>_. True) ks" "val_prim (dclib w) (ctxs s) (P_num u) = Some v" "fuel_prim (P_num u) \<le> n"
  then obtain m where "n = Suc m" by (cases n) auto
  with * follow_wf [OF *(1)] show "prim w ex self n (at s (toks_prim (P_num u) @ ks)) = (Ok v, [], at s ks)"
    by (simp add: run_simps)
qed

lemma runs_str: "runs_prim w ex self (P_str q u)"
proof (rule runs_primI)
  fix n ks v and s :: state
  assume *: "follow (\<lambda>_. True) ks" "val_prim (dclib w) (ctxs s) (P_str q u) = Some v" "fuel_prim (P_str q u) \<le> n"
  then obtain m where "n = Suc m" by (cases n) auto
  with * follow_wf [OF *(1)] show "prim w ex self n (at s (toks_prim (P_str q u) @ ks)) = (Ok v, [], at s ks)"
    by (simp add: run_simps)
qed

lemma runs_var: "runs_prim w ex self (P_var x)"
proof (rule runs_primI)
  fix n ks v and s :: state
  assume *: "follow (\<lambda>_. True) ks" "val_prim (dclib w) (ctxs s) (P_var x) = Some v" "fuel_prim (P_var x) \<le> n"
  then obtain m where "n = Suc m" by (cases n) auto
  with * follow_wf [OF *(1)] show "prim w ex self n (at s (toks_prim (P_var x) @ ks)) = (Ok v, [], at s ks)"
    by (simp add: run_simps)
qed

lemma runs_neg: "runs_prim w ex self p \<Longrightarrow> runs_prim w ex self (P_neg p)"
proof (rule runs_primI)
  fix n ks v and s :: state
  assume IH: "runs_prim w ex self p" and *: "wf_prim (P_neg p)" "follow (\<lambda>_. True) ks" "val_prim (dclib w) (ctxs s) (P_neg p) = Some v"
      "fuel_prim (P_neg p) \<le> n"
  from * obtain m where m: "n = Suc m" "fuel_prim p \<le> m" by (cases n) auto
  from *(3) obtain x a where x: "val_prim (dclib w) (ctxs s) p = Some x" "to_double (dclib w) x = Some a"
    "v = of_double (dclib w) (arith (dclib w) Mul_op (minus_one (dclib w)) a)"
    by (auto split: option.splits)
  have "prim w ex self m (at s (toks_prim p @ ks)) = (Ok x, [], at s ks)" using *(1,2) x m by (intro runs_primD [OF IH]) auto
  moreover have "tokM w (at s (K_op T_MINUS # toks_prim p @ ks)) = (Ok (), [], at s (toks_prim p @ ks))"
    using first_wf(1) *(1) by (intro tok_at_op) auto
  ultimately show "prim w ex self n (at s (toks_prim (P_neg p) @ ks)) = (Ok v, [], at s ks)"
    using x by (simp add: m(1) run_simps number_errors_Ok to_doubleM_def)
qed

lemma runs_not: "runs_prim w ex self p \<Longrightarrow> runs_prim w ex self (P_not p)"
proof (rule runs_primI)
  fix n ks v and s :: state
  assume IH: "runs_prim w ex self p" and *: "wf_prim (P_not p)" "follow (\<lambda>_. True) ks" "val_prim (dclib w) (ctxs s) (P_not p) = Some v"
      "fuel_prim (P_not p) \<le> n"
  from * obtain m where m: "n = Suc m" "fuel_prim p \<le> m" by (cases n) auto
  from *(3) obtain x where x: "val_prim (dclib w) (ctxs s) p = Some x" "v = truth (x \<noteq> ''1'')" by auto
  have "prim w ex self m (at s (toks_prim p @ ks)) = (Ok x, [], at s ks)" using *(1,2) x m by (intro runs_primD [OF IH]) auto
  moreover have "tokM w (at s (K_op T_NOT # toks_prim p @ ks)) = (Ok (), [], at s (toks_prim p @ ks))"
    using first_wf(1) *(1) by (intro tok_at_op) auto
  ultimately show "prim w ex self n (at s (toks_prim (P_not p) @ ks)) = (Ok v, [], at s ks)"
    using x by (simp add: m(1) run_simps)
qed

lemma runs_paren: "runs_lexp w ex self e \<Longrightarrow> runs_prim w ex self (P_paren e)"
proof (rule runs_primI)
  fix n ks v and s :: state
  assume IH: "runs_lexp w ex self e" and *: "wf_prim (P_paren e)" "follow (\<lambda>_. True) ks"
    "val_prim (dclib w) (ctxs s) (P_paren e) = Some v" "fuel_prim (P_paren e) \<le> n"
  from * obtain m where m: "n = Suc m" "fuel_lexp e \<le> m" by (cases n) auto
  have "lexpr w ex self m (at s (toks_lexp e @ K_op T_RP # ks)) = (Ok v, [], at s (K_op T_RP # ks))"
    using IH * m by (auto simp: runs_lexp_def closing_def)
  moreover have "tokM w (at s (K_op T_LP # toks_lexp e @ K_op T_RP # ks)) =
      (Ok (), [], at s (toks_lexp e @ K_op T_RP # ks))"
    using first_wf(4) *(1) by (intro tok_at_op) auto
  moreover have "tokM w (at s (K_op T_RP # ks)) = (Ok (), [], at s ks)"
    using follow_wf [OF *(2)] by (rule tok_at_op)
  ultimately show "prim w ex self n (at s (toks_prim (P_paren e) @ ks)) = (Ok v, [], at s ks)"
    by (simp add: m(1) run_simps)
qed


lemma Suc_diff_Suc_eq: "n - k = Suc m \<Longrightarrow> n - Suc k = m"
  by simp

lemma runs_term_prim: "runs_prim w ex self p \<Longrightarrow> runs_term w ex self (T_prim p)"
  unfolding runs_term_def by (auto simp: bind_Ok runs_primD simp del: prim.simps term_loop.simps)

lemma runs_term_op:
  assumes t: "runs_term w ex self t" and p: "runs_prim w ex self p"
  shows "runs_term w ex self (T_op t f p)"
  unfolding runs_term_def
proof (intro allI impI)
  fix n ks v and s :: state
  assume *: "wf_term (T_op t f p)" "follow (\<lambda>_. True) ks"
    "val_term (dclib w) (ctxs s) (T_op t f p) = Some v" "fuel_term (T_op t f p) \<le> Suc n"
  from *(1,3) obtain x y g where g: "mul_token f = Some g" and xy: "val_term (dclib w) (ctxs s) t = Some x"
    "val_prim (dclib w) (ctxs s) p = Some y" "arith_val (dclib w) g x y = Some v"
    by (auto split: option.splits)
  obtain m where m: "n - ops_term t = Suc m" "fuel_prim p \<le> m"
    using *(4) ops_term_fuel [of t] by (cases "n - ops_term t") auto
  have "op_text f \<noteq> []" using g mul_op_text [of f] by simp
  moreover have "prim w ex self m (at s (toks_prim p @ ks)) = (Ok y, [], at s ks)"
    using * xy m by (intro runs_primD [OF p]) auto
  moreover have "toks_prim p @ ks \<noteq> [] \<Longrightarrow> wf_tok (hd (toks_prim p @ ks))"
    using first_wf(1) *(1) by auto
  ultimately have step: "arith_step w g x (prim w ex self m) (at s (K_op f # toks_prim p @ ks)) = (Ok v, [], at s ks)"
    using xy by (intro arith_step_Ok)
  have "bindM (prim w ex self n) (term_loop w ex self n) (at s (toks_term (T_op t f p) @ ks)) =
      term_loop w ex self (Suc m) x (at s (K_op f # toks_prim p @ ks))"
    using t * xy \<open>op_text f \<noteq> []\<close> unfolding runs_term_def m(1) [symmetric]
    by (simp del: term_loop.simps prim.simps)
  also have "\<dots> = term_loop w ex self m v (at s ks)"
    using g step by (simp add: bind_Ok tok_type_at lexer_at_tok)
  finally show "bindM (prim w ex self n) (term_loop w ex self n) (at s (toks_term (T_op t f p) @ ks)) =
      term_loop w ex self (n - ops_term (T_op t f p)) v (at s ks)" using m(1) by (simp add: Suc_diff_Suc_eq)
qed

lemma runs_expr_term: "runs_term w ex self t \<Longrightarrow> runs_expr w ex self (E_term t)"
  unfolding runs_expr_def
  by (auto simp: bind_Ok term_expr_runs simp del: term_expr.simps expr_loop.simps)

lemma runs_expr_op:
  assumes e: "runs_expr w ex self e" and t: "runs_term w ex self t"
  shows "runs_expr w ex self (E_op e f t)"
  unfolding runs_expr_def
proof (intro allI impI)
  fix n ks v and s :: state
  assume *: "wf_expr (E_op e f t)" "follow no_mul ks"
    "val_expr (dclib w) (ctxs s) (E_op e f t) = Some v" "fuel_expr (E_op e f t) \<le> Suc n"
  from *(1,3) obtain x y g where g: "add_token f = Some g" and xy: "val_expr (dclib w) (ctxs s) e = Some x"
    "val_term (dclib w) (ctxs s) t = Some y" "arith_val (dclib w) g x y = Some v"
    by (auto split: option.splits)
  obtain m where m: "n - ops_expr e = Suc m" "fuel_term t \<le> m"
    using *(4) ops_expr_fuel [of e] by (cases "n - ops_expr e") auto
  have f: "op_text f \<noteq> []" "no_mul f" using g add_op_text [of f] by auto
  moreover have "term_expr w ex self m (at s (toks_term t @ ks)) = (Ok y, [], at s ks)"
    using * xy m by (intro term_expr_runs [OF t]) auto
  moreover have "toks_term t @ ks \<noteq> [] \<Longrightarrow> wf_tok (hd (toks_term t @ ks))"
    using first_wf(2) *(1) by auto
  ultimately have step: "arith_step w g x (term_expr w ex self m) (at s (K_op f # toks_term t @ ks)) = (Ok v, [], at s ks)"
    using xy by (intro arith_step_Ok)
  have "bindM (term_expr w ex self n) (expr_loop w ex self n) (at s (toks_expr (E_op e f t) @ ks)) =
      expr_loop w ex self (Suc m) x (at s (K_op f # toks_term t @ ks))"
    using e * xy f unfolding runs_expr_def m(1) [symmetric]
    by (simp del: expr_loop.simps term_expr.simps)
  also have "\<dots> = expr_loop w ex self m v (at s ks)"
    using g step by (simp add: bind_Ok tok_type_at lexer_at_tok)
  finally show "bindM (term_expr w ex self n) (expr_loop w ex self n) (at s (toks_expr (E_op e f t) @ ks)) =
      expr_loop w ex self (n - ops_expr (E_op e f t)) v (at s ks)" using m(1) by (simp add: Suc_diff_Suc_eq)
qed

lemma runs_lexp_expr: 
  assumes e: "runs_expr w ex self e" shows "runs_lexp w ex self (L_expr e)"
  unfolding runs_lexp_def
proof (intro allI impI)
  fix n ks v and s :: state
  assume *: "wf_lexp (L_expr e)" "follow closing ks" "val_lexp (dclib w) (ctxs s) (L_expr e) = Some v"
    "fuel_lexp (L_expr e) \<le> n"
  then obtain m where m: "n = Suc m" "fuel_expr e \<le> m" by (cases n) auto
  have "follow no_arith ks" using *(2) by (rule follow_mono) (simp add: closing_def no_arith_def)
  then have "expr w ex self m (at s (toks_expr e @ ks)) = (Ok v, [], at s ks)"
    using * m by (intro expr_runs [OF e]) auto
  moreover obtain t where "tok (lexer_at ks) = Some t" and "t = T_END \<or> closing t"
    using *(2) by (rule follow_tok)
  ultimately show "lexpr w ex self n (at s (toks_lexp (L_expr e) @ ks)) = (Ok v, [], at s ks)"
    by (auto simp: m(1) bind_Ok tok_type_at closing_def ret_def)
qed

lemma runs_lexp_cmp:
  assumes e: "runs_expr w ex self e" and e': "runs_expr w ex self e'"
  shows "runs_lexp w ex self (L_cmp e f e')"
  unfolding runs_lexp_def
proof (intro allI impI)
  fix n ks v and s :: state
  assume *: "wf_lexp (L_cmp e f e')" "follow closing ks" "val_lexp (dclib w) (ctxs s) (L_cmp e f e') = Some v"
    "fuel_lexp (L_cmp e f e') \<le> n"
  from *(1,3) obtain x y g where g: "cmp_token f = Some g" and xy: "val_expr (dclib w) (ctxs s) e = Some x"
    "val_expr (dclib w) (ctxs s) e' = Some y" "cmp_val (dclib w) g x y = Some v"
    by (auto split: option.splits)
  from *(4) obtain m where m: "n = Suc m" "fuel_expr e \<le> m" "fuel_expr e' \<le> m" by (cases n) auto
  have f: "op_text f \<noteq> []" "no_arith f" using g cmp_op_text [of f] by auto
  have "follow no_arith ks" using *(2) by (rule follow_mono) (simp add: closing_def no_arith_def)
  then have right: "expr w ex self m (at s (toks_expr e' @ ks)) = (Ok y, [], at s ks)"
    using * xy m by (intro expr_runs [OF e']) auto
  have left: "expr w ex self m (at s (toks_expr e @ K_op f # toks_expr e' @ ks)) =
      (Ok x, [], at s (K_op f # toks_expr e' @ ks))"
    using * xy m f by (intro expr_runs [OF e]) auto
  have "toks_expr e' @ ks \<noteq> [] \<Longrightarrow> wf_tok (hd (toks_expr e' @ ks))"
    using first_wf(3) *(1) by auto
  then have "compare_step w g x (expr w ex self m) (at s (K_op f # toks_expr e' @ ks)) = (Ok v, [], at s ks)"
    using right xy(3) by (rule compare_step_Ok)
  with left g show "lexpr w ex self n (at s (toks_lexp (L_cmp e f e') @ ks)) = (Ok v, [], at s ks)"
    by (simp add: m(1) bind_Ok tok_type_at lexer_at_tok)
qed

lemma calculator_runs:
  "runs_prim w ex self p" "runs_term w ex self t" "runs_expr w ex self e" "runs_lexp w ex self l"
  by (induction p and t and e and l)
    (auto intro: runs_num runs_str runs_var runs_neg runs_not runs_paren runs_term_prim runs_term_op
      runs_expr_term runs_expr_op runs_lexp_expr runs_lexp_cmp)

text \<open>
  Reading an operand at the end of the input gives \<open>1\<close>; a comparison whose right side is no number
  falls into this.
\<close>

lemma expr_at_end: "4 \<le> n \<Longrightarrow> expr w ex self n (at s []) = (Ok ''1'', [], at s [])"
proof -
  assume "4 \<le> n"
  then obtain m where n: "n = Suc (Suc (Suc (Suc m)))" by (auto dest!: le_Suc_ex simp: eval_nat_numeral)
  have "prim w ex self (Suc m') (at s []) = (Ok ''1'', [], at s [])" for m'
    by (simp add: bind_Ok tok_type_at lexer_at_tok ret_def)
  then have "bindM (prim w ex self (Suc (Suc m))) (term_loop w ex self (Suc (Suc m))) (at s []) = (Ok ''1'', [], at s [])"
    by (simp only: bind_Ok term_loop_stops follow.simps)
  from bind_number_errors [OF this] have "term_expr w ex self (Suc (Suc (Suc m))) (at s []) = (Ok ''1'', [], at s [])"
    by simp
  then have "bindM (term_expr w ex self (Suc (Suc (Suc m)))) (expr_loop w ex self (Suc (Suc (Suc m)))) (at s []) =
      (Ok ''1'', [], at s [])"
    by (simp only: bind_Ok expr_loop_stops follow.simps)
  from bind_number_errors [OF this] show ?thesis by (simp add: n)
qed

lemma compare_step_number_text:
  assumes "ks \<noteq> [] \<Longrightarrow> wf_tok (hd ks)"
    and "operand (at s ks) = (Ok y, [], at s [])" and "operand (at s []) = (Ok z, [], at s [])"
    and "to_double (dclib w) x = Some a" and "to_double (dclib w) y = None"
  shows "compare_step w f x operand (at s (K_op k # ks)) = (Ok (truth (str_cmp f x z)), [], at s [])"
proof -
  have 1: "tokM w (at s (K_op k # ks)) = (Ok (), [], at s ks)"
    using tok_at [OF assms(1), of w "K_op k" s] by (simp add: next_after_op)
  show ?thesis using assms(2-5)
    by (simp add: compare_step_def seq_Ok 1 to_doubleM_def tryM_def bind_Ok ret_def throwM_def)
qed

lemma calc_of_lexpr:
  assumes wf: "wf_lexp e" and run: "lexpr w ex self n (at s (toks_lexp e)) = (Ok v, [], at s [])"
  shows "calc w ex self n (print_toks (toks_lexp e)) s = (Ok v, [], s)"
proof -
  let ?ks = "toks_lexp e" and ?s = "s\<lparr>lx := fresh_lexer (print_toks (toks_lexp e))\<rparr>"
  obtain k ks where k: "?ks = k # ks" "wf_tok k" using first_wf(4) [OF wf] by (cases ?ks) auto
  have "get_token (dclib w) (fresh_lexer (print_toks ?ks)) = (None, next_lexer (fresh_lexer []) ?ks)"
    using get_token_next [of ?ks "dclib w" "fresh_lexer []"] k by (simp add: fresh_lexer_def)
  then have 1: "tokM w ?s = (Ok (), [], at s ?ks)" by (simp add: tokM_def lexer_at_def)
  have 2: "\<exists>t. tok (lexer_at ?ks) = Some t \<and> t \<noteq> T_END"
    using k by (cases k) (auto simp: lexer_at_tok)
  from 1 2 run have "seqM (tokM w) (bindM tok_type (\<lambda>t. if t = T_END then ret [] else lexpr w ex self n)) ?s =
      (Ok v, [], at s [])" by (auto simp: seq_Ok bind_Ok tok_type_at)
  then show ?thesis
    by (simp add: calc_def finallyM_def getM_def modM_def bindM_def seqM_def tryM_def ret_def)
qed

lemma calc_runs:
  assumes wf: "wf_lexp e" and val: "val_lexp (dclib w) (ctxs s) e = Some v" and n: "fuel_lexp e \<le> n"
  shows "calc w ex self n (print_toks (toks_lexp e)) s = (Ok v, [], s)"
proof -
  have "lexpr w ex self n (at s (toks_lexp e)) = (Ok v, [], at s [])"
    using calculator_runs(4) [of w ex self e] wf val n
    unfolding runs_lexp_def by (metis append_Nil2 follow.simps(1))
  with wf show ?thesis by (rule calc_of_lexpr)
qed

lemma calc_number_text:
  assumes wf: "wf_lexp (L_cmp e f e')" and g: "cmp_token f = Some g"
    and x: "val_expr (dclib w) (ctxs s) e = Some x" "to_double (dclib w) x = Some a"
    and y: "val_expr (dclib w) (ctxs s) e' = Some y" "to_double (dclib w) y = None"
    and n: "fuel_lexp (L_cmp e f e') \<le> n"
  shows "calc w ex self n (print_toks (toks_lexp (L_cmp e f e'))) s = (Ok (truth (str_cmp g x ''1'')), [], s)"
proof (rule calc_of_lexpr [OF wf])
  from n obtain m where m: "n = Suc m" "fuel_expr e \<le> m" "fuel_expr e' \<le> m" by (cases n) auto
  have f: "op_text f \<noteq> []" "no_arith f" using g cmp_op_text [of f] by auto
  have right: "expr w ex self m (at s (toks_expr e')) = (Ok y, [], at s [])"
    using expr_runs [OF calculator_runs(3), of e' "[]"] wf y m by simp
  have left: "expr w ex self m (at s (toks_expr e @ K_op f # toks_expr e')) = (Ok x, [], at s (K_op f # toks_expr e'))"
    using wf x m f by (intro expr_runs [OF calculator_runs(3)]) auto
  have "4 \<le> m" using m(2) fuel_expr_min [of e] by simp
  then have again: "expr w ex self m (at s []) = (Ok ''1'', [], at s [])" by (rule expr_at_end)
  have "toks_expr e' \<noteq> [] \<Longrightarrow> wf_tok (hd (toks_expr e'))" using first_wf(3) wf by auto
  then have "compare_step w g x (expr w ex self m) (at s (K_op f # toks_expr e')) =
      (Ok (truth (str_cmp g x ''1'')), [], at s [])"
    using right again x(2) y(2) by (rule compare_step_number_text)
  with left g show "lexpr w ex self n (at s (toks_lexp (L_cmp e f e'))) = (Ok (truth (str_cmp g x ''1'')), [], at s [])"
    by (simp add: m(1) bind_Ok tok_type_at lexer_at_tok)
qed

end
