(* ===== verification/Html_Correct.thy ===== *)
theory Html_Correct
  imports Interp Evaluator_Correct
begin

text \<open>
  Correctness of HTML output: the algebra of the escaping functions, and the rendering of a static
  document, that is a tree of plain elements, attributes and texts. Whatever the nesting, every text
  and attribute value is escaped exactly once and all markup comes out as markup.
\<close>

section \<open>Escaping\<close>

definition markup_char :: "char \<Rightarrow> bool" where
  "markup_char c \<longleftrightarrow> c = CHR 0x27 \<or> c = CHR 0x22 \<or> c = CHR ''<'' \<or> c = CHR ''>''"

definition stub_byte :: "char \<Rightarrow> bool" where
  "stub_byte c \<longleftrightarrow> c = CHR 0x01 \<or> c = CHR 0x02 \<or> c = CHR 0x03 \<or> c = CHR 0x04"

lemma htmlentities_no_markup: "c \<in> set (htmlentities s) \<Longrightarrow> \<not> markup_char c"
  by (auto simp: htmlentities_def entity.simps markup_char_def split: if_splits)

lemma htmlentities_id: "(\<forall>c\<in>set s. \<not> markup_char c) \<Longrightarrow> htmlentities s = s"
  by (induction s) (auto simp: htmlentities_def entity.simps markup_char_def)

lemma htmlentities_idem: "htmlentities (htmlentities s) = htmlentities s"
  using htmlentities_no_markup by (intro htmlentities_id) blast

lemma htmlentities_append: "htmlentities (s @ t) = htmlentities s @ htmlentities t"
  by (simp add: htmlentities_def)

lemma htmlentities_concat: "htmlentities (concat ss) = concat (map htmlentities ss)"
  by (induction ss) (simp_all add: htmlentities_append htmlentities_def)

lemma htmlentities_stub_bytes: "c \<in> set (htmlentities s) \<Longrightarrow> stub_byte c \<Longrightarrow> c \<in> set s"
  by (auto simp: htmlentities_def entity.simps stub_byte_def split: if_splits)

lemma htmlentitiesout_id: "\<forall>c\<in>set s. \<not> stub_byte c \<Longrightarrow> htmlentitiesout s = s"
  by (induction s) (auto simp: htmlentitiesout_def unstub_char.simps stub_byte_def)

lemma htmlentitiesout_append: "htmlentitiesout (s @ t) = htmlentitiesout s @ htmlentitiesout t"
  by (simp add: htmlentitiesout_def)

lemma htmlentitiesout_concat: "htmlentitiesout (concat ss) = concat (map htmlentitiesout ss)"
  by (induction ss) (simp_all add: htmlentitiesout_def)

lemma htmlentitiesout_stub: "\<forall>c\<in>set s. \<not> stub_byte c \<Longrightarrow> htmlentitiesout (stub s) = s"
  by (induction s) (auto simp: htmlentitiesout_def stub_def unstub_char.simps stub_char.simps stub_byte_def)

text \<open>Escaping the content of an element leaves the markup of its children alone.\<close>

lemma htmlentities_of_stubbed:
  "\<forall>c\<in>set s. \<not> stub_byte c \<Longrightarrow> htmlentitiesout (htmlentities (stub s)) = s"
  using htmlentitiesout_stub [of s]
  by (subst htmlentities_id) (auto simp: stub_def stub_char.simps markup_char_def split: if_splits)

section \<open>Static documents\<close>

datatype doc = D_text string | D_elem string "(string \<times> string) list" "doc list"

definition attr_text :: "string \<times> string \<Rightarrow> string" where
  "attr_text kv = (case kv of (k, v) \<Rightarrow>
     if v = [] then [] else '' '' @ k @ ''='' @ [CHR 0x22] @ htmlentities v @ [CHR 0x22])"

text \<open>The markup of a document; attributes come in the iteration order of the hash map.\<close>

fun serialize :: "(string list \<Rightarrow> string list) \<Rightarrow> doc \<Rightarrow> string" where
  "serialize ord (D_text u) = htmlentities u"
| "serialize ord (D_elem nm as ds) =
     (let body = concat (map (serialize ord) ds) in
      ''<'' @ nm @ concat (map attr_text (um_iter ord as)) @
      (if nm \<in> set void_tags \<and> body = [] then ''/>'' else ''>'' @ body @ ''</'' @ nm @ ''>''))"

definition safe_text :: "string \<Rightarrow> bool" where
  "safe_text u \<longleftrightarrow> (\<forall>c\<in>set u. plain_char c \<and> \<not> stub_byte c)"

definition safe_name :: "string \<Rightarrow> bool" where
  "safe_name k \<longleftrightarrow> k \<noteq> [] \<and> \<not> is_prefix ''@DBP:PARAM@'' k \<and> (\<forall>c\<in>set k. \<not> markup_char c \<and> \<not> stub_byte c)"

fun safe_doc :: "doc \<Rightarrow> bool" where
  "safe_doc (D_text u) = safe_text u"
| "safe_doc (D_elem nm as ds) =
     (safe_name nm \<and> distinct (map fst as) \<and>
      list_all (\<lambda>(k, v). safe_name k \<and> safe_text v) as \<and> list_all safe_doc ds)"

fun doc_depth :: "doc \<Rightarrow> nat" where
  "doc_depth (D_text u) = 2"
| "doc_depth (D_elem nm as ds) = Suc (foldr max (map doc_depth ds) 2)"

text \<open>A node of the tag tree stands for a document.\<close>

definition text_node :: "store \<Rightarrow> nat \<Rightarrow> string \<Rightarrow> bool" where
  "text_node h t u \<longleftrightarrow> (\<exists>n. h t = Some n \<and> cls n = C_tag_expression \<and> ntext n = u)"

fun doc_node :: "store \<Rightarrow> nat \<Rightarrow> doc \<Rightarrow> bool" where
  "doc_node h t (D_text u) = text_node h t u"
| "doc_node h t (D_elem nm as ds) =
     (\<exists>n. h t = Some n \<and> cls n = C_tag_unknown \<and> nname n = nm \<and> ntext n = [] \<and>
        list_all2 (\<lambda>(k, p) (k', v). k = k' \<and> text_node h p v) (nparams n) as \<and>
        list_all2 (\<lambda>d c. doc_node h c d) ds (nchilds n))"

section \<open>Rendering\<close>

lemma forM_out:
  "(\<And>x. x \<in> set xs \<Longrightarrow> f x s = (Ok (), g x, s)) \<Longrightarrow> forM xs f s = (Ok (), concat (map g xs), s)"
  by (induction xs) (simp_all add: ret_def seqM_def bindM_def)

lemma forM_out2:
  "list_all2 (\<lambda>x y. f x s = (Ok (), g y, s)) xs ys \<Longrightarrow> forM xs f s = (Ok (), concat (map g ys), s)"
  by (induction rule: list_all2_induct) (simp_all add: ret_def seqM_def bindM_def)

lemma map_of_rel:
  "list_all2 (\<lambda>(k, p) (k', v). k = k' \<and> Q p v) m as \<Longrightarrow> rel_option Q (map_of m k) (map_of as k)"
  by (induction rule: list_all2_induct) auto

lemma um_iter_rel:
  assumes "list_all2 (\<lambda>(k, p) (k', v). k = k' \<and> Q p v) m as"
  shows "list_all2 (\<lambda>(k, p) (k', v). k = k' \<and> Q p v) (um_iter ord m) (um_iter ord as)"
proof -
  have "map fst m = map fst as"
    using assms by (induction rule: list_all2_induct) auto
  moreover have "list_all2 (\<lambda>(k, p) (k', v). k = k' \<and> Q p v)
      (concat (map (\<lambda>k. case map_of m k of None \<Rightarrow> [] | Some v \<Rightarrow> [(k, v)]) ks))
      (concat (map (\<lambda>k. case map_of as k of None \<Rightarrow> [] | Some v \<Rightarrow> [(k, v)]) ks))" for ks
  proof (induction ks)
    case (Cons k ks)
    with map_of_rel [OF assms, of k] show ?case
      by (cases "map_of m k"; cases "map_of as k") (auto intro!: list_all2_appendI)
  qed simp
  ultimately show ?thesis by (simp add: um_iter_def)
qed

lemma execute_text:
  assumes "text_node (heap s) t u" and "safe_text u"
  shows "execute w (Suc (Suc n)) t c s = (Ok (), u, s)"
proof -
  have "list_all plain_char u" using assms(2) by (auto simp: safe_text_def list_all_iff)
  with assms(1) eval_plain [of u w "execute w (Suc n)" t n] show ?thesis
    by (auto simp: text_node_def bindM_def derefM_def dispatch_def tag_expression_execute_def
        outM_def ret_def simp del: eval.simps)
qed

text \<open>An attribute, with the quotes still stubbed.\<close>

definition attr_stubbed :: "string \<times> string \<Rightarrow> string" where
  "attr_stubbed kv = (case kv of (k, v) \<Rightarrow>
     if v = [] then [] else '' '' @ k @ ''='' @ [CHR 0x02] @ htmlentities v @ [CHR 0x02])"

lemma is_prefix_append: "is_prefix (p @ q) k \<Longrightarrow> is_prefix p k"
  unfolding is_prefix_def by (drule arg_cong [of _ _ "take (length p)"]) simp

lemma attr_prefix: "is_prefix ''@DBP:PARAM@attr'' k \<Longrightarrow> is_prefix ''@DBP:PARAM@'' k"
  using is_prefix_append [of "''@DBP:PARAM@''" "''attr''" k] by simp

lemma write_attribute_text:
  assumes "text_node (heap s) p v" and "safe_text v" and "safe_name k"
  shows "write_attribute (execute w (Suc (Suc n))) self htmlentities (k, p) s =
    (Ok (), attr_stubbed (k, v), s)"
  using assms(3) execute_text [OF assms(1,2), of w n "Some self"] attr_prefix [of k]
  by (auto simp: write_attribute_def safe_name_def attr_stubbed_def capture_def bindM_def outM_def ret_def
      simp del: execute.simps)

text \<open>What an element of the document writes inside the outermost element.\<close>

fun inner :: "(string list \<Rightarrow> string list) \<Rightarrow> doc \<Rightarrow> string" where
  "inner ord (D_text u) = u"
| "inner ord (D_elem nm as ds) =
     (let body = concat (map (inner ord) ds) in
      [CHR 0x03] @ nm @ concat (map attr_stubbed (um_iter ord as)) @
      (if nm \<in> set void_tags \<and> body = [] then ''/'' @ [CHR 0x04] else close_tag nm (htmlentities body)))"

lemma asis_None:
  assumes "list_all2 (\<lambda>(k, p) (k', v). k = k' \<and> Q p v) (nparams n) as"
    and "list_all (\<lambda>(k, v). safe_name k \<and> P v) as"
  shows "asis_param n = ret False"
proof -
  have "map_of as ''@DBP:PARAM@asis'' = None"
  proof (rule ccontr)
    assume "map_of as ''@DBP:PARAM@asis'' \<noteq> None"
    then obtain v where "(''@DBP:PARAM@asis'', v) \<in> set as" by (auto dest: map_of_SomeD)
    with assms(2) show False by (auto simp: list_all_iff safe_name_def is_prefix_def)
  qed
  with map_of_rel [OF assms(1), of "''@DBP:PARAM@asis''"] show ?thesis by (simp add: asis_param_def)
qed

lemma real_execute_doc:
  assumes n: "heap s t = Some me" "nname me = nm" "ntext me = []"
    and as: "list_all2 (\<lambda>(k, p) (k', v). k = k' \<and> text_node (heap s) p v) (nparams me) as"
    and safe: "list_all (\<lambda>(k, v). safe_name k \<and> safe_text v) as"
    and ds: "list_all2 (\<lambda>c d. execute w (Suc (Suc m)) c caller s = (Ok (), inner ord d, s)) (nchilds me) ds"
    and ord: "ord = um_order (dclib w)"
  shows "real_execute w (execute w (Suc (Suc m))) t caller s = (Ok (), inner ord (D_elem nm as ds), s)"
proof -
  let ?ex = "execute w (Suc (Suc m))"
  have "list_all2 (\<lambda>kp kv. write_attribute ?ex t htmlentities kp s = (Ok (), attr_stubbed kv, s))
      (um_iter ord (nparams me)) (um_iter ord as)"
    using um_iter_rel [OF as, of ord]
  proof (rule list.rel_mono_strong)
    fix kp kv
    assume "kv \<in> set (um_iter ord as)" and rel: "(\<lambda>(k, p) (k', v). k = k' \<and> text_node (heap s) p v) kp kv"
    moreover obtain k p v where kpv: "kp = (k, p)" "kv = (k, v)" using rel by (cases kp; cases kv) auto
    ultimately have "safe_name k \<and> safe_text v"
      using set_um_iter [of ord as] safe by (auto simp: list_all_iff)
    then show "write_attribute ?ex t htmlentities kp s = (Ok (), attr_stubbed kv, s)"
      using rel write_attribute_text [of s p v k w m t] by (simp add: kpv del: execute.simps)
  qed
  then have attrs: "forM (um_iter ord (nparams me)) (write_attribute ?ex t htmlentities) s =
      (Ok (), concat (map attr_stubbed (um_iter ord as)), s)" by (rule forM_out2)
  have childs: "forM (nchilds me) (\<lambda>c. ?ex c caller) s = (Ok (), concat (map (inner ord) ds), s)"
    using ds by (rule forM_out2)
  have "impl_execute ?ex t caller s = (Ok (), concat (map (inner ord) ds), s)"
    using n childs
    by (simp add: impl_execute_def bindM_def seqM_def derefM_def outM_def del: execute.simps)
  then have body: "capture (impl_execute ?ex t caller) s = (Ok (concat (map (inner ord) ds)), [], s)"
    by (simp add: capture_def del: execute.simps)
  have "asis_param me = ret False" using as safe by (rule asis_None)
  with n attrs body ord show ?thesis
    by (simp add: real_execute_def Let_def bindM_def seqM_def derefM_def getM_def outM_def
        ret_def del: execute.simps)
qed

lemma foldr_max_le: "x \<in> set xs \<Longrightarrow> x \<le> foldr max xs b" "b \<le> foldr max xs (b :: nat)"
  by (induction xs) auto

lemma execute_inner:
  assumes "doc_node (heap s) t d" and "safe_doc d" and "doc_depth d \<le> n"
    and first: "get_value (ctxs s) ''@HTML:FIRST@'' \<noteq> []"
  shows "execute w n t caller s = (Ok (), inner (um_order (dclib w)) d, s)"
  using assms(1-3)
proof (induction d arbitrary: t n)
  case (D_text u)
  then obtain m where "n = Suc (Suc m)" by (metis add_2_eq_Suc doc_depth.simps(1) le_Suc_ex)
  with D_text show ?case by (simp add: execute_text del: execute.simps)
next
  case (D_elem nm as ds)
  have "2 \<le> foldr max (map doc_depth ds) 2" by (rule foldr_max_le(2))
  with D_elem.prems(3) obtain m where m: "n = Suc (Suc (Suc m))" "foldr max (map doc_depth ds) 2 \<le> Suc (Suc m)"
    by (cases n) (auto dest!: le_Suc_ex simp: add_2_eq_Suc numeral_2_eq_2)
  from D_elem.prems(1) obtain me where me: "heap s t = Some me" "cls me = C_tag_unknown" "nname me = nm"
    "ntext me = []" "list_all2 (\<lambda>(k, p) (k', v). k = k' \<and> text_node (heap s) p v) (nparams me) as"
    "list_all2 (\<lambda>d c. doc_node (heap s) c d) ds (nchilds me)" by auto
  have "list_all2 (\<lambda>d c. execute w (Suc (Suc m)) c caller s = (Ok (), inner (um_order (dclib w)) d, s)) ds (nchilds me)"
    using me(6)
  proof (rule list.rel_mono_strong)
    fix d c assume d: "d \<in> set ds" "doc_node (heap s) c d"
    have "doc_depth d \<le> Suc (Suc m)" using foldr_max_le(1) [of "doc_depth d" "map doc_depth ds" 2] d(1) m(2)
      by simp
    with d D_elem.prems(2) show "execute w (Suc (Suc m)) c caller s = (Ok (), inner (um_order (dclib w)) d, s)"
      by (intro D_elem.IH) (auto simp: list_all_iff)
  qed
  then have "list_all2 (\<lambda>c d. execute w (Suc (Suc m)) c caller s = (Ok (), inner (um_order (dclib w)) d, s)) (nchilds me) ds"
    by (simp add: list_all2_conv_all_nth)
  from real_execute_doc [OF me(1,3,4,5) _ this refl] D_elem.prems(2) first me(1,2) show ?case
    unfolding m(1) execute.simps(2) [of w "Suc (Suc m)"]
    by (simp add: bindM_def derefM_def dispatch_def tag_unknown_execute_def valueM_def getM_def
        del: execute.simps inner.simps)
qed

section \<open>From the stubbed form to markup\<close>

lemma attr_stubbed_out:
  assumes "safe_name k" and "safe_text v"
  shows "htmlentitiesout (attr_stubbed (k, v)) = attr_text (k, v)"
    and "\<forall>c\<in>set (attr_stubbed (k, v)). \<not> markup_char c"
proof -
  have "htmlentitiesout k = k" using assms(1) by (intro htmlentitiesout_id) (auto simp: safe_name_def)
  moreover have "htmlentitiesout (htmlentities v) = htmlentities v"
    using assms(2) by (intro htmlentitiesout_id) (auto simp: safe_text_def dest: htmlentities_stub_bytes)
  ultimately show "htmlentitiesout (attr_stubbed (k, v)) = attr_text (k, v)"
    by (simp add: attr_stubbed_def attr_text_def htmlentitiesout_append)
      (simp add: htmlentitiesout_def unstub_char.simps)
  show "\<forall>c\<in>set (attr_stubbed (k, v)). \<not> markup_char c"
    using assms(1) htmlentities_no_markup
    by (auto simp: attr_stubbed_def safe_name_def) (simp_all add: markup_char_def)
qed

lemma Nil_iff [simp]: "htmlentities u = [] \<longleftrightarrow> u = []" "htmlentitiesout u = [] \<longleftrightarrow> u = []"
  by (cases u; simp add: htmlentities_def entity.simps htmlentitiesout_def)+

lemma attrs_stubbed_out:
  assumes "list_all (\<lambda>(k, v). safe_name k \<and> safe_text v) as"
  shows "htmlentitiesout (concat (map attr_stubbed as)) = concat (map attr_text as)"
    and "\<forall>c\<in>set (concat (map attr_stubbed as)). \<not> markup_char c"
  using assms
  by (induction as) (auto simp: htmlentitiesout_append attr_stubbed_out Nil_iff simp del: set_concat set_map)

lemma um_iter_all: "list_all P as \<Longrightarrow> list_all P (um_iter ord as)"
  using set_um_iter [of ord as] by (auto simp: list_all_iff)

lemma inner_no_markup:
  assumes "safe_doc (D_elem nm as ds)" and "c \<in> set (inner ord (D_elem nm as ds))"
  shows "\<not> markup_char c"
  using assms attrs_stubbed_out(2) [OF um_iter_all, of as ord] htmlentities_no_markup
  by (auto simp: Let_def close_tag_def safe_name_def split: if_splits) (auto simp: markup_char_def)

lemma htmlentities_inner:
  "safe_doc (D_elem nm as ds) \<Longrightarrow> htmlentities (inner ord (D_elem nm as ds)) = inner ord (D_elem nm as ds)"
  using inner_no_markup by (intro htmlentities_id) blast

lemma inner_serialize:
  "safe_doc d \<Longrightarrow> htmlentitiesout (htmlentities (inner ord d)) = serialize ord d"
proof (induction d)
  case (D_text u)
  then show ?case
    by (auto intro!: htmlentitiesout_id simp: safe_text_def dest: htmlentities_stub_bytes)
next
  case (D_elem nm as ds)
  let ?body = "concat (map (inner ord) ds)" and ?sbody = "concat (map (serialize ord) ds)"
  have safe: "safe_name nm" "list_all (\<lambda>(k, v). safe_name k \<and> safe_text v) as" "list_all safe_doc ds"
    using D_elem.prems by auto
  have map_eq: "map (\<lambda>d. htmlentitiesout (htmlentities (inner ord d))) ds = map (serialize ord) ds"
    using D_elem.IH safe(3) by (auto simp: list_all_iff)
  have "htmlentitiesout (htmlentities ?body) =
      concat (map (\<lambda>d. htmlentitiesout (htmlentities (inner ord d))) ds)"
    by (simp add: htmlentities_concat htmlentitiesout_concat comp_def)
  with map_eq have body: "htmlentitiesout (htmlentities ?body) = ?sbody" by (simp only:)
  then have nil: "?body = [] \<longleftrightarrow> ?sbody = []" by (metis Nil_iff)
  have nm: "htmlentitiesout nm = nm" using safe(1) by (intro htmlentitiesout_id) (auto simp: safe_name_def)
  have attrs: "htmlentitiesout (concat (map attr_stubbed (um_iter ord as))) = concat (map attr_text (um_iter ord as))"
    by (rule attrs_stubbed_out(1) [OF um_iter_all [OF safe(2)]])
  have chars: "htmlentitiesout [CHR 0x03] = ''<''" "htmlentitiesout [CHR 0x04] = ''>''" "htmlentitiesout ''/'' = ''/''"
    by (simp_all add: htmlentitiesout_def unstub_char.simps)
  have "htmlentitiesout (inner ord (D_elem nm as ds)) = serialize ord (D_elem nm as ds)"
    unfolding inner.simps serialize.simps Let_def nil close_tag_def
    by (cases "nm \<in> set void_tags \<and> ?sbody = []")
      (simp_all only: if_True if_False htmlentitiesout_append chars nm attrs body append_assoc simp_thms, simp_all)
  with htmlentities_inner [OF D_elem.prems] show ?case by simp
qed

text \<open>The outermost element opens a layer for its marker variable and closes it again.\<close>

lemma execute_outermost:
  assumes doc: "doc_node (heap s) t (D_elem nm as ds)" "safe_doc (D_elem nm as ds)"
    and fuel: "doc_depth (D_elem nm as ds) \<le> n"
    and first: "get_value (ctxs s) ''@HTML:FIRST@'' = []"
    and ctx: "ctxs s = c # cs" "compare (dclib w) (vtype c) (vtype c)"
  shows "execute w n t caller s = (Ok (), serialize (um_order (dclib w)) (D_elem nm as ds), s)"
proof -
  let ?d = "D_elem nm as ds" and ?ord = "um_order (dclib w)"
  let ?cs = "c\<lparr>vstack := [(''@HTML:FIRST@'', ''1'')] # vstack c\<rparr> # cs"
  let ?s = "s\<lparr>ctxs := ?cs\<rparr>"
  obtain m where m: "n = Suc m" using fuel by (cases n) auto
  obtain me where me: "heap s t = Some me" "cls me = C_tag_unknown" using doc(1) by auto
  have up: "upcase ''@HTML:FIRST@'' = ''@HTML:FIRST@''" by (simp add: to_upper_def is_lower_def)
  have "get_value (ctxs ?s) ''@HTML:FIRST@'' = ''1''" using up by (simp add: map_add_def)
  then have "execute w n t caller ?s = (Ok (), inner ?ord ?d, ?s)"
    using doc fuel by (intro execute_inner) simp_all
  then have real: "real_execute w (execute w m) t caller ?s = (Ok (), inner ?ord ?d, ?s)"
    using me up unfolding m by (simp add: bindM_def derefM_def dispatch_def tag_unknown_execute_def valueM_def getM_def
        map_add_def del: inner.simps split: prod.splits)
  have out: "htmlentitiesout (inner ?ord ?d) = serialize ?ord ?d"
    using inner_serialize [OF doc(2), of ?ord] htmlentities_inner [OF doc(2), of ?ord] by simp
  have adds: "seqM enterM (seqM (addM w ''@HTML:FIRST@'' ''1'' []) k) s = k ?s" for k :: "unit prog"
    using ctx up by (simp add: enterM_def addM_def ctxM_def seqM_def bindM_def split: prod.split)
  have "seqM enterM (seqM (addM w ''@HTML:FIRST@'' ''1'' [])
      (finallyM (bindM (capture (real_execute w (execute w m) t caller)) (\<lambda>u. outM (htmlentitiesout u))) leaveM)) s =
      (Ok (), serialize ?ord ?d, s)"
    unfolding adds using real out ctx(1)
    by (simp add: finallyM_def bindM_def seqM_def tryM_def capture_def outM_def leaveM_def ctxM_def ret_def
        del: inner.simps serialize.simps)
  with me first show ?thesis
    unfolding m by (simp add: bindM_def derefM_def dispatch_def tag_unknown_execute_def valueM_def getM_def
        del: inner.simps serialize.simps)
qed

end
