(* ===== verification/Parser_Correct.thy ===== *)
theory Parser_Correct
  imports Html_Correct Parser
begin

text \<open>
  The parser on static documents: the tree it builds from the nodes a reader reports is the document.
  While the content of an element is read, the parser's current node is that element or one of its
  children; depths tell it where the next node belongs.
\<close>

section \<open>Documents as sequences of nodes\<close>

text \<open>
  The nodes of a document at a depth. An element without content has an end node or not, as it was
  written \<open><a></a>\<close> or \<open><a/>\<close>; \<open>sc\<close> says which, by name.
\<close>

definition plain_attr :: "string \<times> string \<Rightarrow> xml_attr" where
  "plain_attr kv = \<lparr>a_prefixed = False, a_uri = [], a_local = fst kv, a_name = fst kv, a_value = snd kv\<rparr>"

fun events :: "(string \<Rightarrow> bool) \<Rightarrow> string \<Rightarrow> int \<Rightarrow> doc \<Rightarrow> xml_event list" where
  "events sc uri d (D_text u) = [Ev_text u d]"
| "events sc uri d (D_elem nm as ds) =
     Ev_element nm uri nm d (map plain_attr as) #
     concat (map (events sc uri (d + 1)) ds) @ (if ds = [] \<and> sc nm then [] else [Ev_end])"

text \<open>What the parser stores: texts and attribute values with their white space folded.\<close>

fun folded :: "doc \<Rightarrow> doc" where
  "folded (D_text u) = D_text (squeeze False u)"
| "folded (D_elem nm as ds) = D_elem nm (map (\<lambda>(k, v). (k, squeeze False v)) as) (map folded ds)"

fun parsable :: "doc \<Rightarrow> bool" where
  "parsable (D_text u) = True"
| "parsable (D_elem nm as ds) \<longleftrightarrow>
     nm \<notin> {''include'', ''module''} \<and> distinct (map fst as) \<and> list_all parsable ds"

definition html_uri :: "string \<Rightarrow> bool" where
  "html_uri uri \<longleftrightarrow> \<not> is_prefix dbpager_custom_uri uri \<and> \<not> is_prefix dbpager_uri uri \<and> uri \<noteq> its_uri"

section \<open>Growing the store\<close>

lemma text_node_mono: "text_node h t u \<Longrightarrow> h \<subseteq>\<^sub>m h' \<Longrightarrow> text_node h' t u"
  by (auto simp: text_node_def map_le_def dom_def)

lemma doc_node_mono: "doc_node h t d \<Longrightarrow> h \<subseteq>\<^sub>m h' \<Longrightarrow> doc_node h' t d"
proof (induction d arbitrary: t)
  case (D_text u)
  then show ?case by (simp add: text_node_mono)
next
  case (D_elem nm as ds)
  from D_elem.prems obtain n where n: "h t = Some n" "cls n = C_tag_unknown" "nname n = nm" "ntext n = []"
    "list_all2 (\<lambda>(k, p) (k', v). k = k' \<and> text_node h p v) (nparams n) as"
    "list_all2 (\<lambda>d c. doc_node h c d) ds (nchilds n)" by auto
  have "h' t = Some n" using n(1) D_elem.prems(2) by (auto simp: map_le_def dom_def)
  moreover have "list_all2 (\<lambda>(k, p) (k', v). k = k' \<and> text_node h' p v) (nparams n) as"
    using n(5) by (rule list_all2_mono) (auto intro: text_node_mono D_elem.prems(2))
  moreover have "list_all2 (\<lambda>d c. doc_node h' c d) ds (nchilds n)"
    using n(6) by (rule list.rel_mono_strong) (auto intro: D_elem.IH D_elem.prems(2))
  ultimately show ?case using n by auto
qed

text \<open>
  The store grew from \<open>s\<close> to \<open>s'\<close>: new addresses, and nothing else but the children of the node \<open>p\<close>, which
  got \<open>ts\<close>.
\<close>

definition grew :: "nat \<Rightarrow> nat list \<Rightarrow> state \<Rightarrow> state \<Rightarrow> bool" where
  "grew p ts s s' \<longleftrightarrow> s' = s\<lparr>heap := heap s', next_tag := next_tag s'\<rparr> \<and> next_tag s \<le> next_tag s' \<and> p < next_tag s \<and>
     (\<forall>a < next_tag s. a \<noteq> p \<longrightarrow> heap s' a = heap s a) \<and>
     (\<exists>n. heap s p = Some n \<and> heap s' p = Some (n\<lparr>nchilds := nchilds n @ ts\<rparr>))"

abbreviation fresh :: "state \<Rightarrow> state \<Rightarrow> store" where
  "fresh s s' \<equiv> heap s' |` {next_tag s..<next_tag s'}"

lemma grew_refl: "p < next_tag s \<Longrightarrow> heap s p = Some n \<Longrightarrow> grew p [] s s"
  by (auto simp: grew_def)

lemma grew_trans:
  assumes "grew p ts s s1" and "grew p us s1 s2"
  shows "grew p (ts @ us) s s2"
proof -
  from assms obtain n where n: "heap s p = Some n" "heap s1 p = Some (n\<lparr>nchilds := nchilds n @ ts\<rparr>)"
    "heap s2 p = Some (n\<lparr>nchilds := nchilds n @ ts @ us\<rparr>)" by (auto simp: grew_def)
  have s: "s1 = s\<lparr>heap := heap s1, next_tag := next_tag s1\<rparr>" "s2 = s1\<lparr>heap := heap s2, next_tag := next_tag s2\<rparr>"
    using assms by (simp_all add: grew_def)
  have "s2 = s\<lparr>heap := heap s2, next_tag := next_tag s2\<rparr>" by (subst s(2), subst s(1)) simp
  with assms n show ?thesis by (auto simp: grew_def)
qed

lemma fresh_mono:
  assumes "grew p ts s s1" and "grew p us s1 s2"
  shows "fresh s s1 \<subseteq>\<^sub>m fresh s s2" "fresh s1 s2 \<subseteq>\<^sub>m fresh s s2"
  using assms by (auto simp: grew_def map_le_def restrict_map_def split: if_splits)

text \<open>
  Where the parser stands: inside of the element \<open>p\<close> at depth \<open>d\<close>, on it or on a child.
\<close>

definition inside :: "nat \<Rightarrow> int \<Rightarrow> nat \<Rightarrow> state \<Rightarrow> bool" where
  "inside p d c s \<longleftrightarrow> p < next_tag s \<and> c < next_tag s \<and>
     (\<exists>n. heap s p = Some n \<and> ndepth n = d \<and> nname n \<noteq> ''module'' \<and>
       (c = p \<or> (c \<noteq> p \<and> (\<exists>m. heap s c = Some m \<and> nparent m = Some p \<and> ndepth m = d + 1 \<and> nname m \<noteq> ''module''))))"

lemma inside_grew:
  assumes "inside p d c s" and "grew p ts s s'"
  shows "inside p d c s'"
  using assms by (auto simp: inside_def grew_def)

lemma relationship_inside:
  assumes "inside p d c s" and "heap s t = Some tn" "ndepth tn = d + 1" "t \<noteq> p" "t \<noteq> c" "heap s p = Some pn"
  shows "make_relationship dl name (Some c) t (heap s) =
    Ok ((heap s)(t \<mapsto> tn\<lparr>nparent := Some p, ndepth := d + 1\<rparr>, p \<mapsto> pn\<lparr>nchilds := nchilds pn @ [t]\<rparr>))"
  using assms
  by (auto simp: inside_def make_relationship_def add_child_def set_parent_def upd_def)

section \<open>Attributes\<close>

definition attr_tag :: "nat \<Rightarrow> node \<Rightarrow> string \<Rightarrow> node" where
  "attr_tag t tn v = set_text v ((new_node C_tag_expression [])\<lparr>nparent := Some t, ndepth := ndepth tn + 1\<rparr>)"

lemma process_attribute_plain:
  assumes "heap s t = Some tn" "cls tn \<noteq> C_tag_tag" "t < next_tag s" "map_of (nparams tn) k = None"
  shows "process_attribute ex t (plain_attr (k, v)) s = (Ok (), [],
    s\<lparr>heap := (heap s)(next_tag s \<mapsto> attr_tag t tn v, t \<mapsto> tn\<lparr>nparams := nparams tn @ [(k, next_tag s)]\<rparr>),
      next_tag := Suc (next_tag s)\<rparr>)"
  using assms
  by (simp add: process_attribute_def plain_attr_def add_parameterM_def add_parameter_def bindM_def seqM_def allocM_def
      storeM_def derefM_def set_parent_def upd_def ret_def attr_tag_def um_insert_def set_text_def new_node_def)

lemma process_attributes_plain:
  assumes "heap s t = Some tn" "cls tn \<noteq> C_tag_tag" "t < next_tag s" "distinct (map fst (nparams tn) @ map fst as)"
  shows "\<exists>s' ps. process_attributes ex t (map plain_attr as) s = (Ok (), [], s') \<and>
    s' = s\<lparr>heap := heap s', next_tag := next_tag s'\<rparr> \<and> next_tag s \<le> next_tag s' \<and>
    (\<forall>a < next_tag s. a \<noteq> t \<longrightarrow> heap s' a = heap s a) \<and> heap s' t = Some (tn\<lparr>nparams := nparams tn @ ps\<rparr>) \<and>
    list_all2 (\<lambda>(k, p) (k', v). k = k' \<and> text_node (fresh s s') p (squeeze False v)) ps as"
  using assms
proof (induction as arbitrary: s tn)
  case Nil
  then show ?case
    by (intro exI [of _ s] exI [of _ "[]"]) (simp add: process_attributes_def ret_def)
next
  case (Cons kv as)
  obtain k v where kv: "kv = (k, v)" by (cases kv)
  let ?tn = "tn\<lparr>nparams := nparams tn @ [(k, next_tag s)]\<rparr>"
  let ?s = "s\<lparr>heap := (heap s)(next_tag s \<mapsto> attr_tag t tn v, t \<mapsto> ?tn), next_tag := Suc (next_tag s)\<rparr>"
  have 1: "process_attribute ex t (plain_attr kv) s = (Ok (), [], ?s)"
    using Cons.prems kv by (simp add: process_attribute_plain map_of_eq_None_iff)
  from Cons.IH [of ?s ?tn] Cons.prems kv obtain s' ps where
    2: "process_attributes ex t (map plain_attr as) ?s = (Ok (), [], s')"
      "s' = ?s\<lparr>heap := heap s', next_tag := next_tag s'\<rparr>" "Suc (next_tag s) \<le> next_tag s'"
      "\<forall>a < Suc (next_tag s). a \<noteq> t \<longrightarrow> heap s' a = heap ?s a" "heap s' t = Some (?tn\<lparr>nparams := nparams ?tn @ ps\<rparr>)"
      "list_all2 (\<lambda>(k, p) (k', v). k = k' \<and> text_node (fresh ?s s') p (squeeze False v)) ps as"
    by auto
  have m: "fresh ?s s' \<subseteq>\<^sub>m fresh s s'" by (auto simp: map_le_def restrict_map_def)
  have "heap s' (next_tag s) = Some (attr_tag t tn v)" using 2(4) Cons.prems(3) by auto
  then have "text_node (fresh s s') (next_tag s) (squeeze False v)"
    using 2(3) by (simp add: text_node_def restrict_map_def attr_tag_def set_text_def new_node_def)
  moreover have "list_all2 (\<lambda>(k, p) (k', v). k = k' \<and> text_node (fresh s s') p (squeeze False v)) ps as"
    using 2(6) by (rule list_all2_mono) (auto intro: text_node_mono [OF _ m])
  ultimately show ?case
    using 1 2 kv Cons.prems(3)
    by (intro exI [of _ s'] exI [of _ "(k, next_tag s) # ps"])
      (auto simp: process_attributes_def seqM_def bindM_def)
qed

section \<open>Elements\<close>

text \<open>An element of the document before its content is read.\<close>

lemma element_alloc:
  fixes s :: state
  assumes "distinct (map fst as)"
  defines "t \<equiv> next_tag s"
  shows "\<exists>s1 ps. bindM (allocM ((new_node C_tag_unknown nm)\<lparr>ndepth := d\<rparr>)) (\<lambda>rslt.
      seqM (process_attributes ex rslt (map plain_attr as)) (k rslt)) s = k t s1 \<and>
    s1 = s\<lparr>heap := heap s1, next_tag := next_tag s1\<rparr> \<and> t < next_tag s1 \<and> (\<forall>a < t. heap s1 a = heap s a) \<and>
    heap s1 t = Some ((new_node C_tag_unknown nm)\<lparr>ndepth := d, nparams := ps\<rparr>) \<and>
    list_all2 (\<lambda>(k, p) (k', v). k = k' \<and> text_node (heap s1 |` {t<..<next_tag s1}) p (squeeze False v)) ps as"
proof -
  let ?n = "(new_node C_tag_unknown nm)\<lparr>ndepth := d\<rparr>"
  let ?s = "s\<lparr>heap := (heap s)(t \<mapsto> ?n), next_tag := Suc t\<rparr>"
  from process_attributes_plain [of ?s t ?n as ex] assms(1) obtain s1 ps where
    1: "process_attributes ex t (map plain_attr as) ?s = (Ok (), [], s1)" "s1 = ?s\<lparr>heap := heap s1, next_tag := next_tag s1\<rparr>"
      "Suc t \<le> next_tag s1" "\<forall>a < Suc t. a \<noteq> t \<longrightarrow> heap s1 a = heap ?s a" "heap s1 t = Some (?n\<lparr>nparams := ps\<rparr>)"
      "list_all2 (\<lambda>(k, p) (k', v). k = k' \<and> text_node (fresh ?s s1) p (squeeze False v)) ps as"
    by (auto simp: new_node_def)
  have e: "{Suc t..<next_tag s1} = {t<..<next_tag s1}" by auto
  have s1: "s1 = s\<lparr>heap := heap s1, next_tag := next_tag s1\<rparr>" by (subst 1(2)) simp
  have "bindM (allocM ?n) (\<lambda>rslt. seqM (process_attributes ex rslt (map plain_attr as)) (k rslt)) s = k t s1"
    using 1(1) by (simp add: bindM_def seqM_def allocM_def t_def split: prod.splits)
  with 1(3-6) s1 e show ?thesis by (intro exI [of _ s1] exI [of _ ps]) (auto simp: t_def)
qed

text \<open>\<open>opened\<close>: the element \<open>t\<close> with its attributes, no content yet.\<close>

definition opened :: "nat \<Rightarrow> string \<Rightarrow> (string \<times> string) list \<Rightarrow> state \<Rightarrow> state \<Rightarrow> bool" where
  "opened t nm as s s' \<longleftrightarrow> next_tag s \<le> t \<and> t < next_tag s' \<and>
     (\<exists>n. heap s' t = Some n \<and> cls n = C_tag_unknown \<and> nname n = nm \<and> ntext n = [] \<and> nchilds n = [] \<and>
       list_all2 (\<lambda>(k, p) (k', v). k = k' \<and> p \<noteq> t \<and> text_node (fresh s s') p (squeeze False v)) (nparams n) as)"

lemma element_opened:
  assumes "inside p d c s" and "html_uri uri" "nm \<notin> {''include'', ''module''}" "distinct (map fst as)"
  shows "\<exists>t s'. process_node w f ex sub (Some c) (Ev_element nm uri nm (d + 1) (map plain_attr as)) s = (Ok (Some t), [], s') \<and>
    grew p [t] s s' \<and> inside p d t s' \<and> inside t (d + 1) t s' \<and> opened t nm as s s' \<and> t \<noteq> p \<and>
    (\<exists>n. heap s' t = Some n \<and> nparent n = Some p)"
proof -
  define t where "t = next_tag s"
  define k where "k = (\<lambda>rslt. bindM (derefM rslt) (\<lambda>rn. if nname rn = ''include'' then
      bindM (in_new_context (get_parameter ex rslt ''href'')) (\<lambda>href.
        if href = [] then throwM (Parser_exc 0 ''href parameter missing for tag include'')
        else bindM (sub href) (splice_include (Some c) rslt))
    else seqM (storeM (make_relationship (dclib w) nm (Some c) rslt))
      (seqM (if cls rn = C_tag_usr then linkM rslt else ret ()) (ret (Some rslt)))))"
  obtain s1 ps where 1: "bindM (allocM ((new_node C_tag_unknown nm)\<lparr>ndepth := d + 1\<rparr>)) (\<lambda>rslt.
      seqM (process_attributes ex rslt (map plain_attr as)) (k rslt)) s = k t s1"
    "s1 = s\<lparr>heap := heap s1, next_tag := next_tag s1\<rparr>" "t < next_tag s1" "\<forall>a < t. heap s1 a = heap s a"
    "heap s1 t = Some ((new_node C_tag_unknown nm)\<lparr>ndepth := d + 1, nparams := ps\<rparr>)"
    "list_all2 (\<lambda>(k, p) (k', v). k = k' \<and> text_node (heap s1 |` {t<..<next_tag s1}) p (squeeze False v)) ps as"
    using element_alloc [OF assms(4), where s = s and nm = nm and d = "d + 1" and ex = ex and k = k] unfolding t_def by blast
  from assms(1) obtain pn where p: "heap s p = Some pn" "p < t" "c < t" by (auto simp: inside_def t_def)
  have in1: "inside p d c s1"
    using assms(1) 1(3,4) by (auto simp: inside_def t_def)
  have p1: "heap s1 p = Some pn" using 1(4) p by simp
  let ?tn = "(new_node C_tag_unknown nm)\<lparr>ndepth := d + 1, nparams := ps, nparent := Some p\<rparr>"
  let ?s' = "s1\<lparr>heap := (heap s1)(t \<mapsto> ?tn, p \<mapsto> pn\<lparr>nchilds := nchilds pn @ [t]\<rparr>)\<rparr>"
  have "make_relationship (dclib w) nm (Some c) t (heap s1) = Ok (heap ?s')"
    using relationship_inside [OF in1 1(5) _ _ _ p1] p(2,3) by (simp add: new_node_def)
  then have "k t s1 = (Ok (Some t), [], ?s')"
    using 1(5) assms(3) by (simp add: k_def bindM_def seqM_def derefM_def storeM_def ret_def new_node_def)
  then have r: "process_node w f ex sub (Some c) (Ev_element nm uri nm (d + 1) (map plain_attr as)) s = (Ok (Some t), [], ?s')"
    using 1(1) assms(2) by (simp add: process_node_def process_element_def element_tag_def html_uri_def k_def liftO_def
      bindM_def [of "liftO _"])
  have "list_all2 (\<lambda>(k, q) (k', v). k = k' \<and> q \<noteq> t \<and> text_node (fresh s ?s') q (squeeze False v)) ps as"
    using 1(6) by (rule list_all2_mono) (use p(2) in \<open>auto simp: text_node_def restrict_map_def t_def split: if_splits\<close>)
  then have "opened t nm as s ?s'"
    using 1(3) p(2) by (auto simp: opened_def t_def new_node_def)
  moreover have "s1\<lparr>heap := X\<rparr> = s\<lparr>heap := X, next_tag := next_tag s1\<rparr>" for X
    using arg_cong [OF 1(2), of "\<lambda>s. s\<lparr>heap := X\<rparr>"] by simp
  then have "grew p [t] s ?s'"
    using 1(3,4) p p1 by (subst grew_def) (auto simp: t_def)
  moreover have "inside p d t ?s'" "inside t (d + 1) t ?s'"
    using assms(1,3) 1(3) p p1 by (auto simp: inside_def t_def new_node_def)
  ultimately show ?thesis using r p(2) by (intro exI [of _ t] exI [of _ ?s']) auto
qed

text \<open>A text.\<close>

lemma text_added:
  assumes "inside p d c s"
  shows "\<exists>t s'. process_node w f ex sub (Some c) (Ev_text u (d + 1)) s = (Ok (Some c), [], s') \<and>
    grew p [t] s s' \<and> inside p d c s' \<and> text_node (fresh s s') t (squeeze False u)"
proof -
  define t where "t = next_tag s"
  define tn where "tn = (set_text u (new_node C_tag_expression []))\<lparr>ndepth := d + 1\<rparr>"
  let ?s1 = "s\<lparr>heap := (heap s)(t \<mapsto> tn), next_tag := Suc t\<rparr>"
  from assms obtain pn where p: "heap s p = Some pn" "p < t" "c < t" by (auto simp: inside_def t_def)
  have in1: "inside p d c ?s1" using assms by (auto simp: inside_def t_def)
  let ?s' = "?s1\<lparr>heap := (heap ?s1)(t \<mapsto> tn\<lparr>nparent := Some p, ndepth := d + 1\<rparr>, p \<mapsto> pn\<lparr>nchilds := nchilds pn @ [t]\<rparr>)\<rparr>"
  have "make_relationship (dclib w) ''#text'' (Some c) t (heap ?s1) = Ok (heap ?s')"
    using relationship_inside [OF in1, of t tn pn "dclib w" "''#text''"] p by (simp add: tn_def)
  then have "process_node w f ex sub (Some c) (Ev_text u (d + 1)) s = (Ok (Some c), [], ?s')"
    by (simp add: process_node_def text_child_def bindM_def seqM_def allocM_def storeM_def ret_def t_def tn_def)
  moreover have "grew p [t] s ?s'" using p by (auto simp: grew_def t_def)
  moreover have "text_node (fresh s ?s') t (squeeze False u)"
    using p by (auto simp: text_node_def restrict_map_def t_def tn_def set_text_def new_node_def)
  ultimately show ?thesis using assms inside_grew by blast
qed

section \<open>Documents\<close>

definition feeds :: "(nat option \<Rightarrow> xml_event \<Rightarrow> nat option prog) \<Rightarrow> xml_event list \<Rightarrow> nat \<Rightarrow> state \<Rightarrow> nat \<Rightarrow> state \<Rightarrow> bool" where
  "feeds pn evs c s c' s' \<longleftrightarrow>
     (\<forall>r rest. parse_loop pn (evs @ rest) (Some r) (Some c) s = parse_loop pn rest (Some r) (Some c') s')"

lemma feeds_Nil: "feeds pn [] c s c s"
  by (simp add: feeds_def)

lemma feeds_append: "feeds pn es c s c1 s1 \<Longrightarrow> feeds pn fs c1 s1 c2 s2 \<Longrightarrow> feeds pn (es @ fs) c s c2 s2"
  by (simp add: feeds_def)

lemma feeds_one: "pn (Some c) e s = (Ok (Some c'), [], s') \<Longrightarrow> feeds pn [e] c s c' s'"
  by (simp add: feeds_def bindM_def)

lemma feeds_Cons: "pn (Some c) e s = (Ok (Some c1), [], s1) \<Longrightarrow> feeds pn es c1 s1 c2 s2 \<Longrightarrow> feeds pn (e # es) c s c2 s2"
  using feeds_append [OF feeds_one, of pn c e s c1 s1 es c2 s2] by simp

text \<open>What reading a document inside of an element \<open>p\<close> at depth \<open>d\<close> does.\<close>

definition adds_doc :: "(nat option \<Rightarrow> xml_event \<Rightarrow> nat option prog) \<Rightarrow> (string \<Rightarrow> bool) \<Rightarrow> string \<Rightarrow> doc \<Rightarrow> bool" where
  "adds_doc pn sc uri x \<longleftrightarrow> (\<forall>p d c s. inside p d c s \<longrightarrow>
     (\<exists>t c' s'. feeds pn (events sc uri (d + 1) x) c s c' s' \<and> inside p d c' s' \<and> grew p [t] s s' \<and>
       doc_node (fresh s s') t (folded x)))"

lemma feeds_docs:
  assumes "\<forall>x\<in>set xs. adds_doc pn sc uri x" and "inside p d c s"
  shows "\<exists>ts c' s'. feeds pn (concat (map (events sc uri (d + 1)) xs)) c s c' s' \<and> inside p d c' s' \<and> grew p ts s s' \<and>
    list_all2 (\<lambda>x t. doc_node (fresh s s') t (folded x)) xs ts"
  using assms
proof (induction xs arbitrary: c s)
  case Nil
  then show ?case
    using feeds_Nil grew_refl by (fastforce simp: inside_def)
next
  case (Cons x xs)
  then obtain t c1 s1 where 1: "feeds pn (events sc uri (d + 1) x) c s c1 s1" "inside p d c1 s1" "grew p [t] s s1"
    "doc_node (fresh s s1) t (folded x)" unfolding adds_doc_def by (metis list.set_intros(1))
  from Cons.IH [OF _ 1(2)] Cons.prems(1) obtain ts c2 s2 where
    2: "feeds pn (concat (map (events sc uri (d + 1)) xs)) c1 s1 c2 s2" "inside p d c2 s2" "grew p ts s1 s2"
      "list_all2 (\<lambda>x t. doc_node (fresh s1 s2) t (folded x)) xs ts" by auto
  note m = fresh_mono [OF 1(3) 2(3)]
  have "list_all2 (\<lambda>x t. doc_node (fresh s s2) t (folded x)) (x # xs) (t # ts)"
    using doc_node_mono [OF 1(4) m(1)] list_all2_mono [OF 2(4)] doc_node_mono [OF _ m(2)] by fastforce
  moreover have "grew p (t # ts) s s2" using grew_trans [OF 1(3) 2(3)] by simp
  ultimately show ?case using feeds_append [OF 1(1) 2(1)] 2(2) by fastforce
qed

text \<open>Growth below a new node is growth of the store around it.\<close>

lemma grew_below:
  assumes "grew p [t] s s1" and "grew t ts s1 s2" and "next_tag s \<le> t"
  shows "grew p [t] s s2"
proof -
  have s: "s1 = s\<lparr>heap := heap s1, next_tag := next_tag s1\<rparr>" "s2 = s1\<lparr>heap := heap s2, next_tag := next_tag s2\<rparr>"
    using assms by (simp_all add: grew_def)
  have "s2 = s\<lparr>heap := heap s2, next_tag := next_tag s2\<rparr>" by (subst s(2), subst s(1)) simp
  with assms show ?thesis by (auto simp: grew_def)
qed

lemma doc_closed:
  assumes o: "opened t nm as s s1" and g: "grew t ts s1 s2"
    and ds: "list_all2 (\<lambda>x t. doc_node (fresh s1 s2) t (folded x)) ds ts" and le: "next_tag s \<le> next_tag s1"
  shows "doc_node (fresh s s2) t (folded (D_elem nm as ds))"
proof -
  from o obtain n where n: "heap s1 t = Some n" "cls n = C_tag_unknown" "nname n = nm" "ntext n = []" "nchilds n = []"
    "list_all2 (\<lambda>(k, p) (k', v). k = k' \<and> p \<noteq> t \<and> text_node (fresh s s1) p (squeeze False v)) (nparams n) as"
    "next_tag s \<le> t" "t < next_tag s1" by (auto simp: opened_def)
  have h: "heap s2 t = Some (n\<lparr>nchilds := ts\<rparr>)" "next_tag s1 \<le> next_tag s2"
    "\<forall>a < next_tag s1. a \<noteq> t \<longrightarrow> heap s2 a = heap s1 a" using g n by (auto simp: grew_def)
  have m: "fresh s1 s2 \<subseteq>\<^sub>m fresh s s2" using le by (auto simp: map_le_def restrict_map_def split: if_splits)
  have "list_all2 (\<lambda>x t. doc_node (fresh s s2) t (folded x)) ds ts"
    using ds by (rule list_all2_mono) (rule doc_node_mono [OF _ m])
  moreover have "list_all2 (\<lambda>(k, p) (k', v). k = k' \<and> text_node (fresh s s2) p (squeeze False v)) (nparams n) as"
    using n(6) by (rule list_all2_mono) (use h in \<open>auto simp: text_node_def restrict_map_def split: if_splits\<close>)
  ultimately show ?thesis
    using h n by (auto simp: list.rel_map case_prod_beta' restrict_map_def)
qed

lemma adds_doc_all:
  assumes "html_uri uri" and "parsable x"
  shows "adds_doc (process_node w f ex sub) sc uri x"
  using assms(2)
proof (induction x)
  case (D_text u)
  show ?case
    unfolding adds_doc_def
  proof (intro allI impI)
    fix p d c s
    assume "inside p d c s"
    from text_added [OF this, of w f ex sub u] obtain t s' where
      "process_node w f ex sub (Some c) (Ev_text u (d + 1)) s = (Ok (Some c), [], s')" "grew p [t] s s'" "inside p d c s'"
      "text_node (fresh s s') t (squeeze False u)" by blast
    then show "\<exists>t c' s'. feeds (process_node w f ex sub) (events sc uri (d + 1) (D_text u)) c s c' s' \<and> inside p d c' s' \<and>
        grew p [t] s s' \<and> doc_node (fresh s s') t (folded (D_text u))"
      using feeds_one by fastforce
  qed
next
  case (D_elem nm as ds)
  let ?pn = "process_node w f ex sub"
  have ds: "\<forall>x\<in>set ds. adds_doc ?pn sc uri x" using D_elem by (auto simp: list_all_iff)
  show ?case
    unfolding adds_doc_def
  proof (intro allI impI)
    fix p d c s
    assume i: "inside p d c s"
    from element_opened [OF i assms(1), of nm as w f ex sub] D_elem.prems obtain t s1 where
      1: "?pn (Some c) (Ev_element nm uri nm (d + 1) (map plain_attr as)) s = (Ok (Some t), [], s1)"
        "grew p [t] s s1" "inside p d t s1" "inside t (d + 1) t s1" "opened t nm as s s1" "t \<noteq> p"
        "\<exists>n. heap s1 t = Some n \<and> nparent n = Some p" by auto
    have le: "next_tag s \<le> next_tag s1" "next_tag s \<le> t" using 1(2,5) by (auto simp: grew_def opened_def)
    from feeds_docs [OF ds 1(4)] obtain ts c2 s2 where
      2: "feeds ?pn (concat (map (events sc uri (d + 1 + 1)) ds)) t s1 c2 s2" "inside t (d + 1) c2 s2" "grew t ts s1 s2"
        "list_all2 (\<lambda>x t. doc_node (fresh s1 s2) t (folded x)) ds ts" by blast
    have g: "grew p [t] s s2" by (rule grew_below [OF 1(2) 2(3) le(2)])
    have dn: "doc_node (fresh s s2) t (folded (D_elem nm as ds))" by (rule doc_closed [OF 1(5) 2(3,4) le(1)])
    have t2: "\<exists>n. heap s2 t = Some n \<and> nparent n = Some p \<and> nname n \<noteq> ''module'' \<and> ndepth n = d + 1"
      using 1(4,7) 2(3) by (auto simp: grew_def inside_def)
    have it: "inside p d t s2" "inside p d p s2"
      using inside_grew [OF i g] t2 1(6) 2(2) by (auto simp: inside_def)
    show "\<exists>t c' s'. feeds ?pn (events sc uri (d + 1) (D_elem nm as ds)) c s c' s' \<and> inside p d c' s' \<and> grew p [t] s s' \<and>
        doc_node (fresh s s') t (folded (D_elem nm as ds))"
    proof (cases "ds = [] \<and> sc nm")
      case True
      have "grew t [] s1 s1" using 1(4) by (auto simp: inside_def intro: grew_refl)
      from doc_closed [OF 1(5) this _ le(1), of ds] True have "doc_node (fresh s s1) t (folded (D_elem nm as ds))" by simp
      with feeds_one [of ?pn, OF 1(1)] 1(2,3) True show ?thesis by auto
    next
      case False
      define c3 where "c3 = (if c2 = t then p else t)"
      have "process_end (Some c2) s2 = (Ok (Some c3), [], s2)"
        using 2(2) t2 by (auto simp: inside_def process_end_def bindM_def derefM_def ret_def c3_def)
      then have "feeds ?pn [Ev_end] c2 s2 c3 s2" by (intro feeds_one) (simp add: process_node_def)
      with feeds_Cons [OF 1(1) feeds_append [OF 2(1) this]] False
      have "feeds ?pn (events sc uri (d + 1) (D_elem nm as ds)) c s c3 s2" by auto
      moreover have "inside p d c3 s2" using it by (simp add: c3_def)
      ultimately show ?thesis using g dn by blast
    qed
  qed
qed

section \<open>Files\<close>

lemma root_opened:
  assumes "html_uri uri" "nm \<notin> {''include'', ''module''}" "distinct (map fst as)"
  shows "\<exists>t s'. process_node w f ex sub None (Ev_element nm uri nm 0 (map plain_attr as)) s = (Ok (Some t), [], s') \<and>
    s' = s\<lparr>heap := heap s', next_tag := next_tag s'\<rparr> \<and> (\<forall>a < next_tag s. heap s' a = heap s a) \<and>
    inside t 0 t s' \<and> opened t nm as s s' \<and> (\<exists>n. heap s' t = Some n \<and> nparent n = None)"
proof -
  define t where "t = next_tag s"
  define k where "k = (\<lambda>rslt. bindM (derefM rslt) (\<lambda>rn. if nname rn = ''include'' then
      bindM (in_new_context (get_parameter ex rslt ''href'')) (\<lambda>href.
        if href = [] then throwM (Parser_exc 0 ''href parameter missing for tag include'')
        else bindM (sub href) (splice_include None rslt))
    else seqM (storeM (make_relationship (dclib w) nm None rslt))
      (seqM (if cls rn = C_tag_usr then linkM rslt else ret ()) (ret (Some rslt)))))"
  obtain s1 ps where 1: "bindM (allocM ((new_node C_tag_unknown nm)\<lparr>ndepth := 0\<rparr>)) (\<lambda>rslt.
      seqM (process_attributes ex rslt (map plain_attr as)) (k rslt)) s = k t s1"
    "s1 = s\<lparr>heap := heap s1, next_tag := next_tag s1\<rparr>" "t < next_tag s1" "\<forall>a < t. heap s1 a = heap s a"
    "heap s1 t = Some ((new_node C_tag_unknown nm)\<lparr>ndepth := 0, nparams := ps\<rparr>)"
    "list_all2 (\<lambda>(k, p) (k', v). k = k' \<and> text_node (heap s1 |` {t<..<next_tag s1}) p (squeeze False v)) ps as"
    using element_alloc [OF assms(3), where s = s and nm = nm and d = 0 and ex = ex and k = k] unfolding t_def by blast
  have "k t s1 = (Ok (Some t), [], s1)"
    using 1(5) assms(2)
    by (simp add: k_def bindM_def seqM_def derefM_def storeM_def ret_def new_node_def make_relationship_def)
  then have r: "process_node w f ex sub None (Ev_element nm uri nm 0 (map plain_attr as)) s = (Ok (Some t), [], s1)"
    using 1(1) assms(1) by (simp add: process_node_def process_element_def element_tag_def html_uri_def k_def liftO_def
      bindM_def [of "liftO _"])
  have "list_all2 (\<lambda>(k, q) (k', v). k = k' \<and> q \<noteq> t \<and> text_node (fresh s s1) q (squeeze False v)) ps as"
    using 1(6) by (rule list_all2_mono) (auto simp: text_node_def restrict_map_def t_def split: if_splits)
  then have "opened t nm as s s1" "inside t 0 t s1" "\<exists>n. heap s1 t = Some n \<and> nparent n = None"
    using 1(3,5) assms(2) by (auto simp: opened_def inside_def t_def new_node_def)
  with r 1(2,4) show ?thesis unfolding t_def by blast
qed

lemma parse_loop_end:
  assumes "inside t 0 c s" and "\<exists>n. heap s t = Some n \<and> nparent n = None"
  shows "parse_loop (process_node w f ex sub) [Ev_end] (Some t) (Some c) s = (Ok (Some t), [], s)"
  using assms
  by (auto simp: inside_def process_node_def process_end_def bindM_def derefM_def ret_def)

lemma parse_document:
  assumes op: "xml_open env url = Some (events sc uri 0 (D_elem nm as ds), 0)"
    and "html_uri uri" "parsable (D_elem nm as ds)"
  shows "\<exists>t s'. parse w f env ex (Suc n) url s = (Ok (Some t), [], s') \<and> doc_node (heap s') t (folded (D_elem nm as ds)) \<and>
    s' = s\<lparr>heap := heap s', next_tag := next_tag s'\<rparr> \<and> (\<forall>a < next_tag s. heap s' a = heap s a)"
proof -
  define pn where "pn = process_node w f ex (\<lambda>href. parse w f env ex n (include_url env url href))"
  from root_opened [OF assms(2), of nm as w f ex] assms(3) obtain t s1 where
    1: "pn None (Ev_element nm uri nm 0 (map plain_attr as)) s = (Ok (Some t), [], s1)"
      "s1 = s\<lparr>heap := heap s1, next_tag := next_tag s1\<rparr>" "\<forall>a < next_tag s. heap s1 a = heap s a"
      "inside t 0 t s1" "opened t nm as s s1" "\<exists>n. heap s1 t = Some n \<and> nparent n = None"
    unfolding pn_def by fastforce
  have "\<forall>x\<in>set ds. adds_doc pn sc uri x"
    using assms(3) unfolding pn_def by (auto simp: list_all_iff intro!: adds_doc_all [OF assms(2)])
  from feeds_docs [OF this 1(4)] obtain ts c2 s2 where
    2: "feeds pn (concat (map (events sc uri (0 + 1)) ds)) t s1 c2 s2" "inside t 0 c2 s2" "grew t ts s1 s2"
      "list_all2 (\<lambda>x t. doc_node (fresh s1 s2) t (folded x)) ds ts" by blast
  have le: "next_tag s \<le> t" "t < next_tag s1" using 1(5) by (auto simp: opened_def)
  have t2: "\<exists>n. heap s2 t = Some n \<and> nparent n = None" using 1(6) 2(3) by (auto simp: grew_def)
  have dn: "doc_node (fresh s s2) t (folded (D_elem nm as ds))" using doc_closed [OF 1(5) 2(3,4)] le by simp
  have "parse_loop pn (events sc uri 0 (D_elem nm as ds)) None None s = (Ok (Some t), [], s2)"
  proof (cases "ds = [] \<and> sc nm")
    case True
    with 2(1) have "feeds pn [] t s1 c2 s2" by simp
    then have "parse_loop pn ([] @ []) (Some t) (Some t) s1 = parse_loop pn [] (Some t) (Some c2) s2"
      unfolding feeds_def by blast
    with 1(1) True show ?thesis by (simp add: bindM_def ret_def)
  next
    case False
    have "parse_loop pn (concat (map (events sc uri 1) ds) @ [Ev_end]) (Some t) (Some t) s1 =
        parse_loop pn [Ev_end] (Some t) (Some c2) s2"
      using 2(1) by (simp add: feeds_def)
    also have "\<dots> = (Ok (Some t), [], s2)" unfolding pn_def by (rule parse_loop_end [OF 2(2) t2])
    finally show ?thesis using 1(1) False by (auto simp: bindM_def)
  qed
  then have "parse w f env ex (Suc n) url s = (Ok (Some t), [], s2)"
    using op by (simp add: bindM_def ret_def optimize_def pn_def)
  moreover have "doc_node (heap s2) t (folded (D_elem nm as ds))"
    by (rule doc_node_mono [OF dn]) (auto simp: map_le_def restrict_map_def split: if_splits)
  moreover have "s2 = s\<lparr>heap := heap s2, next_tag := next_tag s2\<rparr>"
  proof -
    have "s2 = s1\<lparr>heap := heap s2, next_tag := next_tag s2\<rparr>" using 2(3) by (simp add: grew_def)
    also have "\<dots> = s\<lparr>heap := heap s2, next_tag := next_tag s2\<rparr>" by (subst 1(2)) simp
    finally show ?thesis .
  qed
  moreover have "\<forall>a < next_tag s. heap s2 a = heap s a"
    using 1(3) 2(3) le by (auto simp: grew_def)
  ultimately show ?thesis by blast
qed

end
