(* ===== verification/Control.thy ===== *)
theory Control
  imports Invariants Html_Correct Sample
begin

text \<open>
  The control-flow tags: what \<open>dbp:switch\<close>, \<open>dbp:case\<close>, \<open>dbp:try\<close>, \<open>dbp:while\<close> and \<open>dbp:async\<close> do on every
  path.
\<close>

section \<open>Switch\<close>

lemma try_no_case:
  "fst (tryM m (\<lambda>e. if e = Case_exc then ret () else throwM e) s) \<noteq> Throw Case_exc"
  by (auto simp: prog_defs split: prod.split outcome.split)

lemma finally_leave_exn:
  assumes "fst (finallyM m leaveM s) = Throw e" shows "fst (m s) = Throw e"
proof -
  obtain r t s' where run: "finallyM m (ctxM leave) s = (r, t, s')" by (cases "finallyM m (ctxM leave) s")
  with assms have "r = Throw e" by (simp add: leaveM_def)
  with run obtain s1 where "m s = (Throw e, t, s1)"
    using finally_ctx_cases [OF run _ _ leave_no_throw] by blast
  then show ?thesis by simp
qed

lemma switch_never_throws_case: "fst (tag_switch_execute w ex self c s) \<noteq> Throw Case_exc"
proof
  assume "fst (tag_switch_execute w ex self c s) = Throw Case_exc"
  then obtain s1 where "fst (finallyM
      (tryM
        (bindM (get_parameter ex self ''test'') (\<lambda>v.
         seqM (addM w ''@DBP:SWITCH@'' v []) (impl_execute ex self c)))
        (\<lambda>e. if e = Case_exc then ret () else throwM e)) leaveM s1) = Throw Case_exc"
    by (auto simp: tag_switch_execute_def scoped_def enterM_def seqM_def [of "ctxM enter"] bindM_def ctxM_def enter_no_throw
        split: outcome.splits prod.splits)
  from finally_leave_exn [OF this] try_no_case show False by blast
qed

text \<open>Static cases: a match and a body that are plain texts.\<close>

definition case_node :: "store \<Rightarrow> nat \<Rightarrow> string \<times> string \<Rightarrow> bool" where
  "case_node h t mb \<longleftrightarrow> (\<exists>n p q. h t = Some n \<and> cls n = C_tag_case \<and>
     map_of (nparams n) ''match'' = Some p \<and> text_node h p (fst mb) \<and> nchilds n = [q] \<and>
     text_node h q (snd mb) \<and> ntext n = [] \<and> safe_text (fst mb) \<and> safe_text (snd mb))"

fun select_case :: "string \<Rightarrow> (string \<times> string) list \<Rightarrow> string option" where
  "select_case v [] = None"
| "select_case v ((m, b) # cs) = (if m = [] \<or> v = m then Some b else select_case v cs)"

lemma parameter_text:
  assumes "heap s t = Some me" and "map_of (nparams me) k = Some p" and "text_node (heap s) p u" and "safe_text u"
  shows "get_parameter (execute w (Suc (Suc n))) t k s = (Ok u, [], s)"
  using assms execute_text [OF assms(3,4), of w n "Some t"]
  by (simp add: get_parameter_def bindM_def derefM_def capture_def del: execute.simps)

lemma execute_case:
  assumes "case_node (heap s) t (m, b)"
  shows "execute w (Suc (Suc (Suc n))) t caller s =
    (if m = [] \<or> get_value (ctxs s) ''@DBP:SWITCH@'' = m then (Throw Case_exc, b, s) else (Ok (), [], s))"
proof -
  from assms obtain me p q where me: "heap s t = Some me" "cls me = C_tag_case"
    "map_of (nparams me) ''match'' = Some p" "text_node (heap s) p m" "nchilds me = [q]"
    "text_node (heap s) q b" "ntext me = []" "safe_text m" "safe_text b"
    by (auto simp: case_node_def)
  have body: "impl_execute (execute w (Suc (Suc n))) t caller s = (Ok (), b, s)"
    using me execute_text [OF me(6,9), of w n caller]
    by (simp add: impl_execute_def bindM_def seqM_def derefM_def outM_def ret_def del: execute.simps)
  from parameter_text [OF me(1,3,4,8), of w n] body me(1,2) show ?thesis
    by (subst execute.simps(2)) (auto simp: bindM_def derefM_def dispatch_def tag_case_execute_def valueM_def getM_def
        seqM_def throwM_def ret_def simp del: execute.simps)
qed

lemma run_cases:
  assumes "list_all2 (case_node (heap s)) ts cs"
  shows "forM ts (\<lambda>t. execute w (Suc (Suc (Suc n))) t caller) s =
    (case select_case (get_value (ctxs s) ''@DBP:SWITCH@'') cs of
       None \<Rightarrow> (Ok (), [], s) | Some b \<Rightarrow> (Throw Case_exc, b, s))"
  using assms
proof (induction rule: list_all2_induct)
  case (Cons t ts c cs)
  obtain m b where c: "c = (m, b)" by (cases c)
  with Cons execute_case [of s t m b w n caller] show ?case
    by (auto simp: seqM_def bindM_def ret_def simp del: execute.simps split: option.splits)
qed (simp add: ret_def)

lemma switch_runs_first_match:
  assumes me: "heap s t = Some me" "cls me = C_tag_switch" "map_of (nparams me) ''test'' = Some p"
    "text_node (heap s) p v" "safe_text v" "ntext me = []"
    and cs: "list_all2 (case_node (heap s)) (nchilds me) cs"
    and ctx: "ctxs s = c # rest" "compare (dclib w) (vtype c) (vtype c)"
  shows "execute w (Suc (Suc (Suc (Suc n)))) t caller s =
    (Ok (), (case select_case v cs of None \<Rightarrow> [] | Some b \<Rightarrow> b), s)"
proof -
  let ?ex = "execute w (Suc (Suc (Suc n)))"
  let ?s1 = "s\<lparr>ctxs := c\<lparr>vstack := [] # vstack c\<rparr> # rest\<rparr>"
  let ?s2 = "s\<lparr>ctxs := c\<lparr>vstack := [(''@DBP:SWITCH@'', v)] # vstack c\<rparr> # rest\<rparr>"
  have up: "upcase ''@DBP:SWITCH@'' = ''@DBP:SWITCH@''" by (simp add: to_upper_def is_lower_def)
  have test: "get_parameter ?ex t ''test'' ?s1 = (Ok v, [], ?s1)"
    using me by (intro parameter_text) auto
  have add: "addM w ''@DBP:SWITCH@'' v [] ?s1 = (Ok (), [], ?s2)"
    using ctx(2) up by (simp add: addM_def ctxM_def)
  have val: "get_value (ctxs ?s2) ''@DBP:SWITCH@'' = v" using up by (simp add: map_add_def)
  have "forM (nchilds me) (\<lambda>t. ?ex t caller) ?s2 =
      (case select_case v cs of None \<Rightarrow> (Ok (), [], ?s2) | Some b \<Rightarrow> (Throw Case_exc, b, ?s2))"
    using run_cases [of ?s2 "nchilds me" cs w n caller] cs val by (simp del: execute.simps)
  then have body: "impl_execute ?ex t caller ?s2 =
      (case select_case v cs of None \<Rightarrow> (Ok (), [], ?s2) | Some b \<Rightarrow> (Throw Case_exc, b, ?s2))"
    using me by (auto simp: impl_execute_def bindM_def seqM_def derefM_def outM_def
        simp del: execute.simps split: option.splits)
  have "tag_switch_execute w ?ex t caller s = (Ok (), (case select_case v cs of None \<Rightarrow> [] | Some b \<Rightarrow> b), s)"
    using ctx(1) test add body
    by (auto simp: tag_switch_execute_def scoped_def enterM_def leaveM_def finallyM_def seqM_def bindM_def ctxM_def
        tryM_def ret_def simp del: execute.simps split: option.splits)
  with me(1,2) show ?thesis
    by (subst execute.simps(2)) (simp add: bindM_def derefM_def dispatch_def del: execute.simps)
qed

section \<open>Exceptions\<close>

lemma try_without_catch:
  assumes "impl_execute ex self caller s = (Throw e, out, s1)" and "get_child (heap s1) self ''catch'' = Ok None"
  shows "tag_try_execute w ex self caller s = (Throw e, [], s1)"
  using assms by (simp add: tag_try_execute_def tryM_def bindM_def capture_def get_childM_def getM_def liftO_def throwM_def)

lemma try_with_catch:
  assumes "impl_execute ex self caller s = (Throw e, out, s1)"
    and "get_child (heap s1) self ''catch'' = Ok (Some c)" and "heap s1 c = Some cn" and "cls cn = C_tag_catch"
  shows "tag_try_execute w ex self caller s = process_exception w ex c e caller s1"
  using assms by (auto simp: tag_try_execute_def tryM_def bindM_def capture_def get_childM_def getM_def liftO_def
      derefM_def split: prod.split)

text \<open>The body of the handler runs with the message of the exception in \<open>error_message\<close>.\<close>

lemma handler_sees_message:
  assumes "ctxs s = c # cs" and "compare (dclib w) (vtype c) (vtype c)" and "e = Dbp_exc k msg"
  shows "\<exists>s1. get_value (ctxs s1) ''error_message'' = msg \<and>
    process_exception w ex self e caller s = finallyM (impl_execute ex self caller) leaveM s1"
proof -
  let ?s1 = "s\<lparr>ctxs := c\<lparr>vstack := [(upcase ''error_message'', msg)] # vstack c\<rparr> # cs\<rparr>"
  have "process_exception w ex self e caller s = finallyM (impl_execute ex self caller) leaveM ?s1"
    using assms
    by (auto simp: process_exception_def scoped_def enterM_def seqM_def bindM_def ctxM_def addM_def finallyM_def
        tryM_def ret_def fun_eq_iff split: prod.split outcome.split)
  moreover have "get_value (ctxs ?s1) ''error_message'' = msg" by (simp add: map_add_def)
  ultimately show ?thesis by blast
qed

section \<open>Loops\<close>

lemma while_loop_iterates:
  assumes test: "\<And>s. test s = (Ok (if P s then ''1'' else ''0''), [], s)"
    and body: "\<And>s. P s \<Longrightarrow> body s = (Ok (), out s, step s)"
    and runs: "\<And>i. i < k \<Longrightarrow> P ((step ^^ i) s)" and ends: "\<not> P ((step ^^ k) s)"
  shows "while_loop (Suc k) test body s =
    (Ok (), concat (map (\<lambda>i. out ((step ^^ i) s)) [0..<k]), (step ^^ k) s)"
  using runs ends
proof (induction k arbitrary: s)
  case 0
  then show ?case by (simp add: bindM_def test ret_def)
next
  case (Suc k)
  have "P s" using Suc.prems(1) [of 0] by simp
  have IH: "while_loop (Suc k) test body (step s) =
      (Ok (), concat (map (\<lambda>i. out ((step ^^ i) (step s))) [0..<k]), (step ^^ k) (step s))"
  proof (rule Suc.IH)
    show "P ((step ^^ i) (step s))" if "i < k" for i
      using Suc.prems(1) [of "Suc i"] that by (simp add: funpow_swap1)
    show "\<not> P ((step ^^ k) (step s))" using Suc.prems(2) by (simp add: funpow_swap1)
  qed
  have "concat (map (\<lambda>i. out ((step ^^ i) s)) [0..<Suc k]) =
      out s @ concat (map (\<lambda>i. out ((step ^^ i) (step s))) [0..<k])"
    by (subst upt_conv_Cons, simp) (simp add: map_Suc_upt [symmetric] comp_def funpow_swap1 del: upt_Suc)
  with IH \<open>P s\<close> show ?case
    by (subst while_loop.simps(2)) (simp add: bindM_def seqM_def test body funpow_swap1 del: while_loop.simps)
qed

section \<open>Concurrent children\<close>

lemma async_child_no_throw: "fst (async_child ex caller c s) \<noteq> Throw e"
  by (auto simp: async_child_def Let_def split: prod.split outcome.split)

lemma mapM_no_throw:
  "(\<And>x s. fst (f x s) \<noteq> Throw e) \<Longrightarrow> fst (mapM xs f s) \<noteq> Throw e"
proof (induction xs arbitrary: s)
  case (Cons x xs)
  obtain r t s1 where x: "f x s = (r, t, s1)" by (cases "f x s")
  obtain r' t' s2 where xs: "mapM xs f s1 = (r', t', s2)" by (cases "mapM xs f s1")
  have "r \<noteq> Throw e" "r' \<noteq> Throw e" using Cons.prems [of x s] Cons.IH [of s1] Cons.prems x xs by auto
  with x xs show ?case by (cases r; cases r') (auto simp: bindM_def ret_def)
qed (simp add: ret_def)

lemma async_never_throws: "fst (tag_async_execute ex self caller s) \<noteq> Throw e"
proof (cases "heap s self")
  case (Some me)
  have "fst (mapM (nchilds me) (async_child ex caller) s) \<noteq> Throw e"
    by (rule mapM_no_throw) (rule async_child_no_throw)
  with Some show ?thesis
    by (cases "mapM (nchilds me) (async_child ex caller) s"; cases "fst (mapM (nchilds me) (async_child ex caller) s)")
      (auto simp: tag_async_execute_def bindM_def derefM_def outM_def)
qed (simp add: tag_async_execute_def bindM_def derefM_def)

end
