(* ===== verification/Page_Properties.thy ===== *)
theory Page_Properties
  imports Invariants Html_Correct Parser_Correct Strings Sample Control
begin

text \<open>
  Properties of running pages: the interpreter as a whole, the expression evaluator, the string tags
  and HTML output.
\<close>

section \<open>A small page\<close>

definition page_hi :: state where
  "page_hi = sample_state [(0, (new_node C_tag_impl ''module'')\<lparr>nchilds := [1]\<rparr>), (1, text_tag ''hi'')]"

lemma page_hi_run: "execute sample_world 3 0 None page_hi = (Ok (), ''hi'', page_hi)"
  by (simp add: page_hi_def sample_state_def new_node_def text_tag_def numeral_3_eq_3 dispatch_def
      bindM_def derefM_def impl_execute_def seqM_def outM_def tag_expression_execute_def capture_def ret_def)

lemma page_hi_heap:
  "heap page_hi t = Some n \<Longrightarrow> (t = 0 \<or> t = 1) \<and> (cls n = C_tag_impl \<or> cls n = C_tag_expression)"
  by (auto simp: page_hi_def sample_state_def new_node_def text_tag_def split: if_splits)

lemma page_hi_laws:
  "fresh_tags page_hi" "fresh_data page_hi" "leak_free (heap page_hi)" "compare_refl (dclib sample_world)"
proof -
  show "fresh_tags page_hi"
    using page_hi_heap by (force simp: fresh_tags_def page_hi_def sample_state_def)
  show "leak_free (heap page_hi)" using page_hi_heap by (fastforce simp: leak_free_def leaky_def)
qed (simp_all add: fresh_data_def compare_refl_def page_hi_def sample_state_def)

section \<open>The interpreter\<close>

text \<open>Fuel is only a bound on the model: a run that ends is not changed by more fuel.\<close>

theorem execute_more_fuel:
  assumes "fst (execute w n t c s) \<noteq> Diverge"
  shows "execute w (n + k) t c s = execute w n t c s"
  using leM_D [OF execute_mono [of n "n + k"] assms] by simp

theorem execute_more_fuel_witness:
  "execute sample_world (3 + 4) 0 None page_hi = execute sample_world 3 0 None page_hi"
  by (rule execute_more_fuel) (simp add: page_hi_run)

text \<open>
  C21: Running a page never changes the tag tree, which requests share through the application cache:
  the temporary tags of function calls are deleted again, whether the run returns or throws.
\<close>

theorem execute_keeps_tree:
  assumes "execute w n t c s = (r, out, s')" and "r \<noteq> Crash" and "r \<noteq> Diverge" and "fresh_tags s"
  shows "heap s' = heap s"
  using presD [OF tree.pres_execute assms(1-3)] assms(4) by (simp add: R_tree_def)

theorem execute_keeps_tree_witness:
  "heap (snd (snd (execute sample_world 3 0 None page_hi))) = heap page_hi"
  using execute_keeps_tree [OF page_hi_run] page_hi_laws by (simp add: page_hi_run)

text \<open>
  C22: On a page without \<open>dbp:split\<close> and \<open>dbp:execute\<close>, every run that returns or throws leaves each
  context of the chain with as many variable layers and the same stack of calling tags as before.
\<close>

theorem execute_keeps_contexts:
  assumes "execute w n t c s = (r, out, s')" and "r \<noteq> Crash" and "r \<noteq> Diverge"
    and "leak_free (heap s)" and "compare_refl (dclib w)"
  shows "same_shape (ctxs s) (ctxs s')"
  using presD [OF shape.pres_execute assms(1-3)] assms(4,5) by (simp add: R_shape_def)

theorem execute_keeps_contexts_witness:
  "same_shape (ctxs page_hi) (ctxs (snd (snd (execute sample_world 3 0 None page_hi))))"
  using execute_keeps_contexts [OF page_hi_run] page_hi_laws unfolding page_hi_run by simp



text \<open>
  \<open>dbp:split\<close> enters a layer before its \<open>try\<close> block: when the evaluation of its \<open>separator\<close> throws,
  the layer stays behind.
\<close>

theorem tag_split_leaks_layer:
  assumes "ctxs s = c # cs"
    and "get_parameter ex self ''separator'' (s\<lparr>ctxs := c\<lparr>vstack := [] # vstack c\<rparr> # cs\<rparr>) =
      (Throw e, [], s\<lparr>ctxs := c\<lparr>vstack := [] # vstack c\<rparr> # cs\<rparr>)"
  shows "tag_split_execute w ex self caller s =
    (Throw e, [], s\<lparr>ctxs := c\<lparr>vstack := [] # vstack c\<rparr> # cs\<rparr>)"
  using assms by (simp add: tag_split_execute_def seqM_def bindM_def enterM_def ctxM_def)

theorem tag_split_leaks_layer_witness:
  "\<exists>s'. tag_split_execute sample_world (\<lambda>t c. throwM (Std_exc ''x'')) 0 None
     (sample_state [(0, (new_node C_tag_split ''split'')\<lparr>nparams := [(''separator'', 1)]\<rparr>)]) =
       (Throw (Std_exc ''x''), [], s') \<and> length (vstack (hd (ctxs s'))) = 2"
  by (subst tag_split_leaks_layer [where c = "hd sample_contexts" and cs = "tl sample_contexts"])
    (simp_all add: sample_state_def sample_contexts_def new_context_def get_parameter_def bindM_def
      derefM_def new_node_def capture_def throwM_def)

section \<open>Expressions\<close>

text \<open>
  C25: The evaluator replaces exactly the parts in braces: a text of literal pieces, escaped
  characters and expressions evaluates to the literal pieces, the escaped characters and the values of
  the expressions, in order.
\<close>

theorem eval_substitutes:
  assumes "list_all wf_part ps"
  shows "eval w ex self (Suc (Suc n)) (concat (map print_part ps)) =
    capture (forM ps (run_part (calc w ex self (Suc n))))"
  using assms by (rule eval_template)

theorem eval_substitutes_witness:
  "eval sample_world (\<lambda>t c. divergeM) 0 2 (''a'' @ [CHR 0x5C, CHR 0x7B] @ ''b'') page_hi =
    (Ok (''a'' @ [CHR 0x7B] @ ''b''), [], page_hi)"
  using eval_substitutes [of "[Lit ''a'', Esc (CHR 0x7B), Lit ''b'']" sample_world "\<lambda>t c. divergeM" 0 0]
  by (simp add: plain_char_def numeral_2_eq_2 prog_defs del: eval.simps)





text \<open>
  When the left side of a comparison is a number and the right side is not, the evaluator reads
  its right operand a second time, at the end of the expression, where it finds \<open>1\<close>: whatever the
  right side says, the left side is compared with the text \<open>1\<close>.
\<close>

theorem compare_number_with_text:
  assumes "wf_lexp (L_cmp e f e')" and "cmp_token f = Some g"
    and "val_expr (dclib w) (ctxs s) e = Some x" and "to_double (dclib w) x = Some a"
    and "val_expr (dclib w) (ctxs s) e' = Some y" and "to_double (dclib w) y = None"
    and "fuel_lexp (L_cmp e f e') \<le> n"
  shows "calc w ex self n (print_toks (toks_lexp (L_cmp e f e'))) s = (Ok (truth (str_cmp g x ''1'')), [], s)"
  using assms by (rule calc_number_text)

definition one_equals_abc :: lexp_e where
  "one_equals_abc = L_cmp (E_term (T_prim (P_num ''1''))) T_EQ (E_term (T_prim (P_str (CHR 0x27) ''abc'')))"

theorem compare_number_with_text_witness:
  "calc sample_world (\<lambda>t c. divergeM) 0 20 (print_toks (toks_lexp one_equals_abc)) page_hi = (Ok ''1'', [], page_hi)"
  using compare_number_with_text [of "E_term (T_prim (P_num ''1''))" T_EQ
      "E_term (T_prim (P_str (CHR 0x27) ''abc''))" Eq_op sample_world page_hi "''1''" 1 "''abc''" 20 "\<lambda>t c. divergeM" 0]
  by (simp add: one_equals_abc_def number_char_def is_digit_def sample_world_def sample_dcl_def truth_def)

section \<open>String tags\<close>

text \<open>
  C33: \<open>dbp:substr\<close> with a non-empty \<open>what\<close> always ends and computes the left-to-right, non-overlapping
  replacement; one step per character of the text is fuel enough.
\<close>

theorem replace_with_correct:
  assumes "pat \<noteq> []" and "length source < n"
  shows "replace_with n source pat repl = Ok (replace_all pat repl source)"
  using replace_loop_all [OF assms(1), of 0 source n repl] assms(2) by (simp add: replace_with_def)

theorem replace_with_correct_witness:
  "replace_with 6 ''aXbXc'' ''X'' ''--'' = Ok (replace_all ''X'' ''--'' ''aXbXc'')"
  by (rule replace_with_correct) simp_all

text \<open>\<open>dbp:substr\<close> with an empty \<open>what\<close> never ends: no amount of fuel is enough.\<close>

theorem replace_with_empty_pattern: "replace_with n source [] repl = Diverge"
  using replace_loop_empty_pattern [of 0 source n repl] by (simp add: replace_with_def)

text \<open>
  \<open>dbp:split\<close> cuts a text into pieces that contain no separator and that, joined by the
  separator, give the text back.
\<close>

theorem split_pieces_correct:
  assumes "sep \<noteq> []"
  shows "join sep (split_pieces source sep 0) = source \<and>
    (\<forall>x \<in> set (split_pieces source sep 0). \<not> occurs_at sep x i)"
  using split_pieces_join [of 0 source sep] split_pieces_no_sep [OF assms] find_sub_None by auto

theorem split_pieces_correct_witness:
  "join '','' (split_pieces ''a,b,,c'' '','' 0) = ''a,b,,c''"
  using split_pieces_correct [of "'',''" "''a,b,,c''"] by simp

section \<open>HTML output\<close>

text \<open>
  A static document, whatever its nesting, is written as its own markup, with every text and
  every attribute value escaped exactly once, and leaves the state as it was.
\<close>

theorem static_document_rendered:
  assumes "doc_node (heap s) t (D_elem nm as ds)" and "safe_doc (D_elem nm as ds)"
    and "doc_depth (D_elem nm as ds) \<le> n"
    and "get_value (ctxs s) ''@HTML:FIRST@'' = []"
    and "ctxs s = c # cs" and "compare (dclib w) (vtype c) (vtype c)"
  shows "execute w n t caller s = (Ok (), serialize (um_order (dclib w)) (D_elem nm as ds), s)"
  using assms by (rule execute_outermost)

definition page_p :: state where
  "page_p = sample_state
     [(0, (new_node C_tag_unknown ''p'')\<lparr>nparams := [(''id'', 1)], nchilds := [2]\<rparr>),
      (1, text_tag ''x''), (2, text_tag ''a<b'')]"

theorem static_document_rendered_witness:
  "execute sample_world 3 0 None page_p =
     (Ok (), ''<p id='' @ [CHR 0x22] @ ''x'' @ [CHR 0x22] @ ''>a&lt;b</p>'', page_p)"
proof -
  let ?d = "D_elem ''p'' [(''id'', ''x'')] [D_text ''a<b'']"
  have "execute sample_world 3 0 None page_p = (Ok (), serialize (um_order (dclib sample_world)) ?d, page_p)"
    by (rule static_document_rendered [where c = "hd sample_contexts" and cs = "tl sample_contexts"])
      (simp_all add: page_p_def sample_state_def sample_contexts_def new_context_def new_node_def text_node_def
        text_tag_def safe_name_def safe_text_def plain_char_def markup_char_def stub_byte_def is_prefix_def)
  also have "serialize (um_order (dclib sample_world)) ?d =
      ''<p id='' @ [CHR 0x22] @ ''x'' @ [CHR 0x22] @ ''>a&lt;b</p>''"
    by (simp add: um_iter_def attr_text_def htmlentities_def entity.simps void_tags_def)
  finally show ?thesis .
qed

text \<open>C36: Escaped text contains no markup character, and escaping it again changes nothing.\<close>

theorem htmlentities_safe:
  "(\<forall>c. markup_char c \<longrightarrow> c \<notin> set (htmlentities s)) \<and> htmlentities (htmlentities s) = htmlentities s"
  using htmlentities_no_markup htmlentities_idem by blast

theorem htmlentities_safe_witness: "CHR ''<'' \<notin> set (htmlentities ''<b>'')"
  using htmlentities_safe [of "''<b>''"] by (simp add: markup_char_def)

text \<open>
  C38: Escaping can be bypassed with the bytes 1 to 4: text in which the markup characters are written
  as those bytes passes the escaping of every element unchanged and is turned into markup by the
  outermost one.
\<close>

theorem stub_bytes_bypass_escaping:
  assumes "\<forall>c\<in>set s. \<not> stub_byte c"
  shows "htmlentitiesout (htmlentities (stub s)) = s"
  using assms by (rule htmlentities_of_stubbed)

theorem stub_bytes_bypass_escaping_witness:
  "htmlentitiesout (htmlentities ([CHR 0x03] @ ''script'' @ [CHR 0x04])) = ''<script>''"
  using stub_bytes_bypass_escaping [of "''<script>''"] by (simp add: stub_def stub_char.simps stub_byte_def)

section \<open>Control flow\<close>

text \<open>
  \<open>dbp:switch\<close> over static cases writes the body of the first case whose match is empty or equal
  to the tested value, and nothing of the cases after it; with no such case it writes nothing. The
  contexts are as before.
\<close>

theorem switch_selects_first_match:
  assumes "heap s t = Some me" and "cls me = C_tag_switch" and "map_of (nparams me) ''test'' = Some p"
    and "text_node (heap s) p v" and "safe_text v" and "ntext me = []"
    and "list_all2 (case_node (heap s)) (nchilds me) cs"
    and "ctxs s = c # rest" and "compare (dclib w) (vtype c) (vtype c)"
  shows "execute w (Suc (Suc (Suc (Suc n)))) t caller s =
    (Ok (), (case select_case v cs of None \<Rightarrow> [] | Some b \<Rightarrow> b), s)"
  using assms by (rule switch_runs_first_match)

definition switch_node :: node where
  "switch_node = (new_node C_tag_switch ''switch'')\<lparr>nparams := [(''test'', 1)], nchilds := [2, 3]\<rparr>"

definition page_switch :: state where
  "page_switch = sample_state
     [(0, switch_node), (1, text_tag ''b''),
      (2, (new_node C_tag_case ''case'')\<lparr>nparams := [(''match'', 4)], nchilds := [5]\<rparr>),
      (3, (new_node C_tag_case ''case'')\<lparr>nparams := [(''match'', 6)], nchilds := [7]\<rparr>),
      (4, text_tag ''a''), (5, text_tag ''one''), (6, text_tag ''b''), (7, text_tag ''two'')]"

theorem switch_selects_first_match_witness:
  "execute sample_world 4 0 None page_switch = (Ok (), ''two'', page_switch)"
proof -
  have "execute sample_world (Suc (Suc (Suc (Suc 0)))) 0 None page_switch =
      (Ok (), (case select_case ''b'' [(''a'', ''one''), (''b'', ''two'')] of None \<Rightarrow> [] | Some b \<Rightarrow> b), page_switch)"
    by (rule switch_selects_first_match [where me = switch_node and p = 1 and c = "hd sample_contexts"
          and rest = "tl sample_contexts"])
      (simp_all add: page_switch_def switch_node_def sample_state_def sample_contexts_def new_context_def
        new_node_def text_node_def text_tag_def case_node_def safe_text_def plain_char_def stub_byte_def)
  then show ?thesis by (simp add: eval_nat_numeral del: execute.simps)
qed

text \<open>
  What the body of a \<open>dbp:try\<close> wrote before it threw is discarded; with a \<open>dbp:catch\<close> child the
  handler runs and nothing else is written, without one the exception goes on.
\<close>

theorem try_discards_partial_output:
  assumes "impl_execute ex self caller s = (Throw e, out, s1)"
    and "get_child (heap s1) self ''catch'' = Ok c"
    and "\<And>t. c = Some t \<Longrightarrow> \<exists>n. heap s1 t = Some n \<and> cls n = C_tag_catch"
  shows "tag_try_execute w ex self caller s =
    (case c of None \<Rightarrow> (Throw e, [], s1) | Some t \<Rightarrow> process_exception w ex t e caller s1)"
  using assms try_without_catch try_with_catch by (cases c) fastforce+

theorem try_discards_partial_output_witness:
  "tag_try_execute sample_world (\<lambda>t c s. (Throw (Std_exc ''x''), ''partial'', s)) 0 None page_hi =
     (Throw (Std_exc ''x''), [], page_hi)"
  using try_discards_partial_output [of "\<lambda>t c s. (Throw (Std_exc ''x''), ''partial'', s)" 0 None page_hi
      "Std_exc ''x''" "''partial''" page_hi None sample_world]
  by (simp add: impl_execute_def page_hi_def sample_state_def new_node_def bindM_def seqM_def derefM_def
      get_child_def text_tag_def)

text \<open>The body of a \<open>dbp:catch\<close> runs with the message of the exception in \<open>error_message\<close>.\<close>

theorem catch_binds_error_message:
  assumes "ctxs s = c # cs" and "compare (dclib w) (vtype c) (vtype c)" and "e = Dbp_exc k msg"
  shows "\<exists>s1. get_value (ctxs s1) ''error_message'' = msg \<and>
    process_exception w ex self e caller s = finallyM (impl_execute ex self caller) leaveM s1"
  using assms by (rule handler_sees_message)

theorem catch_binds_error_message_witness:
  "\<exists>s1. get_value (ctxs s1) ''error_message'' = ''failed'' \<and>
    process_exception sample_world (\<lambda>t c. ret ()) 0 (Dbp_exc Tag_exception ''failed'') None page_hi =
      finallyM (impl_execute (\<lambda>t c. ret ()) 0 None) leaveM s1"
  by (rule catch_binds_error_message [where c = "hd sample_contexts" and cs = "tl sample_contexts"])
    (simp_all add: page_hi_def sample_state_def sample_contexts_def new_context_def)

text \<open>
  \<open>dbp:while\<close> runs its body as long as the test gives \<open>1\<close> and then ends, having written the outputs
  of the iterations in order.
\<close>

theorem while_iterates:
  assumes "\<And>s. test s = (Ok (if P s then ''1'' else ''0''), [], s)"
    and "\<And>s. P s \<Longrightarrow> body s = (Ok (), out s, step s)"
    and "\<And>i. i < k \<Longrightarrow> P ((step ^^ i) s)" and "\<not> P ((step ^^ k) s)"
  shows "while_loop (Suc k) test body s =
    (Ok (), concat (map (\<lambda>i. out ((step ^^ i) s)) [0..<k]), (step ^^ k) s)"
  using assms by (rule while_loop_iterates)

theorem while_iterates_witness:
  "while_loop 3 (\<lambda>s. (Ok (if tick s < 2 then ''1'' else ''0''), [], s))
     (\<lambda>s. (Ok (), ''x'', s\<lparr>tick := Suc (tick s)\<rparr>)) page_hi = (Ok (), ''xx'', page_hi\<lparr>tick := 2\<rparr>)"
proof -
  let ?step = "\<lambda>s :: state. s\<lparr>tick := Suc (tick s)\<rparr>"
  have "tick page_hi = 0" by (simp add: page_hi_def sample_state_def)
  moreover have "(?step ^^ i) s = s\<lparr>tick := tick s + i\<rparr>" for i s by (induction i) simp_all
  ultimately show ?thesis
    using while_iterates [of "\<lambda>s. (Ok (if tick s < 2 then ''1'' else ''0''), [], s)" "\<lambda>s. tick s < 2"
        "\<lambda>s. (Ok (), ''x'', ?step s)" "\<lambda>s. ''x''" ?step 2 page_hi]
    by (simp add: numeral_3_eq_3 numeral_2_eq_2 del: while_loop.simps)
qed

section \<open>The parser\<close>

text \<open>
  C23: A static page goes through the parser and the interpreter unchanged: from the nodes a reader reports
  for the page, however it writes elements without content, the parser builds a tree that runs to the markup
  of the page, with white space folded and texts escaped; nothing else in the state changes.
\<close>

theorem static_page_roundtrip:
  assumes "xml_open env url = Some (events sc uri 0 (D_elem nm as ds), 0)" and "html_uri uri"
    and "parsable (D_elem nm as ds)" "safe_doc (folded (D_elem nm as ds))" "doc_depth (folded (D_elem nm as ds)) \<le> m"
    and "get_value (ctxs s) ''@HTML:FIRST@'' = []" and "ctxs s = c # cs" "compare (dclib w) (vtype c) (vtype c)"
  shows "\<exists>t s'. parse w f env ex (Suc n) url s = (Ok (Some t), [], s') \<and>
    execute w m t None s' = (Ok (), serialize (um_order (dclib w)) (folded (D_elem nm as ds)), s') \<and>
    s' = s\<lparr>heap := heap s', next_tag := next_tag s'\<rparr> \<and> (\<forall>a < next_tag s. heap s' a = heap s a)"
proof -
  from parse_document [OF assms(1-3), of w f ex n s] obtain t s' where
    1: "parse w f env ex (Suc n) url s = (Ok (Some t), [], s')" "doc_node (heap s') t (folded (D_elem nm as ds))"
      "s' = s\<lparr>heap := heap s', next_tag := next_tag s'\<rparr>" "\<forall>a < next_tag s. heap s' a = heap s a" by blast
  have "ctxs s' = ctxs s" by (subst 1(3)) simp
  with execute_outermost [OF 1(2) [unfolded folded.simps], where n = m and w = w and c = c and cs = cs and caller = None] assms(4-8) 1 show ?thesis by auto
qed

definition sample_reader_env :: reader_env where
  "sample_reader_env = \<lparr>xml_open = (\<lambda>url. if url = ''p.dbp''
       then Some (events (\<lambda>n. n = ''br'') [] 0 (D_elem ''p'' [(''id'', ''x'')] [D_text ''a  <b'', D_elem ''br'' [] []]), 0)
       else None),
     xml_error = (\<lambda>_. []), include_url = (\<lambda>url href. href)\<rparr>"

theorem static_page_roundtrip_witness:
  "\<exists>t s'. parse sample_world tag_factory sample_reader_env (execute sample_world 1) 1 ''p.dbp'' page_p = (Ok (Some t), [], s') \<and>
    execute sample_world 4 t None s' = (Ok (), ''<p id='' @ [CHR 0x22] @ ''x'' @ [CHR 0x22] @ ''>a &lt;b<br/></p>'', s')"
proof -
  have s: "serialize (um_order (dclib sample_world)) (folded (D_elem ''p'' [(''id'', ''x'')] [D_text ''a  <b'', D_elem ''br'' [] []])) =
      ''<p id='' @ [CHR 0x22] @ ''x'' @ [CHR 0x22] @ ''>a &lt;b<br/></p>''"
    by (simp add: um_iter_def attr_text_def htmlentities_def entity.simps void_tags_def)
  have "xml_open sample_reader_env ''p.dbp'' =
      Some (events (\<lambda>n. n = ''br'') [] 0 (D_elem ''p'' [(''id'', ''x'')] [D_text ''a  <b'', D_elem ''br'' [] []]), 0)"
    by (simp add: sample_reader_env_def)
  from static_page_roundtrip [OF this, of 4 page_p "hd sample_contexts" "tl sample_contexts" sample_world tag_factory
      "execute sample_world 1" 0] s show ?thesis
    by (auto simp: html_uri_def is_prefix_def dbpager_custom_uri_def dbpager_uri_def its_uri_def page_p_def sample_state_def
        sample_contexts_def new_context_def safe_name_def safe_text_def plain_char_def markup_char_def stub_byte_def
        simp del: execute.simps parse.simps)
qed

end
