(* ===== verification/Fcgi_Kernel.thy ===== *)
theory Fcgi_Kernel
  imports Prelude "HOL-Library.Word"
begin

text \<open>
  The operating system layer of the bundled FastCGI library, \<open>libfcgi/os_unix.c\<close>. The kernel is a
  record: the open connections with what their peers will send and how much of a write they take, the
  coming results of \<open>accept\<close>, \<open>errno\<close>, and the static variables of the file. A C call gives
  a value, breaks the rules of the language, fails an assertion, or never returns.
\<close>

type_synonym byte = "8 word"

datatype 'a cres = Ret 'a | Fault | Abort | Hang

fun bindR :: "'a cres \<Rightarrow> ('a \<Rightarrow> 'b cres) \<Rightarrow> 'b cres" where
  "bindR (Ret x) f = f x"
| "bindR Fault f = Fault"
| "bindR Abort f = Abort"
| "bindR Hang f = Hang"

lemma bindR_Ret_iff: "bindR m f = Ret y \<longleftrightarrow> (\<exists>x. m = Ret x \<and> f x = Ret y)"
  by (cases m) auto

section \<open>Connections\<close>

text \<open>
  What the coming calls of \<open>read\<close> give: bytes, which a call takes from the front, or an error. The
  end of the list is the end of the input. A plan entry says how many bytes a \<open>write\<close> takes; without
  an entry it takes all.
\<close>

datatype rx_event = Rx_bytes "byte list" | Rx_error int
datatype tx_event = Tx_take nat | Tx_error int

record conn =
  crx :: "rx_event list"
  cplan :: "tx_event list"
  csent :: "byte list"

text \<open>A result of \<open>accept\<close>: a connection from an address, or an error, with or without the arrival of a
  signal that asks for shutdown. A connection on a Unix socket says whether it becomes readable in time.\<close>

datatype peer = Inet "32 word" | Unix_socket bool
datatype accept_event = Acc_conn int peer conn | Acc_error int bool

section \<open>The table of asynchronous operations\<close>

text \<open>
  Callback procedures and their data are named by numbers. The table has two entries per descriptor;
  \<open>None\<close> is the pointer before \<open>OS_LibInit\<close>.
\<close>

record aio_info =
  procPtr :: nat
  clientData :: nat
  aio_fd :: int
  aio_len :: int
  aio_offset :: int
  aio_buf :: nat
  inUse :: bool

record aio_state =
  asyncIoInUse :: bool
  asyncIoTableSize :: nat
  asyncIoTable :: "aio_info list option"
  readFdSet :: "int set"
  writeFdSet :: "int set"
  readFdSetPost :: "int set"
  writeFdSetPost :: "int set"
  numRdPosted :: int
  numWrPosted :: int
  maxFd :: int

definition AIO_RD_IX :: "int \<Rightarrow> int" where "AIO_RD_IX fd = fd * 2"
definition AIO_WR_IX :: "int \<Rightarrow> int" where "AIO_WR_IX fd = fd * 2 + 1"

definition zero_aio :: aio_info where
  "zero_aio = \<lparr>procPtr = 0, clientData = 0, aio_fd = 0, aio_len = 0, aio_offset = 0, aio_buf = 0, inUse = False\<rparr>"

definition OS_LibInit :: "aio_state \<Rightarrow> aio_state" where
  "OS_LibInit a =
     (case asyncIoTable a of
        Some _ \<Rightarrow> a
      | None \<Rightarrow> a\<lparr>asyncIoTable := Some (replicate (asyncIoTableSize a) zero_aio), readFdSet := {},
                 writeFdSet := {}, readFdSetPost := {}, writeFdSetPost := {}\<rparr>)"

definition OS_LibShutdown :: "aio_state \<Rightarrow> aio_state" where
  "OS_LibShutdown a = a\<lparr>asyncIoTable := None\<rparr>"

definition GrowAsyncTable :: "nat \<times> aio_info list \<Rightarrow> nat \<times> aio_info list" where
  "GrowAsyncTable = (\<lambda>(n, t). (n * 2, t @ replicate n zero_aio))"

text \<open>\<open>while (index >= asyncIoTableSize) GrowAsyncTable ()\<close>; a table of size 0 would never grow.\<close>

function grow_for :: "nat \<Rightarrow> nat \<times> aio_info list \<Rightarrow> nat \<times> aio_info list" where
  "grow_for i (n, t) = (if n = 0 \<or> i < n then (n, t) else grow_for i (GrowAsyncTable (n, t)))"
  by pat_completeness auto
termination
  by (relation "measure (\<lambda>(i, n, t). Suc i - n)") (auto simp: GrowAsyncTable_def)

declare grow_for.simps [simp del]

text \<open>The common part of \<open>OS_AsyncRead\<close> and \<open>OS_AsyncWrite\<close>: entry \<open>index\<close> is filled in.\<close>

definition aio_post :: "int \<Rightarrow> aio_info \<Rightarrow> aio_state \<Rightarrow> aio_state cres" where
  "aio_post index e a =
     (case asyncIoTable a of
        None \<Rightarrow> Fault
      | Some t0 \<Rightarrow>
         (case grow_for (nat index) (asyncIoTableSize a, t0) of (n, t) \<Rightarrow>
            if index < 0 \<or> length t \<le> nat index then Fault
            else if inUse (t ! nat index) then Abort
            else Ret (a\<lparr>asyncIoInUse := True, maxFd := max (maxFd a) (aio_fd e), asyncIoTableSize := n,
                      asyncIoTable := Some (t[nat index := e])\<rparr>)))"

definition new_aio :: "int \<Rightarrow> int \<Rightarrow> nat \<Rightarrow> int \<Rightarrow> nat \<Rightarrow> nat \<Rightarrow> aio_info" where
  "new_aio fd offset buf len proc data =
     \<lparr>procPtr = proc, clientData = data, aio_fd = fd, aio_len = len, aio_offset = offset, aio_buf = buf,
      inUse = True\<rparr>"

definition OS_AsyncRead :: "int \<Rightarrow> int \<Rightarrow> nat \<Rightarrow> int \<Rightarrow> nat \<Rightarrow> nat \<Rightarrow> aio_state \<Rightarrow> aio_state cres" where
  "OS_AsyncRead fd offset buf len proc data a =
     (if asyncIoTable a = None then Abort
      else bindR (aio_post (AIO_RD_IX fd) (new_aio fd offset buf len proc data) a) (\<lambda>a'.
        Ret (a'\<lparr>readFdSet := insert fd (readFdSet a')\<rparr>)))"

definition OS_AsyncWrite :: "int \<Rightarrow> int \<Rightarrow> nat \<Rightarrow> int \<Rightarrow> nat \<Rightarrow> nat \<Rightarrow> aio_state \<Rightarrow> aio_state cres" where
  "OS_AsyncWrite fd offset buf len proc data a =
     bindR (aio_post (AIO_WR_IX fd) (new_aio fd offset buf len proc data) a) (\<lambda>a'.
       Ret (a'\<lparr>writeFdSet := insert fd (writeFdSet a')\<rparr>))"

definition OS_AsyncReadStdin :: "nat \<Rightarrow> int \<Rightarrow> nat \<Rightarrow> nat \<Rightarrow> aio_state \<Rightarrow> aio_state cres" where
  "OS_AsyncReadStdin buf len proc data a =
     (case asyncIoTable a of
        None \<Rightarrow> Fault
      | Some t \<Rightarrow>
          if length t \<le> nat (AIO_RD_IX 0) then Fault
          else if inUse (t ! nat (AIO_RD_IX 0)) then Abort
          else Ret (a\<lparr>asyncIoInUse := True, maxFd := max (maxFd a) 0, readFdSet := insert 0 (readFdSet a),
                    asyncIoTable := Some (t[nat (AIO_RD_IX 0) := new_aio 0 0 buf len proc data])\<rparr>))"

text \<open>The part of \<open>OS_Close\<close> and of \<open>OS_CloseRead\<close> that cancels operations.\<close>

definition aio_cancel :: "int \<Rightarrow> aio_info list \<Rightarrow> aio_info list cres" where
  "aio_cancel index t =
     (if index < 0 \<or> length t \<le> nat index then Fault
      else Ret (t[nat index := (t ! nat index)\<lparr>inUse := False\<rparr>]))"

definition aio_close :: "int \<Rightarrow> aio_state \<Rightarrow> aio_state cres" where
  "aio_close fd a =
     (if \<not> asyncIoInUse a then Ret a
      else case asyncIoTable a of
        None \<Rightarrow> Fault
      | Some t \<Rightarrow>
          bindR (aio_cancel (AIO_RD_IX fd) t) (\<lambda>t1.
          bindR (aio_cancel (AIO_WR_IX fd) t1) (\<lambda>t2.
            Ret (a\<lparr>asyncIoTable := Some t2,
                   readFdSet := readFdSet a - {fd}, readFdSetPost := readFdSetPost a - {fd},
                   writeFdSet := writeFdSet a - {fd}, writeFdSetPost := writeFdSetPost a - {fd},
                   maxFd := (if maxFd a = fd then maxFd a - 1 else maxFd a)\<rparr>))))"

definition aio_close_read :: "int \<Rightarrow> aio_state \<Rightarrow> aio_state cres" where
  "aio_close_read fd a =
     (case asyncIoTable a of
        None \<Rightarrow> Fault
      | Some t \<Rightarrow>
          if AIO_RD_IX fd < 0 \<or> length t \<le> nat (AIO_RD_IX fd) then Fault
          else if inUse (t ! nat (AIO_RD_IX fd)) then
            Ret (a\<lparr>asyncIoTable := Some (t[nat (AIO_RD_IX fd) := (t ! nat (AIO_RD_IX fd))\<lparr>inUse := False\<rparr>]),
                   readFdSet := readFdSet a - {fd}\<rparr>)
          else Ret a)"

section \<open>The kernel\<close>

text \<open>
  \<open>junk\<close> is what an uninitialised local array holds, \<open>malloc_addr\<close> the address the allocator gives
  for the buffer of a stream.
\<close>

record kernel =
  shutdownPending :: bool
  shutdownNow :: bool
  errno :: int
  conns :: "int \<Rightarrow> conn option"
  accepts :: "accept_event list"
  closed_log :: "(int \<times> byte list) list"
  aio :: aio_state
  junk :: "byte list"
  malloc_addr :: "64 word"

abbreviation set_conn :: "int \<Rightarrow> conn \<Rightarrow> kernel \<Rightarrow> kernel" where
  "set_conn fd c k \<equiv> k\<lparr>conns := (conns k)(fd \<mapsto> c)\<rparr>"

definition EBADF :: int where "EBADF = 9"
definition EINTR :: int where "EINTR = 4"

definition sys_read :: "int \<Rightarrow> nat \<Rightarrow> kernel \<Rightarrow> int \<times> byte list \<times> kernel" where
  "sys_read fd len k =
     (case conns k fd of
        None \<Rightarrow> (-1, [], k\<lparr>errno := EBADF\<rparr>)
      | Some c \<Rightarrow>
         (case crx c of
            [] \<Rightarrow> (0, [], k)
          | Rx_error e # r \<Rightarrow> (-1, [], set_conn fd (c\<lparr>crx := r\<rparr>) (k\<lparr>errno := e\<rparr>))
          | Rx_bytes bs # r \<Rightarrow>
              (int (length (take len bs)), take len bs,
               set_conn fd (c\<lparr>crx := (if drop len bs = [] then r else Rx_bytes (drop len bs) # r)\<rparr>) k)))"

definition sys_write :: "int \<Rightarrow> byte list \<Rightarrow> kernel \<Rightarrow> int \<times> kernel" where
  "sys_write fd bs k =
     (case conns k fd of
        None \<Rightarrow> (-1, k\<lparr>errno := EBADF\<rparr>)
      | Some c \<Rightarrow>
         (case cplan c of
            [] \<Rightarrow> (int (length bs), set_conn fd (c\<lparr>csent := csent c @ bs\<rparr>) k)
          | Tx_error e # p \<Rightarrow> (-1, set_conn fd (c\<lparr>cplan := p\<rparr>) (k\<lparr>errno := e\<rparr>))
          | Tx_take j # p \<Rightarrow>
              (int (length (take j bs)), set_conn fd (c\<lparr>cplan := p, csent := csent c @ take j bs\<rparr>) k)))"

definition OS_Read :: "int \<Rightarrow> nat \<Rightarrow> kernel \<Rightarrow> int \<times> byte list \<times> kernel" where
  "OS_Read fd len k = (if shutdownNow k then (-1, [], k) else sys_read fd len k)"

definition OS_Write :: "int \<Rightarrow> byte list \<Rightarrow> kernel \<Rightarrow> int \<times> kernel" where
  "OS_Write fd bs k = (if shutdownNow k then (-1, k) else sys_write fd bs k)"

definition OS_ShutdownPending :: "kernel \<Rightarrow> kernel" where
  "OS_ShutdownPending k = k\<lparr>shutdownPending := True\<rparr>"

text \<open>\<open>close\<close>: what was sent through the descriptor goes to the log of closed connections.\<close>

definition sys_close :: "int \<Rightarrow> kernel \<Rightarrow> int \<times> kernel" where
  "sys_close fd k =
     (case conns k fd of
        None \<Rightarrow> (-1, k\<lparr>errno := EBADF\<rparr>)
      | Some c \<Rightarrow>
          (0, k\<lparr>conns := (conns k)(fd := None), closed_log := closed_log k @ [(fd, csent c)]\<rparr>))"

text \<open>
  \<open>OS_Close\<close>: cancel the operations of the descriptor, then, where asked for, shut down the sending side
  and read until the end of the input, an error or a timeout; what is read is dropped. The bytes that
  are left are dropped with the connection in the model.
\<close>

definition OS_Close :: "int \<Rightarrow> bool \<Rightarrow> kernel \<Rightarrow> (int \<times> kernel) cres" where
  "OS_Close fd shutdown_ok k =
     (if fd = -1 then Ret (0, k)
      else bindR (aio_close fd (aio k)) (\<lambda>a. Ret (sys_close fd (k\<lparr>aio := a\<rparr>))))"

definition OS_IpcClose :: "int \<Rightarrow> bool \<Rightarrow> kernel \<Rightarrow> (int \<times> kernel) cres" where
  "OS_IpcClose ipcFd shutdown = OS_Close ipcFd shutdown"

definition OS_CloseRead :: "int \<Rightarrow> kernel \<Rightarrow> (int \<times> kernel) cres" where
  "OS_CloseRead fd k =
     bindR (aio_close_read fd (aio k)) (\<lambda>a.
       case conns k fd of
         None \<Rightarrow> Ret (-1, k\<lparr>aio := a, errno := EBADF\<rparr>)
       | Some c \<Rightarrow> Ret (0, set_conn fd (c\<lparr>crx := []\<rparr>) (k\<lparr>aio := a\<rparr>)))"

section \<open>Accepting connections\<close>

definition is_reasonable_accept_errno :: "int \<Rightarrow> bool" where
  "is_reasonable_accept_errno e \<longleftrightarrow> e \<in> {71, 103, 104, 110, 113, 101}"

fun split_comma :: "string \<Rightarrow> string list" where
  "split_comma [] = [[]]"
| "split_comma (c # s) =
     (if c = CHR '','' then [] # split_comma s
      else case split_comma s of [] \<Rightarrow> [[c]] | x # xs \<Rightarrow> (c # x) # xs)"

definition ClientAddrOK :: "(string \<Rightarrow> 32 word) \<Rightarrow> 32 word \<Rightarrow> string option \<Rightarrow> bool" where
  "ClientAddrOK inet_addr addr clientList =
     (case clientList of
        None \<Rightarrow> True
      | Some l \<Rightarrow> l = [] \<or> list_ex (\<lambda>cur. inet_addr cur = addr) (split_comma l))"

definition is_af_unix_keeper :: "peer \<Rightarrow> bool" where
  "is_af_unix_keeper p = (case p of Unix_socket r \<Rightarrow> r | Inet _ \<Rightarrow> True)"

text \<open>
  The loops of \<open>OS_Accept\<close> on a platform that lets processes call \<open>accept\<close> on a shared socket
  (\<open>USE_LOCKING\<close> not defined, so that \<open>AcquireLock\<close> and \<open>ReleaseLock\<close> give 0). \<open>socket\<close> and
  \<open>sa\<close> are the local variables: the last descriptor, which stays set when a client was turned away,
  and the address of the last client. Every round but the last takes one result of \<open>accept\<close>; when
  there is none left, the call waits forever.
\<close>

fun accept_loop ::
  "(string \<Rightarrow> 32 word) \<Rightarrow> bool \<Rightarrow> string option \<Rightarrow> int \<Rightarrow> peer option \<Rightarrow> accept_event list \<Rightarrow> kernel
     \<Rightarrow> (int \<times> kernel) cres" where
  "accept_loop ia fail_on_intr addrs socket sa evs k =
     (if shutdownPending k then
        (if socket < 0 then Ret (-1, k\<lparr>accepts := evs\<rparr>)
         else case sa of
            Some (Inet a) \<Rightarrow>
              if ClientAddrOK ia a addrs then Ret (socket, k\<lparr>accepts := evs\<rparr>)
              else Hang
          | Some (Unix_socket r) \<Rightarrow> if r then Ret (socket, k\<lparr>accepts := evs\<rparr>) else Hang
          | None \<Rightarrow> Fault)
      else case evs of
        [] \<Rightarrow> Hang
      | Acc_error e shut # r \<Rightarrow>
         (let k' = k\<lparr>errno := e, shutdownPending := shut\<rparr> in
          if e = EINTR \<and> \<not> fail_on_intr \<and> \<not> shut then accept_loop ia fail_on_intr addrs (-1) sa r k'
          else if shut \<or> \<not> is_reasonable_accept_errno e then Ret (-1, k'\<lparr>accepts := r\<rparr>)
          else accept_loop ia fail_on_intr addrs (-1) sa r (k'\<lparr>errno := 0\<rparr>))
      | Acc_conn fd p c # r \<Rightarrow>
         (let k' = set_conn fd c k in
          case p of
            Inet a \<Rightarrow>
              if ClientAddrOK ia a addrs then Ret (fd, k'\<lparr>accepts := r\<rparr>)
              else accept_loop ia fail_on_intr addrs fd (Some p) r (snd (sys_close fd k'))
          | Unix_socket readable \<Rightarrow>
              if readable then Ret (fd, k'\<lparr>accepts := r\<rparr>)
              else accept_loop ia fail_on_intr addrs fd (Some p) r (snd (sys_close fd k'))))"

declare accept_loop.simps [simp del]

definition OS_Accept :: "(string \<Rightarrow> 32 word) \<Rightarrow> bool \<Rightarrow> string option \<Rightarrow> kernel \<Rightarrow> (int \<times> kernel) cres" where
  "OS_Accept ia fail_on_intr addrs k = accept_loop ia fail_on_intr addrs (-1) None (accepts k) k"

end
