(* ===== verification/Fcgi_Protocol.thy ===== *)
theory Fcgi_Protocol
  imports Fcgi_Kernel
begin

text \<open>
  The FastCGI wire format, \<open>include/fastcgi.h\<close> and the functions of \<open>libfcgi/fcgiapp.c\<close> that
  build and take apart its structures: record headers, the bodies of the begin, end and unknown type
  records, alignment, and the vector of parameters.
\<close>

unbundle bit_operations_syntax

section \<open>Constants\<close>

definition FCGI_MAX_LENGTH :: int where "FCGI_MAX_LENGTH = 0xffff"
definition FCGI_HEADER_LEN :: nat where "FCGI_HEADER_LEN = 8"
definition FCGI_VERSION_1 :: int where "FCGI_VERSION_1 = 1"
definition FCGI_BEGIN_REQUEST :: int where "FCGI_BEGIN_REQUEST = 1"
definition FCGI_END_REQUEST :: int where "FCGI_END_REQUEST = 3"
definition FCGI_PARAMS :: int where "FCGI_PARAMS = 4"
definition FCGI_STDIN :: int where "FCGI_STDIN = 5"
definition FCGI_STDOUT :: int where "FCGI_STDOUT = 6"
definition FCGI_STDERR :: int where "FCGI_STDERR = 7"
definition FCGI_DATA :: int where "FCGI_DATA = 8"
definition FCGI_GET_VALUES :: int where "FCGI_GET_VALUES = 9"
definition FCGI_GET_VALUES_RESULT :: int where "FCGI_GET_VALUES_RESULT = 10"
definition FCGI_UNKNOWN_TYPE :: int where "FCGI_UNKNOWN_TYPE = 11"
definition FCGI_NULL_REQUEST_ID :: int where "FCGI_NULL_REQUEST_ID = 0"
definition FCGI_KEEP_CONN :: byte where "FCGI_KEEP_CONN = 1"
definition FCGI_RESPONDER :: int where "FCGI_RESPONDER = 1"
definition FCGI_AUTHORIZER :: int where "FCGI_AUTHORIZER = 2"
definition FCGI_FILTER :: int where "FCGI_FILTER = 3"
definition FCGI_REQUEST_COMPLETE :: int where "FCGI_REQUEST_COMPLETE = 0"
definition FCGI_CANT_MPX_CONN :: int where "FCGI_CANT_MPX_CONN = 1"

definition FCGX_UNSUPPORTED_VERSION :: int where "FCGX_UNSUPPORTED_VERSION = -2"
definition FCGX_PROTOCOL_ERROR :: int where "FCGX_PROTOCOL_ERROR = -3"
definition FCGX_PARAMS_ERROR :: int where "FCGX_PARAMS_ERROR = -4"
definition FCGX_CALL_SEQ_ERROR :: int where "FCGX_CALL_SEQ_ERROR = -5"

lemmas fcgi_types = FCGI_BEGIN_REQUEST_def FCGI_END_REQUEST_def FCGI_PARAMS_def FCGI_STDIN_def
  FCGI_STDOUT_def FCGI_STDERR_def FCGI_DATA_def FCGI_GET_VALUES_def FCGI_GET_VALUES_RESULT_def
  FCGI_UNKNOWN_TYPE_def FCGI_NULL_REQUEST_ID_def

section \<open>Headers and bodies\<close>

record FCGI_Header =
  version :: byte
  htype :: byte
  requestIdB1 :: byte
  requestIdB0 :: byte
  contentLengthB1 :: byte
  contentLengthB0 :: byte
  paddingLength :: byte
  reserved :: byte

text \<open>A structure of unsigned characters as it lies in memory.\<close>

definition header_bytes :: "FCGI_Header \<Rightarrow> byte list" where
  "header_bytes h = [version h, htype h, requestIdB1 h, requestIdB0 h, contentLengthB1 h,
     contentLengthB0 h, paddingLength h, reserved h]"

fun bytes_header :: "byte list \<Rightarrow> FCGI_Header" where
  "bytes_header [v, t, i1, i0, c1, c0, p, r] =
     \<lparr>version = v, htype = t, requestIdB1 = i1, requestIdB0 = i0, contentLengthB1 = c1,
      contentLengthB0 = c0, paddingLength = p, reserved = r\<rparr>"
| "bytes_header _ =
     \<lparr>version = 0, htype = 0, requestIdB1 = 0, requestIdB0 = 0, contentLengthB1 = 0,
      contentLengthB0 = 0, paddingLength = 0, reserved = 0\<rparr>"

text \<open>The cast \<open>(unsigned char)\<close> of an \<open>int\<close> of 32 bits, and \<open>(x >> k) & 0xff\<close>.\<close>

definition shifted :: "int \<Rightarrow> nat \<Rightarrow> byte" where
  "shifted x k = word_of_int (drop_bit k x AND 0xff)"

definition MakeHeader :: "int \<Rightarrow> int \<Rightarrow> int \<Rightarrow> int \<Rightarrow> FCGI_Header cres" where
  "MakeHeader type requestId contentLength paddingLen =
     (if \<not> (0 \<le> contentLength \<and> contentLength \<le> FCGI_MAX_LENGTH) then Abort
      else if \<not> (0 \<le> paddingLen \<and> paddingLen \<le> 0xff) then Abort
      else Ret \<lparr>version = word_of_int FCGI_VERSION_1, htype = word_of_int type,
        requestIdB1 = shifted requestId 8, requestIdB0 = shifted requestId 0,
        contentLengthB1 = shifted contentLength 8, contentLengthB0 = shifted contentLength 0,
        paddingLength = word_of_int paddingLen, reserved = 0\<rparr>)"

definition MakeEndRequestBody :: "int \<Rightarrow> int \<Rightarrow> byte list" where
  "MakeEndRequestBody appStatus protocolStatus =
     [shifted appStatus 24, shifted appStatus 16, shifted appStatus 8, shifted appStatus 0,
      word_of_int protocolStatus, 0, 0, 0]"

definition MakeUnknownTypeBody :: "int \<Rightarrow> byte list" where
  "MakeUnknownTypeBody type = [word_of_int type, 0, 0, 0, 0, 0, 0, 0]"

text \<open>\<open>(B1 << 8) + B0\<close>\<close>

definition two_bytes :: "byte \<Rightarrow> byte \<Rightarrow> int" where
  "two_bytes b1 b0 = push_bit 8 (uint b1) + uint b0"

section \<open>Alignment\<close>

text \<open>The argument is converted to \<open>unsigned\<close>, the result back to \<open>int\<close>.\<close>

definition AlignInt8 :: "int \<Rightarrow> int" where
  "AlignInt8 n = sint ((word_of_int n + 7) AND (- 1 - 7 :: 32 word))"

definition AlignPtr8 :: "64 word \<Rightarrow> 64 word" where
  "AlignPtr8 p = p + (((p + 7) AND (- 1 - 7)) - p)"

lemma and_not7: "(x :: 'a :: len word) AND (- 1 - 7) = push_bit 3 (drop_bit 3 x)"
proof -
  have "- 1 - 7 = (NOT (mask 3) :: 'a word)"
    by (simp add: mask_eq_exp_minus_1 not_eq_complement)
  moreover have "x AND NOT (mask 3) = push_bit 3 (drop_bit 3 x)"
    by (rule bit_word_eqI) (auto simp: bit_simps)
  ultimately show ?thesis by simp
qed

lemma AlignInt8_eq:
  assumes "0 \<le> n" and "n < 2 ^ 31 - 8"
  shows "AlignInt8 n = (n + 7) div 8 * 8"
proof -
  have w: "uint (word_of_int n + 7 :: 32 word) = n + 7"
    using assms by (simp add: uint_word_ariths unsigned_of_int take_bit_int_eq_self)
  have d: "uint (drop_bit 3 (word_of_int n + 7 :: 32 word)) = (n + 7) div 8"
    using w by (simp add: unsigned_drop_bit_eq drop_bit_eq_div uint_div_distrib)
  have b: "(n + 7) div 8 * 8 < 2 ^ 31" using assms by presburger
  then have "uint ((word_of_int n + 7) AND (- 1 - 7 :: 32 word)) = (n + 7) div 8 * 8"
    unfolding and_not7 using d assms by (simp add: push_bit_eq_mult uint_word_ariths)
  with b show ?thesis
    using assms by (simp add: AlignInt8_def sint_uint signed_take_bit_int_eq_self)
qed

lemma and_255: "(x :: int) AND 255 = take_bit 8 x"
  by (simp add: take_bit_eq_mask mask_eq_exp_minus_1)

lemma uint_shifted: "uint (shifted x k) = x div 2 ^ k mod 256"
  by (simp add: shifted_def and_255 unsigned_of_int drop_bit_eq_div take_bit_eq_mod)

text \<open>What is written into a header is what is read back.\<close>

lemma two_bytes_shifted: "0 \<le> x \<Longrightarrow> x < 2 ^ 16 \<Longrightarrow> two_bytes (shifted x 8) (shifted x 0) = x"
  by (simp add: two_bytes_def uint_shifted push_bit_eq_mult)

lemma two_bytes_range: "0 \<le> two_bytes a b" "two_bytes a b < 2 ^ 16"
proof -
  have "uint a < 256" "uint b < 256" using unsigned_less [of a] unsigned_less [of b] by simp_all
  then show "0 \<le> two_bytes a b" "two_bytes a b < 2 ^ 16"
    by (simp_all add: two_bytes_def push_bit_eq_mult)
qed

lemma header_roundtrip: "bytes_header (header_bytes h) = h"
  by (simp add: header_bytes_def)

lemma length_header_bytes [simp]: "length (header_bytes h) = 8"
  by (simp add: header_bytes_def)

end
