(* ===== verification/Fcgi_Stream.thy ===== *)
theory Fcgi_Stream
  imports Fcgi_Protocol
begin

text \<open>
  Buffered streams over a connection, \<open>libfcgi/fcgiapp.c\<close>: the operations of the application on
  characters and strings, the procedure that turns a full buffer into a FastCGI record, the procedure
  that reads records and gives their content to the application, and the parameters of a request.

  Pointers into the buffer are offsets from \<open>data->buff\<close>. \<open>FCGX_Stream\<close> and its private part
  \<open>FCGX_Stream_Data\<close> are one record. A program works on a stream, the scalar members of its request
  and the kernel. The procedure to fill the buffer, a function pointer of the stream, is an argument of
  the reading operations. Loops take fuel.
\<close>

section \<open>State\<close>

record fcgx_stream =
  buff :: "byte list"
  bufflen :: nat
  buffStop :: nat
  stype :: int
  eorStop :: bool
  skip :: bool
  contentLen :: int
  paddingLen :: int
  isAnythingWritten :: bool
  rawWrite :: bool
  rdNext :: nat
  wrNext :: nat
  stop :: nat
  stopUnget :: nat
  isReader :: bool
  isClosed :: bool
  wasFCloseCalled :: bool
  FCGI_errno :: int

record fcgx_req =
  requestId :: int
  role :: int
  ipcFd :: int
  isBeginProcessed :: bool
  keepConnection :: bool
  appStatus :: int
  nWriters :: int
  flags :: int
  listen_sock :: int
  detached :: bool

record sio =
  strm :: fcgx_stream
  req :: fcgx_req
  kern :: kernel

type_synonym 'a cprog = "sio \<Rightarrow> ('a \<times> sio) cres"

definition retC :: "'a \<Rightarrow> 'a cprog" where
  "retC x s = Ret (x, s)"

definition bindC :: "'a cprog \<Rightarrow> ('a \<Rightarrow> 'b cprog) \<Rightarrow> 'b cprog" where
  "bindC m f s = bindR (m s) (\<lambda>(x, s'). f x s')"

definition seqC :: "'a cprog \<Rightarrow> 'b cprog \<Rightarrow> 'b cprog" where
  "seqC m p = bindC m (\<lambda>_. p)"

definition liftC :: "'a cres \<Rightarrow> 'a cprog" where
  "liftC r s = bindR r (\<lambda>x. Ret (x, s))"

definition modS :: "(fcgx_stream \<Rightarrow> fcgx_stream) \<Rightarrow> unit cprog" where
  "modS f s = Ret ((), s\<lparr>strm := f (strm s)\<rparr>)"

definition modR :: "(fcgx_req \<Rightarrow> fcgx_req) \<Rightarrow> unit cprog" where
  "modR f s = Ret ((), s\<lparr>req := f (req s)\<rparr>)"

definition withS :: "(fcgx_stream \<Rightarrow> 'a cprog) \<Rightarrow> 'a cprog" where
  "withS f s = f (strm s) s"

definition withR :: "(fcgx_req \<Rightarrow> 'a cprog) \<Rightarrow> 'a cprog" where
  "withR f s = f (req s) s"

lemmas cprog_defs = retC_def bindC_def seqC_def liftC_def modS_def modR_def withS_def withR_def

text \<open>\<open>memcpy\<close> into and out of the buffer.\<close>

definition store_bytes :: "nat \<Rightarrow> byte list \<Rightarrow> unit cprog" where
  "store_bytes i bs s =
     (let b = buff (strm s) in
      if i + length bs \<le> length b
      then Ret ((), s\<lparr>strm := (strm s)\<lparr>buff := take i b @ bs @ drop (i + length bs) b\<rparr>\<rparr>)
      else Fault)"

definition fetch_bytes :: "nat \<Rightarrow> nat \<Rightarrow> byte list cprog" where
  "fetch_bytes i n s =
     (let b = buff (strm s) in if i + n \<le> length b then Ret (take n (drop i b), s) else Fault)"

definition EOF :: int where "EOF = -1"

definition SetError :: "int \<Rightarrow> fcgx_stream \<Rightarrow> fcgx_stream" where
  "SetError e s = s\<lparr>FCGI_errno := (if FCGI_errno s = 0 then e else FCGI_errno s), isClosed := True\<rparr>"

definition FCGX_GetError :: "fcgx_stream \<Rightarrow> int" where
  "FCGX_GetError s = FCGI_errno s"

definition FCGX_ClearError :: "fcgx_stream \<Rightarrow> fcgx_stream" where
  "FCGX_ClearError s = s\<lparr>FCGI_errno := 0\<rparr>"

definition FCGX_HasSeenEOF :: "fcgx_stream \<Rightarrow> int" where
  "FCGX_HasSeenEOF s = (if isClosed s then EOF else 0)"

section \<open>Reading\<close>

definition next_byte :: "int cprog" where
  "next_byte =
     withS (\<lambda>s. bindC (fetch_bytes (rdNext s) 1) (\<lambda>bs.
       seqC (modS (\<lambda>s. s\<lparr>rdNext := rdNext s + 1\<rparr>)) (retC (uint (hd bs)))))"

definition FCGX_GetChar :: "unit cprog \<Rightarrow> int cprog" where
  "FCGX_GetChar fill =
     withS (\<lambda>s.
       if isClosed s \<or> \<not> isReader s then retC EOF
       else if rdNext s \<noteq> stop s then next_byte
       else seqC fill
        (withS (\<lambda>s.
           if isClosed s then retC EOF
           else seqC (modS (\<lambda>s. s\<lparr>stopUnget := rdNext s\<rparr>))
             (if rdNext s \<noteq> stop s then next_byte else (\<lambda>_. Abort)))))"

text \<open>The general case of \<open>FCGX_GetStr\<close>; the result is what was copied to \<open>str\<close>.\<close>

fun get_loop :: "nat \<Rightarrow> unit cprog \<Rightarrow> nat \<Rightarrow> byte list \<Rightarrow> byte list cprog" where
  "get_loop 0 fill n moved = (\<lambda>_. Hang)"
| "get_loop (Suc k) fill n moved =
     withS (\<lambda>s.
       let m = (if rdNext s \<noteq> stop s then min (n - length moved) (stop s - rdNext s) else 0) in
       bindC (fetch_bytes (rdNext s) m) (\<lambda>bs.
       seqC (modS (\<lambda>s. s\<lparr>rdNext := rdNext s + m\<rparr>))
        (if rdNext s \<noteq> stop s \<and> length (moved @ bs) = n then retC (moved @ bs)
         else if isClosed s \<or> \<not> isReader s then retC (moved @ bs)
         else seqC fill
           (withS (\<lambda>s.
              if isClosed s then retC (moved @ bs)
              else seqC (modS (\<lambda>s. s\<lparr>stopUnget := rdNext s\<rparr>)) (get_loop k fill n (moved @ bs)))))))"

definition FCGX_GetStr :: "nat \<Rightarrow> unit cprog \<Rightarrow> int \<Rightarrow> byte list cprog" where
  "FCGX_GetStr k fill n =
     withS (\<lambda>s.
       if isClosed s \<or> \<not> isReader s \<or> n \<le> 0 then retC []
       else if nat n \<le> stop s - rdNext s then
         bindC (fetch_bytes (rdNext s) (nat n)) (\<lambda>bs.
         seqC (modS (\<lambda>s. s\<lparr>rdNext := rdNext s + nat n\<rparr>)) (retC bs))
       else get_loop k fill (nat n) [])"

text \<open>\<open>FCGX_GetLine\<close>: the bytes before the terminating zero, or \<open>None\<close> for \<open>NULL\<close>.\<close>

fun line_loop :: "unit cprog \<Rightarrow> nat \<Rightarrow> byte list \<Rightarrow> byte list option cprog" where
  "line_loop fill 0 line = retC (Some line)"
| "line_loop fill (Suc n) line =
     bindC (FCGX_GetChar fill) (\<lambda>c.
       if c = EOF then retC (if line = [] then None else Some line)
       else if c = 10 then retC (Some (line @ [word_of_int c]))
       else line_loop fill n (line @ [word_of_int c]))"

definition FCGX_GetLine :: "unit cprog \<Rightarrow> int \<Rightarrow> byte list option cprog" where
  "FCGX_GetLine fill n = line_loop fill (nat (n - 1)) []"

definition FCGX_UnGetChar :: "int \<Rightarrow> int cprog" where
  "FCGX_UnGetChar c =
     withS (\<lambda>s.
       if c = EOF \<or> isClosed s \<or> \<not> isReader s \<or> rdNext s = stopUnget s then retC EOF
       else if rdNext s = 0 then (\<lambda>_. Fault)
       else seqC (modS (\<lambda>s. s\<lparr>rdNext := rdNext s - 1\<rparr>))
         (seqC (store_bytes (rdNext s - 1) [word_of_int c]) (retC c)))"

section \<open>Writing\<close>

text \<open>
  \<open>write_it_all\<close> ends because a call of \<open>OS_Write\<close> uses up an entry of the connection's plan or
  takes all that is left.
\<close>

definition plan_left :: "int \<Rightarrow> kernel \<Rightarrow> nat" where
  "plan_left fd k = (case conns k fd of None \<Rightarrow> 0 | Some c \<Rightarrow> length (cplan c))"

function write_it_all :: "int \<Rightarrow> byte list \<Rightarrow> kernel \<Rightarrow> int \<times> kernel" where
  "write_it_all fd buf k =
     (if buf = [] then (0, k)
      else case OS_Write fd buf k of (wrote, k') \<Rightarrow>
        if wrote < 0 then (wrote, k') else write_it_all fd (drop (nat wrote) buf) k')"
  by pat_completeness auto
termination
  by (relation "measures [\<lambda>(fd, buf, k). plan_left fd k, \<lambda>(fd, buf, k). length buf]")
    (auto simp: OS_Write_def sys_write_def plan_left_def
      split: if_splits option.splits list.splits tx_event.splits)

declare write_it_all.simps [simp del]

text \<open>A write of the library: bytes to the connection of the request, an error into the stream.\<close>

definition send :: "byte list \<Rightarrow> bool cprog" where
  "send bs s =
     (case write_it_all (ipcFd (req s)) bs (kern s) of
        (w, k) \<Rightarrow>
          if w < 0 then Ret (False, s\<lparr>kern := k, strm := SetError (errno k) (strm s)\<rparr>)
          else Ret (True, s\<lparr>kern := k\<rparr>))"

text \<open>The header of the record in the buffer: the part of \<open>EmptyBuffProc\<close> before \<open>doClose\<close>.\<close>

definition seal_record :: "unit cprog" where
  "seal_record =
     withS (\<lambda>s.
       if rawWrite s then retC ()
       else
         let cLen = int (wrNext s) - 8 in
         if 0 < cLen then
           let eLen = AlignInt8 cLen in
           seqC (store_bytes (wrNext s) (replicate (nat (eLen - cLen)) 0))
            (seqC (modS (\<lambda>s. s\<lparr>wrNext := wrNext s + nat (eLen - cLen)\<rparr>))
              (withR (\<lambda>r.
                 bindC (liftC (MakeHeader (stype s) (requestId r) cLen (eLen - cLen))) (\<lambda>h.
                   store_bytes 0 (header_bytes h)))))
         else modS (\<lambda>s. s\<lparr>wrNext := 0\<rparr>))"

text \<open>The part after it: send the buffer, then leave room for the next header.\<close>

definition flush_buffer :: "unit cprog" where
  "flush_buffer =
     withS (\<lambda>s.
       bindC
        (if wrNext s \<noteq> 0 then
           seqC (modS (\<lambda>s. s\<lparr>isAnythingWritten := True\<rparr>))
            (bindC (fetch_bytes 0 (wrNext s)) (\<lambda>bs.
             bindC (send bs) (\<lambda>ok.
               if ok then seqC (modS (\<lambda>s. s\<lparr>wrNext := 0\<rparr>)) (retC True) else retC False)))
         else retC True) (\<lambda>ok.
        if ok then modS (\<lambda>s. if rawWrite s then s else s\<lparr>wrNext := wrNext s + 8\<rparr>) else retC ()))"

text \<open>\<open>EmptyBuffProc (stream, FALSE)\<close>, which the writing operations call through the stream.\<close>

definition empty_buffer :: "unit cprog" where
  "empty_buffer = seqC seal_record flush_buffer"

definition FCGX_PutChar :: "int \<Rightarrow> int cprog" where
  "FCGX_PutChar c =
     withS (\<lambda>s.
       let put = withS (\<lambda>s. seqC (store_bytes (wrNext s) [word_of_int c])
                   (seqC (modS (\<lambda>s. s\<lparr>wrNext := wrNext s + 1\<rparr>)) (retC (uint (word_of_int c :: byte))))) in
       if wrNext s \<noteq> stop s then put
       else if isClosed s \<or> isReader s then retC EOF
       else seqC empty_buffer
         (withS (\<lambda>s. if wrNext s \<noteq> stop s then put else if isClosed s then retC EOF else (\<lambda>_. Abort))))"

text \<open>
  The general case of \<open>FCGX_PutStr\<close>. Every round but the first moves a byte, so the fuel is the
  length of the text and two more.
\<close>

fun put_loop :: "nat \<Rightarrow> byte list \<Rightarrow> int \<Rightarrow> int cprog" where
  "put_loop 0 str moved = (\<lambda>_. Hang)"
| "put_loop (Suc k) str moved =
     withS (\<lambda>s.
       let m = (if wrNext s \<noteq> stop s then min (length str) (stop s - wrNext s) else 0) in
       seqC (store_bytes (wrNext s) (take m str))
        (seqC (modS (\<lambda>s. s\<lparr>wrNext := wrNext s + m\<rparr>))
          (if wrNext s \<noteq> stop s \<and> drop m str = [] then retC (moved + int m)
           else if isClosed s \<or> isReader s then retC (-1)
           else seqC empty_buffer (put_loop k (drop m str) (moved + int m)))))"

definition FCGX_PutStr :: "byte list \<Rightarrow> int cprog" where
  "FCGX_PutStr str =
     withS (\<lambda>s.
       if int (length str) \<le> int (stop s) - int (wrNext s) then
         seqC (store_bytes (wrNext s) str)
          (seqC (modS (\<lambda>s. s\<lparr>wrNext := wrNext s + length str\<rparr>)) (retC (int (length str))))
       else put_loop (length str + 2) str 0)"

definition FCGX_PutS :: "byte list \<Rightarrow> int cprog" where
  "FCGX_PutS str = FCGX_PutStr (takeWhile (\<lambda>b. b \<noteq> 0) str)"

section \<open>Flushing and closing\<close>

definition end_request_record :: "int \<Rightarrow> int \<Rightarrow> int \<Rightarrow> byte list cres" where
  "end_request_record rid status proto =
     bindR (MakeHeader FCGI_END_REQUEST rid 8 0) (\<lambda>h. Ret (header_bytes h @ MakeEndRequestBody status proto))"

definition WriteCloseRecords :: "unit cprog" where
  "WriteCloseRecords =
     seqC (modS (\<lambda>s. s\<lparr>rawWrite := True\<rparr>))
      (seqC
        (withS (\<lambda>s. withR (\<lambda>r.
           if \<not> (stype s = FCGI_STDERR \<and> wrNext s = 0 \<and> \<not> isAnythingWritten s) then
             bindC (liftC (MakeHeader (stype s) (requestId r) 0 0)) (\<lambda>h.
             seqC (FCGX_PutStr (header_bytes h)) (retC ()))
           else retC ())))
        (seqC
          (withR (\<lambda>r.
             if nWriters r = 1 then
               bindC (liftC (end_request_record (requestId r) (appStatus r) FCGI_REQUEST_COMPLETE)) (\<lambda>bs.
               seqC (FCGX_PutStr bs) (retC ()))
             else retC ()))
          (modR (\<lambda>r. r\<lparr>nWriters := nWriters r - 1\<rparr>))))"

definition EmptyBuffProc :: "bool \<Rightarrow> unit cprog" where
  "EmptyBuffProc doClose =
     seqC seal_record (seqC (if doClose then WriteCloseRecords else retC ()) flush_buffer)"

definition FCGX_FFlush :: "int cprog" where
  "FCGX_FFlush =
     withS (\<lambda>s.
       if isClosed s \<or> isReader s then retC 0
       else seqC (EmptyBuffProc False) (withS (\<lambda>s. retC (if isClosed s then -1 else 0))))"

definition FCGX_FClose :: "int cprog" where
  "FCGX_FClose =
     withS (\<lambda>s.
       seqC
        (if wasFCloseCalled s then retC ()
         else seqC (if isReader s then retC () else EmptyBuffProc True)
           (modS (\<lambda>s.
              let t = s\<lparr>wasFCloseCalled := True, isClosed := True\<rparr> in
              if isReader t then t\<lparr>wrNext := rdNext t, stop := rdNext t\<rparr>
              else t\<lparr>rdNext := wrNext t, stop := wrNext t\<rparr>)))
        (withS (\<lambda>s. retC (if FCGI_errno s = 0 then 0 else EOF))))"

end
