(* ===== verification/Fcgi_Reader.thy ===== *)
theory Fcgi_Reader
  imports Fcgi_Stream
begin

text \<open>
  The reading side of \<open>libfcgi/fcgiapp.c\<close>: the vector of parameters, name-value pairs, management and
  begin records, and \<open>FillBuffProc\<close>, which reads records from the connection and gives the content of
  those that belong to the stream to the application.
\<close>

section \<open>Parameters\<close>

text \<open>\<open>pvec\<close> holds the entries before \<open>cur\<close>, without their terminating zeros.\<close>

record params =
  pvec :: "byte list list"
  plength :: nat

definition NewParams :: "nat \<Rightarrow> params cres" where
  "NewParams n = (if n = 0 then Fault else Ret \<lparr>pvec = [], plength = n\<rparr>)"

definition FreeParams :: "params option \<Rightarrow> params option" where
  "FreeParams p = None"

definition PutParam :: "params \<Rightarrow> byte list \<Rightarrow> params cres" where
  "PutParam p nameValue =
     (if plength p \<le> length (pvec p) then Fault
      else
        let vec = pvec p @ [nameValue];
            len = (if plength p \<le> length vec then plength p * 2 else plength p)
        in if len \<le> length vec then Fault else Ret \<lparr>pvec = vec, plength = len\<rparr>)"

definition equals_sign :: byte where "equals_sign = 0x3d"

text \<open>\<open>strncmp (name, *p, len) == 0 && ( *p)[len] == '='\<close> for a name without zero bytes.\<close>

definition has_name :: "byte list \<Rightarrow> byte list \<Rightarrow> bool" where
  "has_name name entry \<longleftrightarrow> take (length name + 1) (entry @ [0]) = name @ [equals_sign]"

definition FCGX_GetParam :: "byte list option \<Rightarrow> byte list list option \<Rightarrow> byte list option" where
  "FCGX_GetParam name envp =
     (case (name, envp) of
        (Some n, Some env) \<Rightarrow>
          (case find (has_name n) env of
             None \<Rightarrow> None
           | Some e \<Rightarrow> Some (takeWhile (\<lambda>b. b \<noteq> 0) (drop (length n + 1) e)))
      | _ \<Rightarrow> None)"

section \<open>Name-value pairs\<close>

definition four_bytes :: "int \<Rightarrow> byte list \<Rightarrow> int" where
  "four_bytes b bs = push_bit 24 (b AND 0x7f) + push_bit 16 (uint (bs ! 0)) + push_bit 8 (uint (bs ! 1))
     + uint (bs ! 2)"

definition read_length :: "nat \<Rightarrow> unit cprog \<Rightarrow> int \<Rightarrow> int option cprog" where
  "read_length k fill b =
     (if b AND 0x80 \<noteq> 0 then
        bindC (FCGX_GetStr k fill 3) (\<lambda>bs.
          retC (if length bs \<noteq> 3 then None else Some (four_bytes b bs)))
      else retC (Some b))"

definition params_error :: "params \<Rightarrow> (int \<times> params) cprog" where
  "params_error p = seqC (modS (SetError FCGX_PARAMS_ERROR)) (retC (-1, p))"

text \<open>
  \<open>Malloc (nameLen + valueLen + 2)\<close>: the sum is an \<open>int\<close> of 32 bits, and a negative one becomes a
  size no allocator grants, which the assertion in \<open>Malloc\<close> catches.
\<close>

definition entry_size :: "int \<Rightarrow> int \<Rightarrow> int" where
  "entry_size nameLen valueLen = sint (word_of_int (nameLen + valueLen + 2) :: 32 word)"

definition read_pair :: "nat \<Rightarrow> unit cprog \<Rightarrow> int \<Rightarrow> int \<Rightarrow> byte list option cprog" where
  "read_pair k fill nameLen valueLen =
     (let size = entry_size nameLen valueLen in
      if size < 0 then (\<lambda>_. Abort)
      else bindC (FCGX_GetStr k fill nameLen) (\<lambda>name.
        if size < int (length name) then (\<lambda>_. Fault)
        else if int (length name) \<noteq> nameLen then retC None
        else if size \<le> nameLen then (\<lambda>_. Fault)
        else bindC (FCGX_GetStr k fill valueLen) (\<lambda>val.
          if size < nameLen + 1 + int (length val) then (\<lambda>_. Fault)
          else if int (length val) \<noteq> valueLen then retC None
          else if size \<le> nameLen + valueLen + 1 then (\<lambda>_. Fault)
          else retC (Some (name @ [equals_sign] @ val)))))"

fun ReadParams :: "nat \<Rightarrow> unit cprog \<Rightarrow> params \<Rightarrow> (int \<times> params) cprog" where
  "ReadParams 0 fill p = (\<lambda>_. Hang)"
| "ReadParams (Suc k) fill p =
     bindC (FCGX_GetChar fill) (\<lambda>b.
       if b = EOF then retC (0, p)
       else bindC (read_length k fill b) (\<lambda>nl.
         case nl of
           None \<Rightarrow> params_error p
         | Some nameLen \<Rightarrow>
             bindC (FCGX_GetChar fill) (\<lambda>c.
               if c = EOF then params_error p
               else bindC (read_length k fill c) (\<lambda>vl.
                 case vl of
                   None \<Rightarrow> params_error p
                 | Some valueLen \<Rightarrow>
                     bindC (read_pair k fill nameLen valueLen) (\<lambda>e.
                       case e of
                         None \<Rightarrow> params_error p
                       | Some nameValue \<Rightarrow>
                           bindC (liftC (PutParam p nameValue)) (\<lambda>p'. ReadParams k fill p'))))))"

section \<open>Management records\<close>

definition STREAM_RECORD :: int where "STREAM_RECORD = 0"
definition SKIP :: int where "SKIP = 1"
definition BEGIN_RECORD :: int where "BEGIN_RECORD = 2"
definition MGMT_RECORD :: int where "MGMT_RECORD = 3"

lemmas status_defs = STREAM_RECORD_def SKIP_def BEGIN_RECORD_def MGMT_RECORD_def

definition ascii :: "string \<Rightarrow> byte list" where
  "ascii s = map (\<lambda>c. of_nat (code c)) s"

text \<open>The values the library knows: \<open>FCGI_MAX_CONNS\<close>, \<open>FCGI_MAX_REQS\<close> and \<open>FCGI_MPXS_CONNS\<close>.\<close>

definition known_value :: "byte list \<Rightarrow> byte option" where
  "known_value = map_of
     [(ascii ''FCGI_MAX_CONNS'', 0x31), (ascii ''FCGI_MAX_REQS'', 0x31), (ascii ''FCGI_MPXS_CONNS'', 0x30)]"

text \<open>Writes into the local array \<open>char response[64]\<close>.\<close>

definition put_response :: "byte list \<Rightarrow> nat \<Rightarrow> byte list \<Rightarrow> byte list cres" where
  "put_response resp pos bs =
     (if pos + length bs \<le> 64 then Ret (take pos resp @ bs @ drop (pos + length bs) resp) else Fault)"

fun answer_values :: "byte list list \<Rightarrow> byte list \<Rightarrow> nat \<Rightarrow> (byte list \<times> nat) cres" where
  "answer_values [] resp pos = Ret (resp, pos)"
| "answer_values (e # es) resp pos =
     (let name = takeWhile (\<lambda>b. b \<noteq> equals_sign) e in
      if 0 \<in> set name then Fault
      else case known_value name of
        None \<Rightarrow> answer_values es resp pos
      | Some v \<Rightarrow>
         (case put_response resp pos ([of_nat (length name), 1] @ name @ [v, 0]) of
            Ret resp' \<Rightarrow> answer_values es resp' (pos + length name + 3)
          | _ \<Rightarrow> Fault))"

definition local_response :: "kernel \<Rightarrow> byte list" where
  "local_response k = take 64 (junk k @ replicate 64 0)"

definition withK :: "(kernel \<Rightarrow> 'a cprog) \<Rightarrow> 'a cprog" where
  "withK f s = f (kern s) s"

definition send_mgmt_response :: "byte list \<Rightarrow> int \<Rightarrow> int \<Rightarrow> int \<Rightarrow> int cprog" where
  "send_mgmt_response resp type len paddedLen =
     bindC (liftC (MakeHeader type FCGI_NULL_REQUEST_ID len (paddedLen - len))) (\<lambda>h.
     bindC (liftC (put_response resp 0 (header_bytes h))) (\<lambda>resp.
       if 64 < 8 + paddedLen then (\<lambda>_. Fault)
       else bindC (send (take (nat (8 + paddedLen)) resp)) (\<lambda>ok. retC (if ok then MGMT_RECORD else -1))))"

definition ProcessManagementRecord :: "nat \<Rightarrow> unit cprog \<Rightarrow> int \<Rightarrow> int cprog" where
  "ProcessManagementRecord k fill type =
     withK (\<lambda>krn.
       bindC (liftC (NewParams 3)) (\<lambda>p.
         if type = FCGI_GET_VALUES then
           bindC (ReadParams k fill p) (\<lambda>(_, p').
           withS (\<lambda>s.
             if FCGX_GetError s \<noteq> 0 \<or> contentLen s \<noteq> 0 then retC FCGX_PROTOCOL_ERROR
             else bindC (liftC (answer_values (pvec p') (local_response krn) 8)) (\<lambda>(resp, pos).
               send_mgmt_response resp FCGI_GET_VALUES_RESULT (int pos - 8) (AlignInt8 (int pos - 8)))))
         else
           bindC (liftC (put_response (local_response krn) 8 (MakeUnknownTypeBody type))) (\<lambda>resp.
             send_mgmt_response resp FCGI_UNKNOWN_TYPE 8 8)))"

section \<open>Begin records and headers\<close>

definition ProcessBeginRecord :: "nat \<Rightarrow> unit cprog \<Rightarrow> int \<Rightarrow> int cprog" where
  "ProcessBeginRecord k fill rid =
     withS (\<lambda>s. withR (\<lambda>r.
       if rid = 0 \<or> contentLen s \<noteq> 8 then retC FCGX_PROTOCOL_ERROR
       else if isBeginProcessed r then
         bindC (liftC (end_request_record rid 0 FCGI_CANT_MPX_CONN)) (\<lambda>bs.
         bindC (send bs) (\<lambda>ok. retC (if ok then SKIP else -1)))
       else seqC (modR (\<lambda>r. r\<lparr>requestId := rid\<rparr>))
         (bindC (FCGX_GetStr k fill 8) (\<lambda>body.
            if length body \<noteq> 8 then retC FCGX_PROTOCOL_ERROR
            else seqC (modR (\<lambda>r. r\<lparr>keepConnection := (body ! 2 AND FCGI_KEEP_CONN \<noteq> 0),
                                 role := two_bytes (body ! 0) (body ! 1), isBeginProcessed := True\<rparr>))
              (retC BEGIN_RECORD)))))"

definition ProcessHeader :: "nat \<Rightarrow> unit cprog \<Rightarrow> FCGI_Header \<Rightarrow> int cprog" where
  "ProcessHeader k fill h =
     (if uint (version h) \<noteq> FCGI_VERSION_1 then retC FCGX_UNSUPPORTED_VERSION
      else
        let rid = two_bytes (requestIdB1 h) (requestIdB0 h) in
        seqC (modS (\<lambda>s. s\<lparr>contentLen := two_bytes (contentLengthB1 h) (contentLengthB0 h),
                          paddingLen := uint (paddingLength h)\<rparr>))
         (if uint (htype h) = FCGI_BEGIN_REQUEST then ProcessBeginRecord k fill rid
          else if rid = FCGI_NULL_REQUEST_ID then ProcessManagementRecord k fill (uint (htype h))
          else withS (\<lambda>s. withR (\<lambda>r.
            if rid \<noteq> requestId r then retC SKIP
            else if uint (htype h) \<noteq> stype s then retC FCGX_PROTOCOL_ERROR
            else retC STREAM_RECORD))))"

section \<open>Filling the buffer\<close>

text \<open>How a part of the loop body ends: \<open>return\<close>, \<open>continue\<close>, or go on.\<close>

datatype flow = Return | Continue | Next

definition refill :: "flow cprog" where
  "refill s =
     (if rdNext (strm s) \<noteq> buffStop (strm s) then Ret (Next, s)
      else case OS_Read (ipcFd (req s)) (bufflen (strm s)) (kern s) of
        (cnt, bs, k) \<Rightarrow>
          if cnt \<le> 0 then
            Ret (Return, s\<lparr>kern := k,
              strm := SetError (if cnt = 0 then FCGX_PROTOCOL_ERROR else errno k) (strm s)\<rparr>)
          else bindC (store_bytes 0 bs)
            (\<lambda>_. seqC (modS (\<lambda>s. s\<lparr>rdNext := 0, buffStop := nat cnt\<rparr>)) (retC Next)) (s\<lparr>kern := k\<rparr>))"

definition content_part :: "flow cprog" where
  "content_part =
     withS (\<lambda>s.
       if 0 < contentLen s then
         let cnt = min (contentLen s) (int (buffStop s) - int (rdNext s));
             s1 = s\<lparr>contentLen := contentLen s - cnt\<rparr> in
         if \<not> skip s then
           seqC (modS (\<lambda>_. s1\<lparr>wrNext := rdNext s + nat cnt, stop := rdNext s + nat cnt\<rparr>)) (retC Return)
         else
           let s2 = s1\<lparr>rdNext := rdNext s + nat cnt\<rparr> in
           if 0 < contentLen s2 then seqC (modS (\<lambda>_. s2)) (retC Continue)
           else seqC (modS (\<lambda>_. s2\<lparr>skip := False\<rparr>)) (retC Next)
       else retC Next)"

definition padding_part :: "flow cprog" where
  "padding_part =
     withS (\<lambda>s.
       if 0 < paddingLen s then
         let cnt = min (paddingLen s) (int (buffStop s) - int (rdNext s));
             s1 = s\<lparr>paddingLen := paddingLen s - cnt, rdNext := rdNext s + nat cnt\<rparr> in
         seqC (modS (\<lambda>_. s1)) (retC (if 0 < paddingLen s1 then Continue else Next))
       else retC Next)"

definition eor_part :: "flow cprog" where
  "eor_part =
     withS (\<lambda>s.
       if eorStop s then seqC (modS (\<lambda>s. s\<lparr>stop := rdNext s, isClosed := True\<rparr>)) (retC Return)
       else retC Next)"

definition header_part :: "byte list \<Rightarrow> byte list cprog" where
  "header_part hdr =
     withS (\<lambda>s.
       let cnt = min (8 - length hdr) (buffStop s - rdNext s) in
       bindC (fetch_bytes (rdNext s) cnt) (\<lambda>bs.
       seqC (modS (\<lambda>s. s\<lparr>rdNext := rdNext s + cnt\<rparr>)) (retC (hdr @ bs))))"

definition interpret_part :: "nat \<Rightarrow> unit cprog \<Rightarrow> byte list \<Rightarrow> flow cprog" where
  "interpret_part k fill hdr =
     seqC (modS (\<lambda>s. s\<lparr>eorStop := True, stop := rdNext s\<rparr>))
      (bindC (ProcessHeader k fill (bytes_header hdr)) (\<lambda>status.
       seqC (modS (\<lambda>s. s\<lparr>eorStop := False, isClosed := False\<rparr>))
        (if status = STREAM_RECORD then
           withS (\<lambda>s.
             if contentLen s = 0 then
               seqC (modS (\<lambda>s. s\<lparr>wrNext := rdNext s, stop := rdNext s, isClosed := True\<rparr>)) (retC Return)
             else retC Next)
         else if status = SKIP then seqC (modS (\<lambda>s. s\<lparr>skip := True\<rparr>)) (retC Next)
         else if status = BEGIN_RECORD then retC Return
         else if status = MGMT_RECORD then retC Next
         else if status < 0 then seqC (modS (SetError status)) (retC Return)
         else (\<lambda>_. Abort))))"

definition flowC :: "flow cprog \<Rightarrow> unit cprog \<Rightarrow> unit cprog \<Rightarrow> unit cprog" where
  "flowC m again p = bindC m (\<lambda>f. case f of Return \<Rightarrow> retC () | Continue \<Rightarrow> again | Next \<Rightarrow> p)"

text \<open>The loop; \<open>hdr\<close> is the part of the header read so far.\<close>

fun fill_loop :: "nat \<Rightarrow> byte list \<Rightarrow> unit cprog" where
  "fill_loop 0 hdr = (\<lambda>_. Hang)"
| "fill_loop (Suc k) hdr =
     flowC refill (fill_loop k hdr)
      (flowC content_part (fill_loop k hdr)
        (flowC padding_part (fill_loop k hdr)
          (flowC eor_part (fill_loop k hdr)
            (bindC (header_part hdr) (\<lambda>hdr'.
               if length hdr' < 8 then fill_loop k hdr'
               else flowC (interpret_part k (fill_loop k []) hdr') (fill_loop k []) (fill_loop k []))))))"

definition FillBuffProc :: "nat \<Rightarrow> unit cprog" where
  "FillBuffProc k = fill_loop k []"

end
