(* ===== verification/Fcgi_Request.thy ===== *)
theory Fcgi_Request
  imports Fcgi_Reader
begin

text \<open>
  Requests, the part of \<open>libfcgi/fcgiapp.c\<close> from \<open>NewStream\<close> on: creation of streams, accepting,
  finishing and freeing a request, and the start of the library. A request holds its streams; the
  scalar members, which the streams reach through \<open>reqDataPtr\<close>, are its field \<open>core\<close>.
\<close>

record fcgx_request =
  core :: fcgx_req
  in_stream :: "fcgx_stream option"
  out_stream :: "fcgx_stream option"
  err_stream :: "fcgx_stream option"
  paramsPtr :: "params option"
  envp :: "byte list list option"

record fcgx_lib =
  libInitialized :: bool
  isFastCGI :: int
  webServerAddressList :: "string option"
  the_request :: fcgx_request
  krn :: kernel

definition FCGI_LISTENSOCK_FILENO :: int where "FCGI_LISTENSOCK_FILENO = 0"
definition FCGI_FAIL_ACCEPT_ON_INTR :: int where "FCGI_FAIL_ACCEPT_ON_INTR = 1"

section \<open>Streams\<close>

definition NewStream :: "64 word \<Rightarrow> int \<Rightarrow> bool \<Rightarrow> int \<Rightarrow> fcgx_stream" where
  "NewStream mBuff blen reader streamType =
     (let len = nat (AlignInt8 (min (max blen 32) (FCGI_MAX_LENGTH + 1)));
          off = unat (AlignPtr8 mBuff - mBuff);
          bl = (if off \<noteq> 0 then len - 8 else len)
      in \<lparr>buff = replicate (len - off) 0, bufflen = bl, buffStop = (if reader then 0 else bl),
          stype = streamType, eorStop = False, skip = False, contentLen = 0, paddingLen = 0,
          isAnythingWritten = False, rawWrite = False,
          rdNext = (if reader then 0 else bl), wrNext = (if reader then 0 else 8),
          stop = (if reader then 0 else bl), stopUnget = 0,
          isReader = reader, isClosed = False, wasFCloseCalled = False, FCGI_errno = 0\<rparr>)"

definition NewReader :: "64 word \<Rightarrow> int \<Rightarrow> int \<Rightarrow> fcgx_stream" where
  "NewReader a blen streamType = NewStream a blen True streamType"

definition NewWriter :: "64 word \<Rightarrow> int \<Rightarrow> int \<Rightarrow> fcgx_stream" where
  "NewWriter a blen streamType = NewStream a blen False streamType"

definition FCGX_FreeStream :: "fcgx_stream option \<Rightarrow> fcgx_stream option" where
  "FCGX_FreeStream s = None"

definition SetReaderType :: "int \<Rightarrow> fcgx_stream \<Rightarrow> fcgx_stream cres" where
  "SetReaderType streamType s =
     (if \<not> isReader s then Abort
      else Ret (s\<lparr>stype := streamType, eorStop := False, skip := False, contentLen := 0, paddingLen := 0,
                 wrNext := rdNext s, stop := rdNext s, isClosed := False\<rparr>))"

text \<open>\<open>malloc\<close> does not clear the request of a free-standing writer; its other members are arbitrary.\<close>

definition FCGX_CreateWriter :: "fcgx_req \<Rightarrow> 64 word \<Rightarrow> int \<Rightarrow> int \<Rightarrow> int \<Rightarrow> int \<Rightarrow> fcgx_stream \<times> fcgx_req" where
  "FCGX_CreateWriter raw a fd rid blen streamType =
     (NewWriter a blen streamType, raw\<lparr>ipcFd := fd, requestId := rid, nWriters := 2\<rparr>)"

section \<open>Finishing a request\<close>

definition run_on :: "fcgx_stream \<Rightarrow> 'a cprog \<Rightarrow> fcgx_req \<times> kernel \<Rightarrow> ('a \<times> fcgx_stream \<times> fcgx_req \<times> kernel) cres" where
  "run_on s p = (\<lambda>(r, k).
     bindR (p \<lparr>strm = s, req = r, kern = k\<rparr>) (\<lambda>(x, st). Ret (x, strm st, req st, kern st)))"

text \<open>\<open>FCGX_FClose\<close> of a stream that may be absent: whether it failed.\<close>

definition close_stream :: "fcgx_stream option \<Rightarrow> fcgx_req \<times> kernel \<Rightarrow> (bool \<times> fcgx_req \<times> kernel) cres" where
  "close_stream os rk =
     (case os of
        None \<Rightarrow> Ret (False, rk)
      | Some s \<Rightarrow>
         (bindR (run_on s FCGX_FClose rk) (\<lambda>(x, _, rk'). Ret (x \<noteq> 0, rk'))))"

definition FCGX_Free :: "bool \<Rightarrow> fcgx_request \<Rightarrow> kernel \<Rightarrow> (fcgx_request \<times> kernel) cres" where
  "FCGX_Free close rq k =
     (let rq1 = rq\<lparr>in_stream := FCGX_FreeStream (in_stream rq), out_stream := FCGX_FreeStream (out_stream rq),
                   err_stream := FCGX_FreeStream (err_stream rq), paramsPtr := FreeParams (paramsPtr rq)\<rparr>
      in if close then
           (bindR (OS_IpcClose (ipcFd (core rq)) (\<not> detached (core rq)) k) (\<lambda>(_, k'). Ret (rq1\<lparr>core := (core rq)\<lparr>ipcFd := -1, detached := False\<rparr>\<rparr>, k')))
         else Ret (rq1, k))"

definition FCGX_Finish_r :: "fcgx_request \<Rightarrow> kernel \<Rightarrow> (fcgx_request \<times> kernel) cres" where
  "FCGX_Finish_r rq k =
     (case in_stream rq of
        None \<Rightarrow> FCGX_Free (\<not> keepConnection (core rq)) rq k
      | Some ins \<Rightarrow>
         (bindR (close_stream (err_stream rq) (core rq, k)) (\<lambda>(c1, rk1).
             (bindR (close_stream (out_stream rq) rk1) (\<lambda>(c2, r2, k2).
                  FCGX_Free (\<not> keepConnection (core rq) \<or> c1 \<or> c2 \<or> FCGX_GetError ins \<noteq> 0)
                    (rq\<lparr>core := r2\<rparr>) k2)))))"

section \<open>Accepting a request\<close>

definition role_entry :: "int \<Rightarrow> byte list option" where
  "role_entry r =
     (if r = FCGI_RESPONDER then Some (ascii ''FCGI_ROLE=RESPONDER'')
      else if r = FCGI_AUTHORIZER then Some (ascii ''FCGI_ROLE=AUTHORIZER'')
      else if r = FCGI_FILTER then Some (ascii ''FCGI_ROLE=FILTER'')
      else None)"

text \<open>
  One round of the loop on an open connection: \<open>Some\<close> the input stream, positioned after the
  parameters, and the parameters, or \<open>None\<close> where the code jumps to \<open>TryAgain\<close>.
\<close>

definition read_request ::
  "nat \<Rightarrow> fcgx_req \<times> kernel \<Rightarrow> ((fcgx_stream \<times> params) option \<times> fcgx_req \<times> kernel) cres" where
  "read_request n = (\<lambda>(r, k).
     bindR (run_on (NewReader (malloc_addr k) 8192 0) (FillBuffProc n) (r\<lparr>isBeginProcessed := False\<rparr>, k)) (\<lambda>(_, ins, r1, k1).
        (if \<not> isBeginProcessed r1 then Ret (None, r1, k1)
         else case role_entry (role r1) of
           None \<Rightarrow> Ret (None, r1, k1)
         | Some re \<Rightarrow>
            (bindR (NewParams 30) (\<lambda>p0.
                (bindR (PutParam p0 re) (\<lambda>p1.
                    (bindR (SetReaderType FCGI_PARAMS ins) (\<lambda>ins1.
                        (bindR (run_on ins1 (ReadParams n (FillBuffProc n) p1) (r1, k1)) (\<lambda>((rc, p2), ins2, r2, k2).
                             Ret (if 0 \<le> rc then Some (ins2, p2) else None, r2, k2))))))))))))"

text \<open>What follows the loop: the streams and the environment of the new request.\<close>

definition start_request :: "fcgx_stream \<Rightarrow> params \<Rightarrow> fcgx_req \<Rightarrow> kernel \<Rightarrow> fcgx_request \<Rightarrow> fcgx_request cres" where
  "start_request ins p r k rq =
     (bindR (SetReaderType FCGI_STDIN ins) (\<lambda>ins'.
          Ret (rq\<lparr>in_stream := Some ins',
                  out_stream := Some (NewWriter (malloc_addr k) 8192 FCGI_STDOUT),
                  err_stream := Some (NewWriter (malloc_addr k) 512 FCGI_STDERR),
                  core := r\<lparr>nWriters := 2\<rparr>, paramsPtr := Some p, envp := Some (pvec p)\<rparr>)))"

definition connect :: "(string \<Rightarrow> 32 word) \<Rightarrow> string option \<Rightarrow> fcgx_req \<Rightarrow> kernel \<Rightarrow> (fcgx_req \<times> kernel) cres" where
  "connect ia addrs r k =
     (if ipcFd r < 0 then
        (bindR (OS_Accept ia (flags r AND FCGI_FAIL_ACCEPT_ON_INTR \<noteq> 0) addrs k) (\<lambda>(fd, k'). Ret (r\<lparr>ipcFd := fd\<rparr>, k')))
      else Ret (r, k))"

text \<open>The loop over connections; the first argument bounds the rounds, the second the reads of one.\<close>

fun accept_r_loop ::
  "nat \<Rightarrow> nat \<Rightarrow> (string \<Rightarrow> 32 word) \<Rightarrow> string option \<Rightarrow> fcgx_request \<Rightarrow> kernel
     \<Rightarrow> (int \<times> fcgx_request \<times> kernel) cres" where
  "accept_r_loop 0 n ia addrs rq k = Hang"
| "accept_r_loop (Suc m) n ia addrs rq k =
     (bindR (connect ia addrs (core rq) k) (\<lambda>(r, k1).
          if ipcFd r < 0 then
            Ret (if 0 < errno k1 then - errno k1 else -9999, rq\<lparr>core := r\<rparr>, k1)
          else
           (bindR (read_request n (r, k1)) (\<lambda>(ox, r2, k2).
               (case ox of Some (ins, p) \<Rightarrow>
               (bindR (start_request ins p r2 k2 rq) (\<lambda>rq'. Ret (0, rq', k2)))
            | None \<Rightarrow>
               (bindR (FCGX_Free True (rq\<lparr>core := r2\<rparr>) k2) (\<lambda>(rq', k3). accept_r_loop m n ia addrs rq' k3)))))))"

definition FCGX_Accept_r ::
  "nat \<Rightarrow> nat \<Rightarrow> (string \<Rightarrow> 32 word) \<Rightarrow> bool \<Rightarrow> string option \<Rightarrow> fcgx_request \<Rightarrow> kernel
     \<Rightarrow> (int \<times> fcgx_request \<times> kernel) cres" where
  "FCGX_Accept_r m n ia initialized addrs rq k =
     (if \<not> initialized then Ret (-9998, rq, k)
      else bindR (FCGX_Finish_r rq k) (\<lambda>(rq', k'). accept_r_loop m n ia addrs rq' k'))"

section \<open>The library\<close>

definition FCGX_InitRequest :: "int \<Rightarrow> int \<Rightarrow> fcgx_request" where
  "FCGX_InitRequest sock flgs =
     \<lparr>core = \<lparr>requestId = 0, role = 0, ipcFd = -1, isBeginProcessed = False, keepConnection = False,
              appStatus = 0, nWriters = 0, flags = flgs, listen_sock = sock, detached = False\<rparr>,
      in_stream = None, out_stream = None, err_stream = None, paramsPtr = None, envp = None\<rparr>"

text \<open>\<open>OS_LibInit\<close> fails only when memory is short, which the model leaves out; \<open>addrs\<close> is the
  environment variable \<open>FCGI_WEB_SERVER_ADDRS\<close>.\<close>

definition FCGX_Init :: "string option \<Rightarrow> fcgx_lib \<Rightarrow> int \<times> fcgx_lib" where
  "FCGX_Init addrs l =
     (if libInitialized l then (0, l)
      else (0, l\<lparr>the_request := FCGX_InitRequest FCGI_LISTENSOCK_FILENO 0,
                 krn := (krn l)\<lparr>aio := OS_LibInit (aio (krn l))\<rparr>,
                 webServerAddressList := addrs, libInitialized := True\<rparr>))"

definition FCGX_Accept ::
  "nat \<Rightarrow> nat \<Rightarrow> (string \<Rightarrow> 32 word) \<Rightarrow> string option \<Rightarrow> fcgx_lib \<Rightarrow> (int \<times> fcgx_lib) cres" where
  "FCGX_Accept m n ia addrs l =
     (let l1 = snd (FCGX_Init addrs l) in
      bindR (FCGX_Accept_r m n ia (libInitialized l1) (webServerAddressList l1) (the_request l1) (krn l1)) (\<lambda>(rc, rq, k). Ret (rc, l1\<lparr>the_request := rq, krn := k\<rparr>)))"

definition FCGX_Finish :: "fcgx_lib \<Rightarrow> fcgx_lib cres" where
  "FCGX_Finish l =
     (bindR (FCGX_Finish_r (the_request l) (krn l)) (\<lambda>(rq, k). Ret (l\<lparr>the_request := rq, krn := k\<rparr>)))"

definition FCGX_ShutdownPending :: "fcgx_lib \<Rightarrow> fcgx_lib" where
  "FCGX_ShutdownPending l = l\<lparr>krn := OS_ShutdownPending (krn l)\<rparr>"

text \<open>\<open>getpeername\<close> on the listening socket gives a result and \<open>errno\<close>.\<close>

definition ENOTCONN :: int where "ENOTCONN = 107"

definition OS_IsFcgi :: "(int \<Rightarrow> int \<times> int) \<Rightarrow> int \<Rightarrow> bool" where
  "OS_IsFcgi getpeername sock = (case getpeername sock of (rc, e) \<Rightarrow> rc \<noteq> 0 \<and> e = ENOTCONN)"

definition FCGX_IsCGI :: "(int \<Rightarrow> int \<times> int) \<Rightarrow> string option \<Rightarrow> fcgx_lib \<Rightarrow> bool \<times> fcgx_lib" where
  "FCGX_IsCGI getpeername addrs l =
     (if isFastCGI l \<noteq> -1 then (isFastCGI l = 0, l)
      else
        let l1 = snd (FCGX_Init addrs l);
            f = (if OS_IsFcgi getpeername FCGI_LISTENSOCK_FILENO then 1 else 0)
        in (f = 0, l1\<lparr>isFastCGI := f\<rparr>))"

section \<open>Other operations on requests\<close>

definition FCGX_StartFilterData :: "int cprog" where
  "FCGX_StartFilterData =
     withS (\<lambda>s. withR (\<lambda>r.
       if role r \<noteq> FCGI_FILTER \<or> \<not> isReader s \<or> \<not> isClosed s \<or> stype s \<noteq> FCGI_STDIN then
         seqC (modS (SetError FCGX_CALL_SEQ_ERROR)) (retC (-1))
       else bindC (liftC (SetReaderType FCGI_DATA s)) (\<lambda>s'. seqC (modS (\<lambda>_. s')) (retC 0))))"

definition FCGX_SetExitStatus :: "int \<Rightarrow> unit cprog" where
  "FCGX_SetExitStatus status = modR (\<lambda>r. r\<lparr>appStatus := status\<rparr>)"

definition FCGX_Attach :: "fcgx_req \<Rightarrow> int \<times> fcgx_req" where
  "FCGX_Attach r = (0, r\<lparr>detached := False\<rparr>)"

definition FCGX_Detach :: "fcgx_req \<Rightarrow> int \<times> fcgx_req" where
  "FCGX_Detach r = (if ipcFd r \<le> 0 then (-1, r) else (0, r\<lparr>detached := True\<rparr>))"

end
