(* ===== verification/Fcgi_Writer_Correct.thy ===== *)
theory Fcgi_Writer_Correct
  imports Fcgi_Request
begin

text \<open>
  The writing side of the FastCGI streams against a specification on byte lists: what the application
  puts into a stream arrives on the connection as a sequence of well-formed records whose contents,
  joined, are what was put; closing adds the end-of-stream record and, for the last writer, the
  end-of-request record. The network takes writes in pieces of any size.
\<close>

section \<open>The network\<close>

fun takes :: "tx_event \<Rightarrow> bool" where
  "takes (Tx_take _) = True"
| "takes (Tx_error _) = False"

definition reliable :: "int \<Rightarrow> kernel \<Rightarrow> bool" where
  "reliable fd k \<longleftrightarrow> \<not> shutdownNow k \<and> (\<exists>c. conns k fd = Some c \<and> list_all takes (cplan c))"

definition sent_on :: "int \<Rightarrow> kernel \<Rightarrow> byte list" where
  "sent_on fd k = (case conns k fd of None \<Rightarrow> [] | Some c \<Rightarrow> csent c)"

lemma OS_Write_reliable:
  assumes "reliable fd k"
  shows "\<exists>k' n. OS_Write fd bs k = (int (length (take n bs)), k') \<and> reliable fd k' \<and>
    sent_on fd k' = sent_on fd k @ take n bs"
proof -
  from assms obtain c where c: "conns k fd = Some c" "list_all takes (cplan c)" "\<not> shutdownNow k"
    by (auto simp: reliable_def)
  show ?thesis
  proof (cases "cplan c")
    case Nil
    with c show ?thesis
      by (intro exI [of _ "set_conn fd (c\<lparr>csent := csent c @ bs\<rparr>) k"] exI [of _ "length bs"])
        (simp add: OS_Write_def sys_write_def reliable_def sent_on_def)
  next
    case (Cons e p)
    with c obtain j where "e = Tx_take j" by (cases e) auto
    with c Cons show ?thesis
      by (intro exI [of _ "set_conn fd (c\<lparr>cplan := p, csent := csent c @ take j bs\<rparr>) k"] exI [of _ j])
        (simp add: OS_Write_def sys_write_def reliable_def sent_on_def)
  qed
qed

lemma write_it_all_reliable:
  assumes "reliable fd k"
  shows "\<exists>k'. write_it_all fd bs k = (0, k') \<and> reliable fd k' \<and> sent_on fd k' = sent_on fd k @ bs"
  using assms
proof (induction fd bs k rule: write_it_all.induct)
  case (1 fd bs k)
  show ?case
  proof (cases "bs = []")
    case True
    with 1(2) show ?thesis by (simp add: write_it_all.simps)
  next
    case False
    from OS_Write_reliable [OF 1(2), of bs] obtain k' n where
      w: "OS_Write fd bs k = (int (length (take n bs)), k')" "reliable fd k'"
        "sent_on fd k' = sent_on fd k @ take n bs" by blast
    from 1(1) [OF False w(1) [symmetric]] w(2)
    obtain k'' where "write_it_all fd (drop (length (take n bs)) bs) k' = (0, k'')" "reliable fd k''"
      "sent_on fd k'' = sent_on fd k' @ drop (length (take n bs)) bs"
      by auto
    moreover have "take n bs @ drop (length (take n bs)) bs = bs"
      by (cases "n \<le> length bs") simp_all
    ultimately show ?thesis
      using False w by (subst write_it_all.simps) (simp add: append.assoc)
  qed
qed

lemma send_reliable:
  assumes "reliable (ipcFd (req st)) (kern st)"
  shows "\<exists>k. send bs st = Ret (True, st\<lparr>kern := k\<rparr>) \<and> reliable (ipcFd (req st)) k \<and>
    sent_on (ipcFd (req st)) k = sent_on (ipcFd (req st)) (kern st) @ bs"
  using write_it_all_reliable [OF assms, of bs] by (auto simp: send_def)

text \<open>On any connection, what was sent is a prefix, and all of it when no error is reported.\<close>

lemma OS_Write_prefix:
  assumes "OS_Write fd bs k = (n, k')"
  shows "n < 0 \<and> sent_on fd k' = sent_on fd k \<or> (\<exists>j. n = int (length (take j bs)) \<and> sent_on fd k' = sent_on fd k @ take j bs)"
proof (cases "\<exists>c. \<not> shutdownNow k \<and> conns k fd = Some c \<and> (cplan c = [] \<or> (\<exists>j p. cplan c = Tx_take j # p))")
  case True
  then obtain c where c: "\<not> shutdownNow k" "conns k fd = Some c" "cplan c = [] \<or> (\<exists>j p. cplan c = Tx_take j # p)" by blast
  define j where "j = (case cplan c of Tx_take j # p \<Rightarrow> j | _ \<Rightarrow> length bs)"
  have "n = int (length (take j bs)) \<and> sent_on fd k' = sent_on fd k @ take j bs"
    using c assms by (auto simp: OS_Write_def sys_write_def sent_on_def j_def)
  then show ?thesis by blast
next
  case False
  with assms show ?thesis
    by (auto simp: OS_Write_def sys_write_def sent_on_def split: if_splits option.splits list.splits tx_event.splits)
qed

lemma write_it_all_prefix:
  assumes "write_it_all fd bs k = (n, k')"
  shows "\<exists>sent rest. bs = sent @ rest \<and> sent_on fd k' = sent_on fd k @ sent \<and> (n = 0 \<and> rest = [] \<or> n < 0 \<and> rest \<noteq> [])"
  using assms
proof (induction fd bs k rule: write_it_all.induct)
  case (1 fd bs k)
  show ?case
  proof (cases "bs = []")
    case True
    with 1(2) show ?thesis by (simp add: write_it_all.simps)
  next
    case False
    obtain w k1 where w: "OS_Write fd bs k = (w, k1)" by (cases "OS_Write fd bs k")
    show ?thesis
    proof (cases "w < 0")
      case True
      with 1(2) w False have "n = w" "k' = k1" by (subst (asm) write_it_all.simps; simp)+
      with True OS_Write_prefix [OF w] False show ?thesis by auto
    next
      case F: False
      with OS_Write_prefix [OF w] obtain j where
        j: "w = int (length (take j bs))" "sent_on fd k1 = sent_on fd k @ take j bs" by auto
      have "write_it_all fd (drop (nat w) bs) k1 = (n, k')"
        using 1(2) w False F by (subst (asm) write_it_all.simps) simp
      from 1(1) [OF False w [symmetric] F this] obtain s r where
        "drop (nat w) bs = s @ r" "sent_on fd k' = sent_on fd k1 @ s" "n = 0 \<and> r = [] \<or> n < 0 \<and> r \<noteq> []" by blast
      moreover have "bs = take j bs @ drop (nat w) bs" using j(1) by (cases "j \<le> length bs") simp_all
      ultimately show ?thesis using j(2) by (intro exI [of _ "take j bs @ s"] exI [of _ r]) simp
    qed
  qed
qed

section \<open>Records\<close>

definition padding :: "nat \<Rightarrow> nat" where
  "padding n = (if n mod 8 = 0 then 0 else 8 - n mod 8)"

definition frame_header :: "int \<Rightarrow> int \<Rightarrow> nat \<Rightarrow> nat \<Rightarrow> byte list" where
  "frame_header T rid len pad =
     [1, word_of_int T, word_of_int (rid div 256), word_of_int rid,
      of_nat (len div 256), of_nat len, of_nat pad, 0]"

definition frame :: "int \<Rightarrow> int \<Rightarrow> byte list \<Rightarrow> byte list" where
  "frame T rid c = frame_header T rid (length c) (padding (length c)) @ c @ replicate (padding (length c)) 0"

definition end_frame :: "int \<Rightarrow> int \<Rightarrow> int \<Rightarrow> byte list" where
  "end_frame rid status proto =
     frame_header FCGI_END_REQUEST rid 8 0 @
     [word_of_int (status div 2 ^ 24), word_of_int (status div 2 ^ 16), word_of_int (status div 2 ^ 8),
      word_of_int status, word_of_int proto, 0, 0, 0]"

lemma padding_less: "padding n < 8"
  unfolding padding_def by (cases "n mod 8") auto

lemma padding_0 [simp]: "padding 0 = 0"
  by (simp add: padding_def)

lemma padding_eq: "n + padding n = (n + 7) div 8 * 8"
proof -
  define q r where "q = n div 8" and "r = n mod 8"
  then have n: "n = 8 * q + r" and r: "r < 8" by simp_all
  show ?thesis
  proof (cases "r = 0")
    case True
    with n show ?thesis by (simp add: padding_def)
  next
    case False
    with r have "(8 * q + r + 7) div 8 = q + 1" by simp
    with n r False show ?thesis by (simp add: padding_def)
  qed
qed

lemma padding_mod: "(n + padding n) mod 8 = 0"
  unfolding padding_eq by simp

lemma AlignInt8_padding:
  assumes "n \<le> 65536"
  shows "AlignInt8 (int n) = int n + int (padding n)"
proof -
  have "AlignInt8 (int n) = (int n + 7) div 8 * 8"
    using assms by (intro AlignInt8_eq) simp_all
  also have "\<dots> = int ((n + 7) div 8 * 8)" by (simp add: zdiv_int)
  finally show ?thesis by (simp only: of_nat_add flip: padding_eq)
qed

lemma shifted_word: "shifted x k = word_of_int (x div 2 ^ k)"
  by (rule bit_word_eqI) (simp add: shifted_def and_255 bit_simps flip: drop_bit_eq_div)

lemma length_frame_header [simp]: "length (frame_header T rid len pad) = 8"
  by (simp add: frame_header_def)

lemma MakeHeader_frame:
  assumes "len < 65536" and "pad < 256"
  obtains h where "MakeHeader T rid (int len) (int pad) = Ret h" "header_bytes h = frame_header T rid len pad"
proof -
  have "int len div 256 = int (len div 256)" by (simp add: zdiv_int)
  then have "shifted (int len) 8 = (of_nat (len div 256) :: byte)" "shifted (int len) 0 = (of_nat len :: byte)"
    by (simp_all add: shifted_word)
  with assms have "\<exists>h. MakeHeader T rid (int len) (int pad) = Ret h \<and> header_bytes h = frame_header T rid len pad"
    by (simp add: MakeHeader_def FCGI_MAX_LENGTH_def header_bytes_def frame_header_def shifted_word [of rid]
      FCGI_VERSION_1_def)
  with that show thesis by blast
qed

lemma end_request_record_eq: "end_request_record rid status proto = Ret (end_frame rid status proto)"
  by (rule MakeHeader_frame [of 8 0 FCGI_END_REQUEST rid]) (simp_all add: end_request_record_def end_frame_def MakeEndRequestBody_def shifted_word)

section \<open>The state of a writer\<close>

definition slice :: "nat \<Rightarrow> nat \<Rightarrow> 'a list \<Rightarrow> 'a list" where
  "slice a b xs = take (b - a) (drop a xs)"

text \<open>
  What every operation on an open writer keeps: the buffer's size is a multiple of 8 and fits a record,
  the room for a header is reserved, the pointers lie in the buffer.
\<close>

definition wf_writer :: "fcgx_stream \<Rightarrow> bool" where
  "wf_writer s \<longleftrightarrow> \<not> isReader s \<and> \<not> isClosed s \<and> bufflen s \<le> length (buff s) \<and> 8 dvd bufflen s \<and>
     16 \<le> bufflen s \<and> bufflen s \<le> 65536 \<and> stop s = bufflen s \<and> wrNext s \<le> bufflen s \<and>
     (rawWrite s \<or> 8 \<le> wrNext s)"

abbreviation fd_of :: "sio \<Rightarrow> int" where
  "fd_of st \<equiv> ipcFd (req st)"

definition writer :: "sio \<Rightarrow> bool" where
  "writer st \<longleftrightarrow> wf_writer (strm st) \<and> reliable (fd_of st) (kern st)"

definition sent :: "sio \<Rightarrow> byte list" where
  "sent st = sent_on (fd_of st) (kern st)"

definition pend :: "fcgx_stream \<Rightarrow> byte list" where
  "pend s = slice (if rawWrite s then 0 else 8) (wrNext s) (buff s)"

text \<open>What a writing operation does not change.\<close>

definition same_writer :: "sio \<Rightarrow> sio \<Rightarrow> bool" where
  "same_writer st st' \<longleftrightarrow> req st' = req st \<and> stype (strm st') = stype (strm st) \<and>
     rawWrite (strm st') = rawWrite (strm st) \<and> wasFCloseCalled (strm st') = wasFCloseCalled (strm st) \<and>
     FCGI_errno (strm st') = FCGI_errno (strm st)"

text \<open>A buffer load on the wire: a record, or the bytes themselves in raw mode.\<close>

definition load :: "sio \<Rightarrow> byte list \<Rightarrow> byte list" where
  "load st c = (if rawWrite (strm st) then c else frame (stype (strm st)) (requestId (req st)) c)"

definition chunk :: "sio \<Rightarrow> byte list \<Rightarrow> bool" where
  "chunk st c \<longleftrightarrow> c \<noteq> [] \<and> (rawWrite (strm st) \<or> length c \<le> 65528)"

lemma slice_append:
  assumes "a \<le> b" and "b \<le> c"
  shows "slice a b xs @ slice b c xs = slice a c xs"
proof -
  have "take (c - a) (drop a xs) = take ((b - a) + (c - b)) (drop a xs)" using assms by simp
  also have "\<dots> = take (b - a) (drop a xs) @ take (c - b) (drop (b - a) (drop a xs))"
    by (rule take_add)
  finally show ?thesis using assms by (simp add: slice_def)
qed

lemma length_slice: "b \<le> length xs \<Longrightarrow> length (slice a b xs) = b - a"
  by (simp add: slice_def)

lemma slice_empty [simp]: "slice a a xs = []" "slice 0 0 xs = []"
  by (simp_all add: slice_def)

lemma same_writer_refl [simp]: "same_writer st st"
  by (simp add: same_writer_def)

lemma same_writer_trans: "same_writer a b \<Longrightarrow> same_writer b c \<Longrightarrow> same_writer a c"
  by (simp add: same_writer_def)

lemma same_writer_load: "same_writer st st' \<Longrightarrow> load st' = load st \<and> chunk st' = chunk st"
  by (simp add: same_writer_def load_def chunk_def fun_eq_iff)


text \<open>What \<open>seal_record\<close> makes of the content of the buffer.\<close>

definition sealed :: "sio \<Rightarrow> byte list" where
  "sealed st = (if pend (strm st) = [] then [] else load st (pend (strm st)))"

lemma padded_fits:
  assumes "8 dvd (L :: nat)" and "8 \<le> n" and "n \<le> L"
  shows "n + padding (n - 8) \<le> L"
proof -
  define m where "m = (n - 8 + padding (n - 8)) div 8"
  have m: "n - 8 + padding (n - 8) = 8 * m"
    using padding_mod [of "n - 8"] unfolding m_def by auto
  obtain q where q: "L = 8 * q" using assms(1) by auto
  have "n - 8 + padding (n - 8) < n" using padding_less [of "n - 8"] assms(2) by linarith
  then have "8 * m < 8 * q" using m q assms by linarith
  then have "Suc m \<le> q" by simp
  then show ?thesis using m q assms by linarith
qed

lemma seal_record_framed:
  assumes w: "wf_writer (strm st)" and raw: "\<not> rawWrite (strm st)"
  shows "\<exists>b. seal_record st = Ret ((), st\<lparr>strm := (strm st)\<lparr>buff := b, wrNext := length (sealed st)\<rparr>\<rparr>) \<and>
    length b = length (buff (strm st)) \<and> length (sealed st) \<le> bufflen (strm st) \<and>
    slice 0 (length (sealed st)) b = sealed st"
proof (cases "wrNext (strm st) = 8")
  case True
  then have "pend (strm st) = []" using raw by (simp add: pend_def)
  with True raw w show ?thesis
    by (intro exI [of _ "buff (strm st)"]) (simp add: seal_record_def cprog_defs sealed_def)
next
  case False
  define s n p c where "s = strm st" and "n = wrNext s" and "p = padding (n - 8)" and "c = pend s"
  note d = this
  have n: "8 < n" "n \<le> bufflen s" "bufflen s \<le> length (buff s)" "bufflen s \<le> 65536"
    using w raw False by (auto simp: wf_writer_def d)
  have fits: "n + p \<le> bufflen s"
    using padded_fits [of "bufflen s" n] w n by (simp add: wf_writer_def d)
  have c: "c = slice 8 n (buff s)" "length c = n - 8"
    using raw n by (simp_all add: d pend_def length_slice)
  then have ne: "c \<noteq> []" using n by auto
  obtain h where h: "MakeHeader (stype s) (requestId (req st)) (int (n - 8)) (int p) = Ret h"
    "header_bytes h = frame_header (stype s) (requestId (req st)) (n - 8) p"
  proof (rule MakeHeader_frame [of "n - 8" p "stype s" "requestId (req st)"])
    show "n - 8 < 65536" using n by linarith
    show "p < 256" using padding_less [of "n - 8"] by (simp add: d(3))
  qed
  have e: "AlignInt8 (int n - 8) = int n - 8 + int p"
    using AlignInt8_padding [of "n - 8"] n by (simp add: d(3) of_nat_diff)
  define b where "b = header_bytes h @ c @ replicate p 0 @ drop (n + p) (buff s)"
  have "take 8 (buff s) @ c = take n (buff s)"
    using slice_append [of 0 8 n "buff s"] n by (simp add: c slice_def)
  then have b: "header_bytes h @ drop 8 (take n (buff s) @ replicate p 0 @ drop (n + p) (buff s)) = b"
    using n by (simp add: b_def c slice_def drop_take)
  have seal: "seal_record st = Ret ((), st\<lparr>strm := s\<lparr>buff := b, wrNext := n + p\<rparr>\<rparr>)"
    using raw n fits h(1) b
    by (simp add: seal_record_def cprog_defs e store_bytes_def Let_def d(1,2) [symmetric] of_nat_diff)
  have f: "sealed st = header_bytes h @ c @ replicate p 0"
    using ne raw c(2) h(2) by (simp add: sealed_def load_def frame_def d(1,4) [symmetric] d(3))
  have "length (sealed st) = n + p" using f c n by simp
  moreover have "length b = length (buff s)" using c n fits by (simp add: b_def)
  ultimately show ?thesis
    using seal f fits c n by (intro exI [of _ b]) (simp add: b_def slice_def d(1) [symmetric])
qed

section \<open>Writing operations\<close>

lemma flush_buffer_reliable:
  assumes "reliable (fd_of st) (kern st)" and "wrNext (strm st) \<le> length (buff (strm st))"
  shows "\<exists>k. flush_buffer st = Ret ((), st\<lparr>kern := k, strm := (strm st)\<lparr>
        isAnythingWritten := (isAnythingWritten (strm st) \<or> wrNext (strm st) \<noteq> 0),
        wrNext := (if rawWrite (strm st) then 0 else 8)\<rparr>\<rparr>) \<and>
    reliable (fd_of st) k \<and> sent_on (fd_of st) k = sent st @ slice 0 (wrNext (strm st)) (buff (strm st))"
proof (cases "wrNext (strm st) = 0")
  case True
  with assms show ?thesis
    by (intro exI [of _ "kern st"]) (simp add: flush_buffer_def cprog_defs sent_def)
next
  case False
  define st1 where "st1 = st\<lparr>strm := (strm st)\<lparr>isAnythingWritten := True\<rparr>\<rparr>"
  obtain k where k: "send (take (wrNext (strm st)) (buff (strm st))) st1 = Ret (True, st1\<lparr>kern := k\<rparr>)"
    "reliable (fd_of st) k" "sent_on (fd_of st) k = sent st @ take (wrNext (strm st)) (buff (strm st))"
    using send_reliable [of st1 "take (wrNext (strm st)) (buff (strm st))"] assms(1)
    by (auto simp: st1_def sent_def)
  with False assms(2) show ?thesis
    by (intro exI [of _ k])
      (simp add: flush_buffer_def cprog_defs fetch_bytes_def Let_def slice_def st1_def)
qed

lemma empty_buffer_spec:
  assumes "writer st"
  shows "\<exists>st'. empty_buffer st = Ret ((), st') \<and> writer st' \<and> same_writer st st' \<and> pend (strm st') = [] \<and>
    wrNext (strm st') < stop (strm st') \<and> sent st' = sent st @ sealed st \<and>
    (isAnythingWritten (strm st') \<longleftrightarrow> isAnythingWritten (strm st) \<or> sealed st \<noteq> [])"
proof -
  from assms have w: "wf_writer (strm st)" and r: "reliable (fd_of st) (kern st)"
    by (simp_all add: writer_def)
  obtain b where b: "seal_record st = Ret ((), st\<lparr>strm := (strm st)\<lparr>buff := b, wrNext := length (sealed st)\<rparr>\<rparr>)"
    "length b = length (buff (strm st))" "length (sealed st) \<le> bufflen (strm st)"
    "slice 0 (length (sealed st)) b = sealed st"
  proof (cases "rawWrite (strm st)")
    case False
    with seal_record_framed [OF w False] that show thesis by blast
  next
    case True
    then have l: "sealed st = slice 0 (wrNext (strm st)) (buff (strm st))"
      by (auto simp: sealed_def load_def pend_def)
    then have "length (sealed st) = wrNext (strm st)" "wrNext (strm st) \<le> bufflen (strm st)"
      using w by (simp_all add: wf_writer_def length_slice)
    with l True that [of "buff (strm st)"] show thesis by (simp add: seal_record_def cprog_defs)
  qed
  define st1 where "st1 = st\<lparr>strm := (strm st)\<lparr>buff := b, wrNext := length (sealed st)\<rparr>\<rparr>"
  have "wrNext (strm st1) \<le> length (buff (strm st1))"
    using b w by (simp add: st1_def wf_writer_def)
  with flush_buffer_reliable [of st1] r b(4) obtain k where k:
    "flush_buffer st1 = Ret ((), st1\<lparr>kern := k, strm := (strm st1)\<lparr>
        isAnythingWritten := (isAnythingWritten (strm st) \<or> sealed st \<noteq> []),
        wrNext := (if rawWrite (strm st) then 0 else 8)\<rparr>\<rparr>)"
    "reliable (fd_of st) k" "sent_on (fd_of st) k = sent st @ sealed st"
    by (auto simp: st1_def sent_def)
  have "empty_buffer st = flush_buffer st1"
    using b(1) by (simp add: empty_buffer_def cprog_defs st1_def)
  with k show ?thesis
    using w b(2) by (auto simp: st1_def writer_def wf_writer_def same_writer_def pend_def sent_def)
qed

text \<open>Bytes stored behind the content of the buffer.\<close>

definition append_bytes :: "byte list \<Rightarrow> sio \<Rightarrow> sio" where
  "append_bytes bs st = st\<lparr>strm := (strm st)\<lparr>
     buff := take (wrNext (strm st)) (buff (strm st)) @ bs @ drop (wrNext (strm st) + length bs) (buff (strm st)),
     wrNext := wrNext (strm st) + length bs\<rparr>\<rparr>"

lemma append_bytes_spec:
  assumes "writer st" and "wrNext (strm st) + length bs \<le> stop (strm st)"
  shows "seqC (store_bytes (wrNext (strm st)) bs)
      (seqC (modS (\<lambda>s. s\<lparr>wrNext := wrNext s + length bs\<rparr>)) p) st = p (append_bytes bs st)"
    and "writer (append_bytes bs st)" and "same_writer st (append_bytes bs st)"
    and "pend (strm (append_bytes bs st)) = pend (strm st) @ bs"
    and "sent (append_bytes bs st) = sent st"
    and "isAnythingWritten (strm (append_bytes bs st)) = isAnythingWritten (strm st)"
    and "stop (strm (append_bytes bs st)) = stop (strm st)"
    and "wrNext (strm (append_bytes bs st)) = wrNext (strm st) + length bs"
proof -
  from assms have l: "wrNext (strm st) + length bs \<le> length (buff (strm st))"
    by (simp add: writer_def wf_writer_def)
  then show "seqC (store_bytes (wrNext (strm st)) bs)
      (seqC (modS (\<lambda>s. s\<lparr>wrNext := wrNext s + length bs\<rparr>)) p) st = p (append_bytes bs st)"
    by (simp add: cprog_defs store_bytes_def Let_def append_bytes_def)
  show "writer (append_bytes bs st)" "same_writer st (append_bytes bs st)"
    "sent (append_bytes bs st) = sent st"
    "isAnythingWritten (strm (append_bytes bs st)) = isAnythingWritten (strm st)"
    "stop (strm (append_bytes bs st)) = stop (strm st)"
    "wrNext (strm (append_bytes bs st)) = wrNext (strm st) + length bs"
    using assms l by (auto simp: append_bytes_def writer_def wf_writer_def same_writer_def sent_def)
  show "pend (strm (append_bytes bs st)) = pend (strm st) @ bs"
    using assms l by (auto simp: append_bytes_def pend_def slice_def writer_def wf_writer_def drop_take)
qed

text \<open>
  What a writing operation does: whole buffer loads go out, the rest stays in the buffer, nothing is
  lost or reordered.
\<close>

definition wrote :: "sio \<Rightarrow> byte list \<Rightarrow> sio \<Rightarrow> bool" where
  "wrote st str st' \<longleftrightarrow> writer st' \<and> same_writer st st' \<and>
     (\<exists>cs. list_all (chunk st) cs \<and> pend (strm st) @ str = concat cs @ pend (strm st') \<and>
       sent st' = sent st @ concat (map (load st) cs) \<and>
       (isAnythingWritten (strm st') \<longleftrightarrow> isAnythingWritten (strm st) \<or> cs \<noteq> []))"

lemma wrote_append:
  assumes "writer st" and "wrNext (strm st) + length bs \<le> stop (strm st)"
  shows "wrote st bs (append_bytes bs st)"
  unfolding wrote_def using append_bytes_spec [OF assms] by (auto intro!: exI [of _ "[]"])

lemma wrote_trans:
  assumes "wrote a x b" and "wrote b y c"
  shows "wrote a (x @ y) c"
proof -
  from assms(1) obtain cs where 1: "writer b" "same_writer a b" "list_all (chunk a) cs"
    "pend (strm a) @ x = concat cs @ pend (strm b)" "sent b = sent a @ concat (map (load a) cs)"
    "isAnythingWritten (strm b) \<longleftrightarrow> isAnythingWritten (strm a) \<or> cs \<noteq> []" by (auto simp: wrote_def)
  from assms(2) obtain ds where 2: "writer c" "same_writer b c" "list_all (chunk b) ds"
    "pend (strm b) @ y = concat ds @ pend (strm c)" "sent c = sent b @ concat (map (load b) ds)"
    "isAnythingWritten (strm c) \<longleftrightarrow> isAnythingWritten (strm b) \<or> ds \<noteq> []" by (auto simp: wrote_def)
  have "pend (strm a) @ x @ y = concat (cs @ ds) @ pend (strm c)"
    using 1(4) 2(4) by (metis append.assoc concat_append)
  moreover have "sent c = sent a @ concat (map (load a) (cs @ ds))"
    using 1(5) 2(5) same_writer_load [OF 1(2)] by simp
  ultimately show ?thesis
    unfolding wrote_def using 1 2 same_writer_trans [OF 1(2) 2(2)] same_writer_load [OF 1(2)]
    by (auto intro!: exI [of _ "cs @ ds"])
qed

lemma pend_bound: "writer st \<Longrightarrow> rawWrite (strm st) \<or> length (pend (strm st)) \<le> 65528"
  by (auto simp: writer_def wf_writer_def pend_def slice_def)

lemma wrote_empty_buffer:
  assumes "writer st"
  shows "\<exists>st'. empty_buffer st = Ret ((), st') \<and> wrote st [] st' \<and> wrNext (strm st') < stop (strm st')"
proof -
  from empty_buffer_spec [OF assms] obtain st' where e: "empty_buffer st = Ret ((), st')" "writer st'"
    "same_writer st st'" "pend (strm st') = []" "wrNext (strm st') < stop (strm st')"
    "sent st' = sent st @ sealed st"
    "isAnythingWritten (strm st') \<longleftrightarrow> isAnythingWritten (strm st) \<or> sealed st \<noteq> []" by blast
  have "rawWrite (strm st) \<or> length (pend (strm st)) \<le> 65528" using assms by (rule pend_bound)
  then have "wrote st [] st'"
    unfolding wrote_def using e
    by (auto simp: sealed_def chunk_def load_def frame_def frame_header_def
        intro!: exI [of _ "if pend (strm st) = [] then [] else [pend (strm st)]"])
  with e show ?thesis by blast
qed

lemma put_loop_writes:
  assumes "writer st" and "length str + (if wrNext (strm st) = stop (strm st) then 2 else 1) \<le> k"
  shows "\<exists>st'. put_loop k str moved st = Ret (moved + int (length str), st') \<and> wrote st str st'"
  using assms
proof (induction k arbitrary: str moved st)
  case 0
  then show ?case by (simp split: if_splits)
next
  case (Suc k)
  define s where "s = strm st"
  define m where "m = (if wrNext s \<noteq> stop s then min (length str) (stop s - wrNext s) else 0)"
  have w: "wrNext s \<le> stop s" "\<not> isClosed s" "\<not> isReader s"
    using Suc.prems(1) by (simp_all add: s_def writer_def wf_writer_def)
  have fit: "wrNext (strm st) + length (take m str) \<le> stop (strm st)" and m: "length (take m str) = m"
    using w by (auto simp: m_def s_def)
  define st1 where "st1 = append_bytes (take m str) st"
  note ab = append_bytes_spec [OF Suc.prems(1) fit, folded st1_def]
  define X where "X = (if wrNext s \<noteq> stop s \<and> drop m str = [] then retC (moved + int m)
       else if isClosed s \<or> isReader s then retC (-1)
       else seqC empty_buffer (put_loop k (drop m str) (moved + int m)))"
  have "put_loop (Suc k) str moved st =
      seqC (store_bytes (wrNext (strm st)) (take m str)) (seqC (modS (\<lambda>s. s\<lparr>wrNext := wrNext s + m\<rparr>)) X) st"
    by (simp only: put_loop.simps withS_def Let_def X_def m_def s_def)
  also have "\<dots> = X st1" by (rule ab(1) [unfolded m])
  finally have step: "put_loop (Suc k) str moved st = X st1" .
  show ?case
  proof (cases "wrNext s \<noteq> stop s \<and> drop m str = []")
    case True
    then have "take m str = str" by simp
    with True step m wrote_append [OF Suc.prems(1) fit] show ?thesis
      by (auto simp: retC_def st1_def X_def)
  next
    case False
    from wrote_empty_buffer [OF ab(2)] obtain st2 where e: "empty_buffer st1 = Ret ((), st2)"
      "wrote st1 [] st2" "wrNext (strm st2) < stop (strm st2)" by blast
    have "length (drop m str) + 1 \<le> k"
      using Suc.prems(2) False w by (auto simp: m_def s_def [symmetric] split: if_splits)
    with e(2,3) Suc.IH [of st2 "drop m str" "moved + int m"]
    obtain st3 where p: "put_loop k (drop m str) (moved + int m) st2 = Ret (moved + int m + int (length (drop m str)), st3)"
      "wrote st2 (drop m str) st3" by (auto simp: wrote_def)
    have "int m + int (length (drop m str)) = int (length str)"
      using m by (simp add: of_nat_diff)
    moreover have "wrote st str st3"
      using wrote_trans [OF wrote_append [OF Suc.prems(1) fit] wrote_trans [OF e(2) [unfolded st1_def] p(2)]]
      by simp
    ultimately show ?thesis
      using step False w e(1) p(1) by (auto simp: seqC_def bindC_def X_def)
  qed
qed

lemma FCGX_PutStr_writes:
  assumes "writer st"
  shows "\<exists>st'. FCGX_PutStr str st = Ret (int (length str), st') \<and> wrote st str st'"
proof (cases "int (length str) \<le> int (stop (strm st)) - int (wrNext (strm st))")
  case True
  then have "wrNext (strm st) + length str \<le> stop (strm st)" by linarith
  with True show ?thesis
    by (simp add: FCGX_PutStr_def withS_def [where ?s = st] append_bytes_spec(1) [OF assms] retC_def
        wrote_append [OF assms])
next
  case False
  with put_loop_writes [OF assms, of str "length str + 2" 0] show ?thesis
    by (simp add: FCGX_PutStr_def withS_def [where ?s = st])
qed

lemma FCGX_PutChar_writes:
  assumes "writer st"
  shows "\<exists>st'. FCGX_PutChar c st = Ret (uint (word_of_int c :: byte), st') \<and> wrote st [word_of_int c] st'"
proof -
  have put: "withS (\<lambda>s. seqC (store_bytes (wrNext s) [word_of_int c])
        (seqC (modS (\<lambda>s. s\<lparr>wrNext := wrNext s + 1\<rparr>)) (retC (uint (word_of_int c :: byte))))) t =
      Ret (uint (word_of_int c :: byte), append_bytes [word_of_int c] t)"
    if "writer t" "wrNext (strm t) < stop (strm t)" for t
    using that(2) by (simp add: withS_def [where ?s = t] append_bytes_spec(1) [OF that(1), of "[word_of_int c]", simplified] retC_def)
  show ?thesis
  proof (cases "wrNext (strm st) = stop (strm st)")
    case False
    then have "wrNext (strm st) < stop (strm st)"
      using assms by (simp add: writer_def wf_writer_def)
    with False put [OF assms] wrote_append [OF assms] show ?thesis
      by (simp add: FCGX_PutChar_def withS_def [where ?s = st] Let_def)
  next
    case True
    from wrote_empty_buffer [OF assms] obtain st1 where e: "empty_buffer st = Ret ((), st1)"
      "wrote st [] st1" "wrNext (strm st1) < stop (strm st1)" by blast
    then have w1: "writer st1" by (simp add: wrote_def)
    have "wrote st [word_of_int c] (append_bytes [word_of_int c] st1)"
      using wrote_trans [OF e(2) wrote_append [OF w1, of "[word_of_int c]"]] e(3) by simp
    then show ?thesis
      using True assms e put [OF w1 e(3)]
      by (simp add: FCGX_PutChar_def withS_def [where ?s = st] withS_def [where ?s = st1] Let_def seqC_def
          bindC_def writer_def wf_writer_def)
  qed
qed

section \<open>Closing\<close>

definition eof_bytes :: "sio \<Rightarrow> byte list" where
  "eof_bytes st =
     (if stype (strm st) = FCGI_STDERR \<and> pend (strm st) = [] \<and> \<not> isAnythingWritten (strm st) then []
      else frame (stype (strm st)) (requestId (req st)) [])"

definition end_bytes :: "fcgx_req \<Rightarrow> byte list" where
  "end_bytes r =
     (if nWriters r = 1 then end_frame (requestId r) (appStatus r) FCGI_REQUEST_COMPLETE else [])"

lemma wrote_raw:
  assumes "wrote st str st'" and "rawWrite (strm st)"
  shows "sent st' @ pend (strm st') = sent st @ pend (strm st) @ str"
proof -
  from assms obtain cs where cs: "pend (strm st) @ str = concat cs @ pend (strm st')"
    "sent st' = sent st @ concat (map (load st) cs)" by (auto simp: wrote_def)
  moreover have "map (load st) cs = cs" using assms(2) by (simp add: load_def map_idI)
  ultimately show ?thesis by simp
qed

lemma put_part:
  assumes "writer st" and "rawWrite (strm st)" and "c \<Longrightarrow> m st = Ret (bs, st)"
  shows "\<exists>st'. (if c then bindC m (\<lambda>x. seqC (FCGX_PutStr x) (retC ())) else retC ()) st = Ret ((), st') \<and>
    writer st' \<and> same_writer st st' \<and> sent st' @ pend (strm st') = sent st @ pend (strm st) @ (if c then bs else [])"
proof (cases c)
  case True
  from FCGX_PutStr_writes [OF assms(1), of bs] obtain st' where
    "FCGX_PutStr bs st = Ret (int (length bs), st')" "wrote st bs st'" by blast
  with True assms wrote_raw show ?thesis by (auto simp: seqC_def bindC_def retC_def wrote_def)
qed (use assms in \<open>simp add: retC_def\<close>)

lemma frame_empty: "frame T rid [] = frame_header T rid 0 0"
  by (simp add: frame_def)

lemma WriteCloseRecords_spec:
  assumes "writer st" and raw: "st = st0\<lparr>strm := (strm st0)\<lparr>rawWrite := True\<rparr>\<rparr>"
  defines "eof \<equiv> if \<not> (stype (strm st) = FCGI_STDERR \<and> wrNext (strm st) = 0 \<and> \<not> isAnythingWritten (strm st))
      then frame (stype (strm st)) (requestId (req st)) [] else []"
  shows "\<exists>st'. WriteCloseRecords st0 = Ret ((), st'\<lparr>req := (req st)\<lparr>nWriters := nWriters (req st) - 1\<rparr>\<rparr>) \<and>
    writer st' \<and> same_writer st st' \<and>
    sent st' @ pend (strm st') = sent st @ pend (strm st) @ eof @ end_bytes (req st)"
proof -
  obtain h where h: "MakeHeader (stype (strm st)) (requestId (req st)) 0 0 = Ret h"
    "header_bytes h = frame (stype (strm st)) (requestId (req st)) []"
    using MakeHeader_frame [of 0 0 "stype (strm st)" "requestId (req st)"] by (auto simp: frame_empty)
  have r: "rawWrite (strm st)" using raw by simp
  define c1 where "c1 = (\<not> (stype (strm st) = FCGI_STDERR \<and> wrNext (strm st) = 0 \<and> \<not> isAnythingWritten (strm st)))"
  have eof: "eof = (if c1 then frame (stype (strm st)) (requestId (req st)) [] else [])"
    by (simp only: eof_def c1_def)
  from put_part [OF assms(1) r, of c1 "bindC (liftC (MakeHeader (stype (strm st)) (requestId (req st)) 0 0)) (\<lambda>h. retC (header_bytes h))"
      "header_bytes h"] h(1)
  obtain st1 where 1: "(if c1 then bindC (liftC (MakeHeader (stype (strm st)) (requestId (req st)) 0 0)) (\<lambda>h.
        seqC (FCGX_PutStr (header_bytes h)) (retC ())) else retC ()) st = Ret ((), st1)"
    "writer st1" "same_writer st st1" "sent st1 @ pend (strm st1) = sent st @ pend (strm st) @ eof"
    by (auto simp: cprog_defs eof h(2) split: if_splits)
  have r1: "rawWrite (strm st1)" "req st1 = req st" using r 1(3) by (auto simp: same_writer_def)
  define c2 where "c2 = (nWriters (req st) = 1)"
  from put_part [OF 1(2) r1(1), of c2 "liftC (end_request_record (requestId (req st)) (appStatus (req st)) FCGI_REQUEST_COMPLETE)"
      "end_frame (requestId (req st)) (appStatus (req st)) FCGI_REQUEST_COMPLETE"]
  obtain st2 where 2: "(if c2 then bindC (liftC (end_request_record (requestId (req st)) (appStatus (req st))
        FCGI_REQUEST_COMPLETE)) (\<lambda>bs. seqC (FCGX_PutStr bs) (retC ())) else retC ()) st1 = Ret ((), st2)"
    "writer st2" "same_writer st1 st2" "sent st2 @ pend (strm st2) = sent st1 @ pend (strm st1) @ end_bytes (req st)"
    by (auto simp: cprog_defs end_request_record_eq end_bytes_def c2_def split: if_splits)
  have m: "modS (\<lambda>s. s\<lparr>rawWrite := True\<rparr>) st0 = Ret ((), st)" by (simp add: modS_def raw)
  have "WriteCloseRecords st0 = Ret ((), st2\<lparr>req := (req st)\<lparr>nWriters := nWriters (req st) - 1\<rparr>\<rparr>)"
    using 1(1) 2(1) 2(3) r1(2) m
    by (simp only: WriteCloseRecords_def seqC_def bindC_def withS_def withR_def c1_def c2_def bindR.simps
        prod.case) (simp add: modR_def same_writer_def)
  moreover have "same_writer st st2" using 1(3) 2(3) by (rule same_writer_trans)
  moreover have "sent st2 @ pend (strm st2) = sent st @ pend (strm st) @ eof @ end_bytes (req st)"
    using 1(4) 2(4) by (metis append.assoc)
  ultimately show ?thesis using 2(2) by blast
qed

lemma FCGX_FClose_spec:
  assumes w: "writer st" and raw: "\<not> rawWrite (strm st)" and "\<not> wasFCloseCalled (strm st)"
    and "FCGI_errno (strm st) = 0"
  shows "\<exists>st'. FCGX_FClose st = Ret (0, st') \<and> isClosed (strm st') \<and> wasFCloseCalled (strm st') \<and>
    req st' = (req st)\<lparr>nWriters := nWriters (req st) - 1\<rparr> \<and> reliable (fd_of st) (kern st') \<and>
    sent st' = sent st @ sealed st @ eof_bytes st @ end_bytes (req st)"
proof -
  from w have wf: "wf_writer (strm st)" and rel: "reliable (fd_of st) (kern st)" by (simp_all add: writer_def)
  from seal_record_framed [OF wf raw] obtain b where
    b: "seal_record st = Ret ((), st\<lparr>strm := (strm st)\<lparr>buff := b, wrNext := length (sealed st)\<rparr>\<rparr>)"
    "length b = length (buff (strm st))" "length (sealed st) \<le> bufflen (strm st)"
    "slice 0 (length (sealed st)) b = sealed st" by blast
  define st0 where "st0 = st\<lparr>strm := (strm st)\<lparr>buff := b, wrNext := length (sealed st)\<rparr>\<rparr>"
  define st1 where "st1 = st0\<lparr>strm := (strm st0)\<lparr>rawWrite := True\<rparr>\<rparr>"
  have 1: "writer st1" "pend (strm st1) = sealed st" "sent st1 = sent st" "req st1 = req st"
    using wf rel b by (auto simp: st1_def st0_def writer_def wf_writer_def pend_def sent_def)
  have e: "(if \<not> (stype (strm st1) = FCGI_STDERR \<and> wrNext (strm st1) = 0 \<and> \<not> isAnythingWritten (strm st1))
      then frame (stype (strm st1)) (requestId (req st1)) [] else []) = eof_bytes st"
    by (auto simp: st1_def st0_def eof_bytes_def sealed_def load_def frame_def frame_header_def raw)
  from WriteCloseRecords_spec [OF 1(1) st1_def, unfolded e, unfolded 1(2-4)] obtain st2 where
    2: "WriteCloseRecords st0 = Ret ((), st2\<lparr>req := (req st)\<lparr>nWriters := nWriters (req st) - 1\<rparr>\<rparr>)"
    "writer st2" "same_writer st1 st2"
    "sent st2 @ pend (strm st2) = sent st @ sealed st @ eof_bytes st @ end_bytes (req st)"
    by blast
  define st3 where "st3 = st2\<lparr>req := (req st)\<lparr>nWriters := nWriters (req st) - 1\<rparr>\<rparr>"
  have r2: "rawWrite (strm st2)" "req st2 = req st" "FCGI_errno (strm st2) = 0"
    using 2(3) assms(4) by (simp_all add: same_writer_def st1_def st0_def)
  have "wrNext (strm st3) \<le> length (buff (strm st3))" "reliable (fd_of st3) (kern st3)"
    using 2(2) r2 by (simp_all add: st3_def writer_def wf_writer_def)
  from flush_buffer_reliable [OF this(2,1)] obtain k where
    k: "flush_buffer st3 = Ret ((), st3\<lparr>kern := k, strm := (strm st3)\<lparr>
        isAnythingWritten := (isAnythingWritten (strm st3) \<or> wrNext (strm st3) \<noteq> 0), wrNext := 0\<rparr>\<rparr>)"
    "reliable (fd_of st) k" "sent_on (fd_of st) k = sent st2 @ pend (strm st2)"
    using r2 by (auto simp: st3_def sent_def pend_def)
  have "EmptyBuffProc True st = flush_buffer st3"
    using b(1) 2(1) by (simp add: EmptyBuffProc_def seqC_def bindC_def st0_def [symmetric] st3_def)
  then show ?thesis
    using k 2 assms r2 wf
    by (simp add: FCGX_FClose_def cprog_defs wf_writer_def writer_def Let_def st3_def sent_def)
qed

lemma FCGX_FFlush_writes:
  assumes "writer st"
  shows "\<exists>st'. FCGX_FFlush st = Ret (0, st') \<and> wrote st [] st' \<and> pend (strm st') = []"
proof -
  have "EmptyBuffProc False st = empty_buffer st"
    by (simp add: EmptyBuffProc_def empty_buffer_def cprog_defs)
  with empty_buffer_spec [OF assms] wrote_empty_buffer [OF assms] assms show ?thesis
    by (auto simp: FCGX_FFlush_def withS_def seqC_def bindC_def retC_def writer_def wf_writer_def)
qed

section \<open>New writers\<close>

lemma AlignPtr8_offset: "unat (AlignPtr8 p - p) < 8"
proof -
  define t where "t = take_bit 3 (p + 7)"
  have "push_bit 3 (drop_bit 3 (p + 7)) = p + 7 - t"
    using bits_ident [of 3 "p + 7"] by (simp add: t_def eq_diff_eq)
  then have d: "AlignPtr8 p - p = 7 - t"
    unfolding AlignPtr8_def and_not7 by simp
  have "unat t < 8"
    unfolding t_def unsigned_take_bit_eq by (simp add: take_bit_eq_mod)
  then have "t \<le> 7" by (simp add: word_le_nat_alt)
  then have "unat (7 - t) = 7 - unat t" by (simp add: unat_sub)
  with d show ?thesis by simp
qed

lemma AlignInt8_bounds:
  fixes x :: int
  assumes "32 \<le> x" and "x \<le> 65536"
  shows "32 \<le> AlignInt8 x" "AlignInt8 x \<le> 65536" "8 dvd nat (AlignInt8 x)"
proof -
  have "AlignInt8 x = (x + 7) div 8 * 8" using assms by (intro AlignInt8_eq) simp_all
  moreover have "32 \<le> (x + 7) div 8 * 8" "(x + 7) div 8 * 8 \<le> 65536" using assms by presburger+
  ultimately show "32 \<le> AlignInt8 x" "AlignInt8 x \<le> 65536" "8 dvd nat (AlignInt8 x)"
    by (simp_all add: nat_mult_distrib)
qed

lemma NewWriter_wf: "wf_writer (NewWriter a blen T)"
proof -
  define x where "x = AlignInt8 (min (max blen 32) (FCGI_MAX_LENGTH + 1))"
  have x: "32 \<le> x" "x \<le> 65536" "8 dvd nat x"
    unfolding x_def FCGI_MAX_LENGTH_def by (intro AlignInt8_bounds; simp)+
  then obtain q where q: "nat x = 8 * q" by auto
  from x have "32 \<le> nat x" "nat x \<le> 65536" by simp_all
  with q have "8 dvd nat x - 8" "16 \<le> nat x - 8" by (simp_all add: dvd_diff_nat)
  moreover have "nat x - 8 \<le> nat x - unat (AlignPtr8 a - a)" using AlignPtr8_offset [of a] by simp
  ultimately show ?thesis
    using x unfolding NewWriter_def NewStream_def x_def [symmetric]
    by (auto simp: wf_writer_def Let_def)
qed

lemma NewWriter_simps [simp]:
  "pend (NewWriter a blen T) = []" "stype (NewWriter a blen T) = T" "\<not> rawWrite (NewWriter a blen T)"
  "\<not> wasFCloseCalled (NewWriter a blen T)" "FCGI_errno (NewWriter a blen T) = 0"
  "\<not> isAnythingWritten (NewWriter a blen T)"
  by (simp_all add: NewWriter_def NewStream_def pend_def Let_def)

section \<open>A whole output stream\<close>

text \<open>An application that puts a list of texts and closes the stream.\<close>

fun put_all :: "byte list list \<Rightarrow> unit cprog" where
  "put_all [] = retC ()"
| "put_all (str # strs) = seqC (FCGX_PutStr str) (put_all strs)"

lemma wrote_refl: "writer st \<Longrightarrow> wrote st [] st"
  by (auto simp: wrote_def intro!: exI [of _ "[]"])

lemma put_all_writes:
  assumes "writer st"
  shows "\<exists>st'. put_all strs st = Ret ((), st') \<and> wrote st (concat strs) st'"
  using assms
proof (induction strs arbitrary: st)
  case Nil
  then show ?case by (simp add: retC_def wrote_refl)
next
  case (Cons str strs)
  from FCGX_PutStr_writes [OF Cons.prems] obtain st1 where
    1: "FCGX_PutStr str st = Ret (int (length str), st1)" "wrote st str st1" by blast
  then have "writer st1" by (simp add: wrote_def)
  with Cons.IH obtain st2 where "put_all strs st1 = Ret ((), st2)" "wrote st1 (concat strs) st2" by blast
  with 1 wrote_trans show ?case by (fastforce simp: seqC_def bindC_def)
qed

lemma written_stream:
  assumes "writer st" and new: "strm st = NewWriter a blen T"
  shows "\<exists>cs st'. seqC (put_all strs) FCGX_FClose st = Ret (0, st') \<and> concat cs = concat strs \<and>
    list_all (\<lambda>c. c \<noteq> [] \<and> length c \<le> 65528) cs \<and>
    sent st' = sent st @ concat (map (frame T (requestId (req st))) cs) @
      (if T = FCGI_STDERR \<and> concat strs = [] then [] else frame T (requestId (req st)) []) @ end_bytes (req st)"
proof -
  from put_all_writes [OF assms(1)] obtain st1 where 1: "put_all strs st = Ret ((), st1)"
    "wrote st (concat strs) st1" by blast
  then obtain cs where cs: "writer st1" "same_writer st st1" "list_all (chunk st) cs"
    "concat strs = concat cs @ pend (strm st1)" "sent st1 = sent st @ concat (map (load st) cs)"
    "isAnythingWritten (strm st1) \<longleftrightarrow> cs \<noteq> []" using new by (auto simp: wrote_def)
  have s1: "\<not> rawWrite (strm st1)" "\<not> wasFCloseCalled (strm st1)" "FCGI_errno (strm st1) = 0"
    "stype (strm st1) = T" "req st1 = req st"
    using cs(2) new by (simp_all add: same_writer_def)
  from FCGX_FClose_spec [OF cs(1) s1(1-3)] obtain st2 where 2: "FCGX_FClose st1 = Ret (0, st2)"
    "sent st2 = sent st1 @ sealed st1 @ eof_bytes st1 @ end_bytes (req st1)" by blast
  have l: "load st = frame T (requestId (req st))" "chunk st = (\<lambda>c. c \<noteq> [] \<and> length c \<le> 65528)"
    using new by (simp_all add: load_def chunk_def fun_eq_iff)
  define ds where "ds = cs @ (if pend (strm st1) = [] then [] else [pend (strm st1)])"
  have "concat ds = concat strs" using cs(4) by (simp add: ds_def)
  moreover have "list_all (\<lambda>c. c \<noteq> [] \<and> length c \<le> 65528) ds"
    using cs(3) pend_bound [OF cs(1)] s1(1) by (simp add: ds_def l)
  moreover have "sent st1 @ sealed st1 = sent st @ concat (map (frame T (requestId (req st))) ds)"
    using cs(5) s1 by (simp add: ds_def l sealed_def load_def)
  moreover have "eof_bytes st1 =
      (if T = FCGI_STDERR \<and> concat strs = [] then [] else frame T (requestId (req st)) [])"
  proof -
    have "concat cs = [] \<longleftrightarrow> cs = []" using cs(3) by (cases cs) (auto simp: l)
    then show ?thesis using cs(4,6) s1 by (simp add: eof_bytes_def)
  qed
  ultimately show ?thesis
    using 1(1) 2 s1(5) by (intro exI [of _ ds] exI [of _ st2]) (simp add: seqC_def bindC_def)
qed

end
