(* ===== verification/Fcgi_Reader_Correct.thy ===== *)
theory Fcgi_Reader_Correct
  imports Fcgi_Writer_Correct
begin

text \<open>
  The reading side of the FastCGI streams against a decoder of byte lists. The application gets the
  contents of the records of its stream, joined, whatever the sizes of the pieces in which the network
  delivers the bytes; records of other requests are skipped.
\<close>

section \<open>The decoder\<close>

text \<open>
  The content of a stream of type \<open>T\<close> and request \<open>rid\<close> in a list of bytes, with what follows its
  end when the end is reached. \<open>c\<close> and \<open>p\<close> are the content and padding that the current record still
  has, \<open>sk\<close> says that its content is to be skipped, and \<open>eor\<close> stops at the end of the record.
\<close>

definition prepend :: "byte list \<Rightarrow> byte list \<times> 'r \<Rightarrow> byte list \<times> 'r" where
  "prepend d x = (d @ fst x, snd x)"

function content ::
  "bool \<Rightarrow> int \<Rightarrow> int \<Rightarrow> nat \<Rightarrow> nat \<Rightarrow> bool \<Rightarrow> byte list \<Rightarrow> byte list \<times> byte list option" where
  "content eor T rid c p sk W =
     (if 0 < c then
        (if length W < c then (if sk then [] else W, None)
         else prepend (if sk then [] else take c W) (content eor T rid 0 p False (drop c W)))
      else if 0 < p then
        (if length W < p then ([], None) else content eor T rid 0 0 sk (drop p W))
      else if eor then ([], if W = [] then None else Some W)
      else if length W < 8 then ([], None)
      else
        let h = bytes_header (take 8 W);
            i = two_bytes (requestIdB1 h) (requestIdB0 h);
            cl = nat (two_bytes (contentLengthB1 h) (contentLengthB0 h));
            pl = unat (paddingLength h)
        in if uint (version h) \<noteq> 1 \<or> uint (htype h) = FCGI_BEGIN_REQUEST \<or> i = 0 then ([], None)
           else if i \<noteq> rid then content eor T rid cl pl True (drop 8 W)
           else if uint (htype h) \<noteq> T then ([], None)
           else if cl = 0 then ([], Some (drop 8 W))
           else content eor T rid cl pl sk (drop 8 W))"
  by pat_completeness auto
termination
  by (relation "measure (\<lambda>(eor, T, rid, c, p, sk, W). length W)") auto

declare content.simps [simp del]

section \<open>The state of a reader\<close>

fun arrived :: "rx_event \<Rightarrow> byte list" where
  "arrived (Rx_bytes bs) = bs"
| "arrived (Rx_error e) = []"

definition net :: "int \<Rightarrow> kernel \<Rightarrow> byte list \<Rightarrow> bool" where
  "net fd k N \<longleftrightarrow> \<not> shutdownNow k \<and>
     (\<exists>c. conns k fd = Some c \<and> list_all (\<lambda>e. arrived e \<noteq> []) (crx c) \<and> concat (map arrived (crx c)) = N)"

definition wf_reader :: "fcgx_stream \<Rightarrow> bool" where
  "wf_reader s \<longleftrightarrow> isReader s \<and> bufflen s \<le> length (buff s) \<and> 0 < bufflen s \<and> rdNext s \<le> buffStop s \<and>
     buffStop s \<le> bufflen s \<and> 0 \<le> contentLen s \<and> 0 \<le> paddingLen s"

text \<open>
  Reading takes bytes from the connection and changes nothing else outside of the stream; while it must
  not leave the record, the padding of the record only shrinks and no
  skipping starts.
\<close>

definition rx_only :: "int \<Rightarrow> kernel \<Rightarrow> kernel \<Rightarrow> bool" where
  "rx_only fd k k' \<longleftrightarrow> (\<exists>c r. conns k fd = Some c \<and> k' = set_conn fd (c\<lparr>crx := r\<rparr>) k)"

definition same_reader :: "sio \<Rightarrow> sio \<Rightarrow> bool" where
  "same_reader st st' \<longleftrightarrow> req st' = req st \<and> stype (strm st') = stype (strm st) \<and>
     eorStop (strm st') = eorStop (strm st) \<and> FCGI_errno (strm st') = FCGI_errno (strm st) \<and>
     (eorStop (strm st) \<longrightarrow>
        paddingLen (strm st') \<le> paddingLen (strm st) \<and> (skip (strm st') \<longrightarrow> skip (strm st))) \<and>
     rx_only (fd_of st) (kern st) (kern st')"

lemma rx_only_refl:
  assumes "net fd k N"
  shows "rx_only fd k k"
proof -
  from assms obtain c where c: "conns k fd = Some c" by (auto simp: net_def)
  have "k = set_conn fd (c\<lparr>crx := crx c\<rparr>) k" using c by (cases k) (simp add: fun_upd_idem)
  with c show ?thesis unfolding rx_only_def by blast
qed

lemma rx_only_trans:
  assumes "rx_only fd k k1" and "rx_only fd k1 k2"
  shows "rx_only fd k k2"
proof -
  from assms(1) obtain c r where 1: "conns k fd = Some c" "k1 = set_conn fd (c\<lparr>crx := r\<rparr>) k"
    by (auto simp: rx_only_def)
  from assms(2) 1(2) obtain r' where "k2 = set_conn fd (c\<lparr>crx := r'\<rparr>) k" by (auto simp: rx_only_def)
  with 1(1) show ?thesis by (auto simp: rx_only_def)
qed

lemma same_reader_trans: "same_reader a b \<Longrightarrow> same_reader b c \<Longrightarrow> same_reader a c"
  unfolding same_reader_def by (auto intro: rx_only_trans)

definition buffered :: "fcgx_stream \<Rightarrow> byte list" where
  "buffered s = slice (rdNext s) (buffStop s) (buff s)"

text \<open>The reader's position in the input: what is buffered, what the network still holds.\<close>

definition at_input :: "sio \<Rightarrow> byte list \<Rightarrow> byte list \<Rightarrow> bool" where
  "at_input st B N \<longleftrightarrow> wf_reader (strm st) \<and> buffered (strm st) = B \<and> net (fd_of st) (kern st) N"

abbreviation decode :: "sio \<Rightarrow> byte list \<Rightarrow> byte list \<times> byte list option" where
  "decode st W \<equiv> content (eorStop (strm st)) (stype (strm st)) (requestId (req st))
     (nat (contentLen (strm st))) (nat (paddingLen (strm st))) (skip (strm st)) W"

lemma OS_Read_net:
  assumes "net fd k N" and "N \<noteq> []" and "0 < len"
  shows "\<exists>bs k' N'. OS_Read fd len k = (int (length bs), bs, k') \<and> bs \<noteq> [] \<and> length bs \<le> len \<and>
    N = bs @ N' \<and> net fd k' N' \<and> rx_only fd k k'"
proof -
  from assms(1) obtain c where c: "conns k fd = Some c" "list_all (\<lambda>e. arrived e \<noteq> []) (crx c)"
    "concat (map arrived (crx c)) = N" "\<not> shutdownNow k" by (auto simp: net_def)
  obtain b r where b: "crx c = Rx_bytes b # r" "b \<noteq> []"
  proof (cases "crx c")
    case Nil
    with c(3) assms(2) show thesis by simp
  next
    case (Cons e r)
    with c(2) that show thesis by (cases e) auto
  qed
  define r' where "r' = (if drop len b = [] then r else Rx_bytes (drop len b) # r)"
  have "list_all (\<lambda>e. arrived e \<noteq> []) r'" "b @ concat (map arrived r) = take len b @ concat (map arrived r')"
    using c(2) b by (auto simp: r'_def)
  then show ?thesis
    using c b assms(3)
    by (intro exI [of _ "take len b"] exI [of _ "set_conn fd (c\<lparr>crx := r'\<rparr>) k"]
        exI [of _ "concat (map arrived r')"])
      (auto simp: OS_Read_def sys_read_def net_def rx_only_def r'_def)
qed

lemma refill_buffer:
  assumes a: "at_input st B N" and ne: "B @ N \<noteq> []"
  shows "\<exists>st' B' N'. refill st = Ret (Next, st') \<and> at_input st' B' N' \<and> B' \<noteq> [] \<and> B' @ N' = B @ N \<and>
    same_reader st st' \<and> contentLen (strm st') = contentLen (strm st) \<and>
    paddingLen (strm st') = paddingLen (strm st) \<and> skip (strm st') = skip (strm st) \<and>
    isClosed (strm st') = isClosed (strm st)"
proof (cases "rdNext (strm st) = buffStop (strm st)")
  case False
  with a have "B \<noteq> []"
    by (auto simp: at_input_def buffered_def wf_reader_def slice_def)
  with False a rx_only_refl show ?thesis
    by (intro exI [of _ st] exI [of _ B] exI [of _ N])
      (auto simp: refill_def same_reader_def at_input_def)
next
  case True
  with a have B: "B = []" by (simp add: at_input_def buffered_def)
  with a ne OS_Read_net [of "fd_of st" "kern st" N "bufflen (strm st)"] obtain bs k' N' where
    r: "OS_Read (fd_of st) (bufflen (strm st)) (kern st) = (int (length bs), bs, k')" "bs \<noteq> []"
      "length bs \<le> bufflen (strm st)" "N = bs @ N'" "net (fd_of st) k' N'" "rx_only (fd_of st) (kern st) k'"
    by (auto simp: at_input_def wf_reader_def)
  define s' where "s' = (strm st)\<lparr>buff := bs @ drop (length bs) (buff (strm st)), rdNext := 0, buffStop := length bs\<rparr>"
  have "refill st = Ret (Next, st\<lparr>kern := k', strm := s'\<rparr>)"
    using True r a by (simp add: refill_def cprog_defs store_bytes_def Let_def s'_def at_input_def wf_reader_def)
  moreover have "at_input (st\<lparr>kern := k', strm := s'\<rparr>) bs N'"
    using a r by (auto simp: at_input_def wf_reader_def s'_def buffered_def slice_def)
  ultimately show ?thesis
    using B r by (auto simp: same_reader_def s'_def)
qed

section \<open>Splitting the input\<close>

lemma prepend_Nil [simp]: "prepend [] x = x"
  by (simp add: prepend_def)

lemma prepend_prepend: "prepend a (prepend b x) = prepend (a @ b) x"
  by (simp add: prepend_def)

lemma content_deliver:
  assumes "0 < c" and "length d \<le> c"
  shows "content eor T rid c p False (d @ W) = prepend d (content eor T rid (c - length d) p False W)"
proof (cases "length d = c")
  case True
  with assms show ?thesis by (subst content.simps) simp
next
  case False
  with assms have "0 < c - length d" by simp
  then show ?thesis
    using assms False
    by (subst (1 2) content.simps) (auto simp: prepend_prepend, simp_all add: prepend_def)
qed

lemma content_skip:
  assumes "0 < c" and "length d \<le> c"
  shows "content eor T rid c p True (d @ W) = content eor T rid (c - length d) p (length d < c) W"
proof (cases "length d = c")
  case True
  with assms show ?thesis by (subst content.simps) simp
next
  case False
  with assms have "0 < c - length d" by simp
  then show ?thesis
    using assms False by (subst (1 2) content.simps) auto
qed

lemma content_padding:
  assumes "0 < p" and "length d \<le> p"
  shows "content eor T rid 0 p sk (d @ W) = content eor T rid 0 (p - length d) sk W"
proof (cases "length d = p")
  case True
  with assms show ?thesis by (subst content.simps) simp
next
  case False
  with assms have "0 < p - length d" by simp
  then show ?thesis
    using assms False by (subst (1 2) content.simps) auto
qed

section \<open>Filling the buffer\<close>

text \<open>
  What filling the buffer has to do for an input that decodes to \<open>bs\<close> and the end \<open>e\<close>: deliver a
  non-empty part of \<open>bs\<close>, or report the end.
\<close>

definition delivers :: "byte list \<Rightarrow> byte list option \<Rightarrow> nat \<Rightarrow> sio \<Rightarrow> bool" where
  "delivers bs e n st \<longleftrightarrow>
     \<not> isClosed (strm st) \<and> rdNext (strm st) < stop (strm st) \<and> stop (strm st) \<le> buffStop (strm st) \<and>
     (\<exists>bs' N. bs = slice (rdNext (strm st)) (stop (strm st)) (buff (strm st)) @ bs' \<and>
        net (fd_of st) (kern st) N \<and>
        decode st (slice (stop (strm st)) (buffStop (strm st)) (buff (strm st)) @ N) = (bs', e) \<and>
        buffStop (strm st) - rdNext (strm st) + length N \<le> n)"

definition ends :: "byte list option \<Rightarrow> nat \<Rightarrow> sio \<Rightarrow> bool" where
  "ends e n st \<longleftrightarrow> isClosed (strm st) \<and> rdNext (strm st) = stop (strm st) \<and>
     (\<exists>B N. at_input st B N \<and> e = Some (B @ N) \<and> length (B @ N) \<le> n)"

definition filled :: "sio \<Rightarrow> byte list \<Rightarrow> byte list option \<Rightarrow> nat \<Rightarrow> sio \<Rightarrow> bool" where
  "filled st bs e n st' \<longleftrightarrow> wf_reader (strm st') \<and> same_reader st st' \<and>
     (if bs \<noteq> [] then delivers bs e n st' else ends e n st')"

definition fillable :: "nat \<Rightarrow> byte list \<Rightarrow> sio \<Rightarrow> byte list \<Rightarrow> byte list \<Rightarrow> byte list \<Rightarrow> byte list option \<Rightarrow> bool" where
  "fillable k hdr st B N bs e \<longleftrightarrow> at_input st B N \<and> \<not> isClosed (strm st) \<and> length (B @ N) < k \<and> length hdr < 8 \<and>
     (hdr \<noteq> [] \<longrightarrow> contentLen (strm st) = 0 \<and> paddingLen (strm st) = 0 \<and> \<not> eorStop (strm st)) \<and>
     decode st (hdr @ B @ N) = (bs, e) \<and> (bs \<noteq> [] \<or> e \<noteq> None)"

definition fills :: "nat \<Rightarrow> bool" where
  "fills k \<longleftrightarrow> (\<forall>hdr st B N bs e. fillable k hdr st B N bs e \<longrightarrow>
     (\<exists>st'. fill_loop k hdr st = Ret ((), st') \<and> filled st bs e (length (B @ N)) st'))"

lemma delivers_mono: "delivers bs e n st \<Longrightarrow> n \<le> m \<Longrightarrow> delivers bs e m st"
  unfolding delivers_def by (elim conjE exE) (intro conjI exI, assumption+, erule order_trans)

lemma ends_mono: "ends e n st \<Longrightarrow> n \<le> m \<Longrightarrow> ends e m st"
  unfolding ends_def by (elim conjE exE) (intro conjI exI, assumption+, erule order_trans)

lemma filled_trans: "same_reader a b \<Longrightarrow> filled b bs e n st \<Longrightarrow> n \<le> m \<Longrightarrow> filled a bs e m st"
  unfolding filled_def using same_reader_trans delivers_mono ends_mono by metis

lemma filledI:
  assumes "fills k" and "fillable k hdr st1 B N bs e" and "same_reader st st1" and "length (B @ N) \<le> n"
    and "prog st = fill_loop k hdr st1"
  shows "\<exists>st'. prog st = Ret ((), st') \<and> filled st bs e n st'"
  using assms filled_trans unfolding fills_def by metis

text \<open>The stages of the loop body, from the last to the first.\<close>

definition header_stage :: "nat \<Rightarrow> byte list \<Rightarrow> unit cprog" where
  "header_stage k hdr =
     flowC eor_part (fill_loop k hdr)
      (bindC (header_part hdr) (\<lambda>hdr'.
         if length hdr' < 8 then fill_loop k hdr'
         else flowC (interpret_part k (fill_loop k []) hdr') (fill_loop k []) (fill_loop k [])))"

definition padding_stage :: "nat \<Rightarrow> byte list \<Rightarrow> unit cprog" where
  "padding_stage k hdr = flowC padding_part (fill_loop k hdr) (header_stage k hdr)"

definition content_stage :: "nat \<Rightarrow> byte list \<Rightarrow> unit cprog" where
  "content_stage k hdr = flowC content_part (fill_loop k hdr) (padding_stage k hdr)"

lemma fill_loop_stages: "fill_loop (Suc k) hdr = flowC refill (fill_loop k hdr) (content_stage k hdr)"
  by (simp add: content_stage_def padding_stage_def header_stage_def)

lemma interpret_record:
  fixes st :: sio
  assumes "uint (version h) = 1" and "uint (htype h) \<noteq> FCGI_BEGIN_REQUEST"
    and "two_bytes (requestIdB1 h) (requestIdB0 h) \<noteq> 0" and "bytes_header hdr = h"
    and "two_bytes (requestIdB1 h) (requestIdB0 h) = requestId (req st) \<Longrightarrow> uint (htype h) = stype (strm st)"
  defines "i \<equiv> two_bytes (requestIdB1 h) (requestIdB0 h)"
    and "s1 \<equiv> (strm st)\<lparr>stop := rdNext (strm st), eorStop := False, isClosed := False,
      contentLen := two_bytes (contentLengthB1 h) (contentLengthB0 h), paddingLen := uint (paddingLength h)\<rparr>"
  shows "interpret_part k fill hdr st =
    (if i \<noteq> requestId (req st) then Ret (Next, st\<lparr>strm := s1\<lparr>skip := True\<rparr>\<rparr>)
     else if contentLen s1 = 0 then Ret (Return, st\<lparr>strm := s1\<lparr>wrNext := rdNext s1, stop := rdNext s1, isClosed := True\<rparr>\<rparr>)
     else Ret (Next, st\<lparr>strm := s1\<rparr>))"
  using assms(1-5) unfolding i_def s1_def
  by (simp add: interpret_part_def ProcessHeader_def cprog_defs FCGI_VERSION_1_def FCGI_NULL_REQUEST_ID_def
      status_defs Let_def)

lemma take_slice: "m \<le> b - a \<Longrightarrow> take m (slice a b xs) = slice a (a + m) xs"
  and drop_slice: "drop m (slice a b xs) = slice (a + m) b xs"
  by (auto simp: slice_def min_def drop_take add.commute)

lemma at_input_length: "at_input st B N \<Longrightarrow> length B = buffStop (strm st) - rdNext (strm st)"
  by (auto simp: at_input_def buffered_def wf_reader_def slice_def)

lemma at_input_advance:
  assumes "at_input st B N" and "m \<le> length B" and "rdNext s = rdNext (strm st) + m"
    and "buffStop s = buffStop (strm st)" "buff s = buff (strm st)" "bufflen s = bufflen (strm st)" "isReader s"
    and "0 \<le> contentLen s" "0 \<le> paddingLen s"
  shows "at_input (st\<lparr>strm := s\<rparr>) (drop m B) N"
  using assms at_input_length [OF assms(1)]
  by (auto simp: at_input_def wf_reader_def buffered_def drop_slice)

lemma same_reader_strm:
  assumes "at_input st B N" and "stype s = stype (strm st)" "eorStop s = eorStop (strm st)"
    "FCGI_errno s = FCGI_errno (strm st)" "eorStop (strm st) \<Longrightarrow> paddingLen s \<le> paddingLen (strm st)"
    "eorStop (strm st) \<Longrightarrow> skip s \<Longrightarrow> skip (strm st)"
  shows "same_reader st (st\<lparr>strm := s\<rparr>)"
  using assms by (auto simp: same_reader_def at_input_def intro: rx_only_refl)

lemma header_part_eq:
  assumes "at_input st B N" and "m = min (8 - length hdr) (length B)"
  shows "header_part hdr st = Ret (hdr @ take m B, st\<lparr>strm := (strm st)\<lparr>rdNext := rdNext (strm st) + m\<rparr>\<rparr>)"
proof -
  note l = at_input_length [OF assms(1)]
  have "rdNext (strm st) + m \<le> length (buff (strm st))"
    using assms l by (auto simp: at_input_def wf_reader_def)
  moreover have "take m (drop (rdNext (strm st)) (buff (strm st))) = take m B"
    using assms l by (auto simp: at_input_def buffered_def slice_def min_def)
  ultimately show ?thesis
    using assms(2) l by (simp add: header_part_def cprog_defs fetch_bytes_def Let_def)
qed

text \<open>The end of the record, for a read that must not leave it.\<close>

lemma header_stage_eor:
  assumes a: "at_input st B N" and "eorStop (strm st)"
    and d: "content True (stype (strm st)) (requestId (req st)) 0 0 (skip (strm st)) (B @ N) = (bs, e)"
    and p: "bs \<noteq> [] \<or> e \<noteq> None"
  shows "\<exists>st'. header_stage k [] st = Ret ((), st') \<and> filled st bs e (length (B @ N)) st'"
proof -
  from d p have e: "bs = []" "e = Some (B @ N)"
    by (subst (asm) content.simps; auto split: if_splits)+
  let ?s = "(strm st)\<lparr>stop := rdNext (strm st), isClosed := True\<rparr>"
  have "header_stage k [] st = Ret ((), st\<lparr>strm := ?s\<rparr>)"
    using assms by (simp add: header_stage_def flowC_def eor_part_def cprog_defs)
  moreover have "at_input (st\<lparr>strm := ?s\<rparr>) B N" "same_reader st (st\<lparr>strm := ?s\<rparr>)"
    using a by (auto intro!: same_reader_strm simp: at_input_def wf_reader_def buffered_def)
  ultimately show ?thesis
    using e by (auto simp: filled_def ends_def at_input_def)
qed

lemma content_header:
  assumes "length hdr = 8"
  shows "content False T rid 0 0 sk (hdr @ W) =
    (let h = bytes_header hdr;
         i = two_bytes (requestIdB1 h) (requestIdB0 h);
         cl = nat (two_bytes (contentLengthB1 h) (contentLengthB0 h))
     in if uint (version h) \<noteq> 1 \<or> uint (htype h) = FCGI_BEGIN_REQUEST \<or> i = 0 then ([], None)
        else if i \<noteq> rid then content False T rid cl (unat (paddingLength h)) True W
        else if uint (htype h) \<noteq> T then ([], None)
        else if cl = 0 then ([], Some W)
        else content False T rid cl (unat (paddingLength h)) sk W)"
proof -
  have "take 8 (hdr @ W) = hdr" "drop 8 (hdr @ W) = W" "\<not> length (hdr @ W) < 8" using assms by simp_all
  then show ?thesis by (subst content.simps) (simp only: Let_def less_numeral_extra if_False)
qed

text \<open>A complete header: a record of the stream, its end, or a record to skip.\<close>

lemma header_stage_record:
  assumes k: "fills k" and a: "at_input st B N" and ne: "\<not> eorStop (strm st)"
    and h8: "length hdr = 8"
    and d: "content False (stype (strm st)) (requestId (req st)) 0 0 (skip (strm st)) (hdr @ B @ N) = (bs, e)"
    and p: "bs \<noteq> [] \<or> e \<noteq> None" and l: "length (B @ N) < k"
  shows "\<exists>st'. flowC (interpret_part k (fill_loop k []) hdr) (fill_loop k []) (fill_loop k []) st = Ret ((), st') \<and>
    filled st bs e (length (B @ N)) st'"
proof -
  define h where "h = bytes_header hdr"
  define i where "i = two_bytes (requestIdB1 h) (requestIdB0 h)"
  define cl where "cl = two_bytes (contentLengthB1 h) (contentLengthB0 h)"
  have cl: "0 \<le> cl" by (simp add: cl_def two_bytes_range)
  let ?c = "content False (stype (strm st)) (requestId (req st)) (nat cl) (unat (paddingLength h))"
  have C: "(if uint (version h) \<noteq> 1 \<or> uint (htype h) = FCGI_BEGIN_REQUEST \<or> i = 0 then ([], None)
     else if i \<noteq> requestId (req st) then ?c True (B @ N)
     else if uint (htype h) \<noteq> stype (strm st) then ([], None)
     else if nat cl = 0 then ([], Some (B @ N))
     else ?c (skip (strm st)) (B @ N)) = (bs, e)"
    using d unfolding content_header [OF h8] Let_def h_def i_def cl_def .
  have ok: "uint (version h) = 1" "uint (htype h) \<noteq> FCGI_BEGIN_REQUEST" "i \<noteq> 0"
    "i = requestId (req st) \<Longrightarrow> uint (htype h) = stype (strm st)"
    using C p by (auto split: if_splits)
  define s2 where "s2 = (strm st)\<lparr>stop := rdNext (strm st), eorStop := False, isClosed := False,
    contentLen := cl, paddingLen := uint (paddingLength h)\<rparr>"
  define s3 where "s3 = s2\<lparr>wrNext := rdNext s2, stop := rdNext s2, isClosed := True\<rparr>"
  have ip: "interpret_part k (fill_loop k []) hdr st =
    (if i \<noteq> requestId (req st) then Ret (Next, st\<lparr>strm := s2\<lparr>skip := True\<rparr>\<rparr>)
     else if cl = 0 then Ret (Return, st\<lparr>strm := s3\<rparr>) else Ret (Next, st\<lparr>strm := s2\<lparr>skip := skip (strm st)\<rparr>\<rparr>))"
    using interpret_record [OF ok(1,2) ok(3) [unfolded i_def] h_def [symmetric] ok(4) [unfolded i_def], of k "fill_loop k []"]
    by (simp add: i_def s2_def s3_def cl_def)
  have a2: "at_input (st\<lparr>strm := s2\<lparr>skip := b\<rparr>\<rparr>) B N" "same_reader st (st\<lparr>strm := s2\<lparr>skip := b\<rparr>\<rparr>)"
    "at_input (st\<lparr>strm := s3\<rparr>) B N" "same_reader st (st\<lparr>strm := s3\<rparr>)" for b
    using a cl ne by (auto intro!: same_reader_strm simp: at_input_def wf_reader_def buffered_def s2_def s3_def)
  have go: "\<exists>st'. fill_loop k [] (st\<lparr>strm := s2\<lparr>skip := b\<rparr>\<rparr>) = Ret ((), st') \<and> filled st bs e (length (B @ N)) st'"
    if "?c b (B @ N) = (bs, e)" for b
    using filledI [OF k _ a2(2), of "[]" b B N bs e "length (B @ N)" "\<lambda>_. fill_loop k [] (st\<lparr>strm := s2\<lparr>skip := b\<rparr>\<rparr>)"]
      a2(1) l p that by (auto simp: fillable_def s2_def)
  show ?thesis
  proof (cases "i = requestId (req st) \<and> cl = 0")
    case True
    with C ok have "bs = []" "e = Some (B @ N)" by auto
    with True ip a2(3,4) show ?thesis
      by (auto simp: flowC_def bindC_def retC_def filled_def ends_def at_input_def s3_def)
  next
    case False
    with go [of True] go [of "skip (strm st)"] C ok cl ip show ?thesis
      by (auto simp: flowC_def bindC_def)
  qed
qed

lemma header_stage_fills:
  assumes k: "fills k" and a: "at_input st B N" and nc: "\<not> isClosed (strm st)" and h: "length hdr < 8"
    and 0: "contentLen (strm st) = 0" "paddingLen (strm st) = 0" "hdr \<noteq> [] \<Longrightarrow> \<not> eorStop (strm st)"
    and d: "decode st (hdr @ B @ N) = (bs, e)" and p: "bs \<noteq> [] \<or> e \<noteq> None"
    and l: "length (B @ N) < k + (if B = [] then 0 else 1)"
  shows "\<exists>st'. header_stage k hdr st = Ret ((), st') \<and> filled st bs e (length (B @ N)) st'"
proof (cases "eorStop (strm st)")
  case True
  then have "hdr = []" using 0(3) by blast
  with header_stage_eor [OF a True _ p, of k] d 0 True show ?thesis by simp
next
  case False
  define m where "m = min (8 - length hdr) (length B)"
  define s1 where "s1 = (strm st)\<lparr>rdNext := rdNext (strm st) + m\<rparr>"
  define hdr' where "hdr' = hdr @ take m B"
  have ml: "m \<le> length B" by (simp add: m_def)
  have st: "header_stage k hdr st = (if length hdr' < 8 then fill_loop k hdr'
      else flowC (interpret_part k (fill_loop k []) hdr') (fill_loop k []) (fill_loop k [])) (st\<lparr>strm := s1\<rparr>)"
    using False header_part_eq [OF a m_def]
    by (simp add: header_stage_def flowC_def eor_part_def cprog_defs s1_def hdr'_def)
  have a1: "at_input (st\<lparr>strm := s1\<rparr>) (drop m B) N"
    using a by (intro at_input_advance [OF a ml]) (simp_all add: s1_def at_input_def wf_reader_def)
  have sr: "same_reader st (st\<lparr>strm := s1\<rparr>)"
    by (intro same_reader_strm [OF a]) (simp_all add: s1_def)
  show ?thesis
  proof (cases "length hdr' < 8")
    case True
    then have B: "drop m B = []" "hdr' = hdr @ B" using ml by (auto simp: hdr'_def m_def)
    have "length N < k" using l by (cases B) auto
    then have "fillable k hdr' (st\<lparr>strm := s1\<rparr>) [] N bs e"
      using a1 B nc True 0 False d p by (auto simp: fillable_def s1_def)
    then show ?thesis
      using filledI [OF k _ sr, of hdr' "[]" N bs e "length (B @ N)" "header_stage k hdr"] st True by simp
  next
    case F: False
    then have m8: "length hdr' = 8" "m = 8 - length hdr" "B \<noteq> []"
      using h ml by (auto simp: hdr'_def m_def min_def split: if_splits)
    have W: "hdr @ B @ N = hdr' @ drop m B @ N" by (simp add: hdr'_def)
    have "length (drop m B @ N) < k" using l m8 h ml by auto
    from header_stage_record [OF k a1 _ m8(1) _ p this, unfolded W] d 0 False
    obtain st' where "flowC (interpret_part k (fill_loop k []) hdr') (fill_loop k []) (fill_loop k []) (st\<lparr>strm := s1\<rparr>) = Ret ((), st')"
      "filled (st\<lparr>strm := s1\<rparr>) bs e (length (drop m B @ N)) st'"
      by (auto simp: s1_def W)
    with st F filled_trans [OF sr] show ?thesis by simp
  qed
qed

lemma nat_int_diff [simp]: "nat (int a - int b) = a - b"
  by arith

lemma padding_stage_fills:
  assumes k: "fills k" and a: "at_input st B N" and nc: "\<not> isClosed (strm st)" and h: "length hdr < 8"
    and 0: "contentLen (strm st) = 0" "hdr \<noteq> [] \<Longrightarrow> paddingLen (strm st) = 0 \<and> \<not> eorStop (strm st)"
    and d: "decode st (hdr @ B @ N) = (bs, e)" and p: "bs \<noteq> [] \<or> e \<noteq> None"
    and l: "length (B @ N) < k + (if B = [] then 0 else 1)"
  shows "\<exists>st'. padding_stage k hdr st = Ret ((), st') \<and> filled st bs e (length (B @ N)) st'"
proof (cases "0 < paddingLen (strm st)")
  case False
  then have p0: "paddingLen (strm st) = 0" using a by (simp add: at_input_def wf_reader_def)
  then have "padding_stage k hdr st = header_stage k hdr st"
    by (simp add: padding_stage_def flowC_def padding_part_def cprog_defs)
  with header_stage_fills [OF k a nc h 0(1) p0 _ d p l] 0 show ?thesis by auto
next
  case True
  with 0 have hd: "hdr = []" by auto
  define q where "q = nat (paddingLen (strm st))"
  define m where "m = min q (length B)"
  define s1 where "s1 = (strm st)\<lparr>paddingLen := int (q - m), rdNext := rdNext (strm st) + m\<rparr>"
  have q: "0 < q" "paddingLen (strm st) = int q" using True by (simp_all add: q_def)
  have ml: "m \<le> length B" "m \<le> q" by (simp_all add: m_def)
  have "min (int q) (int (buffStop (strm st)) - int (rdNext (strm st))) = int m"
    using at_input_length [OF a] a by (auto simp: m_def at_input_def wf_reader_def)
  then have st: "padding_stage k hdr st = (if m < q then fill_loop k hdr else header_stage k hdr) (st\<lparr>strm := s1\<rparr>)"
    using q ml by (simp add: padding_stage_def flowC_def padding_part_def cprog_defs Let_def s1_def of_nat_diff)
  have a1: "at_input (st\<lparr>strm := s1\<rparr>) (drop m B) N"
    using a by (intro at_input_advance [OF a ml(1)]) (simp_all add: s1_def at_input_def wf_reader_def)
  have sr: "same_reader st (st\<lparr>strm := s1\<rparr>)"
    by (intro same_reader_strm [OF a]) (simp_all add: s1_def q(2))
  have split: "B @ N = take m B @ drop m B @ N" by simp
  have d1: "decode (st\<lparr>strm := s1\<rparr>) (drop m B @ N) = (bs, e)"
    using d content_padding [of q "take m B" "eorStop (strm st)" "stype (strm st)" "requestId (req st)" "skip (strm st)" "drop m B @ N"]
      q ml 0(1) hd by (simp add: s1_def flip: split)
  show ?thesis
  proof (cases "m < q")
    case True
    then have B: "drop m B = []" by (simp add: m_def)
    have "length N < k" using l by (cases B) auto
    then have "fillable k hdr (st\<lparr>strm := s1\<rparr>) [] N bs e"
      using a1 B nc h hd d1 p by (auto simp: fillable_def s1_def)
    from filledI [OF k this sr, of "length (B @ N)" "padding_stage k hdr"] st True show ?thesis by simp
  next
    case False
    then have "m = q" "B \<noteq> []" using ml q by auto
    then have "length (drop m B @ N) < k" using l q ml by auto
    with header_stage_fills [OF k a1 _ h, of bs e] d1 hd nc 0 p \<open>m = q\<close>
    obtain st' where "header_stage k hdr (st\<lparr>strm := s1\<rparr>) = Ret ((), st')"
      "filled (st\<lparr>strm := s1\<rparr>) bs e (length (drop m B @ N)) st'" by (auto simp: s1_def)
    with st False filled_trans [OF sr] show ?thesis by simp
  qed
qed

text \<open>Content for the application.\<close>

lemma content_stage_deliver:
  assumes a: "at_input st B N" and nc: "\<not> isClosed (strm st)" and ne: "B \<noteq> []" and sk: "\<not> skip (strm st)"
    and c: "0 < c" "contentLen (strm st) = int c"
    and d: "decode st (B @ N) = (bs, e)"
  shows "\<exists>st'. content_stage k hdr st = Ret ((), st') \<and> filled st bs e (length (B @ N)) st'"
proof -
  define m where "m = min c (length B)"
  have m: "m \<le> length B" "m \<le> c" "0 < m" using c ne by (auto simp: m_def)
  note len = at_input_length [OF a]
  have cnt: "min (int c) (int (buffStop (strm st)) - int (rdNext (strm st))) = int m"
    using len a by (auto simp: m_def at_input_def wf_reader_def)
  have split: "B @ N = take m B @ drop m B @ N" by simp
  let ?s = "(strm st)\<lparr>contentLen := int (c - m), wrNext := rdNext (strm st) + m, stop := rdNext (strm st) + m\<rparr>"
  have st: "content_stage k hdr st = Ret ((), st\<lparr>strm := ?s\<rparr>)"
    using sk c cnt m by (simp add: content_stage_def flowC_def content_part_def cprog_defs Let_def of_nat_diff)
  have "prepend (take m B) (decode (st\<lparr>strm := ?s\<rparr>) (drop m B @ N)) = (bs, e)"
    using d content_deliver [of c "take m B" "eorStop (strm st)" "stype (strm st)" "requestId (req st)"
        "nat (paddingLen (strm st))" "drop m B @ N"] c m sk by (simp flip: split)
  then obtain bs' where bs: "bs = take m B @ bs'" "decode (st\<lparr>strm := ?s\<rparr>) (drop m B @ N) = (bs', e)"
    by (auto simp: prepend_def)
  have "take m B = slice (rdNext (strm st)) (rdNext (strm st) + m) (buff (strm st))"
    "drop m B = slice (rdNext (strm st) + m) (buffStop (strm st)) (buff (strm st))"
    using a len m by (auto simp: at_input_def buffered_def take_slice drop_slice)
  with bs m ne len a nc have "delivers bs e (length (B @ N)) (st\<lparr>strm := ?s\<rparr>)"
    unfolding delivers_def by (auto simp: at_input_def wf_reader_def intro!: exI [of _ bs'] exI [of _ N])
  moreover have "same_reader st (st\<lparr>strm := ?s\<rparr>)" by (intro same_reader_strm [OF a]) simp_all
  moreover have "bs \<noteq> []" using bs m ne by auto
  ultimately show ?thesis using st a by (auto simp: filled_def at_input_def wf_reader_def)
qed

text \<open>Content of another request.\<close>

lemma content_stage_skip:
  assumes k: "fills k" and a: "at_input st B N" and nc: "\<not> isClosed (strm st)" and ne: "B \<noteq> []"
    and sk: "skip (strm st)" and c: "0 < c" "contentLen (strm st) = int c"
    and d: "decode st (B @ N) = (bs, e)" and p: "bs \<noteq> [] \<or> e \<noteq> None" and l: "length (B @ N) < Suc k"
  shows "\<exists>st'. content_stage k [] st = Ret ((), st') \<and> filled st bs e (length (B @ N)) st'"
proof -
  define m where "m = min c (length B)"
  have m: "m \<le> length B" "m \<le> c" "0 < m" using c ne by (auto simp: m_def)
  have cnt: "min (int c) (int (buffStop (strm st)) - int (rdNext (strm st))) = int m"
    using at_input_length [OF a] a by (auto simp: m_def at_input_def wf_reader_def)
  have split: "B @ N = take m B @ drop m B @ N" by simp
  define s1 where "s1 = (strm st)\<lparr>contentLen := int (c - m), rdNext := rdNext (strm st) + m, skip := (m < c)\<rparr>"
  have st: "content_stage k [] st = (if m < c then fill_loop k [] else padding_stage k []) (st\<lparr>strm := s1\<rparr>)"
    using sk c cnt m
    by (cases "strm st")
      (simp add: content_stage_def flowC_def content_part_def cprog_defs Let_def of_nat_diff s1_def)
  have a1: "at_input (st\<lparr>strm := s1\<rparr>) (drop m B) N"
    using a by (intro at_input_advance [OF a m(1)]) (simp_all add: s1_def at_input_def wf_reader_def)
  have sr: "same_reader st (st\<lparr>strm := s1\<rparr>)" by (intro same_reader_strm [OF a]) (simp_all add: s1_def sk)
  have d1: "decode (st\<lparr>strm := s1\<rparr>) (drop m B @ N) = (bs, e)"
    using d content_skip [of c "take m B" "eorStop (strm st)" "stype (strm st)" "requestId (req st)"
        "nat (paddingLen (strm st))" "drop m B @ N"] c m sk by (simp add: s1_def flip: split)
  have lk: "length (drop m B @ N) < k" using l m by auto
  show ?thesis
  proof (cases "m < c")
    case True
    have "fillable k [] (st\<lparr>strm := s1\<rparr>) (drop m B) N bs e"
      using a1 nc d1 p lk by (auto simp: fillable_def s1_def)
    from filledI [OF k this sr, of "length (B @ N)" "content_stage k []"] st True show ?thesis by simp
  next
    case False
    with padding_stage_fills [OF k a1, of "[]" bs e] d1 nc p lk m
    obtain st' where "padding_stage k [] (st\<lparr>strm := s1\<rparr>) = Ret ((), st')"
      "filled (st\<lparr>strm := s1\<rparr>) bs e (length (drop m B @ N)) st'" by (auto simp: s1_def)
    with st False filled_trans [OF sr] show ?thesis by simp
  qed
qed

lemma fills_all: "fills k"
proof (induction k)
  case 0
  show ?case by (simp add: fills_def fillable_def)
next
  case (Suc k)
  show ?case
    unfolding fills_def
  proof (intro allI impI)
    fix hdr st B N bs e
    assume f: "fillable (Suc k) hdr st B N bs e"
    then have a: "at_input st B N" and nc: "\<not> isClosed (strm st)" and l: "length (B @ N) < Suc k"
      and h: "length hdr < 8" and p: "bs \<noteq> [] \<or> e \<noteq> None" and d: "decode st (hdr @ B @ N) = (bs, e)"
      and 0: "hdr \<noteq> [] \<Longrightarrow> contentLen (strm st) = 0 \<and> paddingLen (strm st) = 0 \<and> \<not> eorStop (strm st)"
      by (auto simp: fillable_def)
    have "B @ N \<noteq> []"
    proof
      assume "B @ N = []"
      with d have "decode st hdr = (bs, e)" by simp
      with p h 0 show False by (subst (asm) content.simps) (cases hdr; auto split: if_splits)
    qed
    from refill_buffer [OF a this] obtain st1 B1 N1 where
      1: "refill st = Ret (Next, st1)" "at_input st1 B1 N1" "B1 \<noteq> []" "B1 @ N1 = B @ N" "same_reader st st1"
        "contentLen (strm st1) = contentLen (strm st)" "paddingLen (strm st1) = paddingLen (strm st)"
        "skip (strm st1) = skip (strm st)" "isClosed (strm st1) = isClosed (strm st)" by blast
    have d1: "decode st1 (hdr @ B1 @ N1) = (bs, e)" and nc1: "\<not> isClosed (strm st1)"
      using d nc 1 by (auto simp: same_reader_def)
    define c where "c = nat (contentLen (strm st1))"
    have "\<exists>st'. content_stage k hdr st1 = Ret ((), st') \<and> filled st1 bs e (length (B1 @ N1)) st'"
    proof (cases "0 < contentLen (strm st1)")
      case True
      then have c: "0 < c" "contentLen (strm st1) = int c" by (simp_all add: c_def)
      with 0 1(6) have hd: "hdr = []" by auto
      show ?thesis
      proof (cases "skip (strm st1)")
        case True
        with content_stage_skip [OF Suc 1(2) nc1 1(3) True c, of bs e] d1 p l 1(4) hd show ?thesis by simp
      next
        case False
        with content_stage_deliver [OF 1(2) nc1 1(3) False c, of bs e k hdr] d1 hd show ?thesis by simp
      qed
    next
      case False
      then have c0: "contentLen (strm st1) = 0" using 1(2) by (simp add: at_input_def wf_reader_def)
      then have "content_stage k hdr st1 = padding_stage k hdr st1"
        by (simp add: content_stage_def flowC_def content_part_def cprog_defs)
      moreover have "hdr \<noteq> [] \<Longrightarrow> paddingLen (strm st1) = 0 \<and> \<not> eorStop (strm st1)"
        using 0 1(5,7) by (auto simp: same_reader_def)
      ultimately show ?thesis
        using padding_stage_fills [OF Suc 1(2) nc1 h c0 _ d1 p] l 1(3,4) by simp
    qed
    with 1(1,4,5) show "\<exists>st'. fill_loop (Suc k) hdr st = Ret ((), st') \<and> filled st bs e (length (B @ N)) st'"
      unfolding fill_loop_stages by (auto simp: flowC_def bindC_def intro: filled_trans)
  qed
qed

section \<open>A reader as a source of bytes\<close>

text \<open>
  \<open>reads K st bs e\<close>: the application still gets \<open>bs\<close> from the stream, and then, if \<open>e\<close> says so, its
  end; \<open>K\<close> is fuel enough to fill the buffer.
\<close>

definition open_reader :: "nat \<Rightarrow> sio \<Rightarrow> byte list \<Rightarrow> byte list option \<Rightarrow> bool" where
  "open_reader K st bs e \<longleftrightarrow> \<not> isClosed (strm st) \<and>
     rdNext (strm st) \<le> stop (strm st) \<and> stop (strm st) \<le> buffStop (strm st) \<and>
     (\<exists>bs' N. bs = slice (rdNext (strm st)) (stop (strm st)) (buff (strm st)) @ bs' \<and>
        net (fd_of st) (kern st) N \<and>
        decode st (slice (stop (strm st)) (buffStop (strm st)) (buff (strm st)) @ N) = (bs', e) \<and>
        buffStop (strm st) - rdNext (strm st) + length N < K)"

definition reads :: "nat \<Rightarrow> sio \<Rightarrow> byte list \<Rightarrow> byte list option \<Rightarrow> bool" where
  "reads K st bs e \<longleftrightarrow> wf_reader (strm st) \<and>
     (if isClosed (strm st) then bs = [] \<and> (\<exists>n<K. ends e n st) else open_reader K st bs e)"

lemma reads_stopUnget: "reads K (st\<lparr>strm := (strm st)\<lparr>stopUnget := x\<rparr>\<rparr>) bs e \<longleftrightarrow> reads K st bs e"
  by (simp add: reads_def open_reader_def wf_reader_def ends_def at_input_def buffered_def)

lemma same_reader_stopUnget: "same_reader a (st\<lparr>strm := (strm st)\<lparr>stopUnget := x\<rparr>\<rparr>) \<longleftrightarrow> same_reader a st"
  by (simp add: same_reader_def)

lemma same_reader_fd: "same_reader a b \<Longrightarrow> fd_of b = fd_of a"
  by (simp add: same_reader_def)

text \<open>Filling the buffer of an open reader that has nothing buffered for the application.\<close>

lemma FillBuffProc_reads:
  assumes r: "reads K st bs e" and nc: "\<not> isClosed (strm st)" and s: "rdNext (strm st) = stop (strm st)"
    and p: "bs \<noteq> [] \<or> e \<noteq> None"
  shows "\<exists>st'. FillBuffProc K st = Ret ((), st') \<and> reads K st' bs e \<and> same_reader st st' \<and>
    (isClosed (strm st') \<longleftrightarrow> bs = []) \<and> (bs \<noteq> [] \<longrightarrow> rdNext (strm st') < stop (strm st'))"
proof -
  from r nc s obtain N where N: "net (fd_of st) (kern st) N"
    "decode st (slice (stop (strm st)) (buffStop (strm st)) (buff (strm st)) @ N) = (bs, e)"
    "buffStop (strm st) - rdNext (strm st) + length N < K" and w: "wf_reader (strm st)"
    by (auto simp: reads_def open_reader_def)
  define B where "B = slice (rdNext (strm st)) (buffStop (strm st)) (buff (strm st))"
  have a: "at_input st B N" using w N by (simp add: at_input_def B_def buffered_def)
  have lB: "length (B @ N) < K" using N(3) at_input_length [OF a] by simp
  have "fillable K [] st B N bs e"
    using a nc lB N(2) p s by (simp add: fillable_def B_def)
  with fills_all [of K] obtain st' where st': "fill_loop K [] st = Ret ((), st')"
    "filled st bs e (length (B @ N)) st'" unfolding fills_def by blast
  have "reads K st' bs e \<and> (isClosed (strm st') \<longleftrightarrow> bs = []) \<and> (bs \<noteq> [] \<longrightarrow> rdNext (strm st') < stop (strm st'))"
  proof (cases "bs = []")
    case True
    with st'(2) lB show ?thesis by (auto simp: filled_def reads_def ends_def)
  next
    case False
    with st'(2) have d: "delivers bs e (length (B @ N)) st'" "wf_reader (strm st')" by (auto simp: filled_def)
    with lB have "open_reader K st' bs e"
      unfolding delivers_def open_reader_def by (elim conjE exE) (intro conjI exI, assumption, simp, assumption+, simp)
    with False d show ?thesis by (simp add: reads_def delivers_def)
  qed
  with st' show ?thesis by (auto simp: FillBuffProc_def filled_def)
qed

text \<open>Taking bytes that are buffered for the application.\<close>

lemma take_buffered:
  assumes r: "reads K st bs e" and nc: "\<not> isClosed (strm st)" and m: "m \<le> stop (strm st) - rdNext (strm st)"
  defines "st' \<equiv> st\<lparr>strm := (strm st)\<lparr>rdNext := rdNext (strm st) + m\<rparr>\<rparr>"
  shows "fetch_bytes (rdNext (strm st)) m st = Ret (take m bs, st)" and "m \<le> length bs"
    and "reads K st' (drop m bs) e" and "same_reader st st'"
proof -
  from r nc obtain N bs' where N: "net (fd_of st) (kern st) N"
    "decode st (slice (stop (strm st)) (buffStop (strm st)) (buff (strm st)) @ N) = (bs', e)"
    "buffStop (strm st) - rdNext (strm st) + length N < K"
    "bs = slice (rdNext (strm st)) (stop (strm st)) (buff (strm st)) @ bs'"
    "rdNext (strm st) \<le> stop (strm st)" "stop (strm st) \<le> buffStop (strm st)" and w: "wf_reader (strm st)"
    by (auto simp: reads_def open_reader_def)
  let ?s = "slice (rdNext (strm st)) (stop (strm st)) (buff (strm st))"
  have ls: "length ?s = stop (strm st) - rdNext (strm st)" "stop (strm st) \<le> length (buff (strm st))"
    using N w by (auto simp: length_slice wf_reader_def)
  show "m \<le> length bs" using ls m N(4) by simp
  have "take m bs = slice (rdNext (strm st)) (rdNext (strm st) + m) (buff (strm st))"
    using N(4) ls m by (simp add: take_slice)
  then show "fetch_bytes (rdNext (strm st)) m st = Ret (take m bs, st)"
    using m N(5) ls by (simp add: fetch_bytes_def Let_def slice_def)
  have "drop m bs = slice (rdNext (strm st) + m) (stop (strm st)) (buff (strm st)) @ bs'"
    using N(4) ls m by (simp add: drop_slice)
  then show "reads K st' (drop m bs) e"
    using N w m nc unfolding reads_def open_reader_def st'_def
    by (auto simp: wf_reader_def intro!: exI [of _ bs'] exI [of _ N])
  show "same_reader st st'"
    using N(1) by (auto simp: same_reader_def st'_def intro: rx_only_refl)
qed

lemma next_byte_reads:
  assumes "reads K st (b # bs) e" and "\<not> isClosed (strm st)" and "rdNext (strm st) < stop (strm st)"
  shows "\<exists>st'. next_byte st = Ret (uint b, st') \<and> reads K st' bs e \<and> same_reader st st'"
  using take_buffered [OF assms(1,2), of 1] assms(3)
  by (simp add: next_byte_def cprog_defs)

lemma FCGX_GetChar_reads:
  assumes r: "reads K st (b # bs) e"
  shows "\<exists>st'. FCGX_GetChar (FillBuffProc K) st = Ret (uint b, st') \<and> reads K st' bs e \<and> same_reader st st'"
proof -
  have st: "\<not> isClosed (strm st)" "isReader (strm st)" "rdNext (strm st) \<le> stop (strm st)"
    using r by (auto simp: reads_def open_reader_def wf_reader_def split: if_splits)
  show ?thesis
  proof (cases "rdNext (strm st) = stop (strm st)")
    case False
    with next_byte_reads [OF r] st show ?thesis by (simp add: FCGX_GetChar_def withS_def [where ?s = st])
  next
    case True
    with FillBuffProc_reads [OF r st(1)] obtain st1 where 1: "FillBuffProc K st = Ret ((), st1)"
      "reads K st1 (b # bs) e" "same_reader st st1" "\<not> isClosed (strm st1)" "rdNext (strm st1) < stop (strm st1)"
      by auto
    define st2 where "st2 = st1\<lparr>strm := (strm st1)\<lparr>stopUnget := rdNext (strm st1)\<rparr>\<rparr>"
    have "reads K st2 (b # bs) e" "\<not> isClosed (strm st2)" "rdNext (strm st2) < stop (strm st2)"
      "same_reader st st2"
      using 1 by (simp_all add: st2_def reads_stopUnget same_reader_stopUnget)
    with next_byte_reads [of K st2 b bs e] True st 1 same_reader_trans [of st st2] show ?thesis
      by (auto simp: FCGX_GetChar_def withS_def seqC_def bindC_def modS_def st2_def [symmetric])
  qed
qed

lemma FCGX_GetChar_end:
  assumes r: "reads K st [] (Some rest)"
  shows "\<exists>st'. FCGX_GetChar (FillBuffProc K) st = Ret (EOF, st') \<and> reads K st' [] (Some rest) \<and>
    isClosed (strm st') \<and> (\<exists>n. ends (Some rest) n st') \<and> (isClosed (strm st) \<and> st' = st \<or> same_reader st st')"
proof (cases "isClosed (strm st)")
  case True
  with r show ?thesis
    by (auto simp: FCGX_GetChar_def withS_def retC_def reads_def)
next
  case False
  with r have st: "isReader (strm st)" "rdNext (strm st) = stop (strm st)"
    by (auto simp: reads_def open_reader_def wf_reader_def slice_def)
  with FillBuffProc_reads [OF r False] obtain st1 where "FillBuffProc K st = Ret ((), st1)"
    "reads K st1 [] (Some rest)" "same_reader st st1" "isClosed (strm st1)" by auto
  with False st show ?thesis
    by (auto simp: FCGX_GetChar_def withS_def seqC_def bindC_def retC_def reads_def)
qed

text \<open>One round of the general case of \<open>FCGX_GetStr\<close>.\<close>

lemma get_loop_step:
  assumes r: "reads K st bs e" and nc: "\<not> isClosed (strm st)" and l: "length moved < n"
    and p: "n \<le> length moved + length bs \<or> e \<noteq> None"
  defines "m \<equiv> if rdNext (strm st) \<noteq> stop (strm st) then min (n - length moved) (stop (strm st) - rdNext (strm st)) else 0"
  shows "(\<exists>st'. get_loop (Suc k) (FillBuffProc K) n moved st = Ret (moved @ take m bs, st') \<and>
        reads K st' (drop m bs) e \<and> same_reader st st' \<and> (m = n - length moved \<or> drop m bs = [])) \<or>
    (\<exists>st'. get_loop (Suc k) (FillBuffProc K) n moved st = get_loop k (FillBuffProc K) n (moved @ take m bs) st' \<and>
        reads K st' (drop m bs) e \<and> same_reader st st' \<and> length moved + m < n \<and> m \<le> length bs \<and>
        \<not> isClosed (strm st') \<and> rdNext (strm st') < stop (strm st'))"
proof -
  define s where "s = strm st"
  have m: "m \<le> stop (strm st) - rdNext (strm st)" by (auto simp: m_def)
  have rd: "isReader s" "\<not> isClosed s" "rdNext s \<le> stop s"
    using r nc by (auto simp: reads_def open_reader_def wf_reader_def s_def)
  define st1 where "st1 = st\<lparr>strm := (strm st)\<lparr>rdNext := rdNext (strm st) + m\<rparr>\<rparr>"
  note t = take_buffered [OF r nc m, folded st1_def]
  define Y where "Y mv = seqC (FillBuffProc K) (withS (\<lambda>s. if isClosed s then retC mv
      else seqC (modS (\<lambda>s. s\<lparr>stopUnget := rdNext s\<rparr>)) (get_loop k (FillBuffProc K) n mv)))" for mv
  define X where "X x = (if rdNext s \<noteq> stop s \<and> length (moved @ x) = n then retC (moved @ x)
      else if isClosed s \<or> \<not> isReader s then retC (moved @ x) else Y (moved @ x))" for x
  have "get_loop (Suc k) (FillBuffProc K) n moved st =
      bindC (fetch_bytes (rdNext (strm st)) m) (\<lambda>x. seqC (modS (\<lambda>s. s\<lparr>rdNext := rdNext s + m\<rparr>)) (X x)) st"
    by (simp only: get_loop.simps withS_def Let_def m_def s_def X_def Y_def)
  also have "\<dots> = X (take m bs) st1"
    using t(1) by (simp add: bindC_def seqC_def modS_def st1_def)
  finally have step: "get_loop (Suc k) (FillBuffProc K) n moved st = X (take m bs) st1" .
  have lt: "length (take m bs) = m" using t(2) by simp
  show ?thesis
  proof (cases "rdNext s \<noteq> stop s \<and> length (moved @ take m bs) = n")
    case True
    then have "m = n - length moved" using lt by auto
    with True step t(3,4) show ?thesis by (auto simp: X_def retC_def)
  next
    case False
    have fin: "m = stop s - rdNext s" "length moved + m < n"
      using False lt rd l by (auto simp: m_def min_def s_def split: if_splits)
    then have "rdNext (strm st1) = stop (strm st1)" "\<not> isClosed (strm st1)"
      using rd by (simp_all add: st1_def s_def)
    moreover have "drop m bs \<noteq> [] \<or> e \<noteq> None" using p fin(2) by auto
    ultimately obtain st2 where 2: "FillBuffProc K st1 = Ret ((), st2)" "reads K st2 (drop m bs) e"
      "same_reader st1 st2" "isClosed (strm st2) \<longleftrightarrow> drop m bs = []"
      "drop m bs \<noteq> [] \<Longrightarrow> rdNext (strm st2) < stop (strm st2)"
      using FillBuffProc_reads [OF t(3)] by blast
    define st3 where "st3 = st2\<lparr>strm := (strm st2)\<lparr>stopUnget := rdNext (strm st2)\<rparr>\<rparr>"
    have "same_reader st st2" using t(4) 2(3) by (rule same_reader_trans)
    moreover have "X (take m bs) st1 = (if isClosed (strm st2) then retC (moved @ take m bs) st2
        else get_loop k (FillBuffProc K) n (moved @ take m bs) st3)"
      using False rd 2(1) by (auto simp: X_def Y_def seqC_def bindC_def withS_def modS_def st3_def)
    moreover have "reads K st3 (drop m bs) e" "same_reader st st3"
      "isClosed (strm st3) = isClosed (strm st2)" "rdNext (strm st3) = rdNext (strm st2)" "stop (strm st3) = stop (strm st2)"
      using 2(2) \<open>same_reader st st2\<close> by (simp_all add: st3_def reads_stopUnget same_reader_stopUnget)
    ultimately show ?thesis
      using step 2 fin(2) t(2) by (cases "drop m bs = []") (auto simp: retC_def)
  qed
qed

text \<open>The whole loop: enough bytes, or all there are before the end.\<close>

lemma get_loop_reads:
  assumes "reads K st bs e" and "\<not> isClosed (strm st)" and "length moved < n"
    and "length bs + (if rdNext (strm st) = stop (strm st) then 2 else 1) \<le> k"
    and "n \<le> length moved + length bs \<or> e \<noteq> None"
  shows "\<exists>st'. get_loop k (FillBuffProc K) n moved st = Ret (moved @ take (n - length moved) bs, st') \<and>
    reads K st' (drop (n - length moved) bs) e \<and> same_reader st st'"
  using assms
proof (induction k arbitrary: st bs moved)
  case 0
  then show ?case by (simp split: if_splits)
next
  case (Suc k)
  define m where "m = (if rdNext (strm st) \<noteq> stop (strm st) then min (n - length moved) (stop (strm st) - rdNext (strm st)) else 0)"
  from get_loop_step [OF Suc.prems(1-3,5), of k, folded m_def]
  consider st' where "get_loop (Suc k) (FillBuffProc K) n moved st = Ret (moved @ take m bs, st')"
      "reads K st' (drop m bs) e" "same_reader st st'" "m = n - length moved \<or> drop m bs = []"
    | st' where "get_loop (Suc k) (FillBuffProc K) n moved st = get_loop k (FillBuffProc K) n (moved @ take m bs) st'"
      "reads K st' (drop m bs) e" "same_reader st st'" "length moved + m < n" "m \<le> length bs"
      "\<not> isClosed (strm st')" "rdNext (strm st') < stop (strm st')"
    by blast
  then show ?case
  proof cases
    case 1
    have "m \<le> n - length moved" by (auto simp: m_def)
    with 1(4) have "take m bs = take (n - length moved) bs" "drop m bs = drop (n - length moved) bs" by auto
    with 1 show ?thesis by auto
  next
    case 2
    have pos: "0 < m" if "rdNext (strm st) \<noteq> stop (strm st)"
      using that Suc.prems(1-3) by (auto simp: m_def reads_def open_reader_def)
    have "length (drop m bs) + 1 \<le> k"
      using Suc.prems(4) 2(5) pos by (cases "rdNext (strm st) = stop (strm st)") auto
    with Suc.IH [OF 2(2,6), of "moved @ take m bs"] 2 Suc.prems(5) obtain st'' where
      "get_loop k (FillBuffProc K) n (moved @ take m bs) st' =
        Ret ((moved @ take m bs) @ take (n - length (moved @ take m bs)) (drop m bs), st'')"
      "reads K st'' (drop (n - length (moved @ take m bs)) (drop m bs)) e" "same_reader st' st''"
      by auto
    moreover have "take m bs @ take (n - length moved - m) (drop m bs) = take (n - length moved) bs"
      "n - length moved = m + (n - length moved - m)"
      using 2(4) by (simp_all add: take_add [symmetric])
    ultimately show ?thesis
      using 2 same_reader_trans [OF 2(3)] by (auto simp: drop_drop)
  qed
qed

lemma FCGX_GetStr_reads:
  assumes r: "reads K st bs e" and n: "nat n \<le> length bs \<or> e \<noteq> None" and k: "length bs + 2 \<le> k"
  shows "\<exists>st'. FCGX_GetStr k (FillBuffProc K) n st = Ret (take (nat n) bs, st') \<and>
    reads K st' (drop (nat n) bs) e \<and> (st' = st \<or> same_reader st st')"
proof (cases "isClosed (strm st) \<or> n \<le> 0")
  case True
  then have "take (nat n) bs = []" "drop (nat n) bs = bs" using r by (auto simp: reads_def)
  with True r show ?thesis by (auto simp: FCGX_GetStr_def withS_def retC_def)
next
  case False
  have rd: "isReader (strm st)" using r by (simp add: reads_def wf_reader_def)
  show ?thesis
  proof (cases "nat n \<le> stop (strm st) - rdNext (strm st)")
    case True
    with take_buffered [OF r _ True] False rd show ?thesis
      by (auto simp: FCGX_GetStr_def withS_def bindC_def seqC_def modS_def retC_def)
  next
    case F: False
    have fuel: "length bs + (if rdNext (strm st) = stop (strm st) then 2 else 1) \<le> k" using k by simp
    show ?thesis
      using get_loop_reads [OF r _ _ fuel, of "[]" "nat n"] F False rd n
      by (auto simp: FCGX_GetStr_def withS_def)
  qed
qed

end
