(* ===== verification/Fcgi_Params.thy ===== *)
theory Fcgi_Params
  imports Fcgi_Reader_Correct
begin

text \<open>
  Records as a client sends them, what the decoder of \<open>Fcgi_Reader_Correct\<close> makes of them, and the
  name-value pairs of the parameters: encoding, and \<open>ReadParams\<close> on an encoded list. \<open>ReadParams\<close>
  relies on the reading operations of a stream through the locale \<open>byte_source\<close>.
\<close>

section \<open>Records in the input\<close>

definition packet :: "int \<Rightarrow> int \<Rightarrow> byte list \<Rightarrow> byte list \<Rightarrow> byte list" where
  "packet T rid c z = frame_header T rid (length c) (length z) @ c @ z"

definition ident :: "int \<Rightarrow> bool" where
  "ident i \<longleftrightarrow> 0 < i \<and> i < 65536"

definition small_packet :: "int \<Rightarrow> byte list \<Rightarrow> byte list \<Rightarrow> bool" where
  "small_packet T c z \<longleftrightarrow> 0 \<le> T \<and> T < 256 \<and> length c < 65536 \<and> length z < 256"

lemma frame_packet: "frame T rid c = packet T rid c (replicate (padding (length c)) 0)"
  by (simp add: frame_def packet_def)

lemma of_int_byte_id: "0 \<le> rid \<Longrightarrow> rid < 65536 \<Longrightarrow> two_bytes (word_of_int (rid div 256)) (word_of_int rid) = rid"
  using two_bytes_shifted [of rid] by (simp add: shifted_word)

lemma of_nat_byte_id:
  assumes "n < 65536"
  shows "two_bytes (of_nat (n div 256)) (of_nat n) = int n"
proof -
  have "(word_of_int (int n div 256) :: byte) = of_nat (n div 256)" "(word_of_int (int n) :: byte) = of_nat n"
    by (metis of_int_of_nat_eq of_nat_numeral zdiv_int) simp
  with of_int_byte_id [of "int n"] assms show ?thesis by simp
qed

lemma packet_header:
  assumes "small_packet T c z" and "0 \<le> rid" and "rid < 65536"
  defines "h \<equiv> bytes_header (frame_header T rid (length c) (length z))"
  shows "uint (version h) = 1" "uint (htype h) = T" "two_bytes (requestIdB1 h) (requestIdB0 h) = rid"
    "two_bytes (contentLengthB1 h) (contentLengthB0 h) = int (length c)" "unat (paddingLength h) = length z"
  using assms of_int_byte_id of_nat_byte_id
  by (simp_all add: small_packet_def frame_header_def unsigned_of_int take_bit_int_eq_self unsigned_of_nat take_bit_nat_eq_self)

lemma content_after: "content eor T rid 0 (length z) False (z @ W) = content eor T rid 0 0 False W"
  using content_padding [of "length z" z eor T rid False W] by (cases "z = []") simp_all

lemma content_own:
  assumes "small_packet T c z" "T \<noteq> FCGI_BEGIN_REQUEST" "ident rid" "c \<noteq> []"
  shows "content False T rid 0 0 False (packet T rid c z @ W) = prepend c (content False T rid 0 0 False W)"
  using assms packet_header [of T c z rid] content_deliver [of "length c" c False T rid "length z" "z @ W"]
  by (simp add: packet_def content_header ident_def Let_def content_after)

lemma content_eof:
  assumes "small_packet T [] z" "T \<noteq> FCGI_BEGIN_REQUEST" "ident rid"
  shows "content False T rid 0 0 sk (packet T rid [] z @ W) = ([], Some (z @ W))"
  using assms packet_header [of T "[]" z rid] by (simp add: packet_def content_header ident_def Let_def)

lemma content_foreign:
  assumes "small_packet T' c z" "T' \<noteq> FCGI_BEGIN_REQUEST" "ident i" "i \<noteq> rid" "c \<noteq> []"
  shows "content False T rid 0 0 sk (packet T' i c z @ W) = content False T rid 0 0 False W"
  using assms packet_header [of T' c z i] content_skip [of "length c" c False T rid "length z" "z @ W"]
  by (simp add: packet_def content_header ident_def Let_def content_after)

text \<open>
  A record of another request that has no content makes the decoder skip the content of the next
  record of its own request.
\<close>

lemma content_foreign_empty:
  assumes "small_packet T' [] z" "T' \<noteq> FCGI_BEGIN_REQUEST" "ident i" "i \<noteq> rid"
    and own: "small_packet T c y" "T \<noteq> FCGI_BEGIN_REQUEST" "ident rid" "c \<noteq> []"
  shows "content False T rid 0 0 False (packet T' i [] z @ packet T rid c y @ W) = content False T rid 0 0 False W"
proof -
  have "content False T rid 0 0 False (packet T' i [] z @ packet T rid c y @ W)
      = content False T rid 0 (length z) True (z @ packet T rid c y @ W)"
    using assms(1-4) packet_header [of T' "[]" z i] by (simp add: packet_def content_header ident_def Let_def)
  also have "\<dots> = content False T rid 0 0 True (packet T rid c y @ W)"
    using content_padding [of "length z" z False T rid True "packet T rid c y @ W"] by (cases "z = []") simp_all
  also have "\<dots> = content False T rid 0 0 False W"
    using own packet_header [of T c y rid] content_skip [of "length c" c False T rid "length y" "y @ W"]
    by (simp add: packet_def content_header ident_def Let_def content_after)
  finally show ?thesis .
qed

text \<open>The records of an input stream: own ones and those of other requests, none empty.\<close>

type_synonym rec = "int \<times> int \<times> byte list \<times> byte list"

fun rec_bytes :: "rec \<Rightarrow> byte list" where
  "rec_bytes (T, i, c, z) = packet T i c z"

fun stream_rec :: "int \<Rightarrow> int \<Rightarrow> rec \<Rightarrow> bool" where
  "stream_rec T rid (T', i, c, z) \<longleftrightarrow>
     small_packet T' c z \<and> T' \<noteq> FCGI_BEGIN_REQUEST \<and> ident i \<and> c \<noteq> [] \<and> (i = rid \<longrightarrow> T' = T)"

fun own_content :: "int \<Rightarrow> rec \<Rightarrow> byte list" where
  "own_content rid (T, i, c, z) = (if i = rid then c else [])"

definition input_stream :: "int \<Rightarrow> int \<Rightarrow> rec list \<Rightarrow> byte list" where
  "input_stream T rid rs = concat (map rec_bytes rs) @ packet T rid [] []"

lemma content_records:
  assumes "list_all (stream_rec T rid) rs"
  shows "content False T rid 0 0 False (concat (map rec_bytes rs) @ W) =
    prepend (concat (map (own_content rid) rs)) (content False T rid 0 0 False W)"
  using assms
proof (induction rs)
  case (Cons r rs)
  obtain T' i c z where r: "r = (T', i, c, z)" by (cases r)
  show ?case
  proof (cases "i = rid")
    case True
    with Cons r show ?thesis by (clarsimp simp: content_own prepend_prepend)
  next
    case False
    with Cons r show ?thesis by (simp add: content_foreign)
  qed
qed simp

lemma content_stream:
  assumes "list_all (stream_rec T rid) rs" and "0 \<le> T" "T < 256" "T \<noteq> FCGI_BEGIN_REQUEST" "ident rid"
  shows "content False T rid 0 0 False (input_stream T rid rs @ W) = (concat (map (own_content rid) rs), Some W)"
  using content_records [OF assms(1)] content_eof [of T "[]" rid False W] assms(2-)
  by (simp add: input_stream_def small_packet_def prepend_def)

section \<open>A source of bytes\<close>

text \<open>
  What \<open>ReadParams\<close> needs of a stream. \<open>holds st bs\<close> says that the stream gives \<open>bs\<close> and then its
  end; \<open>ended st\<close> that the end was seen; \<open>keeps\<close> relates the states between which only input was
  taken.
\<close>

locale byte_source =
  fixes fill :: "unit cprog" and holds :: "sio \<Rightarrow> byte list \<Rightarrow> bool" and ended :: "sio \<Rightarrow> bool"
    and keeps :: "sio \<Rightarrow> sio \<Rightarrow> bool"
  assumes getc_byte: "holds st (b # bs) \<Longrightarrow> \<exists>st'. FCGX_GetChar fill st = Ret (uint b, st') \<and> holds st' bs \<and> keeps st st'"
    and getc_end: "holds st [] \<Longrightarrow> \<exists>st'. FCGX_GetChar fill st = Ret (EOF, st') \<and>
      holds st' [] \<and> ended st' \<and> keeps st st'"
    and gets: "holds st bs \<Longrightarrow> length bs + 2 \<le> k \<Longrightarrow>
      \<exists>st'. FCGX_GetStr k fill n st = Ret (take (nat n) bs, st') \<and> holds st' (drop (nat n) bs) \<and> keeps st st'"
    and keeps_refl: "keeps st st"
    and keeps_trans: "keeps st1 st2 \<Longrightarrow> keeps st2 st3 \<Longrightarrow> keeps st1 st3"

definition taken :: "sio \<Rightarrow> sio \<Rightarrow> bool" where
  "taken a b \<longleftrightarrow> a = b \<or> same_reader a b"

lemma taken_refl: "taken st st"
  by (simp add: taken_def)

lemma taken_trans: "taken a b \<Longrightarrow> taken b c \<Longrightarrow> taken a c"
  unfolding taken_def using same_reader_trans [of a b c] by blast

definition gives :: "nat \<Rightarrow> byte list \<Rightarrow> sio \<Rightarrow> byte list \<Rightarrow> bool" where
  "gives K rest st bs \<longleftrightarrow> reads K st bs (Some rest)"

interpretation fcgx: byte_source "FillBuffProc K" "gives K rest" "\<lambda>st. isClosed (strm st)" taken
proof unfold_locales
  show "gives K rest st (b # bs) \<Longrightarrow> \<exists>st'. FCGX_GetChar (FillBuffProc K) st = Ret (uint b, st') \<and>
      gives K rest st' bs \<and> taken st st'" for st b bs
    using FCGX_GetChar_reads [of K st b bs "Some rest"] by (auto simp: gives_def taken_def)
  show "gives K rest st [] \<Longrightarrow> \<exists>st'. FCGX_GetChar (FillBuffProc K) st = Ret (EOF, st') \<and>
      gives K rest st' [] \<and> isClosed (strm st') \<and> taken st st'" for st
    using FCGX_GetChar_end [of K st rest] by (auto simp: gives_def taken_def)
  show "gives K rest st bs \<Longrightarrow> length bs + 2 \<le> k \<Longrightarrow>
      \<exists>st'. FCGX_GetStr k (FillBuffProc K) n st = Ret (take (nat n) bs, st') \<and>
        gives K rest st' (drop (nat n) bs) \<and> taken st st'" for st bs k n
    using FCGX_GetStr_reads [of K st bs "Some rest" n k] by (auto simp: gives_def taken_def)
qed (rule taken_refl, rule taken_trans)

section \<open>Name-value pairs\<close>

text \<open>The encoding of lengths and pairs that the FastCGI specification gives.\<close>

definition encode_length :: "nat \<Rightarrow> byte list" where
  "encode_length n =
     (if n < 128 then [of_nat n]
      else [of_nat (n div 2 ^ 24 + 128), of_nat (n div 2 ^ 16), of_nat (n div 2 ^ 8), of_nat n])"

fun encode_pair :: "byte list \<times> byte list \<Rightarrow> byte list" where
  "encode_pair (n, v) = encode_length (length n) @ encode_length (length v) @ n @ v"

fun pair_entry :: "byte list \<times> byte list \<Rightarrow> byte list" where
  "pair_entry (n, v) = n @ [equals_sign] @ v"

fun pair_fits :: "byte list \<times> byte list \<Rightarrow> bool" where
  "pair_fits (n, v) \<longleftrightarrow> length n + length v + 2 < 2 ^ 31"

definition wf_params :: "params \<Rightarrow> bool" where
  "wf_params p \<longleftrightarrow> length (pvec p) < plength p"

lemma PutParam_wf:
  assumes "wf_params p"
  shows "\<exists>p'. PutParam p e = Ret p' \<and> wf_params p' \<and> pvec p' = pvec p @ [e] \<and> plength p \<le> plength p'"
  using assms by (auto simp: PutParam_def wf_params_def Let_def)

lemma unat_length_byte: "unat (of_nat n :: byte) = n mod 256"
  by (simp add: unsigned_of_nat take_bit_eq_mod)

lemma uint_length_byte: "uint (of_nat n :: byte) = int (n mod 256)"
  by (simp flip: unat_length_byte)

lemma length_mark:
  fixes b :: int
  assumes "0 \<le> b" and "b < 256"
  shows "b AND 0x80 \<noteq> 0 \<longleftrightarrow> 128 \<le> b"
proof -
  have "b AND 2 ^ 7 = 0 \<longleftrightarrow> even (b div 2 ^ 7)" by (simp only: and_exp_eq_0_iff_not_bit bit_iff_odd not_not)
  also have "b div 2 ^ 7 = (if b < 128 then 0 else 1)" using assms by (auto simp: div_pos_pos_trivial)
  also have "even (if b < 128 then 0 else 1 :: int) \<longleftrightarrow> b < 128" by simp
  finally show ?thesis by auto
qed

lemma and_127: "(x :: int) AND 127 = x mod 128"
  using take_bit_eq_mask [of 7 x] by (simp add: mask_eq_exp_minus_1 take_bit_eq_mod)

lemma base_256: "(n :: nat) div 2 ^ 24 * 2 ^ 24 + n div 2 ^ 16 mod 256 * 2 ^ 16 + n div 2 ^ 8 mod 256 * 2 ^ 8 + n mod 256 = n"
proof -
  define a b c where "a = n div 256" and "b = a div 256" and "c = b div 256"
  have "n = a * 256 + n mod 256" "a = b * 256 + a mod 256" "b = c * 256 + b mod 256"
    by (simp_all add: a_def b_def c_def)
  moreover have "n div 2 ^ 8 = a" "n div 2 ^ 16 = b" "n div 2 ^ 24 = c"
    by (simp_all add: a_def b_def c_def div_mult2_eq [symmetric])
  ultimately show ?thesis by simp
qed

lemma four_bytes_encode:
  assumes "n < 2 ^ 31"
  shows "four_bytes (uint (of_nat (n div 2 ^ 24 + 128) :: byte)) [of_nat (n div 2 ^ 16), of_nat (n div 2 ^ 8), of_nat n] = int n"
proof -
  define a b c d where "a = n div 2 ^ 24" and "b = n div 2 ^ 16 mod 256" and "c = n div 2 ^ 8 mod 256" and "d = n mod 256"
  have "a < 128" using assms by (simp add: a_def)
  then have "uint (of_nat (a + 128) :: byte) AND 0x7f = int a"
    unfolding uint_length_byte and_127 by simp
  then have "four_bytes (uint (of_nat (a + 128) :: byte)) [of_nat (n div 2 ^ 16), of_nat (n div 2 ^ 8), of_nat n]
      = int (a * 2 ^ 24 + b * 2 ^ 16 + c * 2 ^ 8 + d)"
    unfolding four_bytes_def uint_length_byte by (simp add: push_bit_eq_mult uint_length_byte b_def c_def d_def)
  also have "a * 2 ^ 24 + b * 2 ^ 16 + c * 2 ^ 8 + d = n"
    unfolding a_def b_def c_def d_def by (rule base_256)
  finally show ?thesis unfolding a_def .
qed

section \<open>Reading parameters\<close>

text \<open>The first byte of a pair, or of its second length, and the length it starts.\<close>

definition get_length :: "nat \<Rightarrow> unit cprog \<Rightarrow> 'a cprog \<Rightarrow> (int option \<Rightarrow> 'a cprog) \<Rightarrow> 'a cprog" where
  "get_length k fill at_end f =
     bindC (FCGX_GetChar fill) (\<lambda>b. if b = EOF then at_end else bindC (read_length k fill b) f)"

lemma ReadParams_Suc:
  "ReadParams (Suc k) fill p =
     get_length k fill (retC (0, p)) (\<lambda>nl. case nl of None \<Rightarrow> params_error p | Some nameLen \<Rightarrow>
       get_length k fill (params_error p) (\<lambda>vl. case vl of None \<Rightarrow> params_error p | Some valueLen \<Rightarrow>
         bindC (read_pair k fill nameLen valueLen) (\<lambda>e. case e of None \<Rightarrow> params_error p | Some nameValue \<Rightarrow>
           bindC (liftC (PutParam p nameValue)) (\<lambda>p'. ReadParams k fill p'))))"
  by (simp only: ReadParams.simps get_length_def)

lemma sint_int32: "0 \<le> x \<Longrightarrow> x < 2 ^ 31 \<Longrightarrow> sint (word_of_int x :: 32 word) = x"
  by (simp add: sint_uint unsigned_of_int take_bit_int_eq_self signed_take_bit_int_eq_self)

lemma entry_size_fits: "pair_fits (n, v) \<Longrightarrow> entry_size (int (length n)) (int (length v)) = int (length n + length v + 2)"
  unfolding entry_size_def by (subst sint_int32) simp_all

context byte_source
begin

lemma get_length_end:
  assumes "holds st []"
  shows "\<exists>st'. get_length k fill x f st = x st' \<and> holds st' [] \<and> ended st' \<and> keeps st st'"
  using getc_end [OF assms] by (auto simp: get_length_def bindC_def)

lemma get_length_short:
  assumes "holds st (b # bs)" and "uint b < 128"
  shows "\<exists>st'. get_length k fill x f st = f (Some (uint b)) st' \<and> holds st' bs \<and> keeps st st'"
proof -
  have "uint b AND 0x80 = 0" "uint b \<noteq> EOF"
    using length_mark [of "uint b"] assms(2) by (auto simp: EOF_def)
  then show ?thesis
    using getc_byte [OF assms(1)] by (auto simp: get_length_def bindC_def read_length_def retC_def)
qed

lemma get_length_long:
  assumes h: "holds st (b # bs)" and "128 \<le> uint b" and "length bs + 2 \<le> k"
  shows "\<exists>st'. get_length k fill x f st = f (if length bs < 3 then None else Some (four_bytes (uint b) (take 3 bs))) st' \<and>
    holds st' (drop 3 bs) \<and> keeps st st'"
proof -
  have "uint b < 256" using unsigned_less [of b] by simp
  then have m: "uint b AND 0x80 \<noteq> 0" "uint b \<noteq> EOF"
    using length_mark [of "uint b"] assms(2) by (auto simp: EOF_def)
  from getc_byte [OF h] obtain st1 where 1: "FCGX_GetChar fill st = Ret (uint b, st1)" "holds st1 bs" "keeps st st1"
    by blast
  from gets [OF 1(2) assms(3), of 3] obtain st2 where "FCGX_GetStr k fill 3 st1 = Ret (take 3 bs, st2)"
    "holds st2 (drop 3 bs)" "keeps st1 st2" by auto
  with 1 m keeps_trans [OF 1(3)] show ?thesis
    by (auto simp: get_length_def bindC_def read_length_def retC_def)
qed

lemma get_length_encoded:
  assumes h: "holds st (encode_length n @ bs)" and n: "n < 2 ^ 31" and k: "length (encode_length n @ bs) + 2 \<le> k"
  shows "\<exists>st'. get_length k fill x f st = f (Some (int n)) st' \<and> holds st' bs \<and> keeps st st'"
proof (cases "n < 128")
  case True
  with h get_length_short [of st "of_nat n" bs k x f] show ?thesis
    by (simp add: encode_length_def uint_length_byte)
next
  case False
  let ?b = "of_nat (n div 2 ^ 24 + 128) :: byte"
  let ?t = "[of_nat (n div 2 ^ 16), of_nat (n div 2 ^ 8), of_nat n] :: byte list"
  have e: "encode_length n @ bs = ?b # ?t @ bs" using False by (simp add: encode_length_def)
  have "n div 2 ^ 24 < 128" using n by simp
  then have "128 \<le> uint ?b" unfolding uint_length_byte by simp
  with get_length_long [OF h [unfolded e], of k x f] k [unfolded e] four_bytes_encode [OF n] show ?thesis
    by simp
qed

lemma get_length_cut:
  assumes h: "holds st (take m (encode_length n))" and "0 < m" "m < length (encode_length n)" and n: "n < 2 ^ 31" and k: "6 \<le> k"
  shows "\<exists>st'. get_length k fill x f st = f None st' \<and> holds st' [] \<and> keeps st st'"
proof -
  let ?b = "of_nat (n div 2 ^ 24 + 128) :: byte"
  have "\<not> n < 128" using assms(2,3) by (auto simp: encode_length_def split: if_splits)
  then obtain t where e: "take m (encode_length n) = ?b # t" and t: "length t < 3"
    using assms(2,3) by (cases m) (auto simp: encode_length_def)
  have "n div 2 ^ 24 < 128" using n by simp
  then have "128 \<le> uint ?b" unfolding uint_length_byte by simp
  with get_length_long [OF h [unfolded e], of k x f] k t show ?thesis by simp
qed

lemma read_pair_encoded:
  assumes h: "holds st (n @ v @ bs)" and f: "pair_fits (n, v)" and k: "length (n @ v @ bs) + 2 \<le> k"
  shows "\<exists>st'. read_pair k fill (int (length n)) (int (length v)) st = Ret (Some (pair_entry (n, v)), st') \<and>
    holds st' bs \<and> keeps st st'"
proof -
  from gets [OF h k, of "int (length n)"] obtain st1 where
    1: "FCGX_GetStr k fill (int (length n)) st = Ret (n, st1)" "holds st1 (v @ bs)" "keeps st st1" by auto
  from gets [OF 1(2), of k "int (length v)"] k obtain st2 where
    "FCGX_GetStr k fill (int (length v)) st1 = Ret (v, st2)" "holds st2 bs" "keeps st1 st2" by auto
  with 1 keeps_trans [OF 1(3)] show ?thesis
    by (auto simp: read_pair_def entry_size_fits [OF f] bindC_def retC_def Let_def)
qed

lemma read_pair_cut:
  assumes h: "holds st (take m (n @ v))" and m: "m < length (n @ v)" and f: "pair_fits (n, v)" and k: "length (n @ v) + 2 \<le> k"
  shows "\<exists>st'. read_pair k fill (int (length n)) (int (length v)) st = Ret (None, st') \<and> keeps st st'"
proof -
  have k': "length (take m (n @ v)) + 2 \<le> k" using k m by simp
  show ?thesis
  proof (cases "m < length n")
    case True
    with gets [OF h k', of "int (length n)"] show ?thesis
      by (auto simp: read_pair_def entry_size_fits [OF f] bindC_def retC_def Let_def)
  next
    case False
    then have t: "take m (n @ v) = n @ take (m - length n) v" by simp
    from gets [OF h [unfolded t] k' [unfolded t], of "int (length n)"] obtain st1 where
      1: "FCGX_GetStr k fill (int (length n)) st = Ret (n, st1)" "holds st1 (take (m - length n) v)" "keeps st st1"
      by auto
    have "length (take (m - length n) v) + 2 \<le> k" using k by simp
    moreover have "take (length v) (take (m - length n) v) = take (m - length n) v" by (simp add: min_def)
    ultimately obtain st2 where
      "FCGX_GetStr k fill (int (length v)) st1 = Ret (take (m - length n) v, st2)" "keeps st1 st2"
      using gets [OF 1(2), of k "int (length v)"] by (auto simp only: nat_int)
    with 1 False m keeps_trans [OF 1(3)] show ?thesis
      by (auto simp: read_pair_def entry_size_fits [OF f] bindC_def retC_def min_def Let_def)
  qed
qed

text \<open>A pair at the head of the input: one round of the loop.\<close>

lemma ReadParams_pair:
  assumes h: "holds st (encode_pair nv @ bs)" and f: "pair_fits nv" and w: "wf_params p"
    and k: "length (encode_pair nv @ bs) + 2 \<le> k"
  shows "\<exists>p' st'. ReadParams (Suc k) fill p st = ReadParams k fill p' st' \<and> wf_params p' \<and>
    pvec p' = pvec p @ [pair_entry nv] \<and> holds st' bs \<and> keeps st st'"
proof -
  obtain n v where nv: "nv = (n, v)" by (cases nv)
  obtain p' where p': "PutParam p (pair_entry (n, v)) = Ret p'" "wf_params p'" "pvec p' = pvec p @ [pair_entry (n, v)]"
    using PutParam_wf [OF w] by blast
  define c where "c e = (case e of None \<Rightarrow> params_error p
    | Some nameValue \<Rightarrow> bindC (liftC (PutParam p nameValue)) (\<lambda>p'. ReadParams k fill p'))" for e
  define g where "g nl = (case nl of None \<Rightarrow> params_error p | Some nameLen \<Rightarrow>
    get_length k fill (params_error p) (\<lambda>vl. case vl of None \<Rightarrow> params_error p | Some valueLen \<Rightarrow>
      bindC (read_pair k fill nameLen valueLen) c))" for nl
  have R: "ReadParams (Suc k) fill p = get_length k fill (retC (0, p)) g"
    unfolding ReadParams_Suc g_def c_def ..
  have l: "length n < 2 ^ 31" "length v < 2 ^ 31" using f nv by auto
  from get_length_encoded [of st "length n" "encode_length (length v) @ n @ v @ bs" k "retC (0, p)" g] h k l nv
  obtain st1 where 1: "get_length k fill (retC (0, p)) g st = g (Some (int (length n))) st1"
    "holds st1 (encode_length (length v) @ n @ v @ bs)" "keeps st st1" by auto
  from get_length_encoded [OF 1(2) l(2), of k "params_error p"
      "\<lambda>vl. case vl of None \<Rightarrow> params_error p | Some valueLen \<Rightarrow> bindC (read_pair k fill (int (length n)) valueLen) c"] k nv
  obtain st2 where 2: "g (Some (int (length n))) st1 = bindC (read_pair k fill (int (length n)) (int (length v))) c st2"
    "holds st2 (n @ v @ bs)" "keeps st1 st2" by (auto simp: g_def)
  from read_pair_encoded [OF 2(2), of k] f k nv obtain st3 where
    3: "read_pair k fill (int (length n)) (int (length v)) st2 = Ret (Some (pair_entry (n, v)), st3)"
    "holds st3 bs" "keeps st2 st3" by auto
  have "ReadParams (Suc k) fill p st = ReadParams k fill p' st3"
    using R 1 2 3 p' by (simp add: bindC_def c_def liftC_def)
  with p' 3 nv keeps_trans [OF 1(3) keeps_trans [OF 2(3) 3(3)]] show ?thesis by blast
qed

text \<open>All pairs up to the end of the stream.\<close>

lemma ReadParams_pairs:
  assumes "holds st (concat (map encode_pair ps) @ bs)" and "list_all pair_fits ps" and "wf_params p"
    and "length bs + 2 \<le> c" and "length (concat (map encode_pair ps)) + c \<le> k"
  shows "\<exists>k' p' st'. ReadParams (Suc k) fill p st = ReadParams (Suc k') fill p' st' \<and> wf_params p' \<and>
    pvec p' = pvec p @ map pair_entry ps \<and> holds st' bs \<and> keeps st st' \<and> c \<le> k'"
  using assms
proof (induction ps arbitrary: k p st)
  case Nil
  then show ?case using keeps_refl by auto
next
  case (Cons nv ps)
  from ReadParams_pair [of st nv "concat (map encode_pair ps) @ bs" p k] Cons.prems obtain p1 st1 where
    1: "ReadParams (Suc k) fill p st = ReadParams k fill p1 st1" "wf_params p1" "pvec p1 = pvec p @ [pair_entry nv]"
      "holds st1 (concat (map encode_pair ps) @ bs)" "keeps st st1" by auto
  have "encode_pair nv \<noteq> []" by (cases nv) (simp add: encode_length_def)
  with Cons.prems(5) obtain k1 where k1: "k = Suc k1" "length (concat (map encode_pair ps)) + c \<le> k1"
    by (cases k; cases "encode_pair nv") auto
  from Cons.IH [OF 1(4) _ 1(2) Cons.prems(4) k1(2)] Cons.prems(2) obtain k' p' st' where
    "ReadParams (Suc k1) fill p1 st1 = ReadParams (Suc k') fill p' st'" "wf_params p'"
    "pvec p' = pvec p1 @ map pair_entry ps" "holds st' bs" "keeps st1 st'" "c \<le> k'" by auto
  with 1 k1(1) keeps_trans [OF 1(5)] show ?case by (intro exI [of _ k'] exI [of _ p'] exI [of _ st']) simp
qed

lemma ReadParams_complete:
  assumes "holds st (concat (map encode_pair ps))" and "list_all pair_fits ps" and "wf_params p"
    and "length (concat (map encode_pair ps)) + 3 \<le> k"
  shows "\<exists>p' st'. ReadParams k fill p st = Ret ((0, p'), st') \<and> wf_params p' \<and>
    pvec p' = pvec p @ map pair_entry ps \<and> holds st' [] \<and> ended st' \<and> keeps st st'"
proof -
  from assms(4) obtain j where j: "k = Suc j" "length (concat (map encode_pair ps)) + 2 \<le> j" by (cases k) auto
  from ReadParams_pairs [of st ps "[]" p 2 j] assms(1-3) j(2) obtain k' p' st1 where
    1: "ReadParams (Suc j) fill p st = ReadParams (Suc k') fill p' st1" "wf_params p'"
      "pvec p' = pvec p @ map pair_entry ps" "holds st1 []" "keeps st st1" by auto
  obtain st2 where 2: "ReadParams (Suc k') fill p' st1 = retC (0, p') st2" "holds st2 []" "ended st2" "keeps st1 st2"
    unfolding ReadParams_Suc using get_length_end [OF 1(4)] by blast
  with 1 j(1) keeps_trans [OF 1(5)] show ?thesis by (auto simp: retC_def)
qed

text \<open>An input that ends inside of a pair.\<close>

lemma ReadParams_cut_pair:
  assumes h: "holds st (take m (encode_pair nv))" and m: "0 < m" "m < length (encode_pair nv)" and f: "pair_fits nv"
    and k: "length (encode_pair nv) + 6 \<le> k"
  shows "\<exists>st'. ReadParams (Suc k) fill p st = params_error p st' \<and> keeps st st'"
proof -
  obtain n v where nv: "nv = (n, v)" by (cases nv)
  let ?a = "length (encode_length (length n))" and ?b = "length (encode_length (length v))"
  have l: "length n < 2 ^ 31" "length v < 2 ^ 31" using f nv by auto
  define h2 where "h2 nameLen vl = (case vl of None \<Rightarrow> params_error p | Some valueLen \<Rightarrow>
      bindC (read_pair k fill nameLen valueLen) (\<lambda>e. case e of None \<Rightarrow> params_error p
        | Some nameValue \<Rightarrow> bindC (liftC (PutParam p nameValue)) (\<lambda>p'. ReadParams k fill p')))" for nameLen vl
  define g where "g nl = (case nl of None \<Rightarrow> params_error p | Some nameLen \<Rightarrow>
    get_length k fill (params_error p) (h2 nameLen))" for nl
  have R: "ReadParams (Suc k) fill p = get_length k fill (retC (0, p)) g"
    unfolding ReadParams_Suc g_def h2_def ..
  have k6: "6 \<le> k" using k by simp
  show ?thesis
  proof (cases "m < ?a")
    case True
    with h nv have "holds st (take m (encode_length (length n)))" by simp
    from get_length_cut [OF this m(1) True l(1) k6, of "retC (0, p)" g] R show ?thesis by (auto simp: g_def)
  next
    case False
    then have ge: "?a \<le> m" and t: "take m (encode_pair nv) = encode_length (length n) @ take (m - ?a) (encode_length (length v) @ n @ v)"
      using nv by simp_all
    have k': "length (take m (encode_pair nv)) + 2 \<le> k" using k m(2) by simp
    from get_length_encoded [OF h [unfolded t] l(1) k' [unfolded t], of "retC (0, p)" g] R obtain st1 where
      1: "ReadParams (Suc k) fill p st = get_length k fill (params_error p) (h2 (int (length n))) st1"
        "holds st1 (take (m - ?a) (encode_length (length v) @ n @ v))" "keeps st st1" by (auto simp: g_def)
    have "\<exists>st2. get_length k fill (params_error p) (h2 (int (length n))) st1 = params_error p st2 \<and> keeps st1 st2"
    proof (cases "m - ?a < ?b")
      case True
      show ?thesis
      proof (cases "m - ?a = 0")
        case True
        with 1(2) get_length_end [of st1 k "params_error p" "h2 (int (length n))"] show ?thesis by auto
      next
        case False
        from True 1(2) have "holds st1 (take (m - ?a) (encode_length (length v)))" by simp
        from get_length_cut [OF this _ True l(2) k6, of "params_error p" "h2 (int (length n))"] False show ?thesis
          by (auto simp: h2_def)
      qed
    next
      case False
      define j where "j = m - ?a - ?b"
      have t2: "take (m - ?a) (encode_length (length v) @ n @ v) = encode_length (length v) @ take j (n @ v)"
        using False by (simp add: j_def)
      have lk: "?a + ?b + length (n @ v) + 6 \<le> k" "m < ?a + ?b + length (n @ v)" using k m(2) nv by simp_all
      have j: "length (encode_length (length v) @ take j (n @ v)) + 2 \<le> k" "j < length (n @ v)" "length (n @ v) + 2 \<le> k"
        using lk False ge by (simp_all add: j_def)
      from get_length_encoded [OF 1(2) [unfolded t2] l(2) j(1), of "params_error p" "h2 (int (length n))"] obtain st2 where
        2: "get_length k fill (params_error p) (h2 (int (length n))) st1 = h2 (int (length n)) (Some (int (length v))) st2"
          "holds st2 (take j (n @ v))" "keeps st1 st2" by blast
      from read_pair_cut [OF 2(2) j(2) _ j(3)] f nv obtain st3 where
        "read_pair k fill (int (length n)) (int (length v)) st2 = Ret (None, st3)" "keeps st2 st3" by auto
      with 2 keeps_trans [OF 2(3)] show ?thesis by (auto simp: h2_def bindC_def)
    qed
    with 1 keeps_trans [OF 1(3)] show ?thesis by auto
  qed
qed

lemma ReadParams_cut:
  assumes "holds st (concat (map encode_pair ps) @ take m (encode_pair nv))" and "list_all pair_fits (nv # ps)" and "wf_params p"
    and "0 < m" "m < length (encode_pair nv)"
    and "length (concat (map encode_pair ps)) + length (encode_pair nv) + 7 \<le> k"
  shows "\<exists>p' st1. ReadParams k fill p st = Ret ((-1, p'), st1\<lparr>strm := SetError FCGX_PARAMS_ERROR (strm st1)\<rparr>) \<and>
    keeps st st1 \<and> pvec p' = pvec p @ map pair_entry ps"
proof -
  let ?c = "length (encode_pair nv) + 6"
  from assms(6) obtain j where j: "k = Suc j" "length (concat (map encode_pair ps)) + ?c \<le> j" by (cases k) auto
  have "length (take m (encode_pair nv)) + 2 \<le> ?c" by simp
  from ReadParams_pairs [OF assms(1) _ assms(3) this j(2)] assms(2) obtain k' p' st1 where
    1: "ReadParams (Suc j) fill p st = ReadParams (Suc k') fill p' st1" "pvec p' = pvec p @ map pair_entry ps"
      "holds st1 (take m (encode_pair nv))" "keeps st st1" "?c \<le> k'" by auto
  from ReadParams_cut_pair [OF 1(3) assms(4,5) _ 1(5), of p'] assms(2) obtain st2 where
    "ReadParams (Suc k') fill p' st1 = params_error p' st2" "keeps st1 st2" by auto
  with 1 j(1) keeps_trans [OF 1(4)] show ?thesis
    by (auto simp: params_error_def cprog_defs)
qed

lemma ReadParams_overflow:
  assumes h: "holds st (replicate 8 0xff @ b # bs)" and "length bs + 12 \<le> k"
  shows "ReadParams k fill p st = Fault"
proof -
  obtain j where j: "k = Suc j" using assms(2) by (cases k) auto
  have f: "four_bytes 255 [255, 255, 255] = 2 ^ 31 - 1"
    by (simp add: four_bytes_def and_127 push_bit_eq_mult)
  have r: "replicate 8 (255 :: byte) = [255, 255, 255, 255, 255, 255, 255, 255]" by (simp add: numeral_eq_Suc)
  define t where "t = b # bs"
  have h8: "holds st (255 # [255, 255, 255, 255, 255, 255, 255] @ t)" using h r by (simp add: t_def)
  define c where "c nl vl = bindC (read_pair j fill nl vl) (\<lambda>e. case e of None \<Rightarrow> params_error p | Some nameValue \<Rightarrow>
    bindC (liftC (PutParam p nameValue)) (\<lambda>p'. ReadParams j fill p'))" for nl vl
  define d where "d nl vl = (case vl of None \<Rightarrow> params_error p | Some valueLen \<Rightarrow> c nl valueLen)" for nl vl
  define g where "g nl = (case nl of None \<Rightarrow> params_error p | Some nameLen \<Rightarrow>
    get_length j fill (params_error p) (d nameLen))" for nl
  define M :: int where "M = 2 ^ 31 - 1"
  have R: "ReadParams k fill p = get_length j fill (retC (0, p)) g"
    unfolding j ReadParams_Suc g_def c_def d_def ..
  have t: "length t + 9 \<le> j" using assms(2) j by (simp add: t_def)
  from get_length_long [OF h8, of j "retC (0, p)" g] t f obtain st1 where
    1: "ReadParams k fill p st = g (Some M) st1" "holds st1 (255 # [255, 255, 255] @ t)"
    using R by (auto simp: M_def)
  from get_length_long [OF 1(2), of j "params_error p" "d M"] t f obtain st2 where
    2: "g (Some M) st1 = c M M st2" "holds st2 t"
    by (auto simp: g_def d_def M_def)
  from gets [OF 2(2), of j M] t obtain st3 where
    3: "FCGX_GetStr j fill M st2 = Ret (take (nat M) t, st3)" by auto
  have "take (nat M) t \<noteq> []" by (simp add: t_def M_def)
  then have "0 < int (length (take (nat M) t))" by (simp only: length_greater_0_conv of_nat_0_less_iff simp_thms)
  moreover have "entry_size M M = 0" by (simp add: entry_size_def M_def)
  ultimately have "c M M st2 = Fault"
    using 3 by (simp only: c_def bindC_def read_pair_def Let_def bindR.simps prod.case if_True less_irrefl if_False)
  with 1 2 show ?thesis by simp
qed

end

section \<open>Looking a parameter up\<close>

text \<open>
  The environment as a map. A name without \<open>=\<close> and a zero byte matches an entry only when it is the
  name of the pair.
\<close>

definition plain_name :: "byte list \<Rightarrow> bool" where
  "plain_name n \<longleftrightarrow> equals_sign \<notin> set n \<and> 0 \<notin> set n"

fun plain_pair :: "byte list \<times> byte list \<Rightarrow> bool" where
  "plain_pair (n, v) \<longleftrightarrow> plain_name n \<and> 0 \<notin> set v"

lemma split_at_mark:
  assumes "x \<notin> set a" and "x \<notin> set b"
  shows "a @ x # c = b @ x # d \<longleftrightarrow> a = b \<and> c = d"
  using assms
proof (induction a arbitrary: b)
  case Nil
  then show ?case by (cases b) auto
next
  case (Cons y a)
  then show ?case by (cases b) auto
qed

lemma has_name_pair:
  assumes "plain_name name" and "plain_pair (n, v)"
  shows "has_name name (pair_entry (n, v)) \<longleftrightarrow> n = name"
proof
  assume "has_name name (pair_entry (n, v))"
  then have t: "take (length name + 1) (n @ equals_sign # v @ [0]) = name @ [equals_sign]" by (simp add: has_name_def)
  then have "n @ equals_sign # v @ [0] = name @ equals_sign # drop (length name + 1) (n @ equals_sign # v @ [0])"
    by (metis append_take_drop_id append.assoc append_Cons append_Nil)
  with assms show "n = name" by (simp add: split_at_mark plain_name_def)
qed (simp add: has_name_def)

lemma takeWhile_no_zero: "0 \<notin> set v \<Longrightarrow> takeWhile (\<lambda>b. b \<noteq> 0) v = v"
  by (auto intro: takeWhile_eq_all_conv [THEN iffD2])

lemma GetParam_entries:
  assumes "list_all plain_pair ps" and "plain_name name"
  shows "FCGX_GetParam (Some name) (Some (map pair_entry ps)) = map_of ps name"
  using assms(1)
proof (induction ps)
  case (Cons nv ps)
  obtain n v where nv: "nv = (n, v)" by (cases nv)
  then have p: "plain_pair (n, v)" using Cons.prems by simp
  show ?case
  proof (cases "n = name")
    case True
    with p nv has_name_pair [OF assms(2) p] show ?thesis
      by (simp add: FCGX_GetParam_def takeWhile_no_zero)
  next
    case False
    with has_name_pair [OF assms(2) p] nv Cons show ?thesis by (simp add: FCGX_GetParam_def)
  qed
qed (simp add: FCGX_GetParam_def)

section \<open>The answer to a management record\<close>

definition entry_name :: "byte list \<Rightarrow> byte list" where
  "entry_name e = takeWhile (\<lambda>b. b \<noteq> equals_sign) e"

definition asked :: "byte list list \<Rightarrow> byte list list" where
  "asked es = filter (\<lambda>n. known_value n \<noteq> None) (map entry_name es)"

definition answer_size :: "byte list list \<Rightarrow> nat" where
  "answer_size ns = sum_list (map (\<lambda>n. length n + 3) ns)"

lemma known_names: "dom known_value = {ascii ''FCGI_MAX_CONNS'', ascii ''FCGI_MAX_REQS'', ascii ''FCGI_MPXS_CONNS''}"
  by (auto simp: known_value_def dom_def split: if_splits)

lemma answer_size_distinct:
  assumes "distinct ns" and "set ns \<subseteq> dom known_value"
  shows "answer_size ns \<le> 51"
proof -
  let ?f = "\<lambda>n :: byte list. length n + 3"
  have "answer_size ns = sum ?f (set ns)"
    using assms(1) by (simp add: answer_size_def sum_list_distinct_conv_sum_set)
  also have "\<dots> \<le> sum ?f (dom known_value)" by (rule sum_mono2) (use assms(2) in \<open>auto simp: known_names\<close>)
  also have "\<dots> \<le> 51" by (simp add: known_names ascii_def)
  finally show ?thesis .
qed

lemma answer_values_fits:
  assumes "list_all (\<lambda>e. 0 \<notin> set (entry_name e)) es" and "pos + answer_size (asked es) \<le> 59"
  shows "\<exists>resp'. answer_values es resp pos = Ret (resp', pos + answer_size (asked es))"
  using assms
proof (induction es arbitrary: resp pos)
  case Nil
  then show ?case by (simp add: asked_def answer_size_def)
next
  case (Cons e es)
  show ?case
  proof (cases "known_value (entry_name e)")
    case None
    with Cons show ?thesis by (simp add: entry_name_def asked_def)
  next
    case (Some v)
    then have a: "answer_size (asked (e # es)) = length (entry_name e) + 3 + answer_size (asked es)"
      by (simp add: asked_def answer_size_def)
    with Cons.prems have "pos + length (entry_name e) + 3 + answer_size (asked es) \<le> 59" "0 \<notin> set (entry_name e)"
      "list_all (\<lambda>e. 0 \<notin> set (entry_name e)) es" by simp_all
    with Cons.IH [of "pos + length (entry_name e) + 3"] Some a show ?thesis
      by (simp add: put_response_def entry_name_def [symmetric] add.assoc Let_def)
  qed
qed

end
