(* ===== verification/Fcgi_Request_Correct.thy ===== *)
theory Fcgi_Request_Correct
  imports Fcgi_Params Fcgi_Request
begin

text \<open>
  Accepting a request: the begin record, the parameters, and the streams the application gets.
\<close>

section \<open>The begin record\<close>

text \<open>A read that stopped at the end of its record leaves what follows the record in the input.\<close>

lemma content_eor_rest:
  assumes "content True T rid c 0 False W = ([], Some rest)"
  shows "c = 0 \<and> rest = W"
proof -
  have "c = 0"
  proof (rule ccontr)
    assume "c \<noteq> 0"
    with assms show False by (subst (asm) content.simps) (auto simp: prepend_def split: if_splits)
  qed
  with assms show ?thesis by (subst (asm) content.simps) (auto split: if_splits)
qed

lemma eor_rest:
  assumes r: "reads K st [] (Some rest)" and "eorStop (strm st)" "paddingLen (strm st) = 0" "\<not> skip (strm st)"
  shows "\<exists>B N. at_input st B N \<and> B @ N = rest"
proof (cases "isClosed (strm st)")
  case True
  with r show ?thesis by (auto simp: reads_def ends_def)
next
  case False
  with r have o: "open_reader K st [] (Some rest)" and w: "wf_reader (strm st)" by (simp_all add: reads_def)
  then obtain N where N: "slice (rdNext (strm st)) (stop (strm st)) (buff (strm st)) = []"
    "net (fd_of st) (kern st) N"
    "decode st (slice (stop (strm st)) (buffStop (strm st)) (buff (strm st)) @ N) = ([], Some rest)"
    "rdNext (strm st) \<le> stop (strm st)" "stop (strm st) \<le> buffStop (strm st)"
    by (auto simp: open_reader_def)
  have "stop (strm st) \<le> length (buff (strm st))" using N(5) w by (simp add: wf_reader_def)
  with N(1,4) have "rdNext (strm st) = stop (strm st)" 
    using length_slice [of "stop (strm st)" "buff (strm st)" "rdNext (strm st)"] by simp
  with N w assms(2-) content_eor_rest show ?thesis
    by (fastforce simp: at_input_def buffered_def)
qed

definition begun :: "int \<Rightarrow> byte list \<Rightarrow> fcgx_req \<Rightarrow> fcgx_req" where
  "begun rid body r = r\<lparr>requestId := rid, keepConnection := (body ! 2 AND FCGI_KEEP_CONN \<noteq> 0),
     role := two_bytes (body ! 0) (body ! 1), isBeginProcessed := True\<rparr>"

text \<open>What one call has done to the stream, the request and the kernel when it has read a begin record.\<close>

definition began :: "int \<Rightarrow> byte list \<Rightarrow> byte list \<Rightarrow> sio \<Rightarrow> sio \<Rightarrow> bool" where
  "began rid body rest st st' \<longleftrightarrow> (\<exists>B N. at_input st' B N \<and> B @ N = rest) \<and> req st' = begun rid body (req st) \<and>
     FCGI_errno (strm st') = FCGI_errno (strm st) \<and> rx_only (fd_of st) (kern st) (kern st')"

lemma interpret_begin:
  assumes a: "at_input st B N" and W: "B @ N = body @ rest" and b: "length body = 8" and rest: "rest \<noteq> []"
    and st: "\<not> isClosed (strm st)" "\<not> skip (strm st)" "\<not> isBeginProcessed (req st)"
    and i: "ident rid" and k: "length (B @ N) < k"
  shows "\<exists>st'. interpret_part k (FillBuffProc k) (frame_header FCGI_BEGIN_REQUEST rid 8 0) st = Ret (Return, st') \<and>
    began rid body rest st st'"
proof -
  let ?h = "bytes_header (frame_header FCGI_BEGIN_REQUEST rid 8 0)"
  have h: "uint (version ?h) = 1" "uint (htype ?h) = FCGI_BEGIN_REQUEST" "two_bytes (requestIdB1 ?h) (requestIdB0 ?h) = rid"
    "two_bytes (contentLengthB1 ?h) (contentLengthB0 ?h) = 8" "unat (paddingLength ?h) = 0"
    using packet_header [of FCGI_BEGIN_REQUEST body "[]" rid] i b
    by (simp_all add: small_packet_def FCGI_BEGIN_REQUEST_def ident_def)
  then have h5: "uint (paddingLength ?h) = 0" by (simp add: frame_header_def)
  define st2 where "st2 = st\<lparr>strm := (strm st)\<lparr>eorStop := True, stop := rdNext (strm st), contentLen := 8, paddingLen := 0\<rparr>,
    req := (req st)\<lparr>requestId := rid\<rparr>\<rparr>"
  have "content True (stype (strm st)) rid 8 0 False (body @ rest) = (body, Some rest)"
    using content_deliver [of 8 body True "stype (strm st)" rid 0 rest] b rest
    by (simp add: prepend_def content.simps [of True _ _ 0 0])
  with W have d: "content True (stype (strm st)) rid 8 0 False (B @ N) = (body, Some rest)" by simp
  have B: "slice (rdNext (strm st)) (buffStop (strm st)) (buff (strm st)) = B"
    "net (fd_of st) (kern st) N" "wf_reader (strm st)"
    using a by (simp_all add: at_input_def buffered_def)
  have "buffStop (strm st) - rdNext (strm st) + length N < k" using k at_input_length [OF a] by simp
  with B d st have r2: "reads k st2 body (Some rest)"
    unfolding reads_def open_reader_def
    by (simp add: st2_def wf_reader_def) (intro exI [of _ N], simp)
  from FCGX_GetStr_reads [OF r2, of 8 k] b k W rest obtain st3 where
    3: "FCGX_GetStr k (FillBuffProc k) 8 st2 = Ret (body, st3)" "reads k st3 [] (Some rest)"
      "st3 = st2 \<or> same_reader st2 st3" by (cases rest) auto
  have r3: "req st3 = (req st)\<lparr>requestId := rid\<rparr>" using 3(3) by (auto simp: same_reader_def st2_def)
  define st4 where "st4 = st3\<lparr>req := begun rid body (req st3), strm := (strm st3)\<lparr>eorStop := False, isClosed := False\<rparr>\<rparr>"
  have c: "interpret_part k (FillBuffProc k) (frame_header FCGI_BEGIN_REQUEST rid 8 0) st = Ret (Return, st4)"
    using h h5 3(1) [unfolded st2_def] r3 i st(3) b
    by (simp add: interpret_part_def ProcessHeader_def ProcessBeginRecord_def cprog_defs FCGI_VERSION_1_def
      status_defs st4_def begun_def ident_def)
  have "eorStop (strm st3)" "paddingLen (strm st3) = 0" "\<not> skip (strm st3)" "FCGI_errno (strm st3) = FCGI_errno (strm st)"
    "rx_only (fd_of st) (kern st) (kern st3)"
    using 3(2,3) st(2) a rx_only_refl
    by (auto simp: st2_def same_reader_def at_input_def reads_def wf_reader_def)
  moreover from eor_rest [OF 3(2) this(1-3)] obtain B' N' where "at_input st3 B' N'" "B' @ N' = rest" by blast
  moreover from this have "at_input st4 B' N'" by (simp add: st4_def begun_def at_input_def wf_reader_def buffered_def)
  ultimately have "began rid body rest st st4" using r3 by (auto simp: began_def st4_def begun_def)
  with c show ?thesis by blast
qed

lemma fill_begin:
  assumes "at_input st B N" and "hdr @ B @ N = packet FCGI_BEGIN_REQUEST rid body [] @ rest" "length body = 8" "rest \<noteq> []"
    and "\<not> isClosed (strm st)" "\<not> skip (strm st)" "\<not> isBeginProcessed (req st)" "\<not> eorStop (strm st)"
    and "contentLen (strm st) = 0" "paddingLen (strm st) = 0" "ident rid" "length hdr < 8" "length (B @ N) < k"
  shows "\<exists>st'. fill_loop k hdr st = Ret ((), st') \<and> began rid body rest st st'"
  using assms
proof (induction k arbitrary: st B N hdr)
  case (Suc k)
  have ne: "B @ N \<noteq> []" using Suc.prems(2,3,12) by (auto simp: packet_def dest: arg_cong [of _ _ length])
  from refill_buffer [OF Suc.prems(1) ne] obtain st1 B1 N1 where
    1: "refill st = Ret (Next, st1)" "at_input st1 B1 N1" "B1 \<noteq> []" "B1 @ N1 = B @ N" "same_reader st st1"
      "contentLen (strm st1) = contentLen (strm st)" "paddingLen (strm st1) = paddingLen (strm st)"
      "skip (strm st1) = skip (strm st)" "isClosed (strm st1) = isClosed (strm st)" by blast
  define m where "m = min (8 - length hdr) (length B1)"
  define st2 where "st2 = st1\<lparr>strm := (strm st1)\<lparr>rdNext := rdNext (strm st1) + m\<rparr>\<rparr>"
  define hdr' where "hdr' = hdr @ take m B1"
  have ml: "m \<le> length B1" by (simp add: m_def)
  have s1: "\<not> isClosed (strm st1)" "\<not> skip (strm st1)" "\<not> eorStop (strm st1)" "contentLen (strm st1) = 0"
    "paddingLen (strm st1) = 0" "req st1 = req st"
    using 1 Suc.prems by (auto simp: same_reader_def)
  have step: "fill_loop (Suc k) hdr st = (if length hdr' < 8 then fill_loop k hdr'
      else flowC (interpret_part k (fill_loop k []) hdr') (fill_loop k []) (fill_loop k [])) st2"
    using 1(1) s1 header_part_eq [OF 1(2) m_def]
    by (simp add: flowC_def content_part_def padding_part_def eor_part_def cprog_defs st2_def hdr'_def)
  have a2: "at_input st2 (drop m B1) N1"
    unfolding st2_def using 1(2) by (intro at_input_advance [OF 1(2) ml]) (simp_all add: at_input_def wf_reader_def)
  have s2: "\<not> isClosed (strm st2)" "\<not> skip (strm st2)" "\<not> eorStop (strm st2)" "contentLen (strm st2) = 0"
    "paddingLen (strm st2) = 0" "\<not> isBeginProcessed (req st2)"
    using s1 Suc.prems(7) by (simp_all add: st2_def)
  have W: "hdr' @ drop m B1 @ N1 = packet FCGI_BEGIN_REQUEST rid body [] @ rest"
  proof -
    have "take m B1 @ drop m B1 @ N1 = B @ N" using 1(4) by (metis append.assoc append_take_drop_id)
    with Suc.prems(2) show ?thesis by (simp add: hdr'_def)
  qed
  have lift: "began rid body rest st st'" if "began rid body rest st2 st'" for st'
    using that 1(5) rx_only_trans by (auto simp: began_def st2_def same_reader_def)
  have lk: "length (drop m B1 @ N1) < k"
    using arg_cong [OF 1(4), of length] 1(3) Suc.prems(12,13) by (cases B1) (auto simp: m_def)
  show ?case
  proof (cases "length hdr' < 8")
    case True
    with Suc.IH [OF a2 W Suc.prems(3,4) s2(1,2,6,3,4,5) Suc.prems(11) True lk] step lift show ?thesis by auto
  next
    case False
    then have "length hdr' = 8" using Suc.prems(12) by (auto simp: hdr'_def m_def)
    with W have h: "hdr' = frame_header FCGI_BEGIN_REQUEST rid 8 0" "drop m B1 @ N1 = body @ rest"
      using Suc.prems(3) by (simp_all add: packet_def)
    from interpret_begin [OF a2 h(2) Suc.prems(3,4) s2(1,2,6) Suc.prems(11) lk] h(1) step False lift show ?thesis
      by (auto simp: FillBuffProc_def flowC_def bindC_def retC_def)
  qed
qed simp

section \<open>Reading a request\<close>

lemma NewReader_wf: "wf_reader (NewReader a blen T)"
proof -
  have "wf_writer (NewStream a blen False T)" using NewWriter_wf by (simp add: NewWriter_def)
  then show ?thesis
    by (auto simp: wf_reader_def wf_writer_def NewReader_def NewStream_def Let_def)
qed

lemma NewReader_simps [simp]:
  "\<not> isClosed (NewReader a blen T)" "\<not> skip (NewReader a blen T)" "\<not> eorStop (NewReader a blen T)"
  "contentLen (NewReader a blen T) = 0" "paddingLen (NewReader a blen T) = 0" "FCGI_errno (NewReader a blen T) = 0"
  "buffered (NewReader a blen T) = []" "stype (NewReader a blen T) = T" "rdNext (NewReader a blen T) = 0"
  "stop (NewReader a blen T) = 0"
  by (simp_all add: NewReader_def NewStream_def Let_def buffered_def slice_def)

text \<open>A stream set to a type reads what follows as records of that type.\<close>

definition positioned :: "int \<Rightarrow> byte list \<Rightarrow> sio \<Rightarrow> bool" where
  "positioned T W st \<longleftrightarrow> \<not> isClosed (strm st) \<and> stype (strm st) = T \<and> \<not> eorStop (strm st) \<and> \<not> skip (strm st) \<and>
     contentLen (strm st) = 0 \<and> paddingLen (strm st) = 0 \<and> stop (strm st) = rdNext (strm st) \<and>
     (\<exists>B N. at_input st B N \<and> B @ N = W)"

lemma SetReaderType_positioned:
  assumes "at_input st B N" and "B @ N = W"
  shows "\<exists>s. SetReaderType T (strm st) = Ret s \<and> positioned T W (st\<lparr>strm := s\<rparr>) \<and> FCGI_errno s = FCGI_errno (strm st)"
  using assms
  by (auto simp: SetReaderType_def positioned_def at_input_def wf_reader_def buffered_def
      intro!: exI [of _ B] exI [of _ N])

lemma positioned_reads:
  assumes "positioned T W st" and "content False T (requestId (req st)) 0 0 False W = (bs, e)" and "length W < K"
  shows "reads K st bs e"
proof -
  from assms(1) obtain B N where a: "at_input st B N" and W: "B @ N = W" by (auto simp: positioned_def)
  have B: "slice (rdNext (strm st)) (buffStop (strm st)) (buff (strm st)) = B" "net (fd_of st) (kern st) N"
    "wf_reader (strm st)"
    using a by (simp_all add: at_input_def buffered_def)
  have "buffStop (strm st) - rdNext (strm st) + length N < K" using assms(3) W at_input_length [OF a] by auto
  with B assms W show ?thesis
    unfolding reads_def open_reader_def
    by (simp add: positioned_def wf_reader_def) (intro exI [of _ N], simp)
qed

lemma gives_closed:
  assumes "gives K rest st []" and "isClosed (strm st)"
  shows "\<exists>B N. at_input st B N \<and> B @ N = rest"
  using assms by (auto simp: gives_def reads_def ends_def)

text \<open>What a client sends to start a request.\<close>

definition request_bytes :: "int \<Rightarrow> byte list \<Rightarrow> rec list \<Rightarrow> byte list" where
  "request_bytes rid body rs = packet FCGI_BEGIN_REQUEST rid body [] @ input_stream FCGI_PARAMS rid rs"

definition request_ok :: "int \<Rightarrow> byte list \<Rightarrow> rec list \<Rightarrow> (byte list \<times> byte list) list \<Rightarrow> bool" where
  "request_ok rid body rs ps \<longleftrightarrow> ident rid \<and> length body = 8 \<and> list_all (stream_rec FCGI_PARAMS rid) rs \<and>
     concat (map (own_content rid) rs) = concat (map encode_pair ps) \<and> list_all pair_fits ps"

lemma own_content_length: "length (own_content rid r) \<le> length (rec_bytes r)"
  by (cases r) (simp add: packet_def)

lemma request_length:
  assumes "request_ok rid body rs ps"
  shows "length (concat (map encode_pair ps)) + 24 \<le> length (request_bytes rid body rs)"
proof -
  have "length (concat (map (own_content rid) rs)) \<le> length (concat (map rec_bytes rs))"
    by (induction rs) (auto intro: add_mono own_content_length)
  with assms show ?thesis
    by (simp add: request_ok_def request_bytes_def input_stream_def packet_def)
qed

lemma read_request_complete:
  assumes n: "net (ipcFd r) k (request_bytes rid body rs @ W)" and ok: "request_ok rid body rs ps"
    and re: "role_entry (two_bytes (body ! 0) (body ! 1)) = Some re"
    and fuel: "length (request_bytes rid body rs @ W) < f"
  shows "\<exists>ins p k'. read_request f (r, k) = Ret (Some (ins, p), begun rid body r, k') \<and>
    wf_params p \<and> pvec p = re # map pair_entry ps \<and> FCGI_errno ins = 0 \<and> rx_only (ipcFd r) k k' \<and>
    (\<exists>B N. at_input \<lparr>strm = ins, req = begun rid body r, kern = k'\<rparr> B N \<and> B @ N = W)"
proof -
  define st where "st = \<lparr>strm = NewReader (malloc_addr k) 8192 0, req = r\<lparr>isBeginProcessed := False\<rparr>, kern = k\<rparr>"
  define P where "P = input_stream FCGI_PARAMS rid rs @ W"
  have a: "at_input st [] (packet FCGI_BEGIN_REQUEST rid body [] @ P)"
    using n by (simp add: at_input_def st_def NewReader_wf request_bytes_def P_def)
  have b: "length body = 8" "ident rid" "P \<noteq> []" "length P < f" "length (packet FCGI_BEGIN_REQUEST rid body [] @ P) < f"
    using ok fuel by (auto simp: request_ok_def P_def input_stream_def packet_def request_bytes_def frame_header_def)
  obtain st1 where 1: "FillBuffProc f st = Ret ((), st1)" "began rid body P st st1"
    using fill_begin [OF a, of "[]" rid body P f] b by (auto simp: st_def FillBuffProc_def)
  then obtain B N where i: "at_input st1 B N" "B @ N = P" "req st1 = begun rid body r" "FCGI_errno (strm st1) = 0"
    "rx_only (ipcFd r) k (kern st1)" by (auto simp: began_def st_def begun_def)
  from SetReaderType_positioned [OF i(1,2), of FCGI_PARAMS] obtain s where
    s: "SetReaderType FCGI_PARAMS (strm st1) = Ret s" "positioned FCGI_PARAMS P (st1\<lparr>strm := s\<rparr>)" "FCGI_errno s = 0"
    using i(4) by auto
  have "content False FCGI_PARAMS rid 0 0 False P = (concat (map encode_pair ps), Some W)"
    using content_stream [of FCGI_PARAMS rid rs W] ok
    by (simp add: P_def request_ok_def FCGI_PARAMS_def FCGI_BEGIN_REQUEST_def)
  with positioned_reads [OF s(2) _ b(4)] i(3) have g: "gives f W (st1\<lparr>strm := s\<rparr>) (concat (map encode_pair ps))"
    by (simp add: gives_def begun_def)
  obtain p1 where p1: "PutParam \<lparr>pvec = [], plength = 30\<rparr> re = Ret p1" "wf_params p1" "pvec p1 = [re]"
    using PutParam_wf [of "\<lparr>pvec = [], plength = 30\<rparr>" re] by (auto simp: wf_params_def)
  have "length (concat (map encode_pair ps)) + 3 \<le> f"
    using request_length [OF ok] fuel by simp
  from fcgx.ReadParams_complete [OF g _ p1(2) this] ok obtain p st2 where
    2: "ReadParams f (FillBuffProc f) p1 (st1\<lparr>strm := s\<rparr>) = Ret ((0, p), st2)" "wf_params p"
      "pvec p = re # map pair_entry ps" "gives f W st2 []" "isClosed (strm st2)" "taken (st1\<lparr>strm := s\<rparr>) st2"
    using p1(3) by (auto simp: request_ok_def)
  from gives_closed [OF 2(4,5)] obtain B' N' where e: "at_input st2 B' N'" "B' @ N' = W" by blast
  have r2: "req st2 = begun rid body r" "FCGI_errno (strm st2) = 0" "rx_only (ipcFd r) k (kern st2)"
    using 2(6) i(3,5) s(3) rx_only_trans [OF i(5)] by (auto simp: taken_def same_reader_def begun_def)
  have eta: "st1\<lparr>strm := s\<rparr> = \<lparr>strm = s, req = begun rid body r, kern = kern st1\<rparr>" using i(3) by (cases st1) simp
  have "read_request f (r, k) = Ret (Some (strm st2, p), begun rid body r, kern st2)"
    using 1(1) i(3) s(1) p1(1) 2(1) [unfolded eta] r2(1) re
    by (simp add: read_request_def run_on_def st_def begun_def NewParams_def)
  with 2 e r2 show ?thesis by (auto simp: at_input_def)
qed

section \<open>Accepting a request\<close>

definition admitted :: "(string \<Rightarrow> 32 word) \<Rightarrow> string option \<Rightarrow> peer \<Rightarrow> bool" where
  "admitted ia addrs p = (case p of Inet a \<Rightarrow> ClientAddrOK ia a addrs | Unix_socket readable \<Rightarrow> readable)"

lemma OS_Accept_admitted:
  assumes "\<not> shutdownPending k" and "accepts k = Acc_conn fd p c # evs" and "admitted ia addrs p"
  shows "OS_Accept ia fi addrs k = Ret (fd, (set_conn fd c k)\<lparr>accepts := evs\<rparr>)"
  using assms by (auto simp: OS_Accept_def accept_loop.simps admitted_def Let_def split: peer.splits)

lemma Finish_r_idle:
  assumes "in_stream rq = None" and "ipcFd (core rq) = -1"
  shows "\<exists>rq'. FCGX_Finish_r rq k = Ret (rq', k) \<and> ipcFd (core rq') = -1 \<and> appStatus (core rq') = appStatus (core rq)"
  using assms by (simp add: FCGX_Finish_r_def FCGX_Free_def OS_IpcClose_def OS_Close_def Let_def)

text \<open>What the application has after \<open>FCGX_Accept_r\<close>.\<close>

definition serves :: "int \<Rightarrow> byte list list \<Rightarrow> byte list \<Rightarrow> fcgx_request \<Rightarrow> kernel \<Rightarrow> bool" where
  "serves fd env W rq k \<longleftrightarrow> envp rq = Some env \<and> ipcFd (core rq) = fd \<and> nWriters (core rq) = 2 \<and>
     (\<exists>ins a b. in_stream rq = Some ins \<and> FCGI_errno ins = 0 \<and>
        positioned FCGI_STDIN W \<lparr>strm = ins, req = core rq, kern = k\<rparr> \<and>
        out_stream rq = Some (NewWriter a 8192 FCGI_STDOUT) \<and> err_stream rq = Some (NewWriter b 512 FCGI_STDERR))"

lemma start_request_serves:
  assumes a: "at_input \<lparr>strm = ins, req = r, kern = k\<rparr> B N" "B @ N = W" and "FCGI_errno ins = 0"
  shows "\<exists>rq'. start_request ins p r k rq = Ret rq' \<and> core rq' = r\<lparr>nWriters := 2\<rparr> \<and> serves (ipcFd r) (pvec p) W rq' k"
proof -
  from SetReaderType_positioned [OF a, of FCGI_STDIN] assms(3) obtain s where
    "SetReaderType FCGI_STDIN ins = Ret s" "positioned FCGI_STDIN W \<lparr>strm = s, req = r, kern = k\<rparr>" "FCGI_errno s = 0"
    by auto
  then show ?thesis
    by (auto simp: start_request_def serves_def positioned_def at_input_def)
qed

lemma accept_r_request:
  assumes rq: "in_stream rq = None" "ipcFd (core rq) = -1"
    and k: "\<not> shutdownPending k" "\<not> shutdownNow k" "accepts k = Acc_conn fd pr c # evs" "admitted ia addrs pr" "0 \<le> fd"
    and c: "list_all (\<lambda>e. arrived e \<noteq> []) (crx c)" "concat (map arrived (crx c)) = request_bytes rid body rs @ W"
    and ok: "request_ok rid body rs ps"
    and re: "role_entry (two_bytes (body ! 0) (body ! 1)) = Some re"
    and fuel: "length (request_bytes rid body rs @ W) < f"
  shows "\<exists>rq' k'. FCGX_Accept_r (Suc m) f ia True addrs rq k = Ret (0, rq', k') \<and>
    serves fd (re # map pair_entry ps) W rq' k' \<and> requestId (core rq') = rid \<and>
    keepConnection (core rq') = (body ! 2 AND FCGI_KEEP_CONN \<noteq> 0) \<and> appStatus (core rq') = appStatus (core rq) \<and>
    rx_only fd ((set_conn fd c k)\<lparr>accepts := evs\<rparr>) k'"
proof -
  from Finish_r_idle [OF rq, of k] obtain rq1 where 1: "FCGX_Finish_r rq k = Ret (rq1, k)" "ipcFd (core rq1) = -1"
    "appStatus (core rq1) = appStatus (core rq)" by blast
  define k1 where "k1 = (set_conn fd c k)\<lparr>accepts := evs\<rparr>"
  define r1 where "r1 = (core rq1)\<lparr>ipcFd := fd\<rparr>"
  have cn: "connect ia addrs (core rq1) k = Ret (r1, k1)"
    using 1(2) OS_Accept_admitted [OF k(1,3,4)] by (simp add: connect_def r1_def k1_def)
  have "net (ipcFd r1) k1 (request_bytes rid body rs @ W)"
    using k(2) c by (simp add: net_def k1_def r1_def)
  from read_request_complete [OF this ok re fuel] obtain ins p k2 B N where
    2: "read_request f (r1, k1) = Ret (Some (ins, p), begun rid body r1, k2)" "pvec p = re # map pair_entry ps"
      "FCGI_errno ins = 0" "rx_only fd k1 k2" "at_input \<lparr>strm = ins, req = begun rid body r1, kern = k2\<rparr> B N" "B @ N = W"
    by (auto simp: r1_def)
  from start_request_serves [OF 2(5,6,3), of p rq1] obtain rq' where
    3: "start_request ins p (begun rid body r1) k2 rq1 = Ret rq'" "core rq' = (begun rid body r1)\<lparr>nWriters := 2\<rparr>"
      "serves fd (re # map pair_entry ps) W rq' k2"
    using 2(2) by (auto simp: begun_def r1_def)
  have "FCGX_Accept_r (Suc m) f ia True addrs rq k = Ret (0, rq', k2)"
    using 1(1) cn 2(1) 3(1) k(5) by (simp add: FCGX_Accept_r_def r1_def)
  with 3 2(4) 1(3) show ?thesis by (auto simp: begun_def r1_def k1_def)
qed

end
