(* ===== verification/Fcgi_Session.thy ===== *)
theory Fcgi_Session
  imports Fcgi_Request_Correct
begin

text \<open>
  A whole request: what the application has put into its output stream, and \<open>FCGX_Finish_r\<close>, which
  closes both streams and the connection.
\<close>

section \<open>What writing leaves alone\<close>

text \<open>Writing changes connections only: asynchronous operations and closed connections stay.\<close>

definition writes_only :: "'a cprog \<Rightarrow> bool" where
  "writes_only p \<longleftrightarrow> (\<forall>st x st'. p st = Ret (x, st') \<longrightarrow>
     aio (kern st') = aio (kern st) \<and> closed_log (kern st') = closed_log (kern st))"

named_theorems writes_only_intros

lemma writes_onlyD:
  "writes_only p \<Longrightarrow> p st = Ret (x, st') \<Longrightarrow> aio (kern st') = aio (kern st) \<and> closed_log (kern st') = closed_log (kern st)"
  by (simp add: writes_only_def)

lemma writes_only_basic [writes_only_intros]:
  "writes_only (retC x)" "writes_only (liftC r)" "writes_only (modS f)" "writes_only (modR g)"
  "writes_only (store_bytes i bs)" "writes_only (fetch_bytes i n)" "writes_only (\<lambda>_. Abort)" "writes_only (\<lambda>_. Hang)"
  by (auto simp: writes_only_def cprog_defs store_bytes_def fetch_bytes_def Let_def split: if_splits; cases r; simp)+

lemma writes_only_bind [writes_only_intros]:
  "writes_only m \<Longrightarrow> (\<And>x. writes_only (f x)) \<Longrightarrow> writes_only (bindC m f)"
  unfolding writes_only_def
proof (intro allI impI)
  fix st x st'
  assume m: "\<forall>st x st'. m st = Ret (x, st') \<longrightarrow> aio (kern st') = aio (kern st) \<and> closed_log (kern st') = closed_log (kern st)"
    and f: "\<And>x. \<forall>st y st'. f x st = Ret (y, st') \<longrightarrow> aio (kern st') = aio (kern st) \<and> closed_log (kern st') = closed_log (kern st)"
    and b: "bindC m f st = Ret (x, st')"
  from b obtain y st1 where "m st = Ret (y, st1)" "f y st1 = Ret (x, st')"
    by (cases "m st") (auto simp: bindC_def split: prod.splits)
  with m f show "aio (kern st') = aio (kern st) \<and> closed_log (kern st') = closed_log (kern st)" by metis
qed

lemma writes_only_seq [writes_only_intros]: "writes_only m \<Longrightarrow> writes_only p \<Longrightarrow> writes_only (seqC m p)"
  by (simp add: seqC_def writes_only_bind)

lemma writes_only_with [writes_only_intros]:
  "(\<And>s. writes_only (f s)) \<Longrightarrow> writes_only (withS f)" "(\<And>r. writes_only (g r)) \<Longrightarrow> writes_only (withR g)"
  by (auto simp: writes_only_def withS_def withR_def)

lemma writes_only_if [writes_only_intros]:
  "(b \<Longrightarrow> writes_only p) \<Longrightarrow> (\<not> b \<Longrightarrow> writes_only q) \<Longrightarrow> writes_only (if b then p else q)"
  by simp

lemma OS_Write_only: "OS_Write fd bs k = (n, k') \<Longrightarrow> aio k' = aio k \<and> closed_log k' = closed_log k"
  by (auto simp: OS_Write_def sys_write_def split: if_splits option.splits list.splits tx_event.splits)

lemma write_it_all_only: "write_it_all fd bs k = (n, k') \<Longrightarrow> aio k' = aio k \<and> closed_log k' = closed_log k"
proof (induction fd bs k rule: write_it_all.induct)
  case (1 fd bs k)
  obtain w k1 where "OS_Write fd bs k = (w, k1)" by (cases "OS_Write fd bs k")
  with 1 OS_Write_only [OF this] show ?case
    by (subst (asm) (2) write_it_all.simps) (auto split: if_splits)
qed

lemma writes_only_send [writes_only_intros]: "writes_only (send bs)"
  by (auto simp: writes_only_def send_def split: prod.splits if_splits dest: write_it_all_only)

lemma writes_only_flush [writes_only_intros]: "writes_only empty_buffer" "writes_only flush_buffer" "writes_only seal_record"
  unfolding empty_buffer_def flush_buffer_def seal_record_def Let_def by (intro writes_only_intros)+

lemma writes_only_put [writes_only_intros]: "writes_only (put_loop k str moved)" "writes_only (FCGX_PutStr str)"
proof -
  show p: "writes_only (put_loop k str moved)" for k str moved
    by (induction k arbitrary: str moved) (simp_all add: Let_def, (intro writes_only_intros | assumption)+)
  show "writes_only (FCGX_PutStr str)" unfolding FCGX_PutStr_def by (intro writes_only_intros p)
qed

lemma writes_only_close: "writes_only FCGX_FClose"
  unfolding FCGX_FClose_def EmptyBuffProc_def WriteCloseRecords_def by (intro writes_only_intros)

lemma writes_only_put_all: "writes_only (put_all strs)"
  by (induction strs) (simp_all, (intro writes_only_intros | assumption)+)

section \<open>Closing a stream\<close>

definition out_bytes :: "sio \<Rightarrow> byte list" where
  "out_bytes st = sealed st @ eof_bytes st @ end_bytes (req st)"

lemma close_stream_sends:
  assumes "writer \<lparr>strm = s, req = r, kern = k\<rparr>" and "\<not> rawWrite s" "\<not> wasFCloseCalled s" "FCGI_errno s = 0"
  shows "\<exists>k'. close_stream (Some s) (r, k) = Ret (False, r\<lparr>nWriters := nWriters r - 1\<rparr>, k') \<and> reliable (ipcFd r) k' \<and>
    sent_on (ipcFd r) k' = sent_on (ipcFd r) k @ out_bytes \<lparr>strm = s, req = r, kern = k\<rparr> \<and>
    aio k' = aio k \<and> closed_log k' = closed_log k"
proof -
  let ?st = "\<lparr>strm = s, req = r, kern = k\<rparr>"
  from FCGX_FClose_spec [OF assms(1)] assms(2-) obtain st' where c: "FCGX_FClose ?st = Ret (0, st')"
    "req st' = r\<lparr>nWriters := nWriters r - 1\<rparr>" "reliable (ipcFd r) (kern st')"
    "sent st' = sent ?st @ sealed ?st @ eof_bytes ?st @ end_bytes r" by auto
  with writes_onlyD [OF writes_only_close c(1)] show ?thesis
    by (simp add: close_stream_def run_on_def sent_def out_bytes_def)
qed

text \<open>The error stream that was not written sends nothing.\<close>

lemma out_bytes_unused:
  assumes "nWriters r = 2"
  shows "out_bytes \<lparr>strm = NewWriter b 512 FCGI_STDERR, req = r, kern = k\<rparr> = []"
  using assms by (simp add: out_bytes_def sealed_def eof_bytes_def end_bytes_def)

section \<open>The response\<close>

definition response :: "int \<Rightarrow> int \<Rightarrow> byte list list \<Rightarrow> byte list" where
  "response rid status cs =
     concat (map (frame FCGI_STDOUT rid) cs) @ frame FCGI_STDOUT rid [] @
     end_frame rid status FCGI_REQUEST_COMPLETE"

lemma response_written:
  assumes w: "writer st" and new: "strm st = NewWriter a 8192 FCGI_STDOUT" and 2: "wrote st out st1"
    and st2: "strm st2 = strm st1" "requestId (req st2) = requestId (req st)" "appStatus (req st2) = appStatus (req st)"
      "nWriters (req st2) = 1"
  shows "\<exists>cs. concat cs = out \<and> list_all (\<lambda>c. c \<noteq> [] \<and> length c \<le> 65528) cs \<and>
    sent st1 @ out_bytes st2 = sent st @ response (requestId (req st)) (appStatus (req st)) cs"
proof -
  let ?rid = "requestId (req st)"
  from 2 new obtain cs where cs: "writer st1" "same_writer st st1" "list_all (chunk st) cs"
    "out = concat cs @ pend (strm st1)" "sent st1 = sent st @ concat (map (load st) cs)" by (auto simp: wrote_def)
  have l: "load st = frame FCGI_STDOUT ?rid" "chunk st = (\<lambda>c. c \<noteq> [] \<and> length c \<le> 65528)"
    using new by (simp_all add: load_def chunk_def fun_eq_iff)
  have s1: "\<not> rawWrite (strm st1)" "stype (strm st1) = FCGI_STDOUT" using cs(2) new by (simp_all add: same_writer_def)
  define ds where "ds = cs @ (if pend (strm st1) = [] then [] else [pend (strm st1)])"
  have "concat ds = out" "list_all (\<lambda>c. c \<noteq> [] \<and> length c \<le> 65528) ds"
    using cs(3,4) pend_bound [OF cs(1)] s1(1) by (simp_all add: ds_def l)
  moreover have "sent st1 @ out_bytes st2 = sent st @ response ?rid (appStatus (req st)) ds"
    using cs(5) s1 st2
    by (simp add: out_bytes_def sealed_def load_def eof_bytes_def end_bytes_def ds_def response_def l
        FCGI_STDOUT_def FCGI_STDERR_def)
  ultimately show ?thesis by blast
qed

text \<open>What the client has when the request is finished.\<close>

definition finished :: "int \<Rightarrow> bool \<Rightarrow> byte list \<Rightarrow> kernel \<Rightarrow> fcgx_request \<Rightarrow> kernel \<Rightarrow> bool" where
  "finished fd keep bytes k rq' k' \<longleftrightarrow> in_stream rq' = None \<and> out_stream rq' = None \<and> err_stream rq' = None \<and>
     paramsPtr rq' = None \<and>
     (if keep then ipcFd (core rq') = fd \<and> sent_on fd k' = bytes \<and> closed_log k' = closed_log k
      else ipcFd (core rq') = -1 \<and> conns k' fd = None \<and> closed_log k' = closed_log k @ [(fd, bytes)])"

lemma Free_finished:
  assumes "reliable fd k" "\<not> asyncIoInUse (aio k)" "ipcFd (core rq) = fd" "fd \<noteq> -1"
  shows "\<exists>rq' k'. FCGX_Free (\<not> keep) rq k = Ret (rq', k') \<and> finished fd keep (sent_on fd k) k rq' k'"
  using assms
  by (auto simp: FCGX_Free_def OS_IpcClose_def OS_Close_def aio_close_def sys_close_def finished_def reliable_def
      sent_on_def FCGX_FreeStream_def FreeParams_def Let_def)

lemma finish_response:
  assumes s: "serves fd env W rq k" and rel: "reliable fd k" and aio: "\<not> asyncIoInUse (aio k)" and fd: "fd \<noteq> -1"
    and out: "out_stream rq = Some os"
  shows "\<exists>w k1 rq' k2 cs. run_on os (put_all strs) (core rq, k) = Ret ((), w, core rq, k1) \<and>
    FCGX_Finish_r (rq\<lparr>out_stream := Some w\<rparr>) k1 = Ret (rq', k2) \<and>
    concat cs = concat strs \<and> list_all (\<lambda>c. c \<noteq> [] \<and> length c \<le> 65528) cs \<and>
    finished fd (keepConnection (core rq))
      (sent_on fd k @ response (requestId (core rq)) (appStatus (core rq)) cs) k rq' k2"
proof -
  from s out obtain ins a b where rq: "in_stream rq = Some ins" "FCGI_errno ins = 0" "os = NewWriter a 8192 FCGI_STDOUT"
    "err_stream rq = Some (NewWriter b 512 FCGI_STDERR)" "ipcFd (core rq) = fd" "nWriters (core rq) = 2"
    by (auto simp: serves_def)
  define st where "st = \<lparr>strm = os, req = core rq, kern = k\<rparr>"
  have w: "writer st" using rel rq by (simp add: st_def writer_def NewWriter_wf)
  from put_all_writes [OF w] obtain st1 where 1: "put_all strs st = Ret ((), st1)" "wrote st (concat strs) st1" by blast
  have s1: "writer st1" "req st1 = core rq" "\<not> rawWrite (strm st1)" "\<not> wasFCloseCalled (strm st1)" "FCGI_errno (strm st1) = 0"
    using 1(2) rq(3) by (auto simp: wrote_def same_writer_def st_def)
  have k1: "aio (kern st1) = aio k" "closed_log (kern st1) = closed_log k"
    using writes_onlyD [OF writes_only_put_all 1(1)] by (simp_all add: st_def)
  have "reliable fd (kern st1)" using s1 rq by (simp add: writer_def)
  then have "writer \<lparr>strm = NewWriter b 512 FCGI_STDERR, req = core rq, kern = kern st1\<rparr>"
    using rq by (simp add: writer_def NewWriter_wf)
  from close_stream_sends [OF this] rq out_bytes_unused obtain k3 where
    3: "close_stream (err_stream rq) (core rq, kern st1) = Ret (False, (core rq)\<lparr>nWriters := 1\<rparr>, k3)" "reliable fd k3"
      "sent_on fd k3 = sent_on fd (kern st1)" "aio k3 = aio k" "closed_log k3 = closed_log k"
    using k1 by auto
  define r2 where "r2 = (core rq)\<lparr>nWriters := 1\<rparr>"
  define st2 where "st2 = \<lparr>strm = strm st1, req = r2, kern = k3\<rparr>"
  have "writer st2" using s1(1) 3(2) rq by (simp add: writer_def st2_def r2_def)
  from close_stream_sends [OF this [unfolded st2_def]] s1 rq obtain k4 where
    4: "close_stream (Some (strm st1)) (r2, k3) = Ret (False, r2\<lparr>nWriters := 0\<rparr>, k4)" "reliable fd k4"
      "sent_on fd k4 = sent_on fd k3 @ out_bytes st2" "aio k4 = aio k" "closed_log k4 = closed_log k"
    using 3 by (auto simp: r2_def st2_def)
  from response_written [OF w _ 1(2), of a st2] rq(3) obtain cs where
    cs: "concat cs = concat strs" "list_all (\<lambda>c. c \<noteq> [] \<and> length c \<le> 65528) cs"
      "sent st1 @ out_bytes st2 = sent st @ response (requestId (core rq)) (appStatus (core rq)) cs"
    by (auto simp: st_def st2_def r2_def)
  have sent4: "sent_on fd k4 = sent_on fd k @ response (requestId (core rq)) (appStatus (core rq)) cs"
    using cs(3) 4(3) 3(3) s1(2) rq(5) by (simp add: sent_def st_def)
  let ?rq = "rq\<lparr>out_stream := Some (strm st1), core := r2\<lparr>nWriters := 0\<rparr>\<rparr>"
  have "FCGX_Finish_r (rq\<lparr>out_stream := Some (strm st1)\<rparr>) (kern st1) = FCGX_Free (\<not> keepConnection (core rq)) ?rq k4"
    using rq 3(1) 4(1) by (simp add: FCGX_Finish_r_def FCGX_GetError_def r2_def)
  moreover from Free_finished [of fd k4 ?rq "keepConnection (core rq)"] 4 aio fd rq(5) obtain rq' k' where
    "FCGX_Free (\<not> keepConnection (core rq)) ?rq k4 = Ret (rq', k')" "finished fd (keepConnection (core rq)) (sent_on fd k4) k4 rq' k'"
    by (auto simp: r2_def)
  moreover have "run_on os (put_all strs) (core rq, k) = Ret ((), strm st1, core rq, kern st1)"
    using 1(1) s1(2) by (simp add: run_on_def st_def)
  ultimately show ?thesis
    using cs(1,2) sent4 4(5)
    by (intro exI [of _ "strm st1"] exI [of _ "kern st1"] exI [of _ rq'] exI [of _ k'] exI [of _ cs])
      (simp add: finished_def)
qed

end
