(* ===== verification/Fcgi_Properties.thy ===== *)
theory Fcgi_Properties
  imports Fcgi_Session
begin

text \<open>
  Properties of the FastCGI library: accepting a request, the streams, parameters and their bounds. The
  samples at the start are the inputs of the witnesses.
\<close>

section \<open>Samples\<close>

definition sample_aio :: aio_state where
  "sample_aio = OS_LibInit \<lparr>asyncIoInUse = False, asyncIoTableSize = 16, asyncIoTable = None, readFdSet = {},
     writeFdSet = {}, readFdSetPost = {}, writeFdSetPost = {}, numRdPosted = 0, numWrPosted = 0, maxFd = -1\<rparr>"

definition sample_kernel :: "byte list \<Rightarrow> kernel" where
  "sample_kernel bs = \<lparr>shutdownPending = False, shutdownNow = False, errno = 0,
     conns = [7 \<mapsto> \<lparr>crx = (if bs = [] then [] else [Rx_bytes bs]), cplan = [Tx_take 5], csent = []\<rparr>], accepts = [],
     closed_log = [], aio = sample_aio, junk = [], malloc_addr = 4096\<rparr>"

definition sample_req :: fcgx_req where
  "sample_req = (core (FCGX_InitRequest 0 0))\<lparr>requestId := 1, ipcFd := 7, nWriters := 2\<rparr>"

text \<open>A reader for the records of type \<open>T\<close> and a writer of such records.\<close>

definition sample_reader :: "int \<Rightarrow> byte list \<Rightarrow> sio" where
  "sample_reader T bs = \<lparr>strm = NewReader 4096 8192 T, req = sample_req, kern = sample_kernel bs\<rparr>"

definition sample_writer :: "int \<Rightarrow> sio" where
  "sample_writer T = \<lparr>strm = NewWriter 4096 8192 T, req = sample_req, kern = sample_kernel []\<rparr>"

lemma sample_positioned: "positioned T bs (sample_reader T bs)"
proof -
  have "at_input (sample_reader T bs) [] bs"
    by (simp add: at_input_def NewReader_wf sample_reader_def sample_kernel_def net_def sample_req_def)
  then show ?thesis
    by (auto simp: positioned_def sample_reader_def)
qed

lemma sample_writes: "writer (sample_writer T)" "sent (sample_writer T) = []"
  by (simp_all add: writer_def NewWriter_wf sample_writer_def sample_kernel_def reliable_def sent_def sent_on_def
      sample_req_def)

section \<open>Streams\<close>

lemma frames_length: "length (concat cs) \<le> length (concat (map (frame T rid) cs))"
  by (induction cs) (auto simp: frame_def)

text \<open>
  C28: What an application puts into an output stream is what a reader of the records gets, for any
  lengths of the texts, any sizes of the buffer and any pieces in which the connection takes and delivers
  the bytes.
\<close>

theorem stream_roundtrip:
  assumes "writer st" and "strm st = NewWriter a blen T" and "sent st = []"
    and "0 \<le> T" "T < 256" "T \<notin> {FCGI_BEGIN_REQUEST, FCGI_STDERR}" "ident (requestId (req st))"
    and "seqC (put_all strs) FCGX_FClose st = Ret (rc, st')"
    and "positioned T (sent st') rd" "requestId (req rd) = requestId (req st)" "length (sent st') + 2 \<le> K"
  shows "rc = 0 \<and> (\<exists>rd'. FCGX_GetStr K (FillBuffProc K) n rd = Ret (take (nat n) (concat strs), rd'))"
proof -
  let ?rid = "requestId (req st)"
  from written_stream [OF assms(1,2), of strs] assms(3,6,8) obtain cs where
    rc: "rc = 0" and cs: "concat cs = concat strs" "list_all (\<lambda>c. c \<noteq> [] \<and> length c \<le> 65528) cs"
      "sent st' = concat (map (frame T ?rid) cs) @ frame T ?rid [] @ end_bytes (req st)" by auto
  have pad: "padding i < 256" for i using padding_less [of i] by simp
  define rs :: "rec list" where "rs = map (\<lambda>c. (T, ?rid, c, replicate (padding (length c)) 0)) cs"
  have "sent st' = input_stream T ?rid rs @ end_bytes (req st)"
    by (simp add: cs(3) input_stream_def rs_def frame_packet [abs_def] comp_def)
  moreover have "list_all (stream_rec T ?rid) rs"
    using cs(2) assms(4-7) pad by (auto simp: rs_def list_all_iff small_packet_def)
  moreover have "concat (map (own_content ?rid) rs) = concat strs" by (simp add: rs_def comp_def cs(1))
  ultimately have "content False T ?rid 0 0 False (sent st') = (concat strs, Some (end_bytes (req st)))"
    using content_stream [of T ?rid rs "end_bytes (req st)"] assms(4-7) by simp
  then have r: "reads K rd (concat strs) (Some (end_bytes (req st)))"
    using positioned_reads [OF assms(9), of "concat strs"] assms(10,11) by simp
  have "length (concat strs) \<le> length (sent st')"
    using frames_length [of cs T ?rid] by (simp add: cs(3) flip: cs(1))
  with FCGX_GetStr_reads [OF r, of n K] assms(11) rc show ?thesis by auto
qed

theorem stream_roundtrip_witness:
  "\<exists>st' rd'. seqC (put_all [[104], [105, 33]]) FCGX_FClose (sample_writer FCGI_STDOUT) = Ret (0, st') \<and>
     FCGX_GetStr (length (sent st') + 2) (FillBuffProc (length (sent st') + 2)) 2 (sample_reader FCGI_STDOUT (sent st')) =
       Ret ([104, 105], rd')"
proof -
  have w: "strm (sample_writer FCGI_STDOUT) = NewWriter 4096 8192 FCGI_STDOUT" by (simp add: sample_writer_def)
  from written_stream [OF sample_writes(1) w, of "[[104], [105, 33]]"] obtain st' where
    s: "seqC (put_all [[104], [105, 33]]) FCGX_FClose (sample_writer FCGI_STDOUT) = Ret (0, st')" by blast
  from stream_roundtrip [OF sample_writes(1) w sample_writes(2) _ _ _ _ s sample_positioned, of "length (sent st') + 2" 2]
  show ?thesis
    using s by (auto simp: fcgi_types ident_def sample_writer_def sample_reader_def sample_req_def)
qed

text \<open>
  C30: The operations on an open output stream keep the stream well formed and touch no memory outside of
  its buffer: they return, with the text taken, whatever the length of the text and the fill of the buffer.
\<close>

theorem writing_keeps_stream:
  assumes "writer st"
  shows "\<exists>st1 st2 st3. FCGX_PutStr str st = Ret (int (length str), st1) \<and> writer st1 \<and>
    FCGX_PutChar c st = Ret (c mod 256, st2) \<and> writer st2 \<and> FCGX_FFlush st = Ret (0, st3) \<and> writer st3"
proof -
  from FCGX_PutStr_writes [OF assms, of str] obtain st1 where
    "FCGX_PutStr str st = Ret (int (length str), st1)" "writer st1" by (auto simp: wrote_def)
  moreover from FCGX_PutChar_writes [OF assms, of c] obtain st2 where
    "FCGX_PutChar c st = Ret (uint (word_of_int c :: byte), st2)" "writer st2" by (auto simp: wrote_def)
  moreover have "uint (word_of_int c :: byte) = c mod 256" by (simp add: unsigned_of_int take_bit_eq_mod)
  moreover from FCGX_FFlush_writes [OF assms] obtain st3 where
    "FCGX_FFlush st = Ret (0, st3)" "writer st3" by (auto simp: wrote_def)
  ultimately show ?thesis by metis
qed

theorem writing_keeps_stream_witness:
  "\<exists>st1 st2 st3. FCGX_PutStr (replicate 9000 65) (sample_writer FCGI_STDOUT) = Ret (9000, st1) \<and> writer st1 \<and>
    FCGX_PutChar 300 (sample_writer FCGI_STDOUT) = Ret (44, st2) \<and> writer st2 \<and>
    FCGX_FFlush (sample_writer FCGI_STDOUT) = Ret (0, st3) \<and> writer st3"
  using writing_keeps_stream [OF sample_writes(1) [of FCGI_STDOUT], of "replicate 9000 65" 300] by simp

text \<open>
  C34: The buffer of a new stream lies inside of the allocated memory for every alignment of the address
  and every requested size; it has room for a header and eight bytes, and its content fits the 16-bit
  length of a record with its padding.
\<close>

theorem new_stream_bounds:
  "16 \<le> bufflen (NewStream a blen rd T) \<and> 8 dvd bufflen (NewStream a blen rd T) \<and>
   bufflen (NewStream a blen rd T) \<le> length (buff (NewStream a blen rd T)) \<and>
   bufflen (NewStream a blen rd T) \<le> 65528 + 8 \<and>
   stop (NewStream a blen rd T) \<le> bufflen (NewStream a blen rd T)"
proof -
  have "wf_writer (NewStream a blen False T)" using NewWriter_wf by (simp add: NewWriter_def)
  moreover have "bufflen (NewStream a blen rd T) = bufflen (NewStream a blen False T)"
    "buff (NewStream a blen rd T) = buff (NewStream a blen False T)"
    "stop (NewStream a blen rd T) = (if rd then 0 else bufflen (NewStream a blen False T))"
    by (simp_all only: NewStream_def Let_def fcgx_stream.simps simp_thms if_True if_False)
  ultimately show ?thesis by (simp add: wf_writer_def)
qed

text \<open>
  \<open>write_it_all\<close> ends on every connection. What it sent is a prefix of its bytes, and all of them
  unless it reports an error.
\<close>

theorem write_it_all_sends_prefix:
  assumes "write_it_all fd bs k = (n, k')"
  shows "\<exists>done rest. bs = done @ rest \<and> sent_on fd k' = sent_on fd k @ done \<and>
    (n = 0 \<and> rest = [] \<or> n < 0 \<and> rest \<noteq> [])"
  using assms by (rule write_it_all_prefix)

theorem write_it_all_sends_prefix_witness:
  "\<exists>done rest. [1, 2, 3] = done @ rest \<and>
    sent_on 7 (snd (write_it_all 7 [1, 2, 3] (sample_kernel []))) = sent_on 7 (sample_kernel []) @ done \<and>
    (fst (write_it_all 7 [1, 2, 3] (sample_kernel [])) = 0 \<and> rest = [] \<or>
     fst (write_it_all 7 [1, 2, 3] (sample_kernel [])) < 0 \<and> rest \<noteq> [])"
  by (rule write_it_all_sends_prefix) simp

text \<open>
  A record of another request without content makes the reader drop the content of the next record of
  its own request: the application gets the end of the stream although the client sent \<open>c\<close>.
\<close>

theorem empty_foreign_record_loses_content:
  assumes "positioned T (packet T' i [] z @ packet T rid c y @ packet T rid [] []) st" and "requestId (req st) = rid"
    and "small_packet T' [] z" "T' \<noteq> FCGI_BEGIN_REQUEST" "ident i" "i \<noteq> rid"
    and "small_packet T c y" "T \<noteq> FCGI_BEGIN_REQUEST" "ident rid" "c \<noteq> []"
    and "length (packet T' i [] z @ packet T rid c y @ packet T rid [] []) < K"
  shows "\<exists>st'. FCGX_GetChar (FillBuffProc K) st = Ret (EOF, st') \<and> FCGI_errno (strm st') = FCGI_errno (strm st)"
proof -
  have "content False T rid 0 0 False (packet T' i [] z @ packet T rid c y @ packet T rid [] []) = ([], Some [])"
    using content_foreign_empty [of T' z i rid T c y "packet T rid [] []"] content_eof [of T "[]" rid False "[]"] assms
    by (simp add: small_packet_def)
  then have "reads K st [] (Some [])" using positioned_reads [OF assms(1) _ assms(11)] assms(2) by simp
  from FCGX_GetChar_end [OF this] show ?thesis by (auto simp: same_reader_def)
qed

theorem empty_foreign_record_loses_content_witness:
  "\<exists>st'. FCGX_GetChar (FillBuffProc 100) (sample_reader FCGI_STDIN
      (packet FCGI_STDIN 2 [] [] @ packet FCGI_STDIN 1 [104, 105] [] @ packet FCGI_STDIN 1 [] [])) = Ret (EOF, st')"
  using empty_foreign_record_loses_content [OF sample_positioned, of FCGI_STDIN FCGI_STDIN 2 "[]" 1 "[104, 105]" "[]" 100]
  by (auto simp: sample_reader_def sample_req_def small_packet_def ident_def fcgi_types packet_def frame_header_def)

section \<open>Parameters\<close>

text \<open>
  C29: The parameters of a request read back: from a stream that holds the encoded pairs, cut into records
  and delivered in any way, \<open>ReadParams\<close> builds an environment in which \<open>FCGX_GetParam\<close> finds for each
  name the value the client gave it first.
\<close>

theorem params_roundtrip:
  assumes "reads K st (concat (map encode_pair ps)) (Some rest)" and "list_all pair_fits ps" "list_all plain_pair ps"
    and "NewParams n = Ret p" and "length (concat (map encode_pair ps)) + 3 \<le> k"
  shows "\<exists>p' st'. ReadParams k (FillBuffProc K) p st = Ret ((0, p'), st') \<and>
    (\<forall>name. plain_name name \<longrightarrow> FCGX_GetParam (Some name) (Some (pvec p')) = map_of ps name)"
proof -
  have "wf_params p" "pvec p = []" using assms(4) by (auto simp: NewParams_def wf_params_def split: if_splits)
  with fcgx.ReadParams_complete [of K rest st ps p k] assms(1,2,5) obtain p' st' where
    "ReadParams k (FillBuffProc K) p st = Ret ((0, p'), st')" "pvec p' = map pair_entry ps"
    by (auto simp: gives_def)
  with GetParam_entries [OF assms(3)] show ?thesis by auto
qed

definition sample_pairs :: "(byte list \<times> byte list) list" where
  "sample_pairs = [([65], [49, 50]), ([66], [])]"

definition sample_params :: "byte list" where
  "sample_params = input_stream FCGI_PARAMS 1 [(FCGI_PARAMS, 1, concat (map encode_pair sample_pairs), [])]"

lemma one_record_read:
  assumes "c \<noteq> []" "length c < 65536" "length (input_stream FCGI_PARAMS 1 [(FCGI_PARAMS, 1, c, [])]) < K"
  shows "reads K (sample_reader FCGI_PARAMS (input_stream FCGI_PARAMS 1 [(FCGI_PARAMS, 1, c, [])])) c (Some [])"
proof -
  have "list_all (stream_rec FCGI_PARAMS 1) [(FCGI_PARAMS, 1, c, [])]"
    using assms(1,2) by (simp add: small_packet_def fcgi_types ident_def)
  from content_stream [OF this, of "[]"] have
    "content False FCGI_PARAMS 1 0 0 False (input_stream FCGI_PARAMS 1 [(FCGI_PARAMS, 1, c, [])]) = (c, Some [])"
    by (simp add: fcgi_types ident_def)
  with positioned_reads [OF sample_positioned _ assms(3), of FCGI_PARAMS] show ?thesis
    by (simp add: sample_reader_def sample_req_def)
qed

lemma sample_params_read:
  "reads 100 (sample_reader FCGI_PARAMS sample_params) (concat (map encode_pair sample_pairs)) (Some [])"
  using one_record_read [of "concat (map encode_pair sample_pairs)" 100]
  by (simp add: sample_params_def input_stream_def packet_def sample_pairs_def encode_length_def)

theorem params_roundtrip_witness:
  "\<exists>p' st'. ReadParams 20 (FillBuffProc 100) \<lparr>pvec = [], plength = 30\<rparr> (sample_reader FCGI_PARAMS sample_params) =
      Ret ((0, p'), st') \<and> FCGX_GetParam (Some [65]) (Some (pvec p')) = Some [49, 50]"
proof -
  have "list_all pair_fits sample_pairs" "list_all plain_pair sample_pairs" "plain_name [65]"
    "NewParams 30 = Ret \<lparr>pvec = [], plength = 30\<rparr>" "length (concat (map encode_pair sample_pairs)) + 3 \<le> 20"
    "map_of sample_pairs [65] = Some [49, 50]"
    by (simp_all add: sample_pairs_def plain_name_def equals_sign_def NewParams_def encode_length_def)
  with params_roundtrip [OF sample_params_read, of 30 "\<lparr>pvec = [], plength = 30\<rparr>" 20] show ?thesis by fastforce
qed

text \<open>
  A stream that ends inside of a name-value pair is an error: \<open>ReadParams\<close> returns -1, keeps the pairs
  before, closes the stream and leaves \<open>FCGX_PARAMS_ERROR\<close> unless an error was set before.
\<close>

theorem params_cut_is_error:
  assumes "reads K st (concat (map encode_pair ps) @ take m (encode_pair nv)) (Some rest)"
    and "list_all pair_fits (nv # ps)" and "wf_params p" and "0 < m" "m < length (encode_pair nv)"
    and "length (concat (map encode_pair ps)) + length (encode_pair nv) + 7 \<le> k"
  shows "\<exists>p' st'. ReadParams k (FillBuffProc K) p st = Ret ((-1, p'), st') \<and> pvec p' = pvec p @ map pair_entry ps \<and>
    isClosed (strm st') \<and>
    FCGI_errno (strm st') = (if FCGI_errno (strm st) = 0 then FCGX_PARAMS_ERROR else FCGI_errno (strm st))"
proof -
  from fcgx.ReadParams_cut [of K rest st ps m nv p k] assms obtain p' st1 where
    "ReadParams k (FillBuffProc K) p st = Ret ((-1, p'), st1\<lparr>strm := SetError FCGX_PARAMS_ERROR (strm st1)\<rparr>)"
    "taken st st1" "pvec p' = pvec p @ map pair_entry ps"
    by (auto simp: gives_def)
  then show ?thesis by (auto simp: SetError_def taken_def same_reader_def)
qed

definition cut_params :: "byte list" where
  "cut_params = input_stream FCGI_PARAMS 1 [(FCGI_PARAMS, 1, [1, 2, 65], [])]"

theorem params_cut_is_error_witness:
  "\<exists>p' st'. ReadParams 20 (FillBuffProc 100) \<lparr>pvec = [], plength = 30\<rparr> (sample_reader FCGI_PARAMS cut_params) =
      Ret ((-1, p'), st') \<and> pvec p' = [] \<and> FCGI_errno (strm st') = FCGX_PARAMS_ERROR"
proof -
  have "reads 100 (sample_reader FCGI_PARAMS cut_params) (concat (map encode_pair []) @ take 3 (encode_pair ([65], [49, 50]))) (Some [])"
    using one_record_read [of "[1, 2, 65]" 100]
    by (simp add: cut_params_def encode_length_def input_stream_def packet_def)
  from params_cut_is_error [OF this, of "\<lparr>pvec = [], plength = 30\<rparr>" 20] show ?thesis
    by (auto simp: wf_params_def encode_length_def sample_reader_def)
qed

text \<open>
  C37: Two lengths whose sum wraps around in \<open>nameLen + valueLen + 2\<close> get a buffer of no bytes, into which
  \<open>ReadParams\<close> copies what the client sends: a write outside of the allocated memory.
\<close>

theorem params_length_overflow:
  assumes "reads K st (replicate 8 0xff @ b # bs) (Some rest)" and "length bs + 12 \<le> k"
  shows "ReadParams k (FillBuffProc K) p st = Fault"
  using fcgx.ReadParams_overflow [of K rest st b bs k p] assms by (simp add: gives_def)

theorem params_length_overflow_witness:
  "ReadParams 20 (FillBuffProc 100) \<lparr>pvec = [], plength = 30\<rparr>
     (sample_reader FCGI_PARAMS (input_stream FCGI_PARAMS 1 [(FCGI_PARAMS, 1, replicate 8 0xff @ [65], [])])) = Fault"
  by (rule params_length_overflow [where b = 65 and bs = "[]" and rest = "[]"])
    (use one_record_read [of "replicate 8 0xff @ [65]" 100] in \<open>simp_all add: input_stream_def packet_def\<close>)

text \<open>
  C35: A vector of parameters always has a free slot for its terminating null pointer: from \<open>NewParams\<close> on,
  \<open>PutParam\<close> stays inside of the vector, however many entries there are, and appends the entry.
\<close>

theorem params_vector_type:
  assumes "wf_params p"
  shows "\<exists>p'. PutParam p e = Ret p' \<and> wf_params p' \<and> pvec p' = pvec p @ [e] \<and> plength p \<le> plength p'"
  using assms by (rule PutParam_wf)

theorem params_vector_type_witness:
  "\<exists>p'. PutParam \<lparr>pvec = [[1], [2]], plength = 3\<rparr> [3] = Ret p' \<and> wf_params p' \<and> pvec p' = [[1], [2]] @ [[3]] \<and> 3 \<le> plength p'"
  using params_vector_type [of "\<lparr>pvec = [[1], [2]], plength = 3\<rparr>" "[3]"] by (simp add: wf_params_def)

section \<open>Management records\<close>

text \<open>
  The answer to \<open>FCGI_GET_VALUES\<close> fits the array \<open>response[64]\<close> when no value is asked for twice: the
  contents end at byte 59 at the latest.
\<close>

theorem values_answer_fits:
  assumes "list_all (\<lambda>e. 0 \<notin> set (entry_name e)) es" and "distinct (asked es)"
  shows "\<exists>resp' pos. answer_values es resp 8 = Ret (resp', pos) \<and> pos = 8 + answer_size (asked es) \<and> pos \<le> 59"
proof -
  have "set (asked es) \<subseteq> dom known_value" by (auto simp: asked_def)
  with assms(2) have "answer_size (asked es) \<le> 51" by (rule answer_size_distinct)
  with answer_values_fits [OF assms(1), of 8 resp] show ?thesis by auto
qed

theorem values_answer_fits_witness:
  "\<exists>resp' pos. answer_values [ascii ''FCGI_MAX_CONNS='', ascii ''FCGI_MPXS_CONNS=''] (replicate 64 0) 8 = Ret (resp', pos) \<and> pos \<le> 59"
proof -
  have "asked [ascii ''FCGI_MAX_CONNS='', ascii ''FCGI_MPXS_CONNS=''] = [ascii ''FCGI_MAX_CONNS'', ascii ''FCGI_MPXS_CONNS'']"
    by code_simp
  moreover have "list_all (\<lambda>e. 0 \<notin> set (entry_name e)) [ascii ''FCGI_MAX_CONNS='', ascii ''FCGI_MPXS_CONNS='']"
    by code_simp
  ultimately show ?thesis
    using values_answer_fits [of "[ascii ''FCGI_MAX_CONNS='', ascii ''FCGI_MPXS_CONNS='']" "replicate 64 0"]
    by (fastforce simp: ascii_def)
qed

text \<open>
  A client that asks four times for \<open>FCGI_MAX_CONNS\<close> makes the library write past the end of the array.
\<close>

theorem values_answer_overflows:
  "answer_values (replicate 4 (ascii ''FCGI_MAX_CONNS='')) resp 8 = Fault"
proof -
  let ?e = "ascii ''FCGI_MAX_CONNS=''"
  have "takeWhile (\<lambda>b. b \<noteq> equals_sign) ?e = ascii ''FCGI_MAX_CONNS''" by code_simp
  moreover have "0 \<notin> set (ascii ''FCGI_MAX_CONNS'')" "length (ascii ''FCGI_MAX_CONNS'') = 14" by code_simp+
  moreover have "known_value (ascii ''FCGI_MAX_CONNS'') = Some 0x31" by (simp add: known_value_def)
  ultimately have step: "answer_values (?e # es) r pos =
      (if pos + 18 \<le> 64 then answer_values es (take pos r @ 14 # 1 # ascii ''FCGI_MAX_CONNS'' @ 0x31 # 0 # drop (pos + 18) r) (17 + pos)
       else Fault)" for es r pos
    by (simp add: put_response_def Let_def)
  have "replicate 4 ?e = [?e, ?e, ?e, ?e]" by (simp add: numeral_eq_Suc)
  then show ?thesis by (simp only: step) simp
qed

section \<open>Requests\<close>

text \<open>
  C26: From a client that sends a begin record, the parameters and its input, each cut into records in any
  way and delivered in any pieces, \<open>FCGX_Accept_r\<close> makes a request with the environment of the parameters
  after the role, and its input stream gives the bytes the client sent.
\<close>

theorem accept_reads_request:
  assumes rq: "in_stream rq = None" "ipcFd (core rq) = -1"
    and k: "\<not> shutdownPending k" "\<not> shutdownNow k" "accepts k = Acc_conn fd pr c # evs" "admitted ia addrs pr" "0 \<le> fd"
    and c: "list_all (\<lambda>e. arrived e \<noteq> []) (crx c)"
      "concat (map arrived (crx c)) = request_bytes rid body rs @ input_stream FCGI_STDIN rid ins @ W"
    and ok: "request_ok rid body rs ps" and re: "role_entry (two_bytes (body ! 0) (body ! 1)) = Some re"
    and ins: "list_all (stream_rec FCGI_STDIN rid) ins"
    and fuel: "length (request_bytes rid body rs @ input_stream FCGI_STDIN rid ins @ W) < f"
  shows "\<exists>rq' k' s s'. FCGX_Accept_r (Suc m) f ia True addrs rq k = Ret (0, rq', k') \<and>
    envp rq' = Some (re # map pair_entry ps) \<and> requestId (core rq') = rid \<and> in_stream rq' = Some s \<and>
    FCGX_GetStr f (FillBuffProc f) n \<lparr>strm = s, req = core rq', kern = k'\<rparr> =
      Ret (take (nat n) (concat (map (own_content rid) ins)), s')"
proof -
  let ?W = "input_stream FCGI_STDIN rid ins @ W"
  from accept_r_request [OF rq k c ok re fuel] obtain rq' k' where
    1: "FCGX_Accept_r (Suc m) f ia True addrs rq k = Ret (0, rq', k')" "serves fd (re # map pair_entry ps) ?W rq' k'"
      "requestId (core rq') = rid" by blast
  then obtain s where s: "in_stream rq' = Some s" "positioned FCGI_STDIN ?W \<lparr>strm = s, req = core rq', kern = k'\<rparr>"
    by (auto simp: serves_def)
  have "content False FCGI_STDIN rid 0 0 False ?W = (concat (map (own_content rid) ins), Some W)"
    using content_stream [OF ins] ok by (simp add: fcgi_types request_ok_def)
  then have r: "reads f \<lparr>strm = s, req = core rq', kern = k'\<rparr> (concat (map (own_content rid) ins)) (Some W)"
    using positioned_reads [OF s(2)] 1(3) fuel by simp
  have "length (concat (map (own_content rid) ins)) \<le> length (concat (map rec_bytes ins))"
    by (induction ins) (auto intro: add_mono own_content_length)
  then have "length (concat (map (own_content rid) ins)) + 2 \<le> f"
    using fuel request_length [OF ok] by (simp add: input_stream_def)
  from FCGX_GetStr_reads [OF r _ this] 1 s(1) show ?thesis by (auto simp: serves_def)
qed

definition sample_body :: "byte list" where
  "sample_body = [0, 1, 0, 0, 0, 0, 0, 0]"

definition sample_input :: "rec list" where
  "sample_input = [(FCGI_STDIN, 1, [104, 105], [0]), (FCGI_STDIN, 2, [1], []), (FCGI_STDIN, 1, [33], [])]"

definition sample_param_recs :: "rec list" where
  "sample_param_recs = [(FCGI_PARAMS, 1, concat (map encode_pair sample_pairs), [])]"

definition sample_bytes :: "byte list" where
  "sample_bytes = request_bytes 1 sample_body sample_param_recs @ input_stream FCGI_STDIN 1 sample_input @ []"

definition sample_conn :: conn where
  "sample_conn = \<lparr>crx = [Rx_bytes (take 3 sample_bytes), Rx_bytes (drop 3 sample_bytes)], cplan = [], csent = []\<rparr>"

definition sample_arrival :: kernel where
  "sample_arrival = (sample_kernel [])\<lparr>accepts := [Acc_conn 7 (Unix_socket True) sample_conn]\<rparr>"

lemma sample_request_ok: "request_ok 1 sample_body sample_param_recs sample_pairs"
  by (simp add: request_ok_def ident_def sample_body_def sample_param_recs_def small_packet_def fcgi_types sample_pairs_def
      encode_length_def)

theorem accept_reads_request_witness:
  "\<exists>rq' k' s s'. FCGX_Accept_r 1 200 (\<lambda>_. 0) True None (FCGX_InitRequest 0 0) sample_arrival = Ret (0, rq', k') \<and>
    envp rq' = Some (ascii ''FCGI_ROLE=RESPONDER'' # map pair_entry sample_pairs) \<and> in_stream rq' = Some s \<and>
    FCGX_GetStr 200 (FillBuffProc 200) 10 \<lparr>strm = s, req = core rq', kern = k'\<rparr> = Ret ([104, 105, 33], s')"
proof -
  have len: "length sample_bytes < 200" "drop 3 sample_bytes \<noteq> []" "take 3 sample_bytes \<noteq> []" by code_simp+
  have r: "role_entry (two_bytes (sample_body ! 0) (sample_body ! 1)) = Some (ascii ''FCGI_ROLE=RESPONDER'')"
    by (simp add: sample_body_def two_bytes_def role_entry_def FCGI_RESPONDER_def)
  have i: "list_all (stream_rec FCGI_STDIN 1) sample_input" "concat (map (own_content 1) sample_input) = [104, 105, 33]"
    by (simp_all add: sample_input_def small_packet_def fcgi_types ident_def)
  have k: "\<not> shutdownPending sample_arrival" "\<not> shutdownNow sample_arrival"
    "accepts sample_arrival = Acc_conn 7 (Unix_socket True) sample_conn # []" "admitted (\<lambda>_. 0) None (Unix_socket True)"
    "in_stream (FCGX_InitRequest 0 0) = None" "ipcFd (core (FCGX_InitRequest 0 0)) = -1"
    by (simp_all add: sample_arrival_def sample_kernel_def admitted_def FCGX_InitRequest_def)
  have c: "list_all (\<lambda>e. arrived e \<noteq> []) (crx sample_conn)" "concat (map arrived (crx sample_conn)) = sample_bytes"
    using len by (simp_all add: sample_conn_def)
  from accept_reads_request [OF k(5,6,1-4) _ c(1) c(2) [unfolded sample_bytes_def] sample_request_ok r i(1)
      len(1) [unfolded sample_bytes_def], of 0 10] i(2) show ?thesis by auto
qed

text \<open>
  C27: What the application has put into the output stream of a request reaches the client when the request
  is finished: the bytes in records, the end of the stream, and the end of the request with its status. The
  connection is then closed unless the client asked to keep it, and the request holds no stream any more.
\<close>

theorem finish_delivers_response:
  assumes "serves fd env W rq k" and "reliable fd k" and "\<not> asyncIoInUse (aio k)" and "fd \<noteq> -1"
    and "out_stream rq = Some os"
  shows "\<exists>w k1 rq' k2 cs. run_on os (put_all strs) (core rq, k) = Ret ((), w, core rq, k1) \<and>
    FCGX_Finish_r (rq\<lparr>out_stream := Some w\<rparr>) k1 = Ret (rq', k2) \<and>
    concat cs = concat strs \<and> list_all (\<lambda>c. c \<noteq> [] \<and> length c \<le> 65528) cs \<and>
    finished fd (keepConnection (core rq))
      (sent_on fd k @ response (requestId (core rq)) (appStatus (core rq)) cs) k rq' k2"
  using assms by (rule finish_response)

definition sample_request :: fcgx_request where
  "sample_request = (FCGX_InitRequest 0 0)\<lparr>core := sample_req, in_stream := Some (NewReader 4096 8192 FCGI_STDIN),
     out_stream := Some (NewWriter 4096 8192 FCGI_STDOUT), err_stream := Some (NewWriter 4096 512 FCGI_STDERR),
     envp := Some []\<rparr>"

theorem finish_delivers_response_witness:
  "\<exists>w k1 rq' k2 cs. run_on (NewWriter 4096 8192 FCGI_STDOUT) (put_all [[104, 105]]) (sample_req, sample_kernel []) =
      Ret ((), w, sample_req, k1) \<and>
    FCGX_Finish_r (sample_request\<lparr>out_stream := Some w\<rparr>) k1 = Ret (rq', k2) \<and> concat cs = [104, 105] \<and>
    finished 7 False (response 1 0 cs) (sample_kernel []) rq' k2"
proof -
  have r: "sent_on 7 (sample_kernel []) = []" "core sample_request = sample_req" "keepConnection sample_req = False"
    "requestId sample_req = 1" "appStatus sample_req = 0"
    by (simp_all add: sent_on_def sample_kernel_def sample_request_def sample_req_def FCGX_InitRequest_def)
  have "serves 7 [] [] sample_request (sample_kernel [])"
    using sample_positioned [of FCGI_STDIN "[]"]
    by (auto simp: serves_def sample_request_def sample_req_def sample_reader_def)
  from finish_delivers_response [OF this, of "NewWriter 4096 8192 FCGI_STDOUT" "[[104, 105]]", unfolded r] show ?thesis
    by (auto simp: reliable_def sample_kernel_def sample_aio_def OS_LibInit_def sample_request_def)
qed

end
