(* ===== verification/Sessions.thy ===== *)
theory Sessions
  imports Exec_Monad
begin

text \<open>
  Sessions: \<open>libdbpager/include/dbpager/session.h\<close> and the built-in provider, \<open>services/session_int.h\<close>.
  HTTP requests, responses and cookies are classes of dcl; the model takes their operations as a
  record of functions on arbitrary types \<open>'q\<close> and \<open>'r\<close>. A session runs on the state of the page
  interpreter with the variables of the user's context at the head of the chain.
\<close>

section \<open>The HTTP classes of dcl\<close>

datatype http_method = M_head | M_get | M_del | M_put | M_post | M_other

record http_cookie =
  cookie_name :: string
  cookie_value :: string
  cookie_path :: string
  http_only :: bool
  same_site :: string
  secure :: bool
  partitioned :: bool
  expires :: "(int \<times> int \<times> int \<times> int \<times> int \<times> int) option"

text \<open>The text members of \<open>http_request\<close> that are set and read by name.\<close>

datatype req_field =
    Auth_type | Content_type | Gateway_interface | Path_info | Path_translated | Query_string
  | Remote_addr | Remote_host | Remote_ident | Remote_user | Request_method | Script_name
  | Server_name | Server_protocol | Server_software

text \<open>
  \<open>get_content\<close> is \<open>None\<close> for \<open>NULL\<close>; otherwise it gives the \<open>get_content_size\<close> bytes at the pointer.
  \<open>response_text\<close> is \<open>operator<<\<close>, \<open>new_cookie\<close> the constructor from a name and a value.
\<close>

record ('q, 'r) http =
  new_request :: 'q
  set_field :: "req_field \<Rightarrow> string \<Rightarrow> 'q \<Rightarrow> 'q"
  set_server_port :: "int \<Rightarrow> 'q \<Rightarrow> 'q"
  set_https :: "bool \<Rightarrow> 'q \<Rightarrow> 'q"
  set_req_header :: "string \<Rightarrow> string \<Rightarrow> 'q \<Rightarrow> 'q"
  set_req_content :: "string \<Rightarrow> 'q \<Rightarrow> 'q"
  get_field :: "req_field \<Rightarrow> 'q \<Rightarrow> string"
  get_method :: "'q \<Rightarrow> http_method"
  get_server_port :: "'q \<Rightarrow> int"
  get_https :: "'q \<Rightarrow> bool"
  all_headers :: "'q \<Rightarrow> (string \<times> string) list"
  get_content :: "'q \<Rightarrow> string option"
  get_cookies :: "'q \<Rightarrow> http_cookie list"
  new_response :: 'r
  set_status :: "int \<Rightarrow> 'r \<Rightarrow> 'r"
  set_header :: "string \<Rightarrow> string \<Rightarrow> 'r \<Rightarrow> 'r"
  set_content :: "string \<Rightarrow> 'r \<Rightarrow> 'r"
  set_content_type :: "string \<Rightarrow> 'r \<Rightarrow> 'r"
  set_cookies :: "http_cookie list \<Rightarrow> 'r \<Rightarrow> 'r"
  set_cookie :: "http_cookie \<Rightarrow> 'r \<Rightarrow> 'r"
  get_status :: "'r \<Rightarrow> string"
  get_content_type :: "'r \<Rightarrow> string"
  response_text :: "'r \<Rightarrow> string"
  new_cookie :: "string \<Rightarrow> string \<Rightarrow> http_cookie"
  not_found :: int
  internal_server_error :: int

section \<open>The interface\<close>

text \<open>
  The class \<open>session_factory\<close> and the virtual methods of \<open>session_holder\<close>, as a client calls them; \<open>'h\<close>
  is the type of the holders. \<open>load_session\<close> runs on the chain of the user's context; \<open>save_session\<close>
  reads it.
\<close>

record ('h, 'q, 'r) session_factory =
  create_session :: "'q \<Rightarrow> 'h prog"
  holder_id :: "'h \<Rightarrow> string"
  load_session :: "'h \<Rightarrow> unit prog"
  save_session :: "'h \<Rightarrow> 'r \<Rightarrow> ('h \<times> 'r) prog"

section \<open>The built-in provider\<close>

record session_holder_int =
  sid :: string
  is_new :: bool
  is_https :: bool
  buffer :: "string umap"

text \<open>The two constructors.\<close>

definition new_session_holder :: "'d world \<Rightarrow> session_holder_int prog" where
  "new_session_holder w =
     bindM tickM (\<lambda>i. ret \<lparr>sid = uuid_at (ext w) i, is_new = True, is_https = False, buffer = []\<rparr>)"

definition session_holder_of :: "'d world \<Rightarrow> string \<Rightarrow> session_holder_int prog" where
  "session_holder_of w session_id =
     (if session_id = [] then new_session_holder w
      else ret \<lparr>sid = session_id, is_new = False, is_https = False, buffer = []\<rparr>)"

definition int_get_value :: "session_holder_int \<Rightarrow> string \<Rightarrow> string" where
  "int_get_value h key = (case map_of (buffer h) key of None \<Rightarrow> [] | Some v \<Rightarrow> v)"

definition int_put_value :: "string \<Rightarrow> string \<Rightarrow> session_holder_int \<Rightarrow> session_holder_int" where
  "int_put_value key v h = h\<lparr>buffer := um_put key v (buffer h)\<rparr>"

text \<open>The loop of \<open>load\<close> over the text of the session.\<close>

definition load_text :: "'d world \<Rightarrow> string \<Rightarrow> unit prog" where
  "load_text w t =
     forM (tokenize_by (dclib w) t '';'') (\<lambda>i.
       case split_pair (dclib w) i ''='' of (k, v) \<Rightarrow> if k \<noteq> [] then addM w k v [] else ret ())"

definition int_load :: "'d world \<Rightarrow> session_holder_int \<Rightarrow> unit prog" where
  "int_load w h = load_text w (int_get_value h (sid h))"

text \<open>The text that \<open>save\<close> builds from the values of the context, in the order of the hash map.\<close>

fun join_entries :: "(string \<times> string) list \<Rightarrow> string" where
  "join_entries [] = []"
| "join_entries [(k, v)] = k @ ''='' @ v"
| "join_entries ((k, v) # e # es) = k @ ''='' @ v @ '';'' @ join_entries (e # es)"

definition session_cookie :: "('q, 'r) http \<Rightarrow> string \<Rightarrow> bool \<Rightarrow> http_cookie" where
  "session_cookie H i https =
     (let c = (new_cookie H ''session'' i)\<lparr>cookie_path := ''/'', http_only := True\<rparr>
      in if https then c\<lparr>same_site := ''none'', secure := True, partitioned := True\<rparr> else c)"

definition session_text :: "'d world \<Rightarrow> ctx \<Rightarrow> string" where
  "session_text w c = join_entries (um_iter (um_order (dclib w)) (get_values c))"

text \<open>The cookies that \<open>save\<close> sets: one for a new session with variables, and one that ends a session without id.\<close>

definition save_cookies :: "('q, 'r) http \<Rightarrow> ctx \<Rightarrow> string \<Rightarrow> bool \<Rightarrow> bool \<Rightarrow> 'r \<Rightarrow> 'r" where
  "save_cookies H c i new https resp =
     (let resp1 = (if new \<and> \<not> ctx_empty c then set_cookies H [session_cookie H i https] resp else resp)
      in if i = []
         then set_cookie H ((session_cookie H [] https)\<lparr>expires := Some (1976, 4, 21, 0, 0, 0)\<rparr>) resp1
         else resp1)"

definition int_save ::
  "'d world \<Rightarrow> ('q, 'r) http \<Rightarrow> ctx \<Rightarrow> session_holder_int \<Rightarrow> 'r \<Rightarrow> session_holder_int \<times> 'r" where
  "int_save w H c h resp =
     (if ctx_empty c then h else int_put_value (sid h) (session_text w c) h,
      save_cookies H c (sid h) (is_new h) (is_https h) resp)"

definition int_create :: "'d world \<Rightarrow> ('q, 'r) http \<Rightarrow> 'q \<Rightarrow> session_holder_int prog" where
  "int_create w H q =
     bindM
      (case find (\<lambda>c. cookie_name c = ''session'') (get_cookies H q) of
         Some c \<Rightarrow> session_holder_of w (cookie_value c)
       | None \<Rightarrow> new_session_holder w)
      (\<lambda>h. ret (h\<lparr>is_https := get_https H q\<rparr>))"

definition session_int :: "'d world \<Rightarrow> ('q, 'r) http \<Rightarrow> (session_holder_int, 'q, 'r) session_factory" where
  "session_int w H =
     \<lparr>create_session = int_create w H, holder_id = sid, load_session = int_load w,
      save_session = (\<lambda>h resp s.
        case ctxs s of [] \<Rightarrow> (Crash, [], s) | c # _ \<Rightarrow> (Ok (int_save w H c h resp), [], s))\<rparr>"

end
