(* ===== verification/Environment.thy ===== *)
theory Environment
  imports Sessions
begin

text \<open>
  The environment of a request, \<open>interpreter/environment.cpp\<close>: the four contexts, the session, and the
  variables made from headers, query string, body and path of the request. The methods run on the
  state of the page interpreter; its context chain is \<open>session\<close>, \<open>user\<close>, \<open>global\<close>, \<open>system\<close>.

  The MIME parser and libxml2 are parameters: \<open>mime_parse\<close> gives the tree of entities of a text,
  \<open>xml_root\<close> the name of the root element.
\<close>

datatype mime_entity =
  Mime (m_disposition: string) (m_name: string) (m_filename: string) (m_type: string) (m_body: string)
    (m_parts: "mime_entity list")

record ('d, 'h, 'q, 'r) host =
  wd :: "'d world"
  hlib :: "('q, 'r) http"
  sess :: "('h, 'q, 'r) session_factory"
  mime_parse :: "string \<Rightarrow> mime_entity"
  xml_root :: "string \<Rightarrow> string option"

text \<open>\<open>catch (dbp::exception &)\<close>: all exceptions of the program but those of the standard library and of libpqxx.\<close>

fun is_dbp :: "exn \<Rightarrow> bool" where
  "is_dbp (Std_exc _) = False"
| "is_dbp (Broken_connection _) = False"
| "is_dbp _ = True"

definition catch_dbp :: "'a prog \<Rightarrow> (exn \<Rightarrow> 'a prog) \<Rightarrow> 'a prog" where
  "catch_dbp m h = tryM m (\<lambda>e. if is_dbp e then h e else throwM e)"

section \<open>Construction\<close>

definition environment_contexts :: contexts where
  "environment_contexts =
     new_context ''local'' (new_context ''user'' (new_context ''global'' (new_context ''system'' [])))"

definition new_environment :: "'d world \<Rightarrow> unit prog" where
  "new_environment w =
     seqM (modM (\<lambda>s. s\<lparr>ctxs := environment_contexts\<rparr>)) (addM w ''CONTENT_TYPE'' ''text/plain'' [])"

text \<open>A call with \<open>*user\<close>, the second context of the chain.\<close>

definition on_user :: "'a prog \<Rightarrow> 'a prog" where
  "on_user m s =
     (case ctxs s of
        [] \<Rightarrow> (Crash, [], s)
      | c # cs \<Rightarrow> (case m (s\<lparr>ctxs := cs\<rparr>) of (r, t, s1) \<Rightarrow> (r, t, s1\<lparr>ctxs := c # ctxs s1\<rparr>)))"

text \<open>
  The constructor; the result is \<open>_session_holder\<close>, which stays \<open>NULL\<close> when the session could not be
  created and is set when only loading it failed.
\<close>

definition new_http_environment :: "('d, 'h, 'q, 'r) host \<Rightarrow> 'q \<Rightarrow> 'h option prog" where
  "new_http_environment E q =
     seqM (new_environment (wd E))
      (bindM
        (catch_dbp (bindM (create_session (sess E) q) (\<lambda>h. ret (Some h)))
          (\<lambda>e. seqM (addM (wd E) ''SESSION_ERROR'' (what e) []) (ret None)))
        (\<lambda>oh.
          seqM
           (case oh of
              None \<Rightarrow> ret ()
            | Some h \<Rightarrow>
                catch_dbp
                 (seqM (on_user (load_session (sess E) h))
                   (addM (wd E) ''SESSION'' (holder_id (sess E) h) []))
                 (\<lambda>e. addM (wd E) ''SESSION_ERROR'' (what e) []))
           (seqM (addM (wd E) ''SESSION_PERSISTENT'' ''0'' []) (ret oh))))"

section \<open>The response\<close>

text \<open>
  \<open>init_response\<close> changes the response in place, also when the session throws: the result is the
  exception, the session and the response as they are then.
\<close>

definition init_response ::
  "('d, 'h, 'q, 'r) host \<Rightarrow> 'q \<Rightarrow> 'h option \<Rightarrow> 'r \<Rightarrow> (exn option \<times> 'h option \<times> 'r) prog" where
  "init_response E q oh resp =
     bindM (getM ctxs) (\<lambda>cs.
       case cs of
         [session, user, global, system] \<Rightarrow>
           (let resp1 = fold (\<lambda>(n, v). set_header (hlib E) (downcase n) v)
                          (um_iter (um_order (dclib (wd E))) (get_values system)) resp;
                resp2 = set_content_type (hlib E) (get_value cs ''CONTENT_TYPE'') resp1
            in if get_method (hlib E) q = M_head then ret (None, oh, resp2)
               else
                 (case oh of
                    None \<Rightarrow> crashM
                  | Some h \<Rightarrow>
                      tryM
                       (bindM (on_user (save_session (sess E) h resp2)) (\<lambda>(h', resp3). ret (None, Some h', resp3)))
                       (\<lambda>e. ret (Some e, oh, resp2))))
       | _ \<Rightarrow> crashM)"

section \<open>Parameters\<close>

text \<open>\<open>std::map\<close> from names to lists of values, in the order of the names.\<close>

fun smap_push :: "string \<Rightarrow> string \<Rightarrow> (string \<times> string list) list \<Rightarrow> (string \<times> string list) list" where
  "smap_push k v [] = [(k, [v])]"
| "smap_push k v ((k', vs) # m) =
     (if k = k' then (k', vs @ [v]) # m
      else if str_less k k' then (k, [v]) # (k', vs) # m
      else (k', vs) # smap_push k v m)"

text \<open>The two loops that \<open>parse_urlencoded\<close> and \<open>init_custom_params\<close> both contain.\<close>

definition split_params :: "'d world \<Rightarrow> string \<Rightarrow> (string \<times> string list) list" where
  "split_params w t =
     fold (\<lambda>p. case split_pair (dclib w) p ''='' of
                 (param, v) \<Rightarrow> smap_push (url_decode (ext w) param) (url_decode (ext w) v))
       (tokenize_by (dclib w) t ''&'') []"

definition concat_values :: "string list \<Rightarrow> string" where
  "concat_values vs = fold (\<lambda>v acc. (if acc \<noteq> [] then acc @ '','' else acc) @ v) vs []"

definition add_params :: "'d world \<Rightarrow> (string \<times> string list) list \<Rightarrow> unit prog" where
  "add_params w ps =
     forM ps (\<lambda>(param, vs).
       case vs of [v] \<Rightarrow> addM w param v [] | _ \<Rightarrow> addM w param (concat_values vs) [])"

definition parse_urlencoded :: "('d, 'h, 'q, 'r) host \<Rightarrow> 'q \<Rightarrow> unit prog" where
  "parse_urlencoded E q =
     (case get_content (hlib E) q of
        None \<Rightarrow> ret ()
      | Some v \<Rightarrow> add_params (wd E) (split_params (wd E) (c_str v)))"

fun parse_mime :: "'d world \<Rightarrow> mime_entity \<Rightarrow> unit prog"
  and parse_mime_parts :: "'d world \<Rightarrow> mime_entity list \<Rightarrow> unit prog" where
  "parse_mime w (Mime disposition name filename ty body parts) =
     seqM
      (if upcase disposition = ''FORM-DATA'' then
         seqM (addM w name body [])
          (seqM (addM w (name @ ''_size'') (of_int_str (dclib w) (int (length body))) [])
            (seqM (addM w (name @ ''_filename'') filename [])
              (addM w (name @ ''_content_type'') ty [])))
       else ret ())
      (parse_mime_parts w parts)"
| "parse_mime_parts w [] = ret ()"
| "parse_mime_parts w (m # ms) = seqM (parse_mime w m) (parse_mime_parts w ms)"

definition CRLF :: string where
  "CRLF = [CHR 0x0D, CHR 0x0A]"

definition parse_data :: "('d, 'h, 'q, 'r) host \<Rightarrow> 'q \<Rightarrow> unit prog" where
  "parse_data E q =
     parse_mime (wd E)
      (mime_parse E
        (''Content-Type: '' @ get_field (hlib E) Content_type q @ CRLF @ CRLF @
         (case get_content (hlib E) q of None \<Rightarrow> [] | Some v \<Rightarrow> v)))"

definition parse_plain :: "('d, 'h, 'q, 'r) host \<Rightarrow> 'q \<Rightarrow> unit prog" where
  "parse_plain E q =
     (case get_content (hlib E) q of None \<Rightarrow> ret () | Some v \<Rightarrow> addM (wd E) ''content'' v [])"

definition member_text :: "ext \<Rightarrow> json \<Rightarrow> string" where
  "member_text x v =
     (if v = J_null then []
      else case json_text x v of Some t \<Rightarrow> t | None \<Rightarrow> json_write x v)"

definition parse_json :: "('d, 'h, 'q, 'r) host \<Rightarrow> 'q \<Rightarrow> unit prog" where
  "parse_json E q =
     (case get_content (hlib E) q of
        None \<Rightarrow> ret ()
      | Some t \<Rightarrow>
         (case json_parse (ext (wd E)) (c_str t) of
            None \<Rightarrow> throwM (Dbp_exc Plain_exception ''invalid JSON structure of the request'')
          | Some root \<Rightarrow>
              seqM (addM (wd E) ''content'' (json_write (ext (wd E)) root) [])
               (case root of
                  J_object ms \<Rightarrow> forM ms (\<lambda>(n, v). addM (wd E) n (member_text (ext (wd E)) v) [])
                | _ \<Rightarrow> ret ())))"

text \<open>The parser for the content type of a \<open>PUT\<close> or \<open>POST\<close> request.\<close>

definition parse_body :: "('d, 'h, 'q, 'r) host \<Rightarrow> 'q \<Rightarrow> unit prog" where
  "parse_body E q =
     (let d = dclib (wd E);
          ct = trim d (fst (split_pair d (get_field (hlib E) Content_type q) '';''))
      in if compare d ct ''application/x-www-form-urlencoded'' then parse_urlencoded E q
         else if compare d ct ''multipart/form-data'' then parse_data E q
         else if compare d ct ''application/json'' then parse_json E q
         else parse_plain E q)"

definition header_variable :: "string \<Rightarrow> string" where
  "header_variable n = ''HTTP_'' @ map (\<lambda>c. if c = CHR ''-'' then CHR ''_'' else c) n"

definition init_custom_params :: "('d, 'h, 'q, 'r) host \<Rightarrow> 'q \<Rightarrow> unit prog" where
  "init_custom_params E q =
     (let w = wd E; H = hlib E in
      seqM (forM (all_headers H q) (\<lambda>(n, v). addM w (header_variable n) v []))
       (seqM (add_params w (split_params w (get_field H Query_string q)))
         (seqM
           (case get_method H q of
              M_head \<Rightarrow> addM w ''HTTP_METHOD'' ''GET'' []
            | M_get \<Rightarrow> ret ()
            | M_del \<Rightarrow> ret ()
            | M_put \<Rightarrow> parse_body E q
            | M_post \<Rightarrow> parse_body E q
            | M_other \<Rightarrow> parse_plain E q)
           (seqM (addM w ''PATH_INFO'' (get_field H Path_info q) [])
             (seqM (addM w ''HTTP_METHOD'' (get_field H Request_method q) [])
               (seqM (addM w ''HTTP_REMOTE_ADDR'' (get_field H Remote_addr q) [])
                 (seqM (addM w ''SERVER_NAME'' (get_field H Server_name q) [])
                   (seqM (addM w ''SERVER_PORT'' (of_int_str (dclib w) (get_server_port H q)) [])
                     (addM w ''HTTPS'' (if get_https H q then ''on'' else []) [])))))))))"

section \<open>Routing\<close>

text \<open>The parts of the path after the first become \<open>arg1\<close>, \<open>arg2\<close> and so on.\<close>

fun path_args :: "'d world \<Rightarrow> nat \<Rightarrow> string list \<Rightarrow> unit prog" where
  "path_args w cnt [] = ret ()"
| "path_args w cnt (p # ps) =
     seqM (if 0 < cnt then addM w (''arg'' @ of_int_str (dclib w) (int cnt)) p [] else ret ())
      (path_args w (Suc cnt) ps)"

text \<open>
  \<open>get_path\<close>. A document whose root is neither \<open>methodCall\<close> nor \<open>Envelope\<close> is freed by \<open>xmlFreeNode (root)\<close>
  and again, with the document it is still part of, by \<open>xmlFreeDoc (doc)\<close>.
\<close>

definition get_path :: "('d, 'h, 'q, 'r) host \<Rightarrow> 'q \<Rightarrow> string prog" where
  "get_path E q =
     (let H = hlib E;
          rest = seqM (path_args (wd E) 0 (tokenize_by (dclib (wd E)) (get_field H Path_info q) ''/''))
                   (ret (get_field H Path_translated q))
      in if get_method H q = M_post \<and> get_field H Content_type q = ''text/xml'' then
           (case xml_root E (case get_content H q of None \<Rightarrow> [] | Some v \<Rightarrow> v) of
              None \<Rightarrow> rest
            | Some name \<Rightarrow>
                if name = ''methodCall'' \<or> name = ''Envelope'' then ret (get_field H Path_translated q)
                else crashM)
         else rest)"

end
