(* ===== verification/Environment_Correct.thy ===== *)
theory Environment_Correct
  imports Environment Invariants
begin

text \<open>
  What the environment of a request contains. The methods of \<open>environment.cpp\<close> are sequences of
  assignments to the innermost context; the lemmas here give the list of assignments that a request
  makes (\<open>request_vars\<close>) and the value of a variable after it.
\<close>

section \<open>Assignments to the innermost context\<close>

fun put_top :: "string \<Rightarrow> string \<Rightarrow> contexts \<Rightarrow> contexts" where
  "put_top n v [] = []"
| "put_top n v (c # cs) =
     (case vstack c of [] \<Rightarrow> c # cs | l # ls \<Rightarrow> c\<lparr>vstack := um_put (upcase n) v l # ls\<rparr> # cs)"

fun has_top :: "contexts \<Rightarrow> bool" where
  "has_top [] = False"
| "has_top (c # cs) = (vstack c \<noteq> [])"

definition put_vars :: "(string \<times> string) list \<Rightarrow> contexts \<Rightarrow> contexts" where
  "put_vars ps cs = fold (\<lambda>(n, v). put_top n v) ps cs"

lemma has_top_put [simp]: "has_top (put_top n v cs) = has_top cs"
  by (cases cs) (auto split: list.splits)

lemma has_top_put_vars [simp]: "has_top (put_vars ps cs) = has_top cs"
  unfolding put_vars_def by (induction ps arbitrary: cs) (simp_all add: case_prod_beta)

lemma put_vars_Nil [simp]: "put_vars [] cs = cs"
  by (simp add: put_vars_def)

lemma put_vars_Cons [simp]: "put_vars ((n, v) # ps) cs = put_vars ps (put_top n v cs)"
  by (simp add: put_vars_def)

lemma put_vars_append [simp]: "put_vars (ps @ qs) cs = put_vars qs (put_vars ps cs)"
  by (simp add: put_vars_def)

lemma tl_put_top [simp]: "tl (put_top n v cs) = tl cs"
  by (cases cs) (auto split: list.splits)

lemma tl_put_vars [simp]: "tl (put_vars ps cs) = tl cs"
  unfolding put_vars_def by (induction ps arbitrary: cs) (simp_all add: case_prod_beta)

lemma length_put_vars [simp]: "length (put_vars ps cs) = length cs"
proof -
  have "length (put_top n v cs) = length cs" for n v cs by (cases cs) (auto split: list.splits)
  then show ?thesis unfolding put_vars_def by (induction ps arbitrary: cs) (simp_all add: case_prod_beta)
qed

lemma get_value_put_top:
  "has_top cs \<Longrightarrow> get_value (put_top n v cs) m = (if upcase m = upcase n then v else get_value cs m)"
  by (cases cs) (auto split: list.splits option.splits)

text \<open>The last assignment to a name, upper and lower case taken as one, is its value.\<close>

definition last_value :: "(string \<times> string) list \<Rightarrow> string \<Rightarrow> string option" where
  "last_value ps m = map_of (rev (map (\<lambda>(n, v). (upcase n, v)) ps)) (upcase m)"

lemma last_value_Nil [simp]: "last_value [] m = None"
  by (simp add: last_value_def)

lemma last_value_append:
  "last_value (ps @ qs) m = (case last_value qs m of None \<Rightarrow> last_value ps m | Some v \<Rightarrow> Some v)"
  by (auto simp: last_value_def map_add_def split: option.splits)

lemma last_value_single [simp]: "last_value [(n, v)] m = (if upcase m = upcase n then Some v else None)"
  by (simp add: last_value_def)

lemma last_value_None: "upcase m \<notin> (\<lambda>p. upcase (fst p)) ` set ps \<Longrightarrow> last_value ps m = None"
  by (auto simp: last_value_def map_of_eq_None_iff image_image case_prod_beta)

lemma get_value_put_vars:
  "has_top cs \<Longrightarrow>
    get_value (put_vars ps cs) m = (case last_value ps m of None \<Rightarrow> get_value cs m | Some v \<Rightarrow> v)"
proof (induction ps arbitrary: cs)
  case (Cons p ps)
  obtain n v where p: "p = (n, v)" by (cases p)
  have "last_value (p # ps) m = (case last_value ps m of None \<Rightarrow> last_value [p] m | Some v \<Rightarrow> Some v)"
    using last_value_append [of "[p]" ps m] by simp
  with Cons.IH [of "put_top n v cs"] Cons.prems p show ?case
    by (auto simp: get_value_put_top split: option.splits)
qed simp

section \<open>Programs that only assign\<close>

text \<open>\<open>assigns m ps\<close>: on a chain with a layer the program returns, having made the assignments \<open>ps\<close>.\<close>

definition assigns :: "unit prog \<Rightarrow> (string \<times> string) list \<Rightarrow> bool" where
  "assigns m ps \<longleftrightarrow>
     (\<forall>s. has_top (ctxs s) \<longrightarrow> m s = (Ok (), [], s\<lparr>ctxs := put_vars ps (ctxs s)\<rparr>))"

named_theorems assigns_intros

lemma assignsD: "assigns m ps \<Longrightarrow> has_top (ctxs s) \<Longrightarrow> m s = (Ok (), [], s\<lparr>ctxs := put_vars ps (ctxs s)\<rparr>)"
  by (simp add: assigns_def)

lemma assigns_ret [assigns_intros]: "assigns (ret ()) []"
  by (simp add: assigns_def ret_def)

lemma assigns_seq [assigns_intros]: "assigns m ps \<Longrightarrow> assigns k qs \<Longrightarrow> assigns (seqM m k) (ps @ qs)"
  by (simp add: assigns_def seqM_def bindM_def)

lemma assigns_add [assigns_intros]: "compare_refl (dclib w) \<Longrightarrow> assigns (addM w n v []) [(n, v)]"
  unfolding assigns_def
proof (intro allI impI)
  fix s :: state
  assume c: "compare_refl (dclib w)" and "has_top (ctxs s)"
  then obtain c cs l ls where "ctxs s = c # cs" "vstack c = l # ls" by (cases "ctxs s") (auto simp: neq_Nil_conv)
  with c show "addM w n v [] s = (Ok (), [], s\<lparr>ctxs := put_vars [(n, v)] (ctxs s)\<rparr>)"
    by (simp add: addM_def ctxM_def compare_refl_def)
qed

lemma assigns_if [assigns_intros]:
  "(b \<Longrightarrow> assigns m ps) \<Longrightarrow> (\<not> b \<Longrightarrow> assigns k qs) \<Longrightarrow> assigns (if b then m else k) (if b then ps else qs)"
  by simp

lemma assigns_forM [assigns_intros]:
  "(\<And>x. x \<in> set xs \<Longrightarrow> assigns (f x) (g x)) \<Longrightarrow> assigns (forM xs f) (concat (map g xs))"
  by (induction xs) (auto intro: assigns_intros)

text \<open>A loop that assigns once for every pair of a list.\<close>

lemma assigns_forM_pairs:
  assumes "compare_refl (dclib w)"
  shows "assigns (forM xs (\<lambda>(a, b). addM w (f a) (g b) [])) (map (\<lambda>(a, b). (f a, g b)) xs)"
proof -
  have "map (\<lambda>(a, b). (f a, g b)) xs = concat (map (\<lambda>(a, b). [(f a, g b)]) xs)" by (induction xs) auto
  with assms show ?thesis by (auto intro!: assigns_forM assigns_add)
qed

section \<open>What a request assigns\<close>

definition joined_params :: "(string \<times> string list) list \<Rightarrow> (string \<times> string) list" where
  "joined_params ps = map (\<lambda>(n, vs). (n, concat_values vs)) ps"

lemma concat_values_single [simp]: "concat_values [v] = v"
  by (simp add: concat_values_def)

lemma add_params_assigns: "compare_refl (dclib w) \<Longrightarrow> assigns (add_params w ps) (joined_params ps)"
proof -
  assume c: "compare_refl (dclib w)"
  have 1: "(case vs of [v] \<Rightarrow> addM w n v [] | _ \<Rightarrow> addM w n (concat_values vs) []) = addM w n (concat_values vs) []" for n vs
    by (auto split: list.splits)
  show ?thesis
    using assigns_forM_pairs [OF c, where f = "\<lambda>n. n" and g = concat_values] by (simp add: add_params_def 1 joined_params_def)
qed

fun mime_vars :: "'d dcl \<Rightarrow> mime_entity \<Rightarrow> (string \<times> string) list"
  and mime_vars_list :: "'d dcl \<Rightarrow> mime_entity list \<Rightarrow> (string \<times> string) list" where
  "mime_vars d (Mime disposition name filename ty body parts) =
     (if upcase disposition = ''FORM-DATA'' then
        [(name, body), (name @ ''_size'', of_int_str d (int (length body))), (name @ ''_filename'', filename),
         (name @ ''_content_type'', ty)]
      else []) @ mime_vars_list d parts"
| "mime_vars_list d [] = []"
| "mime_vars_list d (m # ms) = mime_vars d m @ mime_vars_list d ms"

lemma parse_mime_assigns:
  "compare_refl (dclib w) \<Longrightarrow> assigns (parse_mime w m) (mime_vars (dclib w) m)"
  "compare_refl (dclib w) \<Longrightarrow> assigns (parse_mime_parts w ms) (mime_vars_list (dclib w) ms)"
proof (induction w m and w ms rule: parse_mime_parse_mime_parts.induct)
  case (1 w disposition name filename ty body parts)
  have a: "assigns (addM w n v []) [(n, v)]" for n v by (rule assigns_add) (rule "1.prems")
  have "assigns (seqM (addM w n1 v1 []) (seqM (addM w n2 v2 []) (seqM (addM w n3 v3 []) (addM w n4 v4 []))))
     [(n1, v1), (n2, v2), (n3, v3), (n4, v4)]" for n1 v1 n2 v2 n3 v3 n4 v4
    using assigns_seq [OF a assigns_seq [OF a assigns_seq [OF a a]]] by simp
  then show ?case
    unfolding parse_mime.simps mime_vars.simps by (intro assigns_seq assigns_if assigns_ret "1.IH" "1.prems")
qed (auto intro: assigns_intros)

text \<open>The assignments of the body, or the exception that a malformed one gives.\<close>

definition content_vars :: "('d, 'h, 'q, 'r) host \<Rightarrow> 'q \<Rightarrow> (string \<Rightarrow> (string \<times> string) list) \<Rightarrow> (string \<times> string) list" where
  "content_vars E q f = (case get_content (hlib E) q of None \<Rightarrow> [] | Some v \<Rightarrow> f v)"

definition urlencoded_vars :: "('d, 'h, 'q, 'r) host \<Rightarrow> 'q \<Rightarrow> (string \<times> string) list" where
  "urlencoded_vars E q = content_vars E q (\<lambda>v. joined_params (split_params (wd E) (c_str v)))"

lemma parse_urlencoded_assigns:
  "compare_refl (dclib (wd E)) \<Longrightarrow> assigns (parse_urlencoded E q) (urlencoded_vars E q)"
  by (auto simp: parse_urlencoded_def urlencoded_vars_def content_vars_def add_params_assigns assigns_ret split: option.splits)

definition plain_vars :: "('d, 'h, 'q, 'r) host \<Rightarrow> 'q \<Rightarrow> (string \<times> string) list" where
  "plain_vars E q = content_vars E q (\<lambda>v. [(''content'', v)])"

lemma parse_plain_assigns:
  "compare_refl (dclib (wd E)) \<Longrightarrow> assigns (parse_plain E q) (plain_vars E q)"
  by (auto simp: parse_plain_def plain_vars_def content_vars_def assigns_add assigns_ret split: option.splits)

definition data_vars :: "('d, 'h, 'q, 'r) host \<Rightarrow> 'q \<Rightarrow> (string \<times> string) list" where
  "data_vars E q = mime_vars (dclib (wd E))
     (mime_parse E (''Content-Type: '' @ get_field (hlib E) Content_type q @ CRLF @ CRLF @
        (case get_content (hlib E) q of None \<Rightarrow> [] | Some v \<Rightarrow> v)))"

lemma parse_data_assigns: "compare_refl (dclib (wd E)) \<Longrightarrow> assigns (parse_data E q) (data_vars E q)"
  by (simp add: parse_data_def data_vars_def parse_mime_assigns)

definition json_vars :: "ext \<Rightarrow> json \<Rightarrow> (string \<times> string) list" where
  "json_vars x root = (''content'', json_write x root) #
     (case root of J_object ms \<Rightarrow> map (\<lambda>(n, v). (n, member_text x v)) ms | _ \<Rightarrow> [])"

text \<open>\<open>None\<close> where the body is no JSON.\<close>

definition json_body_vars :: "('d, 'h, 'q, 'r) host \<Rightarrow> 'q \<Rightarrow> (string \<times> string) list option" where
  "json_body_vars E q =
     (case get_content (hlib E) q of
        None \<Rightarrow> Some []
      | Some t \<Rightarrow> map_option (json_vars (ext (wd E))) (json_parse (ext (wd E)) (c_str t)))"

abbreviation json_error :: exn where
  "json_error \<equiv> Dbp_exc Plain_exception ''invalid JSON structure of the request''"

lemma parse_json_assigns:
  assumes c: "compare_refl (dclib (wd E))"
  shows "case json_body_vars E q of None \<Rightarrow> parse_json E q = throwM json_error | Some ps \<Rightarrow> assigns (parse_json E q) ps"
proof -
  have m: "assigns (forM ms (\<lambda>(n, v). addM (wd E) n (member_text (ext (wd E)) v) []))
     (map (\<lambda>(n, v). (n, member_text (ext (wd E)) v)) ms)" for ms
    using assigns_forM_pairs [OF c, where f = "\<lambda>n. n"] .
  have "assigns (seqM (addM (wd E) ''content'' (json_write (ext (wd E)) root) [])
      (case root of J_object ms \<Rightarrow> forM ms (\<lambda>(n, v). addM (wd E) n (member_text (ext (wd E)) v) []) | _ \<Rightarrow> ret ()))
     (json_vars (ext (wd E)) root)" for root
    using assigns_seq [OF assigns_add [OF c] m] assigns_seq [OF assigns_add [OF c] assigns_ret]
    by (auto simp: json_vars_def split: json.splits)
  then show ?thesis
    by (auto simp: json_body_vars_def parse_json_def assigns_ret split: option.splits)
qed

definition body_vars :: "('d, 'h, 'q, 'r) host \<Rightarrow> 'q \<Rightarrow> (string \<times> string) list option" where
  "body_vars E q =
     (let d = dclib (wd E);
          ct = trim d (fst (split_pair d (get_field (hlib E) Content_type q) '';''))
      in if compare d ct ''application/x-www-form-urlencoded'' then Some (urlencoded_vars E q)
         else if compare d ct ''multipart/form-data'' then Some (data_vars E q)
         else if compare d ct ''application/json'' then json_body_vars E q
         else Some (plain_vars E q))"

lemma parse_body_assigns:
  assumes c: "compare_refl (dclib (wd E))"
  shows "case body_vars E q of None \<Rightarrow> parse_body E q = throwM json_error | Some ps \<Rightarrow> assigns (parse_body E q) ps"
  using parse_urlencoded_assigns [OF c] parse_data_assigns [OF c] parse_json_assigns [OF c, of q] parse_plain_assigns [OF c]
  by (auto simp: body_vars_def parse_body_def Let_def split: option.splits)

definition method_vars :: "('d, 'h, 'q, 'r) host \<Rightarrow> 'q \<Rightarrow> (string \<times> string) list option" where
  "method_vars E q =
     (case get_method (hlib E) q of
        M_head \<Rightarrow> Some [(''HTTP_METHOD'', ''GET'')]
      | M_get \<Rightarrow> Some []
      | M_del \<Rightarrow> Some []
      | M_put \<Rightarrow> body_vars E q
      | M_post \<Rightarrow> body_vars E q
      | M_other \<Rightarrow> Some (plain_vars E q))"

text \<open>What the client chooses: headers and parameters of the query; and what the server says.\<close>

definition header_vars :: "('d, 'h, 'q, 'r) host \<Rightarrow> 'q \<Rightarrow> (string \<times> string) list" where
  "header_vars E q = map (\<lambda>(n, v). (header_variable n, v)) (all_headers (hlib E) q)"

definition query_vars :: "('d, 'h, 'q, 'r) host \<Rightarrow> 'q \<Rightarrow> (string \<times> string) list" where
  "query_vars E q = joined_params (split_params (wd E) (get_field (hlib E) Query_string q))"

definition cgi_vars :: "('d, 'h, 'q, 'r) host \<Rightarrow> 'q \<Rightarrow> (string \<times> string) list" where
  "cgi_vars E q = (let H = hlib E in
     [(''PATH_INFO'', get_field H Path_info q), (''HTTP_METHOD'', get_field H Request_method q),
      (''HTTP_REMOTE_ADDR'', get_field H Remote_addr q), (''SERVER_NAME'', get_field H Server_name q),
      (''SERVER_PORT'', of_int_str (dclib (wd E)) (get_server_port H q)),
      (''HTTPS'', if get_https H q then ''on'' else [])])"

definition request_vars :: "('d, 'h, 'q, 'r) host \<Rightarrow> 'q \<Rightarrow> (string \<times> string) list option" where
  "request_vars E q =
     map_option (\<lambda>bs. header_vars E q @ query_vars E q @ bs @ cgi_vars E q) (method_vars E q)"

lemma init_custom_params_assigns:
  assumes c: "compare_refl (dclib (wd E))" and r: "request_vars E q = Some ps"
  shows "assigns (init_custom_params E q) ps"
proof -
  let ?w = "wd E"
  have a: "assigns (addM ?w n v []) [(n, v)]" for n v by (rule assigns_add [OF c])
  have h: "assigns (forM (all_headers (hlib E) q) (\<lambda>(n, v). addM ?w (header_variable n) v [])) (header_vars E q)"
    using assigns_forM_pairs [OF c, where f = header_variable and g = "\<lambda>v. v"] by (simp add: header_vars_def)
  from r obtain bs where bs: "method_vars E q = Some bs" "ps = header_vars E q @ query_vars E q @ bs @ cgi_vars E q"
    by (auto simp: request_vars_def)
  have "assigns (case get_method (hlib E) q of
      M_head \<Rightarrow> addM ?w ''HTTP_METHOD'' ''GET'' [] | M_get \<Rightarrow> ret () | M_del \<Rightarrow> ret ()
    | M_put \<Rightarrow> parse_body E q | M_post \<Rightarrow> parse_body E q | M_other \<Rightarrow> parse_plain E q) bs"
    using bs(1) parse_body_assigns [OF c, of q] parse_plain_assigns [OF c, of q] a
    by (auto simp: method_vars_def assigns_ret split: http_method.splits)
  from assigns_seq [OF h assigns_seq [OF add_params_assigns [OF c] assigns_seq [OF this
      assigns_seq [OF a assigns_seq [OF a assigns_seq [OF a assigns_seq [OF a assigns_seq [OF a a]]]]]]]]
  show ?thesis unfolding init_custom_params_def Let_def bs(2) query_vars_def cgi_vars_def by simp
qed

end
