(* ===== verification/Session_Correct.thy ===== *)
theory Session_Correct
  imports Environment_Correct
begin

text \<open>
  The contract of session providers, as a locale, what the environment of a request is under it, and
  the built-in provider as an instance. The environment is the client: it relies only on the contract.
\<close>

declare put_top.simps [simp del]

section \<open>Handlers\<close>

lemma run_catch: "m s = (Ok x, t, s1) \<Longrightarrow> catch_dbp m h s = (Ok x, t, s1)"
  by (simp add: catch_dbp_def tryM_def)

lemma run_catch_throw: "m s = (Throw e, [], s1) \<Longrightarrow> is_dbp e \<Longrightarrow> catch_dbp m h s = h e s1"
  by (simp add: catch_dbp_def tryM_def split: prod.split)

section \<open>The contract\<close>

text \<open>
  Session operations touch the variables, the source of unique numbers, the connections of modules and
  the servers behind them, nothing else.
\<close>

definition calm :: "state \<Rightarrow> state \<Rightarrow> bool" where
  "calm s s' \<longleftrightarrow> s' = s\<lparr>ctxs := ctxs s', tick := tick s', pooled := pooled s', remote := remote s'\<rparr>"

definition layered :: "contexts \<Rightarrow> bool" where
  "layered cs \<longleftrightarrow> list_all (\<lambda>c. vstack c \<noteq> []) cs"

lemma calm_refl [simp]: "calm s s"
  by (simp add: calm_def)

lemma calm_trans: "calm a b \<Longrightarrow> calm b c \<Longrightarrow> calm a c"
  by (cases a; cases b; cases c) (simp add: calm_def)

lemma calm_ctxs [simp]: "calm s (s\<lparr>ctxs := cs\<rparr>)"
  by (simp add: calm_def)

lemma calm_tick [simp]: "calm s (s\<lparr>tick := i\<rparr>)"
  by (simp add: calm_def)

lemma calm_update: "calm (s\<lparr>ctxs := a\<rparr>) s1 \<Longrightarrow> calm s (s1\<lparr>ctxs := b\<rparr>)"
  by (cases s; cases s1) (simp add: calm_def)

text \<open>A call that returns, or throws an exception the server has a handler for.\<close>

definition settles :: "'a outcome \<Rightarrow> bool" where
  "settles r \<longleftrightarrow> (\<exists>x. r = Ok x) \<or> (\<exists>e. r = Throw e \<and> is_dbp e)"

lemma settles_Ok [simp]: "settles (Ok x)"
  by (simp add: settles_def)

locale session_provider =
  fixes F :: "('h, 'q, 'r) session_factory" and I :: "state \<Rightarrow> bool" and V :: "'h \<Rightarrow> bool"
  assumes I_ctxs: "I (s\<lparr>ctxs := cs\<rparr>) = I s"
    and create: "I s \<Longrightarrow> create_session F q s = (r, t, s') \<Longrightarrow> 
      settles r \<and> t = [] \<and> calm s s' \<and> I s' \<and> ctxs s' = ctxs s \<and> (\<forall>h. r = Ok h \<longrightarrow> V h)"
    and load: "I s \<Longrightarrow> V h \<Longrightarrow> layered (ctxs s) \<Longrightarrow> ctxs s \<noteq> [] \<Longrightarrow> load_session F h s = (u, t, s') \<Longrightarrow>
      settles u \<and> t = [] \<and> calm s s' \<and> I s' \<and> layered (ctxs s') \<and> length (ctxs s') = length (ctxs s)"
    and save: "I s \<Longrightarrow> V h \<Longrightarrow> layered (ctxs s) \<Longrightarrow> ctxs s \<noteq> [] \<Longrightarrow> save_session F h resp s = (x, t, s') \<Longrightarrow>
      settles x \<and> t = [] \<and> calm s s' \<and> I s' \<and> ctxs s' = ctxs s \<and> (\<forall>h' resp'. x = Ok (h', resp') \<longrightarrow> V h')"
begin

text \<open>What loading the session leaves of the chain, and the variable it sets.\<close>

lemma load_step:
  assumes F: "sess E = F" and c: "compare_refl (dclib (wd E))"
    and s: "ctxs s = c0 # us" "vstack c0 \<noteq> []" "layered us" "us \<noteq> []" "I s" "V h"
  shows "\<exists>s' n v us'. catch_dbp (seqM (on_user (load_session (sess E) h)) (addM (wd E) ''SESSION'' (holder_id (sess E) h) []))
      (\<lambda>e. addM (wd E) ''SESSION_ERROR'' (what e) []) s = (Ok (), [], s') \<and> calm s s' \<and> I s' \<and>
    n \<in> {''SESSION'', ''SESSION_ERROR''} \<and> layered us' \<and> length us' = length us \<and>
    ctxs s' = put_vars [(n, v)] (c0 # us')"
proof -
  obtain r t s1 where l: "load_session F h (s\<lparr>ctxs := us\<rparr>) = (r, t, s1)" by (cases "load_session F h (s\<lparr>ctxs := us\<rparr>)")
  from load [OF _ _ _ _ this] s have l1: "settles r" "t = []" "calm (s\<lparr>ctxs := us\<rparr>) s1" "layered (ctxs s1)" "length (ctxs s1) = length us"
      "I s1"
    by (auto simp: I_ctxs)
  let ?s = "s1\<lparr>ctxs := c0 # ctxs s1\<rparr>"
  have u: "on_user (load_session (sess E) h) s = (r, [], ?s)" using l l1(2) s(1) F by (simp add: on_user_def)
  have a: "addM (wd E) n v [] ?s = (Ok (), [], s1\<lparr>ctxs := put_vars [(n, v)] (c0 # ctxs s1)\<rparr>)" for n v
    using assignsD [OF assigns_add [OF c], where s = "?s"] s(2) by simp
  note cs = calm_update [OF l1(3)]
  from l1(1) consider x where "r = Ok x" | e where "r = Throw e" "is_dbp e" by (auto simp: settles_def)
  then show ?thesis
  proof cases
    case 1
    then have "catch_dbp (seqM (on_user (load_session (sess E) h)) (addM (wd E) ''SESSION'' (holder_id (sess E) h) []))
      (\<lambda>e. addM (wd E) ''SESSION_ERROR'' (what e) []) s =
      (Ok (), [], s1\<lparr>ctxs := put_vars [(''SESSION'', holder_id (sess E) h)] (c0 # ctxs s1)\<rparr>)"
      using u by (intro run_catch) (simp add: seq_Ok a)
    with l1 cs show ?thesis by (fastforce simp: I_ctxs)
  next
    case 2
    then have "catch_dbp (seqM (on_user (load_session (sess E) h)) (addM (wd E) ''SESSION'' (holder_id (sess E) h) []))
      (\<lambda>e. addM (wd E) ''SESSION_ERROR'' (what e) []) s =
      (Ok (), [], s1\<lparr>ctxs := put_vars [(''SESSION_ERROR'', what e)] (c0 # ctxs s1)\<rparr>)"
      using u by (simp add: run_catch_throw seq_Throw a)
    with l1 cs show ?thesis by (fastforce simp: I_ctxs)
  qed
qed

text \<open>The constructor of the environment returns, whatever the session does.\<close>

lemma new_environment_ready:
  assumes F: "sess E = F" and c: "compare_refl (dclib (wd E))" and i: "I s"
    and run: "new_http_environment E q s = (r, t, s')"
  shows "\<exists>oh ps us. r = Ok oh \<and> t = [] \<and> calm s s' \<and> I s' \<and> (\<forall>h. oh = Some h \<longrightarrow> V h) \<and> layered us \<and> length us = 3 \<and>
    fst ` set ps \<subseteq> {''SESSION'', ''SESSION_ERROR'', ''SESSION_PERSISTENT''} \<and>
    ctxs s' = put_vars ((''CONTENT_TYPE'', ''text/plain'') # ps) (hd environment_contexts # us)"
proof -
  let ?c = "hd environment_contexts" and ?us = "tl environment_contexts"
  have e: "environment_contexts = ?c # ?us" "vstack ?c \<noteq> []" "layered ?us" "length ?us = 3" "?us \<noteq> []"
    by (simp_all add: environment_contexts_def new_context_def layered_def)
  define c0 where "c0 = hd (put_vars [(''CONTENT_TYPE'', ''text/plain'')] [?c])"
  have p: "put_vars ps (c0 # us) = put_vars ((''CONTENT_TYPE'', ''text/plain'') # ps) (?c # us)" for ps us
    by (simp add: c0_def environment_contexts_def new_context_def put_top.simps)
  have a: "addM (wd E) n v [] s1 = (Ok (), [], s1\<lparr>ctxs := put_vars [(n, v)] (ctxs s1)\<rparr>)" if "has_top (ctxs s1)" for n v s1
    using assignsD [OF assigns_add [OF c] that] .
  let ?s0 = "s\<lparr>ctxs := c0 # ?us\<rparr>"
  have 0: "new_environment (wd E) s = (Ok (), [], ?s0)"
    using a [of "s\<lparr>ctxs := environment_contexts\<rparr>"]
    by (simp add: new_environment_def seq_Ok modM_def environment_contexts_def new_context_def c0_def put_top.simps)
  have c0: "vstack c0 \<noteq> []" by (simp add: c0_def environment_contexts_def new_context_def put_top.simps)
  obtain r1 t1 s1 where cr: "create_session (sess E) q ?s0 = (r1, t1, s1)" by (cases "create_session (sess E) q ?s0")
  from create [OF _ cr [unfolded F]] i have c1: "settles r1" "t1 = []" "calm ?s0 s1" "ctxs s1 = c0 # ?us" "I s1"
      "\<And>h. r1 = Ok h \<Longrightarrow> V h" by (auto simp: I_ctxs)
  then have cs1: "calm s s1" using calm_trans [OF calm_ctxs] by blast
  have top: "has_top (ctxs s1)" using c1(4) c0 by simp
  let ?rest = "\<lambda>oh. seqM (case oh of None \<Rightarrow> ret () | Some h \<Rightarrow>
      catch_dbp (seqM (on_user (load_session (sess E) h)) (addM (wd E) ''SESSION'' (holder_id (sess E) h) []))
        (\<lambda>e. addM (wd E) ''SESSION_ERROR'' (what e) []))
      (seqM (addM (wd E) ''SESSION_PERSISTENT'' ''0'' []) (ret oh))"
  from c1(1) consider h where "r1 = Ok h" | ex where "r1 = Throw ex" "is_dbp ex" by (auto simp: settles_def)
  then show ?thesis
  proof cases
    case 1
    from load_step [OF F c c1(4) c0 e(3,5) c1(5) c1(6) [OF 1]] e(4) obtain s2 n v us where
      2: "catch_dbp (seqM (on_user (load_session (sess E) h)) (addM (wd E) ''SESSION'' (holder_id (sess E) h) []))
        (\<lambda>e. addM (wd E) ''SESSION_ERROR'' (what e) []) s1 = (Ok (), [], s2)" "calm s1 s2" "I s2"
        "n \<in> {''SESSION'', ''SESSION_ERROR''}" "layered us" "length us = 3" "ctxs s2 = put_vars [(n, v)] (c0 # us)" by auto
    have "has_top (ctxs s2)" using 2(7) c0 by (simp add: put_vars_def)
    with 2(1,7) have "new_http_environment E q s =
      (Ok (Some h), [], s2\<lparr>ctxs := put_vars [(n, v), (''SESSION_PERSISTENT'', ''0'')] (c0 # us)\<rparr>)"
      using cr 1 c1(2) by (simp add: new_http_environment_def seq_Ok 0 bind_Ok run_catch a ret_def)
    with run have "r = Ok (Some h)" "t = []" "s' = s2\<lparr>ctxs := put_vars [(n, v), (''SESSION_PERSISTENT'', ''0'')] (c0 # us)\<rparr>" by auto
    with 2 c1(6) [OF 1] p [of "[(n, v), (''SESSION_PERSISTENT'', ''0'')]" us] calm_trans [OF calm_trans [OF cs1 2(2)] calm_ctxs] show ?thesis
      by (intro exI [of _ "Some h"] exI [of _ "[(n, v), (''SESSION_PERSISTENT'', ''0'')]"] exI [of _ us]) (auto simp: I_ctxs)
  next
    case 2
    let ?ps = "[(''SESSION_ERROR'', what ex), (''SESSION_PERSISTENT'', ''0'')]"
    have "new_http_environment E q s = (Ok None, [], s1\<lparr>ctxs := put_vars ?ps (c0 # ?us)\<rparr>)"
      using cr 2 c1(2,4) top c0 by (simp add: new_http_environment_def seq_Ok 0 bind_Ok bind_Throw run_catch_throw a ret_def)
    with run have "r = Ok None" "t = []" "s' = s1\<lparr>ctxs := put_vars ?ps (c0 # ?us)\<rparr>" by auto
    with e(3,4) c1(5) p [of ?ps ?us] calm_trans [OF cs1 calm_ctxs] show ?thesis
      by (intro exI [of _ None] exI [of _ ?ps] exI [of _ ?us]) (auto simp: I_ctxs)
  qed
qed

text \<open>So does the initialisation of the response, if there is a session or none is needed.\<close>

lemma init_response_returns:
  assumes F: "sess E = F" and s: "layered (ctxs s)" "length (ctxs s) = 4"
    and h: "oh \<noteq> None \<or> get_method (hlib E) q = M_head" "\<And>h. oh = Some h \<Longrightarrow> V h" and i: "I s"
  shows "\<exists>failed oh' resp' s'. init_response E q oh resp s = (Ok (failed, oh', resp'), [], s') \<and>
    calm s s' \<and> I s' \<and> ctxs s' = ctxs s \<and> (\<forall>e. failed = Some e \<longrightarrow> is_dbp e) \<and> (oh \<noteq> None \<longrightarrow> oh' \<noteq> None) \<and> (\<forall>h. oh' = Some h \<longrightarrow> V h)"
proof -
  from s(2) obtain c0 c1 c2 c3 where cs: "ctxs s = [c0, c1, c2, c3]" by (auto simp: length_Suc_conv numeral_eq_Suc)
  show ?thesis
  proof (cases "get_method (hlib E) q = M_head")
    case True
    with cs i h show ?thesis by (simp add: init_response_def bind_Ok getM_def ret_def Let_def)
  next
    case False
    with h have "oh \<noteq> None" by auto
    then obtain x where x: "oh = Some x" "V x" using h(2) by auto
    define resp2 where "resp2 = set_content_type (hlib E) (get_value (ctxs s) ''CONTENT_TYPE'')
      (fold (\<lambda>(n, v). set_header (hlib E) (downcase n) v) (um_iter (um_order (dclib (wd E))) (get_values c3)) resp)"
    obtain r t s1 where sv: "save_session F x resp2 (s\<lparr>ctxs := [c1, c2, c3]\<rparr>) = (r, t, s1)"
      by (cases "save_session F x resp2 (s\<lparr>ctxs := [c1, c2, c3]\<rparr>)")
    from save [OF _ x(2) _ _ sv] s(1) cs i have s1: "settles r" "t = []" "calm (s\<lparr>ctxs := [c1, c2, c3]\<rparr>) s1" "ctxs s1 = [c1, c2, c3]" "I s1"
      "\<And>h' resp'. r = Ok (h', resp') \<Longrightarrow> V h'" by (auto simp: layered_def I_ctxs)
    have u: "on_user (save_session (sess E) x resp2) s = (r, [], s1\<lparr>ctxs := ctxs s\<rparr>)"
      using sv s1 cs F by (simp add: on_user_def)
    have "init_response E q oh resp s =
      tryM (bindM (on_user (save_session (sess E) x resp2)) (\<lambda>(h', resp3). ret (None, Some h', resp3)))
       (\<lambda>e. ret (Some e, oh, resp2)) s"
      using False x cs by (simp add: init_response_def bind_Ok getM_def Let_def resp2_def)
    with u s1(1,5,6) calm_update [OF s1(3), of "ctxs s"] x show ?thesis
      by (auto simp: I_ctxs settles_def tryM_def bindM_def ret_def)
  qed
qed

end

section \<open>The built-in provider\<close>

definition orderly :: "unit prog \<Rightarrow> bool" where
  "orderly m \<longleftrightarrow> (\<forall>s r t s'. layered (ctxs s) \<longrightarrow> ctxs s \<noteq> [] \<longrightarrow> m s = (r, t, s') \<longrightarrow>
     settles r \<and> t = [] \<and> calm s s' \<and> pooled s' = pooled s \<and> layered (ctxs s') \<and> length (ctxs s') = length (ctxs s))"

lemma add_value_settles:
  "layered cs \<Longrightarrow> cs \<noteq> [] \<Longrightarrow>
    (\<exists>cs'. add_value d cs n v ty = Ok cs' \<and> layered cs' \<and> length cs' = length cs) \<or>
    (\<exists>e. add_value d cs n v ty = Throw e \<and> is_dbp e)"
proof (induction cs arbitrary: ty)
  case (Cons c cs)
  let ?ty = "if ty = [] then vtype c else ty"
  show ?case
  proof (cases "compare d ?ty (vtype c)")
    case True
    with Cons.prems show ?thesis by (cases "vstack c") (auto simp: layered_def Let_def)
  next
    case False
    with Cons.IH [of ?ty] Cons.prems show ?thesis
      by (cases cs) (auto simp: layered_def Let_def simp del: add_value.simps(1) split: if_splits)
  qed
qed simp

lemma orderlyD:
  "orderly m \<Longrightarrow> layered (ctxs s) \<Longrightarrow> ctxs s \<noteq> [] \<Longrightarrow> m s = (r, t, s') \<Longrightarrow>
     settles r \<and> t = [] \<and> calm s s' \<and> pooled s' = pooled s \<and> layered (ctxs s') \<and> length (ctxs s') = length (ctxs s)"
  unfolding orderly_def by blast

lemma orderly_add: "orderly (addM w n v ty)"
  unfolding orderly_def
proof (intro allI impI)
  fix s :: state and r t s'
  assume "layered (ctxs s)" "ctxs s \<noteq> []" and "addM w n v ty s = (r, t, s')"
  then show "settles r \<and> t = [] \<and> calm s s' \<and> pooled s' = pooled s \<and> layered (ctxs s') \<and> length (ctxs s') = length (ctxs s)"
    using add_value_settles [of "ctxs s" "dclib w" n v ty] by (auto simp: addM_def ctxM_def settles_def)
qed

lemma orderly_ret: "orderly (ret ())"
  by (simp add: orderly_def ret_def)

lemma orderly_seq:
  assumes m: "orderly m" and k: "orderly k"
  shows "orderly (seqM m k)"
  unfolding orderly_def
proof (intro allI impI)
  fix s :: state and r t s'
  assume s: "layered (ctxs s)" "ctxs s \<noteq> []" and run: "seqM m k s = (r, t, s')"
  obtain r1 t1 s1 where 1: "m s = (r1, t1, s1)" by (cases "m s")
  from orderlyD [OF m s 1] have s1: "settles r1" "t1 = []" "calm s s1" "layered (ctxs s1)" "length (ctxs s1) = length (ctxs s)"
      "pooled s1 = pooled s" by auto
  then have ne: "ctxs s1 \<noteq> []" using s(2) by auto
  from s1(1) consider "r1 = Ok ()" | e where "r1 = Throw e" "is_dbp e" by (auto simp: settles_def)
  then show "settles r \<and> t = [] \<and> calm s s' \<and> pooled s' = pooled s \<and> layered (ctxs s') \<and> length (ctxs s') = length (ctxs s)"
  proof cases
    case 1
    with \<open>m s = (r1, t1, s1)\<close> s1(2) run have "k s1 = (r, t, s')" by (simp add: seq_Ok)
    from orderlyD [OF k s1(4) ne this] s1(3,5,6) show ?thesis by (auto intro: calm_trans)
  next
    case 2
    with \<open>m s = (r1, t1, s1)\<close> s1 run show ?thesis by (auto simp: seq_Throw settles_def)
  qed
qed

lemma orderly_forM: "(\<And>x. orderly (f x)) \<Longrightarrow> orderly (forM xs f)"
  by (induction xs) (auto intro: orderly_ret orderly_seq)

lemma orderly_load: "orderly (int_load w h)"
  unfolding int_load_def load_text_def
  by (intro orderly_forM) (auto intro: orderly_add orderly_ret split: prod.split)

lemma new_session_holder_run:
  "new_session_holder w s =
    (Ok \<lparr>sid = uuid_at (ext w) (tick s), is_new = True, is_https = False, buffer = []\<rparr>, [], s\<lparr>tick := Suc (tick s)\<rparr>)"
  by (simp add: new_session_holder_def bind_Ok tickM_def ret_def)

lemma int_create_run:
  "\<exists>h i. int_create w H q s = (Ok h, [], s\<lparr>tick := i\<rparr>) \<and> buffer h = []"
proof -
  have "\<exists>h i. session_holder_of w v s = (Ok h, [], s\<lparr>tick := i\<rparr>) \<and> buffer h = []" for v
  proof (cases "v = []")
    case False
    then have "session_holder_of w v s = (Ok \<lparr>sid = v, is_new = False, is_https = False, buffer = []\<rparr>, [], s\<lparr>tick := tick s\<rparr>)"
      by (simp add: session_holder_of_def ret_def)
    then show ?thesis by (intro exI conjI) (assumption, simp)
  qed (auto simp: session_holder_of_def new_session_holder_run)
  moreover have "\<exists>h i. new_session_holder w s = (Ok h, [], s\<lparr>tick := i\<rparr>) \<and> buffer h = []"
    by (auto simp: new_session_holder_run)
  ultimately obtain h i where "(case find (\<lambda>c. cookie_name c = ''session'') (get_cookies H q) of
         Some c \<Rightarrow> session_holder_of w (cookie_value c) | None \<Rightarrow> new_session_holder w) s = (Ok h, [], s\<lparr>tick := i\<rparr>)" "buffer h = []"
    by (cases "find (\<lambda>c. cookie_name c = ''session'') (get_cookies H q)") fastforce+
  then show ?thesis by (intro exI [of _ "h\<lparr>is_https := get_https H q\<rparr>"] exI [of _ i]) (simp add: int_create_def bind_Ok ret_def)
qed

interpretation internal: session_provider "session_int w H" "\<lambda>_. True" "\<lambda>_. True" for w :: "'d world" and H :: "('q, 'r) http"
proof unfold_locales
  fix q r t and s s' :: state
  assume "create_session (session_int w H) q s = (r, t, s')"
  then show "settles r \<and> t = [] \<and> calm s s' \<and> True \<and> ctxs s' = ctxs s \<and> (\<forall>h. r = Ok h \<longrightarrow> True)"
    using int_create_run [of w H q s] by (auto simp: session_int_def)
next
  fix h r t and s s' :: state
  assume "layered (ctxs s)" "ctxs s \<noteq> []" "load_session (session_int w H) h s = (r, t, s')"
  then have "layered (ctxs s)" "ctxs s \<noteq> []" "int_load w h s = (r, t, s')" by (simp_all add: session_int_def)
  from orderlyD [OF orderly_load this] show "settles r \<and> t = [] \<and> calm s s' \<and> True \<and> layered (ctxs s') \<and> length (ctxs s') = length (ctxs s)" by simp
next
  fix h resp r t and s s' :: state
  assume "ctxs s \<noteq> []" "save_session (session_int w H) h resp s = (r, t, s')"
  then show "settles r \<and> t = [] \<and> calm s s' \<and> True \<and> ctxs s' = ctxs s \<and> (\<forall>h' resp'. r = Ok (h', resp') \<longrightarrow> True)"
    by (auto simp: session_int_def neq_Nil_conv)
qed simp

end
