(* ===== verification/Application.thy ===== *)
theory Application
  imports Environment Parser
begin

text \<open>
  The interpreter object and its applications: \<open>interpreter/interpreter.cpp\<close> and
  \<open>interpreter/dbpager_application.cpp\<close>. An application is the root tag of a parsed page; the
  interpreter holds the configuration, the chosen services and the cache of applications.
\<close>

section \<open>Configuration\<close>

text \<open>
  \<open>app_config\<close> of dcl: the entries of each section. A module is known by its file: \<open>module_service\<close>
  loads it and says whether \<open>create_object\<close> gives a service of a type, \<open>module_tags\<close> loads a module of
  tags; both may throw.
\<close>

type_synonym config = "string \<Rightarrow> (string \<times> string) list"

definition cfg_value :: "config \<Rightarrow> string \<Rightarrow> string \<Rightarrow> string \<Rightarrow> string" where
  "cfg_value cfg sec key dflt = (case map_of (cfg sec) key of None \<Rightarrow> dflt | Some v \<Rightarrow> v)"

record modules =
  module_service :: "string \<Rightarrow> string \<Rightarrow> bool outcome"
  module_tags :: "string \<Rightarrow> plugin outcome"

datatype service = Internal_service | Module_service string

record interpreter =
  options :: config
  isession :: "service option"
  loaded_logger :: "string option"
  use_cache :: bool
  ifactory :: factory
  apps :: "nat umap"

definition new_interpreter :: "factory \<Rightarrow> interpreter" where
  "new_interpreter f =
     \<lparr>options = (\<lambda>_. []), isession = None, loaded_logger = None, use_cache = False, ifactory = f, apps = []\<rparr>"

text \<open>The choice of a service: nothing for the internal one or a type without a module.\<close>

definition load_service :: "modules \<Rightarrow> config \<Rightarrow> string \<Rightarrow> string \<Rightarrow> string option outcome" where
  "load_service M cfg key backend =
     (let ty = cfg_value cfg ''services'' key ''internal'';
          file = cfg_value cfg ''services'' (backend @ ty) []
      in if ty \<noteq> ''internal'' \<and> file \<noteq> [] then
           map_outcome_state (\<lambda>found. if found then Some ty else None) (module_service M file ty)
         else Ok None)"

fun load_plugins :: "modules \<Rightarrow> (string \<times> string) list \<Rightarrow> factory \<Rightarrow> factory outcome" where
  "load_plugins M [] f = Ok f"
| "load_plugins M ((uri, file) # es) f =
     (case module_tags M file of
        Ok p \<Rightarrow> load_plugins M es (register_plugin uri p f)
      | Throw e \<Rightarrow> Throw e
      | Crash \<Rightarrow> Crash
      | Diverge \<Rightarrow> Diverge)"

fun bindO :: "'a outcome \<Rightarrow> ('a \<Rightarrow> 'b outcome) \<Rightarrow> 'b outcome" where
  "bindO (Ok x) f = f x"
| "bindO (Throw e) f = Throw e"
| "bindO Crash f = Crash"
| "bindO Diverge f = Diverge"

text \<open>
  \<open>interpreter::load\<close>, called by the constructor; a missing file is an \<open>app_config_exception\<close>, which
  leaves for the handler before a service is chosen. The second result says whether it warned.
\<close>

definition load_interpreter ::
  "modules \<Rightarrow> (string \<Rightarrow> config option) \<Rightarrow> string \<Rightarrow> interpreter \<Rightarrow> (interpreter \<times> bool) outcome" where
  "load_interpreter M read_config file it =
     (case read_config file of
        None \<Rightarrow> Ok (it\<lparr>options := (\<lambda>_. [])\<rparr>, True)
      | Some cfg \<Rightarrow>
          bindO (load_service M cfg ''log'' ''logger.backend.'') (\<lambda>lg.
          bindO (load_service M cfg ''session'' ''session.backend.'') (\<lambda>se.
          bindO (load_plugins M (cfg ''modules'') (ifactory it)) (\<lambda>f.
            Ok (it\<lparr>options := cfg,
                   use_cache := use_cache it \<or> cfg_value cfg ''application'' ''pool'' ''unlimited'' \<noteq> ''0'',
                   loaded_logger := lg,
                   isession := Some (case se of None \<Rightarrow> Internal_service | Some ty \<Rightarrow> Module_service ty),
                   ifactory := f\<rparr>, False)))))"

text \<open>\<open>reload\<close> writes a message to the log and changes nothing.\<close>

definition reload_interpreter :: "interpreter \<Rightarrow> interpreter" where
  "reload_interpreter it = it"

section \<open>Applications\<close>

text \<open>
  The site a server runs: the environment's parameters, the reader of pages and \<open>url (text).str ()\<close> of
  dcl.
\<close>

record ('d, 'h, 'q, 'r) site = "('d, 'h, 'q, 'r) host" +
  reader :: reader_env
  url_of :: "string \<Rightarrow> string"

record server =
  pstate :: state
  itp :: interpreter

type_synonym 'a sprog = "server \<Rightarrow> 'a outcome \<times> server"

definition on_page :: "'a prog \<Rightarrow> 'a sprog" where
  "on_page m sv = (case m (pstate sv) of (r, _, s) \<Rightarrow> (r, sv\<lparr>pstate := s\<rparr>))"

definition bindS :: "'a sprog \<Rightarrow> ('a \<Rightarrow> 'b sprog) \<Rightarrow> 'b sprog" where
  "bindS m f sv =
     (case m sv of
        (Ok x, s1) \<Rightarrow> f x s1
      | (Throw e, s1) \<Rightarrow> (Throw e, s1)
      | (Crash, s1) \<Rightarrow> (Crash, s1)
      | (Diverge, s1) \<Rightarrow> (Diverge, s1))"

definition new_application :: "('d, 'h, 'q, 'r) site \<Rightarrow> factory \<Rightarrow> nat \<Rightarrow> string \<Rightarrow> nat prog" where
  "new_application E f n u =
     bindM (parse (wd E) f (reader E) (execute (wd E) n) n u) (\<lambda>t.
       case t of
         None \<Rightarrow> throwM (Parser_exc 1 (fmt (dclib (wd E)) ''Fatal error: can't parse file {0}'' [u]))
       | Some t \<Rightarrow> ret t)"

text \<open>An automatic \<open>local_context\<close> on the environment's chain, with the services set.\<close>

definition with_local :: "'a prog \<Rightarrow> 'a prog" where
  "with_local m s =
     (case m (s\<lparr>ctxs := (hd (new_context ''local'' []))\<lparr>has_services := True\<rparr> # ctxs s\<rparr>) of
        (r, t, s1) \<Rightarrow> (r, t, s1\<lparr>ctxs := tl (ctxs s1)\<rparr>))"

text \<open>\<open>dbpager_application::execute\<close>; \<open>init\<close> is the virtual \<open>init_custom_params\<close>.\<close>

definition app_execute :: "'d world \<Rightarrow> nat \<Rightarrow> unit prog \<Rightarrow> nat \<Rightarrow> unit prog" where
  "app_execute w n init t = seqM init (with_local (execute w n t None))"

definition get_app :: "('d, 'h, 'q, 'r) site \<Rightarrow> nat \<Rightarrow> string \<Rightarrow> nat sprog" where
  "get_app E n u sv =
     (let it = itp sv in
      if \<not> use_cache it then on_page (new_application E (ifactory it) n u) sv
      else
        (case map_of (apps it) u of
           Some t \<Rightarrow> (Ok t, sv)
         | None \<Rightarrow>
             bindS (on_page (new_application E (ifactory it) n u))
               (\<lambda>t sv1. (Ok t, sv1\<lparr>itp := (itp sv1)\<lparr>apps := um_insert u t (apps (itp sv1))\<rparr>\<rparr>)) sv))"

end
