(* ===== verification/Session_Modules.thy ===== *)
theory Session_Modules
  imports Application
begin

text \<open>
  The modules that keep sessions outside of the process: \<open>modules/mod_session_redis\<close> with
  \<open>modules/dbp_redis/redis_connection.h\<close>, \<open>modules/mod_session_memcached\<close> and \<open>modules/mod_session_jwt\<close>.
  The client libraries hiredis, libmemcached and jwt-cpp are parameters. Their functions take the number
  of calls made before, since their answers change from call to call, and the contents of the servers.
  A pool of dcl keeps one connection for each argument of \<open>acquire\<close>, because a worker holds one at a time.
\<close>

section \<open>Connections\<close>

definition keep_connection :: "string \<times> string \<Rightarrow> connection \<Rightarrow> unit prog" where
  "keep_connection a c = modM (\<lambda>s. s\<lparr>pooled := (pooled s)(a \<mapsto> c)\<rparr>)"

text \<open>\<open>acquire\<close>: the first use of an argument runs the constructor of the connection.\<close>

definition acquire :: "string \<times> string \<Rightarrow> connection prog \<Rightarrow> connection prog" where
  "acquire a new =
     bindM (getM (\<lambda>s. pooled s a)) (\<lambda>oc.
       case oc of
         Some c \<Rightarrow> ret c
       | None \<Rightarrow> bindM new (\<lambda>c. seqM (keep_connection a c) (ret c)))"

text \<open>
  \<open>host:port\<close>, as both configurations read it; \<open>hp[0]\<close> of an empty vector is outside of it.
\<close>

definition host_port :: "'d dcl \<Rightarrow> int \<Rightarrow> string \<Rightarrow> (string \<times> int) prog" where
  "host_port d dflt i =
     (case tokenize_by d i '':'' of
        [] \<Rightarrow> crashM
      | [h] \<Rightarrow> ret (trim d h, dflt)
      | h # p # _ \<Rightarrow>
          (case to_int d (trim d p) of None \<Rightarrow> throwM type_error | Some n \<Rightarrow> ret (trim d h, n)))"

section \<open>Redis\<close>

datatype reply = Reply_string string | Reply_other

text \<open>
  \<open>redisConnect\<close> gives \<open>NULL\<close>, or a context and its error. A command is the list of its words; \<open>%s\<close> makes
  one word of its argument. \<open>default_tokens\<close> is \<open>tokenize()\<close> of dcl without a separator.
\<close>

record hiredis =
  redisConnect :: "nat \<Rightarrow> string \<Rightarrow> int \<Rightarrow> (nat \<times> string option) option"
  redisCommand :: "nat \<Rightarrow> nat \<Rightarrow> string list \<Rightarrow> (string \<rightharpoonup> string) \<Rightarrow> reply option \<times> (string \<rightharpoonup> string)"
  errstr :: "nat \<Rightarrow> nat \<Rightarrow> string"
  default_tokens :: "string \<Rightarrow> string list"

record redis_options =
  redis_server :: string
  redis_password :: string
  database_number :: int
  redis_ttl :: int

record mod_session_redis =
  redis_id :: string
  redis_new :: bool
  redis_https :: bool
  redis_opts :: redis_options

definition redis_exception :: "string \<Rightarrow> exn" where
  "redis_exception msg = Dbp_exc Module_exception msg"

definition redis_acquire :: "string \<Rightarrow> connection prog" where
  "redis_acquire server = acquire (''redis'', server) (ret \<lparr>handle = None, configured = False\<rparr>)"

definition redis_keep :: "string \<Rightarrow> connection \<Rightarrow> unit prog" where
  "redis_keep server c = keep_connection (''redis'', server) c"

text \<open>
  \<open>configure\<close>: the loop over the hosts, which connects to each in turn and leaks the contexts before the
  last; the message of a connection that is \<open>NULL\<close> is read through it.
\<close>

fun redis_configure :: "hiredis \<Rightarrow> 'd dcl \<Rightarrow> string \<Rightarrow> string list \<Rightarrow> unit prog" where
  "redis_configure R d server [] = ret ()"
| "redis_configure R d server (i # is) =
     bindM (host_port d 6379 i) (\<lambda>(host, p).
     bindM tickM (\<lambda>k.
       case redisConnect R k (c_str host) p of
         None \<Rightarrow> crashM
       | Some (c, Some msg) \<Rightarrow>
           bindM (redis_acquire server) (\<lambda>cn.
             seqM (redis_keep server (cn\<lparr>handle := Some c\<rparr>)) (throwM (redis_exception msg)))
       | Some (c, None) \<Rightarrow>
           seqM (redis_keep server \<lparr>handle = Some c, configured = True\<rparr>) (redis_configure R d server is)))"

text \<open>\<open>redisCommand (c->get_ptr (), ...)\<close> and the message of the context.\<close>

definition redis_command :: "hiredis \<Rightarrow> string \<Rightarrow> string list \<Rightarrow> reply option prog" where
  "redis_command R server ws =
     bindM (redis_acquire server) (\<lambda>cn.
       case handle cn of
         None \<Rightarrow> crashM
       | Some c \<Rightarrow>
           bindM tickM (\<lambda>k s. case redisCommand R k c ws (remote s) of (r, m) \<Rightarrow> (Ok r, [], s\<lparr>remote := m\<rparr>)))"

definition redis_errstr :: "hiredis \<Rightarrow> string \<Rightarrow> string prog" where
  "redis_errstr R server =
     bindM (redis_acquire server) (\<lambda>cn.
       case handle cn of None \<Rightarrow> crashM | Some c \<Rightarrow> bindM tickM (\<lambda>k. ret (errstr R k c)))"

definition redis_reset :: "string \<Rightarrow> unit prog" where
  "redis_reset server = redis_keep server \<lparr>handle = None, configured = False\<rparr>"

text \<open>\<open>login\<close> and \<open>select_database\<close>.\<close>

definition redis_require :: "hiredis \<Rightarrow> string \<Rightarrow> string list \<Rightarrow> unit prog" where
  "redis_require R server ws =
     bindM (redis_acquire server) (\<lambda>cn.
       if \<not> configured cn then ret ()
       else bindM (redis_command R server ws) (\<lambda>r.
         case r of
           None \<Rightarrow> bindM (redis_errstr R server) (\<lambda>msg. throwM (redis_exception msg))
         | Some _ \<Rightarrow> ret ()))"

definition redis_login :: "hiredis \<Rightarrow> string \<Rightarrow> string \<Rightarrow> unit prog" where
  "redis_login R server password = redis_require R server [''AUTH'', c_str password]"

definition redis_select :: "hiredis \<Rightarrow> 'd dcl \<Rightarrow> string \<Rightarrow> int \<Rightarrow> unit prog" where
  "redis_select R d server database = redis_require R server [''SELECT'', of_int_str d database]"

text \<open>The start of each attempt of \<open>get_value\<close> and \<open>put_value\<close>.\<close>

definition redis_prepare :: "hiredis \<Rightarrow> 'd dcl \<Rightarrow> redis_options \<Rightarrow> unit prog" where
  "redis_prepare R d ro =
     bindM (redis_acquire (redis_server ro)) (\<lambda>cn.
       if configured cn then ret ()
       else
         seqM (redis_configure R d (redis_server ro) (default_tokens R (trim d (redis_server ro))))
          (seqM (if redis_password ro \<noteq> [] then redis_login R (redis_server ro) (redis_password ro) else ret ())
            (if 0 < database_number ro then redis_select R d (redis_server ro) (database_number ro) else ret ())))"

definition redis_failed :: "hiredis \<Rightarrow> string \<Rightarrow> (string \<Rightarrow> 'a prog) \<Rightarrow> 'a prog" where
  "redis_failed R server again =
     bindM (redis_errstr R server) (\<lambda>msg. seqM (redis_reset server) (again msg))"

fun redis_get_value :: "hiredis \<Rightarrow> 'd dcl \<Rightarrow> redis_options \<Rightarrow> string \<Rightarrow> nat \<Rightarrow> string \<Rightarrow> string prog" where
  "redis_get_value R d ro key 0 msg = throwM (Dbp_exc Session_exception msg)"
| "redis_get_value R d ro key (Suc attempts) msg =
     seqM (redis_prepare R d ro)
      (bindM (redis_command R (redis_server ro) [''GET'', c_str key]) (\<lambda>r.
        case r of
          Some (Reply_string v) \<Rightarrow> ret (c_str v)
        | Some Reply_other \<Rightarrow> ret []
        | None \<Rightarrow> redis_failed R (redis_server ro) (redis_get_value R d ro key attempts)))"

fun redis_put_value ::
  "hiredis \<Rightarrow> 'd dcl \<Rightarrow> redis_options \<Rightarrow> string \<Rightarrow> string \<Rightarrow> nat \<Rightarrow> string \<Rightarrow> unit prog" where
  "redis_put_value R d ro key v 0 msg = throwM (Dbp_exc Session_exception msg)"
| "redis_put_value R d ro key v (Suc attempts) msg =
     seqM (redis_prepare R d ro)
      (bindM (redis_command R (redis_server ro) [''SET'', c_str key, c_str v]) (\<lambda>r.
        case r of
          None \<Rightarrow> redis_failed R (redis_server ro) (redis_put_value R d ro key v attempts)
        | Some _ \<Rightarrow>
            if 0 < redis_ttl ro then
              bindM (redis_command R (redis_server ro) [''EXPIRE'', c_str key, of_int_str d (redis_ttl ro)]) (\<lambda>r.
                case r of
                  None \<Rightarrow> redis_failed R (redis_server ro) (redis_put_value R d ro key v attempts)
                | Some _ \<Rightarrow> ret ())
            else ret ()))"

definition redis_load :: "hiredis \<Rightarrow> 'd world \<Rightarrow> mod_session_redis \<Rightarrow> unit prog" where
  "redis_load R w h =
     bindM (redis_get_value R (dclib w) (redis_opts h) (redis_id h) 3 ''Unknown error'') (load_text w)"

definition redis_save ::
  "hiredis \<Rightarrow> 'd world \<Rightarrow> ('q, 'r) http \<Rightarrow> ctx \<Rightarrow> mod_session_redis \<Rightarrow> 'r \<Rightarrow> 'r prog" where
  "redis_save R w H c h resp =
     seqM
      (if ctx_empty c then ret ()
       else redis_put_value R (dclib w) (redis_opts h) (redis_id h) (session_text w c) 3 ''Unknown error'')
      (ret (save_cookies H c (redis_id h) (redis_new h) (redis_https h) resp))"

text \<open>The cookie of the request names the session; else it is a new one.\<close>

definition session_id_of :: "'d world \<Rightarrow> ('q, 'r) http \<Rightarrow> 'q \<Rightarrow> (string \<times> bool) prog" where
  "session_id_of w H q =
     (let fresh = bindM tickM (\<lambda>i. ret (uuid_at (ext w) i, True)) in
      case find (\<lambda>c. cookie_name c = ''session'') (get_cookies H q) of
        Some c \<Rightarrow> if cookie_value c = [] then fresh else ret (cookie_value c, False)
      | None \<Rightarrow> fresh)"

definition redis_create ::
  "'d world \<Rightarrow> ('q, 'r) http \<Rightarrow> redis_options \<Rightarrow> 'q \<Rightarrow> mod_session_redis prog" where
  "redis_create w H ro q =
     bindM (session_id_of w H q) (\<lambda>(i, new).
       ret \<lparr>redis_id = i, redis_new = new, redis_https = get_https H q, redis_opts = ro\<rparr>)"

definition mod_session_redis_factory ::
  "hiredis \<Rightarrow> 'd world \<Rightarrow> ('q, 'r) http \<Rightarrow> redis_options \<Rightarrow> (mod_session_redis, 'q, 'r) session_factory" where
  "mod_session_redis_factory R w H ro =
     \<lparr>create_session = redis_create w H ro, holder_id = redis_id, load_session = redis_load R w,
      save_session = (\<lambda>h resp s.
        case ctxs s of
          [] \<Rightarrow> (Crash, [], s)
        | c # _ \<Rightarrow> bindM (redis_save R w H c h resp) (\<lambda>resp'. ret (h, resp')) s)\<rparr>"

text \<open>
  \<open>init\<close> and \<open>create_object\<close> of the module; \<open>int_value\<close> reads a number of the configuration. The size of the
  pool is left to dcl.
\<close>

definition redis_init :: "(config \<Rightarrow> string \<Rightarrow> string \<Rightarrow> int \<Rightarrow> int) \<Rightarrow> config option \<Rightarrow> string \<Rightarrow> redis_options" where
  "redis_init int_value oc password =
     (case oc of
        None \<Rightarrow> \<lparr>redis_server = ''localhost:6379'', redis_password = password, database_number = 0, redis_ttl = 0\<rparr>
      | Some cfg \<Rightarrow>
          \<lparr>redis_server = cfg_value cfg ''services.session.redis'' ''server'' ''localhost:6379'',
           redis_password = cfg_value cfg ''services.session.redis'' ''password'' [],
           database_number = int_value cfg ''services.session.redis'' ''database'' 0,
           redis_ttl = int_value cfg ''services.session.redis'' ''ttl'' 0\<rparr>)"

definition redis_create_object ::
  "hiredis \<Rightarrow> 'd world \<Rightarrow> ('q, 'r) http \<Rightarrow> redis_options \<Rightarrow> string \<Rightarrow> (mod_session_redis, 'q, 'r) session_factory option" where
  "redis_create_object R w H ro name = (if name = ''redis'' then Some (mod_session_redis_factory R w H ro) else None)"

section \<open>memcached\<close>

datatype memcached_return = MEMCACHED_SUCCESS | MEMCACHED_NOTFOUND | MEMCACHED_failure nat

text \<open>
  The functions take the pointer \<open>mc\<close>, which is \<open>NULL\<close> after \<open>reset\<close>, and the state of library and servers.
\<close>

record libmemcached =
  memcached_create :: "nat \<Rightarrow> nat option"
  memcached_server_add :: "nat option \<Rightarrow> string \<Rightarrow> int \<Rightarrow> (string \<rightharpoonup> string) \<Rightarrow> (string \<rightharpoonup> string)"
  memcached_get :: "nat \<Rightarrow> nat option \<Rightarrow> string \<Rightarrow> (string \<rightharpoonup> string) \<Rightarrow> string option \<times> memcached_return \<times> (string \<rightharpoonup> string)"
  memcached_set :: "nat \<Rightarrow> nat option \<Rightarrow> string \<Rightarrow> string \<Rightarrow> int \<Rightarrow> (string \<rightharpoonup> string) \<Rightarrow> memcached_return \<times> (string \<rightharpoonup> string)"
  memcached_strerror :: "nat option \<Rightarrow> memcached_return \<Rightarrow> string"
  server_tokens :: "string \<Rightarrow> string list"

record mod_session_memcached =
  mc_id :: string
  mc_new :: bool
  mc_https :: bool
  mc_ttl :: int
  mc_servers :: string

definition memcached_acquire :: "libmemcached \<Rightarrow> string \<Rightarrow> connection prog" where
  "memcached_acquire M servers =
     acquire (''memcached'', servers) (bindM tickM (\<lambda>k. ret \<lparr>handle = memcached_create M k, configured = False\<rparr>))"

definition memcached_reset :: "string \<Rightarrow> unit prog" where
  "memcached_reset servers = keep_connection (''memcached'', servers) \<lparr>handle = None, configured = False\<rparr>"

definition memcached_configure :: "libmemcached \<Rightarrow> string \<Rightarrow> string \<times> int \<Rightarrow> unit prog" where
  "memcached_configure M servers hp =
     bindM (memcached_acquire M servers) (\<lambda>cn.
       seqM (modM (\<lambda>s. s\<lparr>remote := memcached_server_add M (handle cn) (c_str (fst hp)) (snd hp) (remote s)\<rparr>))
        (keep_connection (''memcached'', servers) (cn\<lparr>configured := True\<rparr>)))"

text \<open>The start of the \<open>try\<close> blocks of \<open>get_value\<close> and \<open>put_value\<close>.\<close>

definition memcached_prepare :: "libmemcached \<Rightarrow> 'd dcl \<Rightarrow> string \<Rightarrow> connection prog" where
  "memcached_prepare M d servers =
     bindM (memcached_acquire M servers) (\<lambda>cn.
       if configured cn then ret cn
       else
         seqM (forM (server_tokens M servers) (\<lambda>i. bindM (host_port d 11211 i) (memcached_configure M servers)))
          (memcached_acquire M servers))"

text \<open>\<open>catch (...) { c->reset (); throw; }\<close>\<close>

definition memcached_guard :: "string \<Rightarrow> 'a prog \<Rightarrow> 'a prog" where
  "memcached_guard servers m = tryM m (\<lambda>e. seqM (memcached_reset servers) (throwM e))"

definition memcached_get_value :: "libmemcached \<Rightarrow> 'd dcl \<Rightarrow> string \<Rightarrow> string \<Rightarrow> string prog" where
  "memcached_get_value M d servers key =
     bindM (memcached_acquire M servers) (\<lambda>_.
       memcached_guard servers
        (bindM (memcached_prepare M d servers) (\<lambda>cn.
         bindM tickM (\<lambda>k s.
           case memcached_get M k (handle cn) key (remote s) of
             (v, error, m) \<Rightarrow>
               (case v of
                  Some t \<Rightarrow> ret (c_str t)
                | None \<Rightarrow>
                    if error \<noteq> MEMCACHED_SUCCESS \<and> error \<noteq> MEMCACHED_NOTFOUND
                    then throwM (Dbp_exc Session_exception (memcached_strerror M (handle cn) error))
                    else ret []) (s\<lparr>remote := m\<rparr>)))))"

definition memcached_put_value :: "libmemcached \<Rightarrow> 'd dcl \<Rightarrow> string \<Rightarrow> int \<Rightarrow> string \<Rightarrow> string \<Rightarrow> unit prog" where
  "memcached_put_value M d servers ttl key v =
     bindM (memcached_acquire M servers) (\<lambda>_.
       memcached_guard servers
        (bindM (memcached_prepare M d servers) (\<lambda>cn.
         bindM tickM (\<lambda>k s.
           case memcached_set M k (handle cn) key v ttl (remote s) of
             (error, m) \<Rightarrow>
               (if error \<noteq> MEMCACHED_SUCCESS
                then throwM (Dbp_exc Session_exception (memcached_strerror M (handle cn) error))
                else ret ()) (s\<lparr>remote := m\<rparr>)))))"

definition memcached_load :: "libmemcached \<Rightarrow> 'd world \<Rightarrow> mod_session_memcached \<Rightarrow> unit prog" where
  "memcached_load M w h = bindM (memcached_get_value M (dclib w) (mc_servers h) (mc_id h)) (load_text w)"

definition memcached_save ::
  "libmemcached \<Rightarrow> 'd world \<Rightarrow> ('q, 'r) http \<Rightarrow> ctx \<Rightarrow> mod_session_memcached \<Rightarrow> 'r \<Rightarrow> 'r prog" where
  "memcached_save M w H c h resp =
     seqM
      (if ctx_empty c then ret ()
       else memcached_put_value M (dclib w) (mc_servers h) (mc_ttl h) (mc_id h) (session_text w c))
      (ret (save_cookies H c (mc_id h) (mc_new h) (mc_https h) resp))"

definition mod_session_memcached_factory ::
  "libmemcached \<Rightarrow> 'd world \<Rightarrow> ('q, 'r) http \<Rightarrow> string \<Rightarrow> int \<Rightarrow> (mod_session_memcached, 'q, 'r) session_factory" where
  "mod_session_memcached_factory M w H servers ttl =
     \<lparr>create_session = (\<lambda>q. bindM (session_id_of w H q) (\<lambda>(i, new).
        ret \<lparr>mc_id = i, mc_new = new, mc_https = get_https H q, mc_ttl = ttl, mc_servers = servers\<rparr>)),
      holder_id = mc_id, load_session = memcached_load M w,
      save_session = (\<lambda>h resp s.
        case ctxs s of
          [] \<Rightarrow> (Crash, [], s)
        | c # _ \<Rightarrow> bindM (memcached_save M w H c h resp) (\<lambda>resp'. ret (h, resp')) s)\<rparr>"

section \<open>JSON web tokens\<close>

text \<open>
  \<open>jwt_decode\<close> gives the message of the exception or the members of the payload in the order of their names,
  \<open>jwt_verify\<close> the message of a failed verification with a secret and an issuer (empty for none). \<open>jwt_sign\<close>
  makes a token with a secret, an issuer, a lifetime and the claims. The messages of \<open>asString\<close> and \<open>substr\<close>
  are those of jsoncpp and the standard library.
\<close>

record jwt_lib =
  jwt_decode :: "string \<Rightarrow> string + (string \<times> json) list"
  jwt_verify :: "nat \<Rightarrow> string \<Rightarrow> string \<Rightarrow> string \<Rightarrow> string option"
  jwt_sign :: "nat \<Rightarrow> string \<Rightarrow> string \<Rightarrow> int \<Rightarrow> string umap \<Rightarrow> string"
  as_string_what :: string
  substr_what :: string

record jwt_options =
  jwt_secret :: string
  jwt_prefix :: string
  jwt_issuer :: string
  jwt_ttl :: int

record mod_session_jwt =
  jwt_id :: string
  jwt_new :: bool
  jwt_https :: bool
  jwt_opts :: jwt_options

definition as_stringM :: "jwt_lib \<Rightarrow> 'd world \<Rightarrow> json \<Rightarrow> string prog" where
  "as_stringM J w v = (case json_text (ext w) v of Some t \<Rightarrow> ret t | None \<Rightarrow> throwM (Std_exc (as_string_what J)))"

definition jwt_decodeM :: "jwt_lib \<Rightarrow> string \<Rightarrow> (string \<times> json) list prog" where
  "jwt_decodeM J t = (case jwt_decode J t of Inl msg \<Rightarrow> throwM (Std_exc msg) | Inr ms \<Rightarrow> ret ms)"

text \<open>\<open>load\<close>; \<open>decode\<close> stands before the \<open>try\<close> block.\<close>

definition jwt_load :: "jwt_lib \<Rightarrow> 'd world \<Rightarrow> mod_session_jwt \<Rightarrow> unit prog" where
  "jwt_load J w h =
     (if jwt_id h = [] then ret ()
      else
        bindM (jwt_decodeM J (jwt_id h)) (\<lambda>payload.
          tryM
           (bindM tickM (\<lambda>k.
             case jwt_verify J k (jwt_secret (jwt_opts h)) (jwt_issuer (jwt_opts h)) (jwt_id h) of
               Some msg \<Rightarrow> throwM (Std_exc msg)
             | None \<Rightarrow>
                 forM payload (\<lambda>(key, v).
                   if key \<noteq> [] \<and> hd key = CHR ''_''
                   then bindM (as_stringM J w v) (\<lambda>t. addM w (jwt_prefix (jwt_opts h) @ key) t [])
                   else ret ())))
           (\<lambda>e. throwM (Dbp_exc Session_exception (''JWT verification failed: '' @ what e)))))"

text \<open>The claims of the new token: \<open>substr\<close> throws when the name is nothing but the prefix.\<close>

fun jwt_claims :: "jwt_lib \<Rightarrow> string \<Rightarrow> (string \<times> string) list \<Rightarrow> string umap \<Rightarrow> string umap prog" where
  "jwt_claims J p [] cl = ret cl"
| "jwt_claims J p ((key, v) # es) cl =
     (if take (length p) key = p then
        if length key < length p + 1 then throwM (Std_exc (substr_what J))
        else jwt_claims J p es (um_put (CHR ''_'' # downcase (drop (length p + 1) key)) v cl)
      else jwt_claims J p es cl)"

text \<open>The loop that compares the variables with the payload of the current token.\<close>

fun jwt_identical :: "jwt_lib \<Rightarrow> 'd world \<Rightarrow> string \<Rightarrow> (string \<times> json) list \<Rightarrow> (string \<times> string) list \<Rightarrow> bool prog" where
  "jwt_identical J w p payload [] = ret True"
| "jwt_identical J w p payload ((key, v) # es) =
     (if take (length p) key = p then
        (case map_of payload (downcase (drop (length p) key)) of
           None \<Rightarrow> ret False
         | Some j \<Rightarrow> bindM (as_stringM J w j) (\<lambda>t. if t \<noteq> v then ret False else jwt_identical J w p payload es))
      else jwt_identical J w p payload es)"

definition token_cookie :: "('q, 'r) http \<Rightarrow> string \<Rightarrow> bool \<Rightarrow> http_cookie" where
  "token_cookie H i https =
     (let c = (new_cookie H ''session-token'' i)\<lparr>cookie_path := ''/'', http_only := True\<rparr>
      in if https then c\<lparr>same_site := ''none'', secure := True, partitioned := True\<rparr> else c)"

definition signM :: "jwt_lib \<Rightarrow> jwt_options \<Rightarrow> string umap \<Rightarrow> string prog" where
  "signM J jo cl = bindM tickM (\<lambda>k. ret (jwt_sign J k (jwt_secret jo) (jwt_issuer jo) (jwt_ttl jo) cl))"

definition jwt_save ::
  "jwt_lib \<Rightarrow> 'd world \<Rightarrow> ('q, 'r) http \<Rightarrow> ctx \<Rightarrow> mod_session_jwt \<Rightarrow> 'r \<Rightarrow> (mod_session_jwt \<times> 'r) prog" where
  "jwt_save J w H c h resp =
     (if ctx_empty c then
        ret (if jwt_id h = [] then (h, resp)
             else (h\<lparr>jwt_id := []\<rparr>,
                   set_cookie H ((token_cookie H [] (jwt_https h))\<lparr>expires := Some (1976, 4, 21, 0, 0, 0)\<rparr>) resp))
      else
        let es = um_iter (um_order (dclib w)) (get_values c); p = upcase (jwt_prefix (jwt_opts h)) in
        bindM (jwt_claims J p es []) (\<lambda>cl.
        bindM
         (if jwt_id h = [] then bindM (signM J (jwt_opts h) cl) (\<lambda>i. ret (h\<lparr>jwt_id := i, jwt_new := True\<rparr>))
          else
            bindM (jwt_decodeM J (jwt_id h)) (\<lambda>payload.
            bindM (jwt_identical J w p payload es) (\<lambda>identical. ret (h\<lparr>jwt_new := \<not> identical\<rparr>))))
         (\<lambda>h1.
          if jwt_new h1 then
            bindM (signM J (jwt_opts h1) cl) (\<lambda>i.
              ret (h1\<lparr>jwt_id := i\<rparr>, set_cookie H (token_cookie H i (jwt_https h1)) resp))
          else ret (h1, resp))))"

definition jwt_create :: "('q, 'r) http \<Rightarrow> jwt_options \<Rightarrow> 'q \<Rightarrow> mod_session_jwt" where
  "jwt_create H jo q =
     (case find (\<lambda>c. cookie_name c = ''session-token'') (get_cookies H q) of
        Some c \<Rightarrow> \<lparr>jwt_id = cookie_value c, jwt_new = False, jwt_https = get_https H q, jwt_opts = jo\<rparr>
      | None \<Rightarrow> \<lparr>jwt_id = [], jwt_new = True, jwt_https = get_https H q, jwt_opts = jo\<rparr>)"

definition mod_session_jwt_factory ::
  "jwt_lib \<Rightarrow> 'd world \<Rightarrow> ('q, 'r) http \<Rightarrow> jwt_options \<Rightarrow> (mod_session_jwt, 'q, 'r) session_factory" where
  "mod_session_jwt_factory J w H jo =
     \<lparr>create_session = (\<lambda>q. ret (jwt_create H jo q)), holder_id = jwt_id, load_session = jwt_load J w,
      save_session = (\<lambda>h resp s. case ctxs s of [] \<Rightarrow> (Crash, [], s) | c # _ \<Rightarrow> jwt_save J w H c h resp s)\<rparr>"

text \<open>\<open>init\<close>: secret and prefix may come from the environment; both are global and start empty.\<close>

definition from_environment :: "ext \<Rightarrow> config \<Rightarrow> string \<Rightarrow> string" where
  "from_environment x cfg key =
     (let name = cfg_value cfg ''services.session.jwt'' key [] in
      if name = [] then [] else case getenv x name of None \<Rightarrow> [] | Some v \<Rightarrow> v)"

definition jwt_init :: "ext \<Rightarrow> (config \<Rightarrow> string \<Rightarrow> string \<Rightarrow> int \<Rightarrow> int) \<Rightarrow> config \<Rightarrow> jwt_options" where
  "jwt_init x int_value cfg =
     (let s = from_environment x cfg ''secret_environment''; p = from_environment x cfg ''prefix_environment''
      in \<lparr>jwt_secret = (if s = [] then cfg_value cfg ''services.session.jwt'' ''secret'' [] else s),
          jwt_prefix = (if p = [] then cfg_value cfg ''services.session.jwt'' ''prefix'' ''token'' else p),
          jwt_issuer = cfg_value cfg ''services.session.jwt'' ''issuer'' [],
          jwt_ttl = int_value cfg ''services.session.jwt'' ''ttl'' 0\<rparr>)"

end
