(* ===== verification/Session_Modules_Correct.thy ===== *)
theory Session_Modules_Correct
  imports Session_Correct Session_Modules
begin

text \<open>
  The modules for Redis and memcached keep the contract of session providers, where their servers may
  fail at any time.
\<close>

section \<open>Programs of modules\<close>

text \<open>
  A program that may be run where \<open>P\<close> holds: it writes nothing, leaves the variables alone, keeps the
  invariant, returns with \<open>Q\<close> or throws an exception of the program.
\<close>

definition safe_run :: "(state \<Rightarrow> bool) \<Rightarrow> (state \<Rightarrow> bool) \<Rightarrow> 'a prog \<Rightarrow> ('a \<Rightarrow> state \<Rightarrow> bool) \<Rightarrow> bool" where
  "safe_run I P m Q \<longleftrightarrow> (\<forall>s r t s'. I s \<longrightarrow> P s \<longrightarrow> m s = (r, t, s') \<longrightarrow>
     t = [] \<and> calm s s' \<and> ctxs s' = ctxs s \<and> I s' \<and>
     (case r of Ok x \<Rightarrow> Q x s' | Throw e \<Rightarrow> is_dbp e | Crash \<Rightarrow> False | Diverge \<Rightarrow> False))"

lemma safe_runD:
  "safe_run I P m Q \<Longrightarrow> I s \<Longrightarrow> P s \<Longrightarrow> m s = (r, t, s') \<Longrightarrow>
     t = [] \<and> calm s s' \<and> ctxs s' = ctxs s \<and> I s' \<and>
     (case r of Ok x \<Rightarrow> Q x s' | Throw e \<Rightarrow> is_dbp e | Crash \<Rightarrow> False | Diverge \<Rightarrow> False)"
  unfolding safe_run_def by blast

lemma safe_runI:
  assumes "\<And>s. I s \<Longrightarrow> P s \<Longrightarrow> \<exists>r s'. m s = (r, [], s') \<and> calm s s' \<and> ctxs s' = ctxs s \<and> I s' \<and>
     (case r of Ok x \<Rightarrow> Q x s' | Throw e \<Rightarrow> is_dbp e | Crash \<Rightarrow> False | Diverge \<Rightarrow> False)"
  shows "safe_run I P m Q"
  unfolding safe_run_def using assms by fastforce

lemma safe_ret: "(\<And>s. I s \<Longrightarrow> P s \<Longrightarrow> Q x s) \<Longrightarrow> safe_run I P (ret x) Q"
  by (rule safe_runI) (simp add: ret_def)

lemma safe_throw: "is_dbp e \<Longrightarrow> safe_run I P (throwM e) Q"
  by (rule safe_runI) (simp add: throwM_def)

lemma safe_get: "(\<And>s. I s \<Longrightarrow> P s \<Longrightarrow> Q (f s) s) \<Longrightarrow> safe_run I P (getM f) Q"
  by (rule safe_runI) (simp add: getM_def)

lemma safe_bind:
  assumes m: "safe_run I P m Q" and f: "\<And>x. safe_run I (Q x) (f x) S"
  shows "safe_run I P (bindM m f) S"
  unfolding safe_run_def
proof (intro allI impI)
  fix s r t s'
  assume s: "I s" "P s" and run: "bindM m f s = (r, t, s')"
  obtain r1 t1 s1 where 1: "m s = (r1, t1, s1)" by (cases "m s")
  note s1 = safe_runD [OF m s 1]
  show "t = [] \<and> calm s s' \<and> ctxs s' = ctxs s \<and> I s' \<and>
     (case r of Ok x \<Rightarrow> S x s' | Throw e \<Rightarrow> is_dbp e | Crash \<Rightarrow> False | Diverge \<Rightarrow> False)"
  proof (cases r1)
    case (Ok x)
    with 1 s1 run have "f x s1 = (r, t, s')" by (simp add: bind_Ok)
    from safe_runD [OF f _ _ this] s1 Ok show ?thesis by (auto intro: calm_trans)
  next
    case (Throw e)
    with 1 s1 run show ?thesis by (auto simp: bind_Throw)
  qed (use s1 in auto)
qed

lemma safe_seq: "safe_run I P m Q \<Longrightarrow> safe_run I (Q ()) k S \<Longrightarrow> safe_run I P (seqM m k) S"
  unfolding seqM_def by (rule safe_bind) auto

lemma safe_try:
  assumes m: "safe_run I P m Q" and h: "\<And>e. is_dbp e \<Longrightarrow> safe_run I (\<lambda>_. True) (h e) Q"
  shows "safe_run I P (tryM m h) Q"
  unfolding safe_run_def
proof (intro allI impI)
  fix s r t s'
  assume s: "I s" "P s" and run: "tryM m h s = (r, t, s')"
  obtain r1 t1 s1 where 1: "m s = (r1, t1, s1)" by (cases "m s")
  note s1 = safe_runD [OF m s 1]
  show "t = [] \<and> calm s s' \<and> ctxs s' = ctxs s \<and> I s' \<and>
     (case r of Ok x \<Rightarrow> Q x s' | Throw e \<Rightarrow> is_dbp e | Crash \<Rightarrow> False | Diverge \<Rightarrow> False)"
  proof (cases r1)
    case (Throw e)
    with s1 have e: "is_dbp e" by simp
    from Throw 1 s1 run have "h e s1 = (r, t, s')" by (auto simp: tryM_def split: prod.splits)
    from safe_runD [OF h [OF e] _ _ this] s1 show ?thesis by (auto intro: calm_trans)
  qed (use 1 s1 run in \<open>auto simp: tryM_def\<close>)
qed

lemma safe_weaken:
  "safe_run I P m Q \<Longrightarrow> (\<And>s. I s \<Longrightarrow> P' s \<Longrightarrow> P s) \<Longrightarrow> (\<And>x s. I s \<Longrightarrow> Q x s \<Longrightarrow> Q' x s) \<Longrightarrow> safe_run I P' m Q'"
proof (unfold safe_run_def, intro allI impI)
  fix s r t s'
  assume m: "\<forall>s r t s'. I s \<longrightarrow> P s \<longrightarrow> m s = (r, t, s') \<longrightarrow> t = [] \<and> calm s s' \<and> ctxs s' = ctxs s \<and> I s' \<and>
      (case r of Ok x \<Rightarrow> Q x s' | Throw e \<Rightarrow> is_dbp e | Crash \<Rightarrow> False | Diverge \<Rightarrow> False)"
    and w: "\<And>s. I s \<Longrightarrow> P' s \<Longrightarrow> P s" "\<And>x s. I s \<Longrightarrow> Q x s \<Longrightarrow> Q' x s" and s: "I s" "P' s" "m s = (r, t, s')"
  from m [rule_format, OF s(1) w(1) [OF s(1,2)] s(3)] w(2)
  show "t = [] \<and> calm s s' \<and> ctxs s' = ctxs s \<and> I s' \<and>
      (case r of Ok x \<Rightarrow> Q' x s' | Throw e \<Rightarrow> is_dbp e | Crash \<Rightarrow> False | Diverge \<Rightarrow> False)"
    by (cases r) auto
qed

lemma safe_when: "(\<And>s. I s \<Longrightarrow> P s \<Longrightarrow> safe_run I P m Q) \<Longrightarrow> safe_run I P m Q"
  unfolding safe_run_def by blast

lemma safe_any: "safe_run I (\<lambda>_. True) m Q \<Longrightarrow> safe_run I P m Q"
  by (erule safe_weaken) auto

lemma safe_forM: "(\<And>x. x \<in> set xs \<Longrightarrow> safe_run I P (f x) (\<lambda>_. P)) \<Longrightarrow> safe_run I P (forM xs f) (\<lambda>_. P)"
  by (induction xs) (auto intro: safe_ret safe_seq)

text \<open>An invariant of the pool alone.\<close>

definition pool_inv :: "(state \<Rightarrow> bool) \<Rightarrow> bool" where
  "pool_inv I \<longleftrightarrow> (\<forall>s s'. pooled s' = pooled s \<longrightarrow> I s' = I s)"

lemma pool_invD: "pool_inv I \<Longrightarrow> pooled s' = pooled s \<Longrightarrow> I s' = I s"
  unfolding pool_inv_def by blast

lemma safe_tick:
  assumes "pool_inv I" "\<And>s i. P (s\<lparr>tick := i\<rparr>) = P s"
  shows "safe_run I P tickM (\<lambda>_. P)"
proof (rule safe_runI)
  fix s
  assume "I s" "P s"
  then show "\<exists>r s'. tickM s = (r, [], s') \<and> calm s s' \<and> ctxs s' = ctxs s \<and> I s' \<and>
      (case r of Ok x \<Rightarrow> P s' | Throw e \<Rightarrow> is_dbp e | Crash \<Rightarrow> False | Diverge \<Rightarrow> False)"
    using assms(2) pool_invD [OF assms(1), of "s\<lparr>tick := Suc (tick s)\<rparr>" s] by (simp add: tickM_def)
qed

lemma safe_id:
  assumes "pool_inv I"
  shows "safe_run I (\<lambda>_. True) (session_id_of w H q) (\<lambda>_ _. True)"
proof -
  have "safe_run I (\<lambda>_. True) (bindM tickM (\<lambda>i. ret (uuid_at (ext w) i, True))) (\<lambda>_ _. True)"
    by (rule safe_bind [OF safe_tick [OF assms]]) (auto intro: safe_ret)
  then show ?thesis unfolding session_id_of_def Let_def by (auto intro: safe_ret split: option.split)
qed

lemma safe_host_port:
  assumes "tokenize_by d i '':'' \<noteq> []"
  shows "safe_run I P (host_port d dflt i) (\<lambda>_. P)"
proof -
  from assms obtain h rest where t: "tokenize_by d i '':'' = h # rest" by (cases "tokenize_by d i '':''") auto
  have "is_dbp type_error" by (simp add: type_error_def)
  then show ?thesis unfolding host_port_def t
    by (cases rest) (auto intro!: safe_ret safe_throw split: option.split)
qed

section \<open>Redis\<close>

text \<open>
  A connection that was configured has a context; contexts are given by a library that never returns
  \<open>NULL\<close> from \<open>redisConnect\<close>, for a text that names at least one server.
\<close>

definition redis_inv :: "state \<Rightarrow> bool" where
  "redis_inv s \<longleftrightarrow> (\<forall>a c. pooled s (''redis'', a) = Some c \<longrightarrow> configured c \<longrightarrow> handle c \<noteq> None)"

definition redis_up :: "hiredis \<Rightarrow> 'd dcl \<Rightarrow> string \<Rightarrow> bool" where
  "redis_up R d server \<longleftrightarrow> (\<forall>k h p. redisConnect R k h p \<noteq> None) \<and> default_tokens R (trim d server) \<noteq> [] \<and>
     (\<forall>i \<in> set (default_tokens R (trim d server)). tokenize_by d i '':'' \<noteq> [])"

definition linked :: "string \<Rightarrow> state \<Rightarrow> bool" where
  "linked a s \<longleftrightarrow> (\<exists>c. pooled s (''redis'', a) = Some c \<and> handle c \<noteq> None)"

lemma redis_pool: "pool_inv redis_inv"
  by (simp add: pool_inv_def redis_inv_def)

lemma safe_tick_linked: "safe_run redis_inv (linked a) tickM (\<lambda>_. linked a)"
  by (rule safe_tick [OF redis_pool]) (simp add: linked_def)

lemma calm_pooled [simp]: "calm s (s\<lparr>pooled := p\<rparr>)" "calm s (s\<lparr>remote := m\<rparr>)"
  by (simp_all add: calm_def)

lemma safe_acquire:
  "safe_run redis_inv P (redis_acquire a) (\<lambda>cn s. pooled s (''redis'', a) = Some cn)"
  by (rule safe_runI)
    (auto simp: redis_acquire_def acquire_def bindM_def getM_def ret_def seqM_def keep_connection_def modM_def redis_inv_def
      split: option.split)

lemma safe_acquire_linked:
  "safe_run redis_inv (linked a) (redis_acquire a) (\<lambda>cn s. handle cn \<noteq> None \<and> linked a s)"
  by (rule safe_runI)
    (auto simp: redis_acquire_def acquire_def bindM_def getM_def ret_def seqM_def keep_connection_def modM_def linked_def
      split: option.split)

lemma safe_keep:
  "(configured c \<longrightarrow> handle c \<noteq> None) \<Longrightarrow>
    safe_run redis_inv P (redis_keep a c) (\<lambda>_ s. pooled s (''redis'', a) = Some c)"
  by (rule safe_runI) (auto simp: redis_keep_def keep_connection_def modM_def redis_inv_def)

lemma redis_exception_dbp [simp]: "is_dbp (redis_exception msg)"
  by (simp add: redis_exception_def)

lemma safe_configure_step:
  assumes u: "\<And>k h p. redisConnect R k h p \<noteq> None" and t: "tokenize_by d i '':'' \<noteq> []"
    and rest: "safe_run redis_inv (linked a) (redis_configure R d a is) (\<lambda>_. linked a)"
  shows "safe_run redis_inv (\<lambda>_. True) (redis_configure R d a (i # is)) (\<lambda>_. linked a)"
proof -
  have "safe_run redis_inv (\<lambda>_. True) (seqM (redis_keep a \<lparr>handle = Some c, configured = True\<rparr>) (redis_configure R d a is)) (\<lambda>_. linked a)" for c
    by (rule safe_seq [OF safe_keep]) (auto intro: safe_weaken [OF rest] simp: linked_def)
  moreover have "safe_run redis_inv (\<lambda>_. True) (bindM (redis_acquire a) (\<lambda>cn. seqM (redis_keep a (cn\<lparr>handle := Some c\<rparr>))
      (throwM (redis_exception msg)))) (\<lambda>_. linked a)" for c msg
    by (rule safe_bind [OF safe_acquire], rule safe_seq [OF safe_keep]) (auto intro: safe_throw)
  ultimately have "safe_run redis_inv (\<lambda>_. True) (case redisConnect R k (c_str host) p of
         None \<Rightarrow> crashM
       | Some (c, Some msg) \<Rightarrow>
           bindM (redis_acquire a) (\<lambda>cn. seqM (redis_keep a (cn\<lparr>handle := Some c\<rparr>)) (throwM (redis_exception msg)))
       | Some (c, None) \<Rightarrow>
           seqM (redis_keep a \<lparr>handle = Some c, configured = True\<rparr>) (redis_configure R d a is)) (\<lambda>_. linked a)" for k host p
    using u [of k "c_str host" p] by (auto split: option.split)
  then show ?thesis unfolding redis_configure.simps
    by (intro safe_bind [OF safe_host_port [OF t]]) (auto intro!: safe_bind [OF safe_tick [OF redis_pool]] split: prod.split)
qed

lemma safe_configure_linked:
  assumes u: "\<And>k h p. redisConnect R k h p \<noteq> None" and t: "\<forall>i \<in> set is. tokenize_by d i '':'' \<noteq> []"
  shows "safe_run redis_inv (linked a) (redis_configure R d a is) (\<lambda>_. linked a)"
  using t
proof (induction "is")
  case Nil
  then show ?case by (auto intro: safe_ret)
next
  case (Cons i "is")
  then show ?case by (intro safe_weaken [OF safe_configure_step [OF u]]) auto
qed

lemma safe_configure:
  assumes u: "\<And>k h p. redisConnect R k h p \<noteq> None" and t: "\<forall>i \<in> set is. tokenize_by d i '':'' \<noteq> []" "is \<noteq> []"
  shows "safe_run redis_inv P (redis_configure R d a is) (\<lambda>_. linked a)"
proof -
  from t obtain i js where js: "is = i # js" "tokenize_by d i '':'' \<noteq> []" "\<forall>i \<in> set js. tokenize_by d i '':'' \<noteq> []"
    by (cases "is") auto
  show ?thesis
    unfolding js(1) by (rule safe_any [OF safe_configure_step [OF u js(2) safe_configure_linked [OF u js(3)]]])
qed

lemma safe_handle:
  assumes "\<And>c. safe_run redis_inv (linked a) (f c) (\<lambda>_. linked a)"
  shows "safe_run redis_inv (linked a)
    (bindM (redis_acquire a) (\<lambda>cn. case handle cn of None \<Rightarrow> crashM | Some c \<Rightarrow> f c)) (\<lambda>_. linked a)"
proof (rule safe_bind [OF safe_acquire_linked])
  fix cn :: connection
  show "safe_run redis_inv (\<lambda>s. handle cn \<noteq> None \<and> linked a s) (case handle cn of None \<Rightarrow> crashM | Some c \<Rightarrow> f c) (\<lambda>_. linked a)"
    by (rule safe_when) (auto intro: safe_weaken [OF assms])
qed

lemma safe_command: "safe_run redis_inv (linked a) (redis_command R a ws) (\<lambda>_. linked a)"
proof -
  have "safe_run redis_inv (linked a) (\<lambda>s. case redisCommand R k c ws (remote s) of (r, m) \<Rightarrow> (Ok r, [], s\<lparr>remote := m\<rparr>))
      (\<lambda>_. linked a)" for k c
    by (rule safe_runI) (auto simp: redis_inv_def linked_def split: prod.split)
  then show ?thesis unfolding redis_command_def by (intro safe_handle safe_bind [OF safe_tick_linked])
qed

lemma safe_errstr: "safe_run redis_inv (linked a) (redis_errstr R a) (\<lambda>_. linked a)"
  unfolding redis_errstr_def by (intro safe_handle safe_bind [OF safe_tick_linked] safe_ret)

lemma safe_require: "safe_run redis_inv (linked a) (redis_require R a ws) (\<lambda>_. linked a)"
proof -
  have e: "safe_run redis_inv (linked a) (bindM (redis_errstr R a) (\<lambda>msg. throwM (redis_exception msg))) (\<lambda>_. linked a)"
    by (intro safe_bind [OF safe_errstr] safe_throw redis_exception_dbp)
  have "safe_run redis_inv (linked a) (bindM (redis_command R a ws) (\<lambda>r. case r of
      None \<Rightarrow> bindM (redis_errstr R a) (\<lambda>msg. throwM (redis_exception msg)) | Some _ \<Rightarrow> ret ())) (\<lambda>_. linked a)"
    by (rule safe_bind [OF safe_command]) (auto intro: safe_ret e split: option.split)
  then show ?thesis unfolding redis_require_def
    by (intro safe_bind [OF safe_acquire_linked]) (auto intro: safe_ret elim: safe_weaken)
qed

lemma safe_prepare:
  assumes "redis_up R d (redis_server ro)"
  shows "safe_run redis_inv P (redis_prepare R d ro) (\<lambda>_. linked (redis_server ro))"
proof -
  let ?a = "redis_server ro"
  have u: "redisConnect R k h p \<noteq> None" for k h p using assms by (simp add: redis_up_def)
  have t: "\<forall>i \<in> set (default_tokens R (trim d ?a)). tokenize_by d i '':'' \<noteq> []" "default_tokens R (trim d ?a) \<noteq> []"
    using assms by (simp_all add: redis_up_def)
  have "safe_run redis_inv Q (seqM (redis_configure R d ?a (default_tokens R (trim d ?a)))
      (seqM (if redis_password ro \<noteq> [] then redis_login R ?a (redis_password ro) else ret ())
        (if 0 < database_number ro then redis_select R d ?a (database_number ro) else ret ()))) (\<lambda>_. linked ?a)" for Q
    unfolding redis_login_def redis_select_def
    by (intro safe_seq [OF safe_configure [OF u t]] safe_seq [where Q = "\<lambda>_. linked ?a"])
      (auto intro: safe_require safe_ret)
  then show ?thesis unfolding redis_prepare_def
    by (intro safe_bind [OF safe_acquire]) (auto intro!: safe_ret simp: redis_inv_def linked_def)
qed

lemma safe_failed:
  "(\<And>msg. safe_run redis_inv (\<lambda>_. True) (again msg) (\<lambda>_ _. True)) \<Longrightarrow>
    safe_run redis_inv (linked a) (redis_failed R a again) (\<lambda>_ _. True)"
  unfolding redis_failed_def redis_reset_def
  by (intro safe_bind [OF safe_errstr] safe_seq [OF safe_keep]) (auto intro: safe_any)

lemma safe_get_value:
  assumes "redis_up R d (redis_server ro)"
  shows "safe_run redis_inv (\<lambda>_. True) (redis_get_value R d ro key n msg) (\<lambda>_ _. True)"
proof (induction n arbitrary: msg)
  case (Suc n)
  show ?case unfolding redis_get_value.simps
    by (intro safe_seq [OF safe_prepare [OF assms]] safe_bind [OF safe_command])
      (auto intro!: safe_ret safe_failed Suc.IH split: option.split reply.split)
qed (auto intro: safe_throw)

lemma safe_put_value:
  assumes "redis_up R d (redis_server ro)"
  shows "safe_run redis_inv (\<lambda>_. True) (redis_put_value R d ro key v n msg) (\<lambda>_ _. True)"
proof (induction n arbitrary: msg)
  case (Suc n)
  have "safe_run redis_inv (linked (redis_server ro)) (bindM (redis_command R (redis_server ro) ws) (\<lambda>r.
      case r of None \<Rightarrow> redis_failed R (redis_server ro) (redis_put_value R d ro key v n) | Some _ \<Rightarrow> ret ())) (\<lambda>_ _. True)" for ws
    by (intro safe_bind [OF safe_command]) (auto intro!: safe_ret safe_failed Suc.IH split: option.split)
  then show ?case unfolding redis_put_value.simps
    by (intro safe_seq [OF safe_prepare [OF assms]] safe_bind [OF safe_command])
      (auto intro!: safe_ret safe_failed Suc.IH split: option.split)
qed (auto intro: safe_throw)

text \<open>Loading the text that a server gave.\<close>

lemma load_after:
  assumes g: "safe_run I (\<lambda>_. True) g (\<lambda>_ _. True)" and I: "pool_inv I"
    and s: "I s" "layered (ctxs s)" "ctxs s \<noteq> []" and run: "bindM g (load_text w) s = (r, t, s')"
  shows "settles r \<and> t = [] \<and> calm s s' \<and> I s' \<and> layered (ctxs s') \<and> length (ctxs s') = length (ctxs s)"
proof -
  obtain r1 t1 s1 where 1: "g s = (r1, t1, s1)" by (cases "g s")
  from safe_runD [OF g s(1) _ 1] have s1: "t1 = []" "calm s s1" "ctxs s1 = ctxs s" "I s1"
      "case r1 of Ok x \<Rightarrow> True | Throw e \<Rightarrow> is_dbp e | Crash \<Rightarrow> False | Diverge \<Rightarrow> False" by auto
  show ?thesis
  proof (cases r1)
    case (Ok v)
    with 1 s1(1) run have "load_text w v s1 = (r, t, s')" by (simp add: bind_Ok)
    moreover have "orderly (load_text w v)"
      unfolding load_text_def by (intro orderly_forM) (auto intro: orderly_add orderly_ret split: prod.split)
    ultimately have 2: "settles r \<and> t = [] \<and> calm s1 s' \<and> pooled s' = pooled s1 \<and> layered (ctxs s') \<and> length (ctxs s') = length (ctxs s1)"
      using s s1(3) by (intro orderlyD [of "load_text w v"]) auto
    then have "I s'" using pool_invD [OF I, of s' s1] s1(4) by simp
    with 2 s1(2,3) show ?thesis by (auto intro: calm_trans)
  next
    case (Throw e)
    with 1 s1 s run show ?thesis by (auto simp: bind_Throw settles_def)
  qed (use s1 in auto)
qed

lemma safe_settles:
  assumes "safe_run I (\<lambda>_. True) m (\<lambda>x _. V x)" "I s" "m s = (r, t, s')"
  shows "settles r \<and> t = [] \<and> calm s s' \<and> I s' \<and> ctxs s' = ctxs s \<and> (\<forall>x. r = Ok x \<longrightarrow> V x)"
  using safe_runD [OF assms(1,2) _ assms(3)] by (cases r) (auto simp: settles_def)

text \<open>A Redis server that fails costs the session, never the page.\<close>

definition redis_valid :: "hiredis \<Rightarrow> 'd dcl \<Rightarrow> mod_session_redis \<Rightarrow> bool" where
  "redis_valid R d h \<longleftrightarrow> redis_up R d (redis_server (redis_opts h))"

lemma redis_provider:
  assumes u: "redis_up R (dclib w) (redis_server ro)"
  shows "session_provider (mod_session_redis_factory R w H ro) redis_inv (redis_valid R (dclib w))"
proof
  let ?F = "mod_session_redis_factory R w H ro"
  show "redis_inv (s\<lparr>ctxs := cs\<rparr>) = redis_inv s" for s cs by (simp add: redis_inv_def)
  fix s s' :: state and t h
  {
    fix q r
    assume s: "redis_inv s" and "create_session ?F q s = (r, t, s')"
    then have run: "redis_create w H ro q s = (r, t, s')" by (simp add: mod_session_redis_factory_def)
    have "safe_run redis_inv (\<lambda>_. True) (redis_create w H ro q) (\<lambda>h _. redis_valid R (dclib w) h)"
      unfolding redis_create_def by (intro safe_bind [OF safe_id [OF redis_pool]]) (auto intro!: safe_ret simp: redis_valid_def u split: prod.split)
    from safe_settles [OF this s run]
    show "settles r \<and> t = [] \<and> calm s s' \<and> redis_inv s' \<and> ctxs s' = ctxs s \<and> (\<forall>h. r = Ok h \<longrightarrow> redis_valid R (dclib w) h)" .
  next
    fix r
    assume s: "redis_inv s" "redis_valid R (dclib w) h" "layered (ctxs s)" "ctxs s \<noteq> []" and "load_session ?F h s = (r, t, s')"
    then have run: "bindM (redis_get_value R (dclib w) (redis_opts h) (redis_id h) 3 ''Unknown error'') (load_text w) s = (r, t, s')"
      by (simp add: mod_session_redis_factory_def redis_load_def)
    from load_after [OF safe_get_value redis_pool s(1,3,4) run] s(2)
    show "settles r \<and> t = [] \<and> calm s s' \<and> redis_inv s' \<and> layered (ctxs s') \<and> length (ctxs s') = length (ctxs s)"
      by (simp add: redis_valid_def)
  next
    fix r resp
    assume s: "redis_inv s" "redis_valid R (dclib w) h" "layered (ctxs s)" "ctxs s \<noteq> []" and save: "save_session ?F h resp s = (r, t, s')"
    then obtain c cs where c: "ctxs s = c # cs" by (cases "ctxs s") auto
    with save have run: "bindM (redis_save R w H c h resp) (\<lambda>resp'. ret (h, resp')) s = (r, t, s')"
      by (simp add: mod_session_redis_factory_def)
    have "safe_run redis_inv (\<lambda>_. True) (bindM (redis_save R w H c h resp) (\<lambda>resp'. ret (h, resp'))) (\<lambda>x _. redis_valid R (dclib w) (fst x))"
      unfolding redis_save_def using s(2)
      by (intro safe_bind [where Q = "\<lambda>_ _. True"] safe_seq [where Q = "\<lambda>_ _. True"])
        (auto intro!: safe_ret safe_put_value simp: redis_valid_def)
    from safe_settles [OF this s(1) run]
    show "settles r \<and> t = [] \<and> calm s s' \<and> redis_inv s' \<and> ctxs s' = ctxs s \<and> (\<forall>h' resp'. r = Ok (h', resp') \<longrightarrow> redis_valid R (dclib w) h')"
      by auto
  }
qed

section \<open>memcached\<close>

definition memcached_up :: "libmemcached \<Rightarrow> 'd dcl \<Rightarrow> string \<Rightarrow> bool" where
  "memcached_up M d servers \<longleftrightarrow> (\<forall>i \<in> set (server_tokens M servers). tokenize_by d i '':'' \<noteq> [])"

definition always :: "state \<Rightarrow> bool" where
  "always s \<longleftrightarrow> True"

lemma always_pool: "pool_inv always"
  by (simp add: pool_inv_def always_def)

abbreviation calmly :: "'a prog \<Rightarrow> bool" where
  "calmly m \<equiv> safe_run always (\<lambda>_. True) m (\<lambda>_ _. True)"

lemma calmly_keep: "calmly (keep_connection a c)"
  by (rule safe_runI) (simp add: keep_connection_def modM_def always_def)

lemma calmly_tick: "calmly tickM"
  by (rule safe_tick [OF always_pool]) simp

lemma calmly_acquire: "calmly (memcached_acquire M servers)"
  unfolding memcached_acquire_def acquire_def
  by (intro safe_bind [where Q = "\<lambda>_ _. True"] safe_get)
    (auto intro!: safe_ret calmly_tick safe_seq [OF calmly_keep]
      safe_bind [where Q = "\<lambda>_ _. True"] split: option.split)

lemma calmly_configure: "calmly (memcached_configure M servers hp)"
proof -
  have "calmly (modM (\<lambda>s. s\<lparr>remote := f (remote s)\<rparr>))" for f
    by (rule safe_runI) (simp add: modM_def always_def)
  then show ?thesis unfolding memcached_configure_def
    by (intro safe_bind [OF calmly_acquire] safe_seq [OF _ calmly_keep])
qed

lemma calmly_prepare:
  assumes "memcached_up M d servers"
  shows "calmly (memcached_prepare M d servers)"
proof -
  have "calmly (forM (server_tokens M servers) (\<lambda>i. bindM (host_port d 11211 i) (memcached_configure M servers)))"
    using assms by (intro safe_forM safe_bind [OF safe_host_port] calmly_configure) (auto simp: memcached_up_def)
  then show ?thesis unfolding memcached_prepare_def
    by (intro safe_bind [OF calmly_acquire]) (auto intro: safe_ret safe_seq calmly_acquire)
qed

lemma calmly_guard: "calmly m \<Longrightarrow> calmly (memcached_guard servers m)"
  unfolding memcached_guard_def memcached_reset_def by (intro safe_try safe_seq [OF calmly_keep] safe_throw)

lemma calmly_values:
  assumes "memcached_up M d servers"
  shows "calmly (memcached_get_value M d servers key)" "calmly (memcached_put_value M d servers ttl key v)"
proof -
  have "calmly (\<lambda>s. case memcached_get M k hd key (remote s) of (v, error, m) \<Rightarrow>
      (case v of Some t \<Rightarrow> ret (c_str t)
       | None \<Rightarrow> if error \<noteq> MEMCACHED_SUCCESS \<and> error \<noteq> MEMCACHED_NOTFOUND
           then throwM (Dbp_exc Session_exception (memcached_strerror M hd error)) else ret []) (s\<lparr>remote := m\<rparr>))" for k hd
    by (rule safe_runI) (auto simp: always_def ret_def throwM_def split: prod.split option.split)
  then show "calmly (memcached_get_value M d servers key)" unfolding memcached_get_value_def
    by (intro safe_bind [OF calmly_acquire] calmly_guard safe_bind [OF calmly_prepare [OF assms]] safe_bind [OF calmly_tick])
  have "calmly (\<lambda>s. case memcached_set M k hd key v ttl (remote s) of (error, m) \<Rightarrow>
      (if error \<noteq> MEMCACHED_SUCCESS then throwM (Dbp_exc Session_exception (memcached_strerror M hd error)) else ret ())
        (s\<lparr>remote := m\<rparr>))" for k hd
    by (rule safe_runI) (auto simp: always_def ret_def throwM_def split: prod.split)
  then show "calmly (memcached_put_value M d servers ttl key v)" unfolding memcached_put_value_def
    by (intro safe_bind [OF calmly_acquire] calmly_guard safe_bind [OF calmly_prepare [OF assms]] safe_bind [OF calmly_tick])
qed

definition memcached_valid :: "libmemcached \<Rightarrow> 'd dcl \<Rightarrow> mod_session_memcached \<Rightarrow> bool" where
  "memcached_valid M d h \<longleftrightarrow> memcached_up M d (mc_servers h)"

lemma memcached_provider:
  assumes u: "memcached_up M (dclib w) servers"
  shows "session_provider (mod_session_memcached_factory M w H servers ttl) always (memcached_valid M (dclib w))"
proof
  let ?F = "mod_session_memcached_factory M w H servers ttl"
  show "always (s\<lparr>ctxs := cs\<rparr>) = always s" for s cs by (simp add: always_def)
  fix s s' :: state and t h
  {
    fix q r
    assume s: "always s" and run: "create_session ?F q s = (r, t, s')"
    have "safe_run always (\<lambda>_. True) (create_session ?F q) (\<lambda>h _. memcached_valid M (dclib w) h)"
      unfolding mod_session_memcached_factory_def session_factory.simps
      by (intro safe_bind [OF safe_id [OF always_pool]]) (auto intro!: safe_ret simp: memcached_valid_def u split: prod.split)
    from safe_settles [OF this s run]
    show "settles r \<and> t = [] \<and> calm s s' \<and> always s' \<and> ctxs s' = ctxs s \<and> (\<forall>h. r = Ok h \<longrightarrow> memcached_valid M (dclib w) h)" .
  next
    fix r
    assume s: "always s" "memcached_valid M (dclib w) h" "layered (ctxs s)" "ctxs s \<noteq> []" and "load_session ?F h s = (r, t, s')"
    then have run: "bindM (memcached_get_value M (dclib w) (mc_servers h) (mc_id h)) (load_text w) s = (r, t, s')"
      by (simp add: mod_session_memcached_factory_def memcached_load_def)
    from load_after [OF calmly_values(1) always_pool s(1,3,4) run] s(2)
    show "settles r \<and> t = [] \<and> calm s s' \<and> always s' \<and> layered (ctxs s') \<and> length (ctxs s') = length (ctxs s)"
      by (simp add: memcached_valid_def)
  next
    fix r resp
    assume s: "always s" "memcached_valid M (dclib w) h" "layered (ctxs s)" "ctxs s \<noteq> []" and save: "save_session ?F h resp s = (r, t, s')"
    then obtain c cs where c: "ctxs s = c # cs" by (cases "ctxs s") auto
    with save have run: "bindM (memcached_save M w H c h resp) (\<lambda>resp'. ret (h, resp')) s = (r, t, s')"
      by (simp add: mod_session_memcached_factory_def)
    have "safe_run always (\<lambda>_. True) (bindM (memcached_save M w H c h resp) (\<lambda>resp'. ret (h, resp')))
        (\<lambda>x _. memcached_valid M (dclib w) (fst x))"
      unfolding memcached_save_def using s(2)
      by (intro safe_bind [where Q = "\<lambda>_ _. True"] safe_seq [where Q = "\<lambda>_ _. True"])
        (auto intro!: safe_ret calmly_values simp: memcached_valid_def)
    from safe_settles [OF this s(1) run]
    show "settles r \<and> t = [] \<and> calm s s' \<and> always s' \<and> ctxs s' = ctxs s \<and> (\<forall>h' resp'. r = Ok (h', resp') \<longrightarrow> memcached_valid M (dclib w) h')"
      by auto
  }
qed

end
