(* ===== verification/Server.thy ===== *)
theory Server
  imports Application Fcgi_Request
begin

text \<open>
  The FastCGI server, \<open>application/dbpagerd.cpp\<close>: a worker accepts requests of the FastCGI library,
  turns the parameters and the input of each into an HTTP request, runs the page and writes the
  response. C calls of the library give a \<open>cres\<close>, C++ calls an \<open>outcome\<close>; a C++ call that reaches the
  library gives an outcome inside of a \<open>cres\<close>.
\<close>

abbreviation text_of :: "byte list \<Rightarrow> string" where
  "text_of bs \<equiv> map (\<lambda>b. char_of (unat b)) bs"

section \<open>The request\<close>

record 'q reading =
  rd_req :: 'q
  rd_len :: int
  rd_vars :: "string umap"

text \<open>The loop that replaces underscores one at a time, each time searching from the start.\<close>

fun find_char :: "char \<Rightarrow> string \<Rightarrow> nat option" where
  "find_char c [] = None"
| "find_char c (d # s) = (if c = d then Some 0 else map_option Suc (find_char c s))"

lemma find_char_Some: "find_char c s = Some i \<Longrightarrow> i < length s \<and> s ! i = c"
  by (induction s arbitrary: i) (auto split: if_splits)

lemma find_char_update:
  "find_char c s = Some i \<Longrightarrow> d \<noteq> c \<Longrightarrow> count_list (s[i := d]) c < count_list s c"
  by (induction s arbitrary: i) (auto split: if_splits)

function dash_loop :: "string \<Rightarrow> string" where
  "dash_loop left =
     (case find_char (CHR ''_'') left of
        None \<Rightarrow> left
      | Some pos \<Rightarrow> dash_loop (left[pos := CHR ''-'']))"
  by pat_completeness auto

termination
  by (relation "measure (\<lambda>s. count_list s (CHR ''_''))") (simp_all add: find_char_update)

declare dash_loop.simps [simp del]

text \<open>\<open>PARAM=VALUE\<close>, cut at the first equals sign.\<close>

definition split_env :: "string \<Rightarrow> string \<times> string" where
  "split_env line =
     (case find_char (CHR ''='') line of
        None \<Rightarrow> (line, [])
      | Some pos \<Rightarrow> (take pos line, drop (pos + 1) line))"

definition field_names :: "(string \<times> req_field) list" where
  "field_names =
     [(''AUTH_TYPE'', Auth_type), (''CONTENT_TYPE'', Content_type), (''GATEWAY_INTERFACE'', Gateway_interface),
      (''PATH_INFO'', Path_info), (''PATH_TRANSLATED'', Path_translated), (''QUERY_STRING'', Query_string),
      (''REMOTE_ADDR'', Remote_addr), (''REMOTE_HOST'', Remote_host), (''REMOTE_IDENT'', Remote_ident),
      (''REMOTE_USER'', Remote_user), (''REQUEST_METHOD'', Request_method), (''SCRIPT_NAME'', Script_name),
      (''SERVER_NAME'', Server_name), (''SERVER_PROTOCOL'', Server_protocol), (''SERVER_SOFTWARE'', Server_software)]"

text \<open>The chain of comparisons for one parameter; \<open>from_string<int>\<close> throws for text that is no number.\<close>

definition analyze :: "'d dcl \<Rightarrow> ('q, 'r) http \<Rightarrow> string \<Rightarrow> string \<Rightarrow> 'q reading \<Rightarrow> 'q reading outcome" where
  "analyze d H left right a =
     (case map_of field_names left of
        Some f \<Rightarrow> Ok (a\<lparr>rd_req := set_field H f right (rd_req a)\<rparr>)
      | None \<Rightarrow>
         if left = ''CONTENT_LENGTH'' then
           (case to_int d right of None \<Rightarrow> Throw type_error | Some n \<Rightarrow> Ok (a\<lparr>rd_len := n\<rparr>))
         else if left = ''SERVER_PORT'' then
           (case to_int d right of
              None \<Rightarrow> Throw type_error
            | Some n \<Rightarrow> Ok (a\<lparr>rd_req := set_server_port H n (rd_req a)\<rparr>))
         else if left = ''HTTPS'' then Ok (a\<lparr>rd_req := set_https H (right = ''on'') (rd_req a)\<rparr>)
         else if take 5 left = ''HTTP_'' then
           Ok (a\<lparr>rd_req := set_req_header H (dash_loop (drop 5 left)) right (rd_req a)\<rparr>)
         else Ok (a\<lparr>rd_vars := um_put (''ENV_'' @ left) right (rd_vars a)\<rparr>))"

fun read_env :: "'d dcl \<Rightarrow> ('q, 'r) http \<Rightarrow> string list \<Rightarrow> 'q reading \<Rightarrow> 'q reading outcome" where
  "read_env d H [] a = Ok a"
| "read_env d H (line # env) a =
     (case split_env line of (left, right) \<Rightarrow> bindO (analyze d H left right a) (read_env d H env))"

text \<open>
  \<open>get_request\<close>. An entry of the environment is a C string. \<open>c_len + 1\<close> is computed as an \<open>int\<close>, so the
  largest length overflows. The fuel bounds the reads of \<open>FCGX_GetStr\<close>.
\<close>

definition INT_MAX :: int where "INT_MAX = 2 ^ 31 - 1"

definition get_request ::
  "nat \<Rightarrow> 'd dcl \<Rightarrow> ('q, 'r) http \<Rightarrow> byte list list option \<Rightarrow> fcgx_stream \<Rightarrow> fcgx_req \<times> kernel \<Rightarrow>
     (('q \<times> string umap) outcome \<times> fcgx_stream \<times> fcgx_req \<times> kernel) cres" where
  "get_request n d H env ins rk =
     (case read_env d H (map (\<lambda>e. c_str (text_of e)) (case env of None \<Rightarrow> [] | Some es \<Rightarrow> es))
             \<lparr>rd_req = new_request H, rd_len = 0, rd_vars = []\<rparr> of
        Ok a \<Rightarrow>
          if 0 < rd_len a then
            if rd_len a = INT_MAX then Fault
            else bindR (run_on ins (FCGX_GetStr n (FillBuffProc n) (rd_len a)) rk) (\<lambda>(bs, rest).
              Ret (Ok (set_req_content H (text_of bs) (rd_req a), rd_vars a), rest))
          else Ret (Ok (rd_req a, rd_vars a), ins, rk)
      | Throw e \<Rightarrow> Ret (Throw e, ins, rk)
      | Crash \<Rightarrow> Fault
      | Diverge \<Rightarrow> Hang)"

section \<open>Running the page\<close>

text \<open>\<open>fastcgi_environment::init_custom_params\<close>.\<close>

definition fastcgi_params :: "('d, 'h, 'q, 'r) site \<Rightarrow> 'q \<Rightarrow> string umap \<Rightarrow> unit prog" where
  "fastcgi_params E q vars =
     seqM (init_custom_params (host.truncate E) q)
      (forM (um_iter (um_order (dclib (wd E))) vars) (\<lambda>(n, v). addM (wd E) n v []))"

text \<open>What the handlers of \<open>process_cgi_request\<close> make of an exception.\<close>

definition plain_error :: "('q, 'r) http \<Rightarrow> int \<Rightarrow> string \<Rightarrow> 'r \<Rightarrow> 'r" where
  "plain_error H status msg resp =
     set_content_type H ''text/plain; charset=utf-8'' (set_content H msg (set_status H status resp))"

fun error_response :: "('q, 'r) http \<Rightarrow> exn \<Rightarrow> 'r \<Rightarrow> 'r" where
  "error_response H (Parser_exc c msg) resp =
     plain_error H (if c = 1 then not_found H else internal_server_error H) msg resp"
| "error_response H (App_exc msg c) resp =
     (let resp1 = set_status H c resp in
      if c \<in> {301, 302, 303, 307, 308} then set_header H ''Location'' msg resp1
      else
        let resp2 = set_content H msg resp1 in
        if get_content_type H resp2 = [] then set_content_type H ''text/plain; charset=utf-8'' resp2 else resp2)"
| "error_response H e resp = plain_error H (internal_server_error H) (what e) resp"

fun is_logged :: "exn \<Rightarrow> bool" where
  "is_logged (Parser_exc _ _) = False"
| "is_logged (App_exc _ _) = False"
| "is_logged _ = True"

definition log_error :: "'d world \<Rightarrow> exn \<Rightarrow> unit prog" where
  "log_error w e =
     (if is_logged e then modM (\<lambda>s. s\<lparr>logged := logged s @ [fmt (dclib w) ''Internal error: {0}'' [what e]]\<rparr>)
      else ret ())"

text \<open>
  A handler: it initialises the response again, which may throw once more. Exceptions of the standard
  library have no handler here.
\<close>

definition handle_error :: "('d, 'h, 'q, 'r) site \<Rightarrow> 'q \<Rightarrow> exn \<Rightarrow> 'h option \<Rightarrow> 'r \<Rightarrow> 'r sprog" where
  "handle_error E q e oh resp =
     (if \<not> is_dbp e then on_page (throwM e)
      else
        bindS (on_page (init_response (host.truncate E) q oh resp)) (\<lambda>(failed, oh', resp').
          case failed of
            Some e' \<Rightarrow> on_page (throwM e')
          | None \<Rightarrow>
              bindS (on_page (log_error (wd E) e)) (\<lambda>_. on_page (ret (error_response (hlib E) e resp')))))"

text \<open>The statements of the \<open>try\<close> block up to the output of the page.\<close>

definition run_page :: "('d, 'h, 'q, 'r) site \<Rightarrow> nat \<Rightarrow> 'q \<Rightarrow> string umap \<Rightarrow> string sprog" where
  "run_page E n q vars =
     bindS (on_page (get_path (host.truncate E) q)) (\<lambda>path.
     bindS (get_app E n (url_of E (''file://'' @ path))) (\<lambda>t.
       on_page (capture (app_execute (wd E) n (fastcgi_params E q vars) t))))"

definition answer :: "('d, 'h, 'q, 'r) site \<Rightarrow> nat \<Rightarrow> 'q \<Rightarrow> string umap \<Rightarrow> 'h option \<Rightarrow> 'r \<Rightarrow> 'r sprog" where
  "answer E n q vars oh resp sv =
     (case run_page E n q vars sv of
        (Ok out, sv1) \<Rightarrow>
          bindS (on_page (init_response (host.truncate E) q oh resp)) (\<lambda>(failed, oh', resp').
            case failed of
              Some e \<Rightarrow> handle_error E q e oh' resp'
            | None \<Rightarrow> on_page (ret (set_content (hlib E) out resp'))) sv1
      | (Throw e, sv1) \<Rightarrow> handle_error E q e oh resp sv1
      | (Crash, sv1) \<Rightarrow> (Crash, sv1)
      | (Diverge, sv1) \<Rightarrow> (Diverge, sv1))"

text \<open>
  \<open>process_cgi_request\<close>. The environment's constructor takes the session service of the interpreter by
  reference, and its destructor removes the contexts.
\<close>

definition process_cgi_request :: "('d, 'h, 'q, 'r) site \<Rightarrow> nat \<Rightarrow> 'q \<Rightarrow> string umap \<Rightarrow> 'r sprog" where
  "process_cgi_request E n q vars sv =
     (if isession (itp sv) = None then (Crash, sv)
      else
        case
          bindS (on_page (new_http_environment (host.truncate E) q)) (\<lambda>oh.
            answer E n q vars oh
             (set_header (hlib E) ''X-Powered-By'' (app_full_name (ext (wd E)) @ '' (FastCGI)'') (new_response (hlib E)))) sv
        of (r, sv1) \<Rightarrow> (r, sv1\<lparr>pstate := (pstate sv1)\<lparr>ctxs := []\<rparr>\<rparr>))"

section \<open>The worker\<close>

definition send_response :: "('q, 'r) http \<Rightarrow> 'r \<Rightarrow> unit cprog" where
  "send_response H resp =
     seqC (FCGX_PutStr (ascii (''Status: '' @ get_status H resp)))
      (seqC (FCGX_PutS (ascii CRLF)) (seqC (FCGX_PutStr (ascii (response_text H resp))) (retC ())))"

text \<open>The body of the loop of \<open>process_request\<close>; an exception of \<open>get_request\<close> leaves the loop.\<close>

definition serve_request ::
  "('d, 'h, 'q, 'r) site \<Rightarrow> nat \<Rightarrow> nat \<Rightarrow> fcgx_request \<Rightarrow> kernel \<Rightarrow> server \<Rightarrow>
     (unit outcome \<times> fcgx_request \<times> kernel \<times> server) cres" where
  "serve_request E f n rq k sv =
     (case (in_stream rq, out_stream rq) of
        (Some ins, Some os) \<Rightarrow>
          bindR (get_request f (dclib (wd E)) (hlib E) (envp rq) ins (core rq, k)) (\<lambda>(r, ins', r1, k1).
            let rq1 = rq\<lparr>in_stream := Some ins', core := r1\<rparr> in
            (case r of
               Ok (q, vars) \<Rightarrow>
                 (case process_cgi_request E n q vars sv of
                    (Crash, _) \<Rightarrow> Fault
                  | (Diverge, _) \<Rightarrow> Hang
                  | (res, sv1) \<Rightarrow>
                      let resp = (case res of
                                    Ok resp \<Rightarrow> resp
                                  | Throw e \<Rightarrow>
                                      plain_error (hlib E) (internal_server_error (hlib E)) (what e) (new_response (hlib E)))
                      in bindR (run_on os (send_response (hlib E) resp) (r1, k1)) (\<lambda>(_, os', r2, k2).
                           Ret (Ok (), rq1\<lparr>out_stream := Some os', core := r2\<rparr>, k2, sv1)))
             | Throw e \<Rightarrow> Ret (Throw e, rq1, k1, sv)
             | Crash \<Rightarrow> Fault
             | Diverge \<Rightarrow> Hang))
      | _ \<Rightarrow> Fault)"

text \<open>The loop; the first argument bounds the number of requests, the next two the accepting.\<close>

fun process_loop ::
  "nat \<Rightarrow> nat \<Rightarrow> nat \<Rightarrow> (string \<Rightarrow> 32 word) \<Rightarrow> string option \<Rightarrow> ('d, 'h, 'q, 'r) site \<Rightarrow> nat \<Rightarrow>
     fcgx_request \<Rightarrow> kernel \<Rightarrow> server \<Rightarrow> (unit outcome \<times> fcgx_request \<times> kernel \<times> server) cres" where
  "process_loop 0 m f ia addrs E n rq k sv = Hang"
| "process_loop (Suc j) m f ia addrs E n rq k sv =
     bindR (FCGX_Accept_r m f ia True addrs rq k) (\<lambda>(rc, rq1, k1).
       if rc = 0 then
         bindR (serve_request E f n rq1 k1 sv) (\<lambda>(r, rq2, k2, sv2).
           case r of
             Ok _ \<Rightarrow> process_loop j m f ia addrs E n rq2 k2 sv2
           | _ \<Rightarrow> Ret (r, rq2, k2, sv2))
       else
         bindR (FCGX_Finish_r rq1 k1) (\<lambda>(rq2, k2). Ret (Ok (), rq2, k2, sv)))"

definition process_request ::
  "nat \<Rightarrow> nat \<Rightarrow> nat \<Rightarrow> (string \<Rightarrow> 32 word) \<Rightarrow> string option \<Rightarrow> ('d, 'h, 'q, 'r) site \<Rightarrow> nat \<Rightarrow>
     int \<Rightarrow> kernel \<Rightarrow> server \<Rightarrow> (unit outcome \<times> fcgx_request \<times> kernel \<times> server) cres" where
  "process_request j m f ia addrs E n socket k sv =
     process_loop j m f ia addrs E n (FCGX_InitRequest socket FCGI_FAIL_ACCEPT_ON_INTR) k sv"

end
