(* ===== verification/Request_Correct.thy ===== *)
theory Request_Correct
  imports Server Session_Correct Strings
begin

text \<open>
  What a request means: the fields that \<open>get_request\<close> finds among the parameters of the web server, the
  variables that come out of a query string, and what the built-in session keeps.
\<close>

section \<open>The parameters of the web server\<close>

lemma find_char_None: "find_char c s = None \<longleftrightarrow> c \<notin> set s"
  by (induction s) auto

lemma find_char_first: "c \<notin> set s \<Longrightarrow> find_char c (s @ c # t) = Some (length s)"
  by (induction s) auto

definition dashed :: "string \<Rightarrow> string" where
  "dashed s = map (\<lambda>c. if c = CHR ''_'' then CHR ''-'' else c) s"

lemma dash_loop_dashed: "dash_loop s = dashed s"
proof (induction s rule: dash_loop.induct)
  case (1 s)
  show ?case
  proof (cases "find_char (CHR ''_'') s")
    case None
    then have "dashed s = s" unfolding dashed_def find_char_None by (intro map_idI) auto
    with None show ?thesis by (subst dash_loop.simps) simp
  next
    case (Some i)
    have "dashed (s[i := CHR ''-'']) = dashed s"
      using find_char_Some [OF Some] by (auto simp: dashed_def map_update intro!: nth_equalityI simp: nth_list_update)
    with Some 1 show ?thesis by (subst dash_loop.simps) simp
  qed
qed

lemma split_env_pair: "CHR ''='' \<notin> set n \<Longrightarrow> split_env (n @ CHR ''='' # v) = (n, v)"
  by (simp add: split_env_def find_char_first)

text \<open>The laws of the HTTP request class that the server relies on: a field is what was last set.\<close>

definition http_fields :: "('q, 'r) http \<Rightarrow> bool" where
  "http_fields H \<longleftrightarrow>
     (\<forall>f g v q. get_field H f (set_field H g v q) = (if f = g then v else get_field H f q)) \<and>
     (\<forall>f n q. get_field H f (set_server_port H n q) = get_field H f q) \<and>
     (\<forall>f b q. get_field H f (set_https H b q) = get_field H f q) \<and>
     (\<forall>f n v q. get_field H f (set_req_header H n v q) = get_field H f q) \<and>
     (\<forall>f t q. get_field H f (set_req_content H t q) = get_field H f q)"

definition field_name :: "req_field \<Rightarrow> string" where
  "field_name f = (case f of
      Auth_type \<Rightarrow> ''AUTH_TYPE'' | Content_type \<Rightarrow> ''CONTENT_TYPE'' | Gateway_interface \<Rightarrow> ''GATEWAY_INTERFACE''
    | Path_info \<Rightarrow> ''PATH_INFO'' | Path_translated \<Rightarrow> ''PATH_TRANSLATED'' | Query_string \<Rightarrow> ''QUERY_STRING''
    | Remote_addr \<Rightarrow> ''REMOTE_ADDR'' | Remote_host \<Rightarrow> ''REMOTE_HOST'' | Remote_ident \<Rightarrow> ''REMOTE_IDENT''
    | Remote_user \<Rightarrow> ''REMOTE_USER'' | Request_method \<Rightarrow> ''REQUEST_METHOD'' | Script_name \<Rightarrow> ''SCRIPT_NAME''
    | Server_name \<Rightarrow> ''SERVER_NAME'' | Server_protocol \<Rightarrow> ''SERVER_PROTOCOL'' | Server_software \<Rightarrow> ''SERVER_SOFTWARE'')"

definition all_fields :: "req_field list" where
  "all_fields = [Auth_type, Content_type, Gateway_interface, Path_info, Path_translated, Query_string, Remote_addr,
     Remote_host, Remote_ident, Remote_user, Request_method, Script_name, Server_name, Server_protocol, Server_software]"

lemma field_names_iff: "map_of field_names n = Some f \<longleftrightarrow> n = field_name f"
proof -
  have e: "field_names = map (\<lambda>f. (field_name f, f)) all_fields"
    by (simp add: field_names_def all_fields_def field_name_def)
  have d: "distinct (map fst field_names)" by code_simp
  have "f \<in> set all_fields" by (cases f) (simp_all add: all_fields_def)
  then have "map_of field_names (field_name f) = Some f"
    using d by (intro map_of_is_SomeI) (auto simp: e)
  moreover have "n = field_name f" if "map_of field_names n = Some f" using map_of_SomeD [OF that] by (auto simp: e)
  ultimately show ?thesis by blast
qed

lemma analyze_field:
  assumes H: "http_fields H" and a: "analyze d H left right a = Ok a'"
  shows "get_field H f (rd_req a') = (if left = field_name f then right else get_field H f (rd_req a))"
proof (cases "map_of field_names left")
  case (Some g)
  then have "left = field_name f \<longleftrightarrow> f = g" using field_names_iff [of left f] by auto
  with Some a H show ?thesis by (auto simp: analyze_def http_fields_def)
next
  case None
  then have "left \<noteq> field_name f" using field_names_iff [of left f] by auto
  with None a H show ?thesis
    by (auto simp: analyze_def http_fields_def split: if_splits option.splits)
qed

lemma read_env_field:
  assumes H: "http_fields H" and "read_env d H lines a = Ok a'"
  shows "get_field H f (rd_req a') =
    (case map_of (rev (map split_env lines)) (field_name f) of Some v \<Rightarrow> v | None \<Rightarrow> get_field H f (rd_req a))"
  using assms(2)
proof (induction lines arbitrary: a)
  case (Cons l lines)
  obtain left right where s: "split_env l = (left, right)" by (cases "split_env l")
  with Cons.prems obtain a1 where 1: "analyze d H left right a = Ok a1" "read_env d H lines a1 = Ok a'"
    by (cases "analyze d H left right a") auto
  from Cons.IH [OF 1(2)] analyze_field [OF H 1(1)] s show ?case
    by (auto simp: map_add_def split: option.splits)
qed simp

section \<open>Ordered maps\<close>

abbreviation ordered :: "(string \<times> 'v) list \<Rightarrow> bool" where
  "ordered m \<equiv> sorted_wrt str_less (map fst m)"

lemma keys_smap_push: "fst ` set (smap_push k v m) = insert k (fst ` set m)"
  by (induction k v m rule: smap_push.induct) auto

lemma ordered_smap_push: "ordered m \<Longrightarrow> ordered (smap_push k v m)"
proof (induction k v m rule: smap_push.induct)
  case (2 k v k' vs m)
  have "\<forall>x \<in> fst ` set (smap_push k v m). str_less k' x" if "k \<noteq> k'" "\<not> str_less k k'"
    using that 2 str_less_total [of k k'] by (auto simp: keys_smap_push)
  with 2 show ?case by (auto intro: str_less_trans)
qed simp

lemma map_of_smap_push:
  "ordered m \<Longrightarrow> map_of (smap_push k v m) =
     (map_of m)(k \<mapsto> (case map_of m k of None \<Rightarrow> [v] | Some vs \<Rightarrow> vs @ [v]))"
proof (induction k v m rule: smap_push.induct)
  case (2 k v k' vs m)
  have "map_of m k = None" if "str_less k k'"
    using that 2 by (auto simp: map_of_eq_None_iff dest: str_less_trans)
  with 2 show ?case by (auto simp: fun_eq_iff)
qed simp

text \<open>The values of a name, in order.\<close>

definition values_of :: "string \<Rightarrow> (string \<times> string) list \<Rightarrow> string list" where
  "values_of n ps = map snd (filter (\<lambda>p. fst p = n) ps)"

lemma fold_smap_push:
  "ordered m \<Longrightarrow> ordered (fold (\<lambda>(n, v). smap_push n v) ps m) \<and>
    map_of (fold (\<lambda>(n, v). smap_push n v) ps m) n =
      (case map_of m n of
         None \<Rightarrow> if values_of n ps = [] then None else Some (values_of n ps)
       | Some vs \<Rightarrow> Some (vs @ values_of n ps))"
proof (induction ps arbitrary: m)
  case (Cons p ps)
  obtain k v where p: "p = (k, v)" by (cases p)
  from Cons.IH [OF ordered_smap_push [OF Cons.prems], of k v] Cons.prems p show ?case
    by (auto simp: map_of_smap_push values_of_def split: option.splits)
qed (auto simp: values_of_def split: option.splits)

section \<open>Query strings\<close>

text \<open>The laws of \<open>tokenize\<close> and of the URL coding that the server relies on.\<close>

definition cuts :: "'d dcl \<Rightarrow> char \<Rightarrow> bool" where
  "cuts d c \<longleftrightarrow>
     (\<forall>ps. list_all (\<lambda>p. p \<noteq> [] \<and> c \<notin> set p) ps \<longrightarrow> tokenize_by d (join [c] ps) [c] = ps)"

definition cuts_pair :: "'d dcl \<Rightarrow> char \<Rightarrow> bool" where
  "cuts_pair d c \<longleftrightarrow> (\<forall>a b. c \<notin> set a \<longrightarrow> split_pair d (a @ c # b) [c] = (a, b))"

definition url_coding :: "ext \<Rightarrow> bool" where
  "url_coding x \<longleftrightarrow>
     (\<forall>t. url_decode x (url_encode x t) = t \<and> CHR ''&'' \<notin> set (url_encode x t) \<and> CHR ''='' \<notin> set (url_encode x t))"

definition query_text :: "ext \<Rightarrow> (string \<times> string) list \<Rightarrow> string" where
  "query_text x ps = join ''&'' (map (\<lambda>(n, v). url_encode x n @ CHR ''='' # url_encode x v) ps)"

lemma split_params_query:
  assumes "cuts (dclib w) (CHR ''&'')" "cuts_pair (dclib w) (CHR ''='')" "url_coding (ext w)"
  shows "split_params w (query_text (ext w) ps) = fold (\<lambda>(n, v). smap_push n v) ps []"
proof -
  have t: "tokenize_by (dclib w) (query_text (ext w) ps) ''&'' =
      map (\<lambda>(n, v). url_encode (ext w) n @ CHR ''='' # url_encode (ext w) v) ps"
    using assms(3) unfolding query_text_def url_coding_def
    by (intro assms(1) [unfolded cuts_def, rule_format]) (auto simp: list_all_iff)
  have s: "split_pair (dclib w) (url_encode (ext w) n @ CHR ''='' # url_encode (ext w) v) ''='' =
      (url_encode (ext w) n, url_encode (ext w) v)" for n v
    using assms(2,3) by (simp add: cuts_pair_def url_coding_def)
  have d: "url_decode (ext w) (url_encode (ext w) u) = u" for u using assms(3) by (simp add: url_coding_def)
  have "fold (\<lambda>p. case split_pair (dclib w) p ''='' of
      (param, v) \<Rightarrow> smap_push (url_decode (ext w) param) (url_decode (ext w) v))
      (map (\<lambda>(n, v). url_encode (ext w) n @ CHR ''='' # url_encode (ext w) v) ps) m =
    fold (\<lambda>(n, v). smap_push n v) ps m" for m
    by (induction ps arbitrary: m) (auto simp: s d)
  with t show ?thesis by (simp add: split_params_def)
qed

lemma last_value_joined:
  assumes m: "map_of m n = Some vs" and d: "\<forall>k \<in> fst ` set m. upcase k = upcase n \<longrightarrow> k = n" and "ordered m"
  shows "last_value (joined_params m) n = Some (concat_values vs)"
  using assms
proof (induction m)
  case (Cons p m)
  obtain k us where p: "p = (k, us)" by (cases p)
  have split: "last_value (joined_params (p # m)) n =
      (case last_value (joined_params m) n of None \<Rightarrow> last_value [(k, concat_values us)] n | Some v \<Rightarrow> Some v)"
    using last_value_append [of "[(k, concat_values us)]" "joined_params m" n] p by (simp add: joined_params_def)
  show ?case
  proof (cases "k = n")
    case True
    have "upcase n \<notin> (\<lambda>p. upcase (fst p)) ` set (joined_params m)"
    proof
      assume "upcase n \<in> (\<lambda>p. upcase (fst p)) ` set (joined_params m)"
      then obtain k' where "k' \<in> fst ` set m" "upcase k' = upcase n" by (force simp: joined_params_def)
      with Cons.prems(2) have "n \<in> fst ` set m" by (metis insertCI list.simps(15) image_insert)
      with Cons.prems(3) p True show False by auto
    qed
    with Cons.prems(1) p True split show ?thesis by (simp add: last_value_None)
  next
    case False
    with Cons p have "last_value (joined_params m) n = Some (concat_values vs)" by auto
    with split show ?thesis by simp
  qed
qed simp

lemma query_value:
  assumes "cuts (dclib w) (CHR ''&'')" "cuts_pair (dclib w) (CHR ''='')" "url_coding (ext w)"
    and n: "n \<in> fst ` set ps" "\<forall>k \<in> fst ` set ps. upcase k = upcase n \<longrightarrow> k = n"
  shows "last_value (joined_params (split_params w (query_text (ext w) ps))) n = Some (concat_values (values_of n ps))"
proof -
  let ?m = "fold (\<lambda>(n, v). smap_push n v) ps []"
  have "values_of n ps \<noteq> []" using n(1) by (auto simp: values_of_def filter_empty_conv)
  then have m: "ordered ?m" "map_of ?m n = Some (values_of n ps)" using fold_smap_push [of "[]" ps n] by auto
  have "fst ` set (fold (\<lambda>(n, v). smap_push n v) qs m) = fst ` set qs \<union> fst ` set m" for qs m
    by (induction qs arbitrary: m) (auto simp: keys_smap_push case_prod_beta)
  with n(2) have "\<forall>k \<in> fst ` set ?m. upcase k = upcase n \<longrightarrow> k = n" by simp
  with m show ?thesis unfolding split_params_query [OF assms(1-3)] by (intro last_value_joined)
qed

section \<open>The text of a session\<close>

text \<open>A hash map is iterated over each of its keys once.\<close>

definition fair_order :: "'d dcl \<Rightarrow> bool" where
  "fair_order d \<longleftrightarrow> (\<forall>ks. distinct ks \<longrightarrow> mset (um_order d ks) = mset ks)"

lemma fair_order_keys:
  assumes "fair_order d" "distinct (map fst m)"
  shows "map fst (um_iter (um_order d) m) = um_order d (map fst m)" "distinct (map fst (um_iter (um_order d) m))"
    "map_of (um_iter (um_order d) m) = map_of m"
proof -
  have o: "mset (um_order d (map fst m)) = mset (map fst m)" using assms by (simp add: fair_order_def)
  then have "set (um_order d (map fst m)) = fst ` set m" by (metis mset_eq_setD set_map)
  moreover show k: "map fst (um_iter (um_order d) m) = um_order d (map fst m)"
    using calculation by (intro map_fst_um_iter) simp
  ultimately show "map_of (um_iter (um_order d) m) = map_of m" by (intro map_of_um_iter)
  show "distinct (map fst (um_iter (um_order d) m))" unfolding k using o assms(2) by (metis mset_eq_imp_distinct_iff)
qed

text \<open>Names and values that the format of a session can carry.\<close>

definition storable :: "string \<times> string \<Rightarrow> bool" where
  "storable = (\<lambda>(k, v). k \<noteq> [] \<and> upcase k = k \<and> CHR ''='' \<notin> set k \<and> CHR '';'' \<notin> set k \<and> CHR '';'' \<notin> set v)"

lemma join_entries_join: "join_entries es = join '';'' (map (\<lambda>(k, v). k @ CHR ''='' # v) es)"
  by (induction es rule: join_entries.induct) auto

lemma load_text_assigns:
  assumes c: "compare_refl (dclib w)" and "cuts (dclib w) (CHR '';'')" "cuts_pair (dclib w) (CHR ''='')"
    and es: "list_all storable es"
  shows "assigns (load_text w (join_entries es)) es"
proof -
  have t: "tokenize_by (dclib w) (join_entries es) '';'' = map (\<lambda>(k, v). k @ CHR ''='' # v) es"
    unfolding join_entries_join using es
    by (intro assms(2) [unfolded cuts_def, rule_format]) (auto simp: list_all_iff storable_def)
  have "assigns (forM es (\<lambda>p. case split_pair (dclib w) (case p of (k, v) \<Rightarrow> k @ CHR ''='' # v) ''='' of
      (k, v) \<Rightarrow> if k \<noteq> [] then addM w k v [] else ret ())) (concat (map (\<lambda>p. [p]) es))"
  proof (intro assigns_forM)
    fix p
    assume "p \<in> set es"
    with es obtain k v where p: "p = (k, v)" "k \<noteq> []" "CHR ''='' \<notin> set k"
      by (cases p) (auto simp: list_all_iff storable_def)
    then have "split_pair (dclib w) (k @ CHR ''='' # v) ''='' = (k, v)" using assms(3) by (simp add: cuts_pair_def)
    with p assigns_add [OF c] show "assigns (case split_pair (dclib w) (case p of (k, v) \<Rightarrow> k @ CHR ''='' # v) ''='' of
      (k, v) \<Rightarrow> if k \<noteq> [] then addM w k v [] else ret ()) [p]" by simp
  qed
  then show ?thesis by (simp add: load_text_def t forM_map)
qed

lemma last_value_distinct:
  assumes "distinct (map fst es)" "list_all (\<lambda>(k, v). upcase k = k) es"
  shows "last_value es n = map_of es (upcase n)"
proof -
  have m: "map (\<lambda>(n, v). (upcase n, v)) es = es"
    using assms(2) by (intro map_idI) (auto simp: list_all_iff)
  show ?thesis by (simp add: last_value_def m map_of_rev_distinct [OF assms(1)])
qed

text \<open>The text of a context gives its variables back.\<close>

lemma session_text_loads:
  assumes "compare_refl (dclib w)" "cuts (dclib w) (CHR '';'')" "cuts_pair (dclib w) (CHR ''='')" "fair_order (dclib w)"
    and c: "wf_layers (vstack c)" "list_all storable (get_values c)" and top: "has_top (ctxs s)"
  shows "\<exists>s'. load_text w (session_text w c) s = (Ok (), [], s') \<and>
    (\<forall>n. get_value (ctxs s') n = (case find_var (vstack c) (upcase n) of Some v \<Rightarrow> v | None \<Rightarrow> get_value (ctxs s) n))"
proof -
  let ?es = "um_iter (um_order (dclib w)) (get_values c)"
  have es: "list_all storable ?es" using c(2) set_um_iter [of "um_order (dclib w)" "get_values c"] by (auto simp: list_all_iff)
  note k = fair_order_keys [OF assms(4) get_values_distinct [of c]]
  have "load_text w (session_text w c) s = (Ok (), [], s\<lparr>ctxs := put_vars ?es (ctxs s)\<rparr>)"
    using assignsD [OF load_text_assigns [OF assms(1-3) es] top] by (simp add: session_text_def)
  moreover have "last_value ?es n = find_var (vstack c) (upcase n)" for n
    using last_value_distinct [OF k(2)] es k(3) get_values_abs [OF c(1)] by (auto simp: list_all_iff storable_def)
  ultimately show ?thesis using top by (auto simp: get_value_put_vars)
qed

text \<open>What \<open>save\<close> wrote, \<open>load\<close> of the same holder restores.\<close>

lemma save_load:
  assumes "compare_refl (dclib w)" "cuts (dclib w) (CHR '';'')" "cuts_pair (dclib w) (CHR ''='')" "fair_order (dclib w)"
    and c: "\<not> ctx_empty c" "wf_layers (vstack c)" "list_all storable (get_values c)" and top: "has_top (ctxs s)"
  shows "\<exists>s'. int_load w (fst (int_save w H c h resp)) s = (Ok (), [], s') \<and>
    (\<forall>n. get_value (ctxs s') n = (case find_var (vstack c) (upcase n) of Some v \<Rightarrow> v | None \<Rightarrow> get_value (ctxs s) n))"
proof -
  have "int_get_value (fst (int_save w H c h resp)) (sid (fst (int_save w H c h resp))) = session_text w c"
    using c(1) by (simp add: int_save_def int_get_value_def int_put_value_def)
  with session_text_loads [OF assms(1-4) c(2,3) top] show ?thesis by (simp add: int_load_def)
qed

text \<open>The holder that the next request gets has a buffer of its own, which is empty.\<close>

lemma fresh_holder_loads_nothing:
  assumes "tokenize_by (dclib w) [] '';'' = []" "buffer h = []"
  shows "int_load w h s = (Ok (), [], s)"
  using assms by (simp add: int_load_def int_get_value_def load_text_def ret_def)

end
