(* ===== verification/Session_Persistence.thy ===== *)
theory Session_Persistence
  imports Session_Modules_Correct Request_Correct
begin

text \<open>
  Sessions that last: what one request saves with the module for Redis or in a token, a later request of
  the session loads, when the server and the libraries do what they document.
\<close>

section \<open>A Redis server that works\<close>

text \<open>
  What Redis documents: \<open>view\<close> shows the data behind the contents of the servers; \<open>SET\<close> changes one key, \<open>GET\<close>
  gives its value, \<open>AUTH\<close> and \<open>EXPIRE\<close> leave the data alone.
\<close>

definition redis_works :: "hiredis \<Rightarrow> ((string \<rightharpoonup> string) \<Rightarrow> (string \<rightharpoonup> string)) \<Rightarrow> bool" where
  "redis_works R view \<longleftrightarrow>
     (\<forall>k h p. \<exists>c. redisConnect R k h p = Some (c, None)) \<and>
     (\<forall>k c key v m. \<exists>r m'. redisCommand R k c [''SET'', key, v] m = (Some r, m') \<and> view m' = (view m)(key \<mapsto> v)) \<and>
     (\<forall>k c key m. \<exists>m'. view m' = view m \<and> redisCommand R k c [''GET'', key] m =
        (Some (case view m key of None \<Rightarrow> Reply_other | Some v \<Rightarrow> Reply_string v), m')) \<and>
     (\<forall>k c ws m. hd ws \<in> {''AUTH'', ''EXPIRE''} \<longrightarrow> (\<exists>r m'. redisCommand R k c ws m = (Some r, m') \<and> view m' = view m))"

definition hosts_ok :: "hiredis \<Rightarrow> 'd dcl \<Rightarrow> string \<Rightarrow> bool" where
  "hosts_ok R d server \<longleftrightarrow> default_tokens R (trim d server) \<noteq> [] \<and>
     (\<forall>i \<in> set (default_tokens R (trim d server)). \<exists>h rest. tokenize_by d i '':'' = h # rest \<and>
        (rest = [] \<or> to_int d (trim d (hd rest)) \<noteq> None))"

text \<open>Programs that return, with the data behind the servers.\<close>

definition returns :: "(state \<Rightarrow> bool) \<Rightarrow> 'a prog \<Rightarrow> ('a \<Rightarrow> state \<Rightarrow> bool) \<Rightarrow> bool" where
  "returns P m Q \<longleftrightarrow> (\<forall>s. P s \<longrightarrow> (\<exists>x s'. m s = (Ok x, [], s') \<and> ctxs s' = ctxs s \<and> Q x s'))"

lemma returnsD: "returns P m Q \<Longrightarrow> P s \<Longrightarrow> \<exists>x s'. m s = (Ok x, [], s') \<and> ctxs s' = ctxs s \<and> Q x s'"
  by (simp add: returns_def)

lemma returns_ret: "(\<And>s. P s \<Longrightarrow> Q x s) \<Longrightarrow> returns P (ret x) Q"
  by (simp add: returns_def ret_def)

lemma returns_bind:
  assumes m: "returns P m Q" and f: "\<And>x. returns (Q x) (f x) S"
  shows "returns P (bindM m f) S"
  unfolding returns_def
proof (intro allI impI)
  fix s
  assume "P s"
  from returnsD [OF m this] obtain x s1 where 1: "m s = (Ok x, [], s1)" "ctxs s1 = ctxs s" "Q x s1" by blast
  from returnsD [OF f 1(3)] obtain y s2 where "f x s1 = (Ok y, [], s2)" "ctxs s2 = ctxs s1" "S y s2" by blast
  with 1 show "\<exists>x s'. bindM m f s = (Ok x, [], s') \<and> ctxs s' = ctxs s \<and> S x s'" by (simp add: bind_Ok)
qed

lemma returns_seq: "returns P m Q \<Longrightarrow> returns (Q ()) k S \<Longrightarrow> returns P (seqM m k) S"
  unfolding seqM_def by (rule returns_bind) auto

lemma returns_weaken: "returns P m Q \<Longrightarrow> (\<And>s. P' s \<Longrightarrow> P s) \<Longrightarrow> (\<And>x s. Q x s \<Longrightarrow> Q' x s) \<Longrightarrow> returns P' m Q'"
  unfolding returns_def by meson

definition holds :: "((string \<rightharpoonup> string) \<Rightarrow> (string \<rightharpoonup> string)) \<Rightarrow> (string \<rightharpoonup> string) \<Rightarrow> state \<Rightarrow> bool" where
  "holds view D s \<longleftrightarrow> redis_inv s \<and> view (remote s) = D"

definition linked_with :: "((string \<rightharpoonup> string) \<Rightarrow> (string \<rightharpoonup> string)) \<Rightarrow> string \<Rightarrow> (string \<rightharpoonup> string) \<Rightarrow> state \<Rightarrow> bool" where
  "linked_with view a D s \<longleftrightarrow> linked a s \<and> holds view D s"

lemma returns_host_port:
  assumes "tokenize_by d i '':'' = h # rest" "rest = [] \<or> to_int d (trim d (hd rest)) \<noteq> None"
  shows "returns P (host_port d dflt i) (\<lambda>_. P)"
  using assms by (cases rest) (auto simp: host_port_def intro: returns_ret)

lemma returns_configure:
  assumes R: "redis_works R view" and t: "\<forall>i \<in> set is. \<exists>h rest. tokenize_by d i '':'' = h # rest \<and> (rest = [] \<or> to_int d (trim d (hd rest)) \<noteq> None)"
  shows "returns (holds view D) (redis_configure R d a is) (\<lambda>_ s. holds view D s \<and> (is \<noteq> [] \<longrightarrow> linked a s))"
  using t
proof (induction "is")
  case (Cons i "is")
  have keep: "returns (holds view D) (redis_keep a \<lparr>handle = Some c, configured = True\<rparr>)
      (\<lambda>_ s. holds view D s \<and> pooled s (''redis'', a) = Some \<lparr>handle = Some c, configured = True\<rparr>)" for c
    by (auto simp: returns_def redis_keep_def keep_connection_def modM_def holds_def redis_inv_def)
  have "returns (holds view D) (seqM (redis_keep a \<lparr>handle = Some c, configured = True\<rparr>) (redis_configure R d a is))
      (\<lambda>_ s. holds view D s \<and> linked a s)" for c
  proof (cases "is")
    case Nil
    then show ?thesis by (intro returns_seq [OF keep]) (auto intro: returns_ret simp: linked_def)
  next
    case (Cons j js)
    with Cons.IH Cons.prems show ?thesis by (intro returns_seq [OF keep]) (auto elim: returns_weaken)
  qed
  moreover from R have "\<exists>c. redisConnect R k h p = Some (c, None)" for k h p by (simp add: redis_works_def)
  ultimately have "returns (holds view D) (case redisConnect R k (c_str host) p of
         None \<Rightarrow> crashM
       | Some (c, Some msg) \<Rightarrow>
           bindM (redis_acquire a) (\<lambda>cn. seqM (redis_keep a (cn\<lparr>handle := Some c\<rparr>)) (throwM (redis_exception msg)))
       | Some (c, None) \<Rightarrow>
           seqM (redis_keep a \<lparr>handle = Some c, configured = True\<rparr>) (redis_configure R d a is))
       (\<lambda>_ s. holds view D s \<and> linked a s)" for k host p
    by (metis (no_types, lifting) option.case(2) option.case(1) prod.case)
  moreover have "returns (holds view D) tickM (\<lambda>_. holds view D)"
    by (simp add: returns_def tickM_def holds_def redis_inv_def)
  moreover from Cons.prems obtain h rest where "tokenize_by d i '':'' = h # rest" "rest = [] \<or> to_int d (trim d (hd rest)) \<noteq> None"
    by auto
  ultimately show ?case unfolding redis_configure.simps
    by (intro returns_bind [OF returns_host_port]) (auto intro: returns_bind split: prod.split)
qed (auto intro: returns_ret)

lemma returns_acquire:
  "returns (holds view D) (redis_acquire a) (\<lambda>cn s. holds view D s \<and> pooled s (''redis'', a) = Some cn)"
  by (auto simp: returns_def redis_acquire_def acquire_def bindM_def getM_def ret_def seqM_def keep_connection_def modM_def
      holds_def redis_inv_def split: option.split)

text \<open>A command that the server answers, and what it does to the data.\<close>

lemma returns_command:
  assumes "\<And>k c m. view m = D \<Longrightarrow> \<exists>r m'. redisCommand R k c ws m = (Some r, m') \<and> view m' = D' \<and> Q r"
  shows "returns (linked_with view a D) (redis_command R a ws) (\<lambda>x s. (\<exists>r. x = Some r \<and> Q r) \<and> linked_with view a D' s)"
  unfolding returns_def
proof (intro allI impI)
  fix s
  assume "linked_with view a D s"
  then obtain c h where s: "pooled s (''redis'', a) = Some c" "handle c = Some h" "redis_inv s" "view (remote s) = D"
    by (auto simp: linked_with_def linked_def holds_def)
  from assms [OF s(4)] obtain r m' where 1: "redisCommand R (tick s) h ws (remote s) = (Some r, m')" "view m' = D'" "Q r" by blast
  let ?s = "s\<lparr>tick := Suc (tick s), remote := m'\<rparr>"
  have "redis_command R a ws s = (Ok (Some r), [], ?s)"
    using s 1(1) by (simp add: redis_command_def redis_acquire_def acquire_def bindM_def getM_def ret_def tickM_def)
  moreover have "linked_with view a D' ?s"
    using s 1(2) by (auto simp: linked_with_def linked_def holds_def redis_inv_def)
  ultimately show "\<exists>x s'. redis_command R a ws s = (Ok x, [], s') \<and> ctxs s' = ctxs s \<and> (\<exists>r. x = Some r \<and> Q r) \<and> linked_with view a D' s'"
    using 1(3) by auto
qed

lemma returns_require:
  assumes "redis_works R view" "hd ws \<in> {''AUTH'', ''EXPIRE''}"
  shows "returns (linked_with view a D) (redis_require R a ws) (\<lambda>_. linked_with view a D)"
proof -
  have acq: "returns (linked_with view a D) (redis_acquire a) (\<lambda>_. linked_with view a D)"
    by (auto simp: returns_def redis_acquire_def acquire_def bindM_def getM_def ret_def linked_with_def linked_def)
  have "returns (linked_with view a D) (redis_command R a ws) (\<lambda>x s. (\<exists>r. x = Some r \<and> True) \<and> linked_with view a D s)"
    using assms unfolding redis_works_def by (intro returns_command) blast
  note cmd = returns_bind [OF this, of "\<lambda>r. case r of None \<Rightarrow> bindM (redis_errstr R a) (\<lambda>msg. throwM (redis_exception msg)) | Some _ \<Rightarrow> ret ()"
    "\<lambda>_. linked_with view a D"]
  have "returns (\<lambda>s. (\<exists>r. x = Some r \<and> True) \<and> linked_with view a D s)
      (case x of None \<Rightarrow> bindM (redis_errstr R a) (\<lambda>msg. throwM (redis_exception msg)) | Some _ \<Rightarrow> ret ()) (\<lambda>_. linked_with view a D)" for x
    by (cases x) (auto simp: returns_def ret_def)
  from cmd [OF this] show ?thesis unfolding redis_require_def
    by (intro returns_bind [OF acq]) (auto intro: returns_ret)
qed

lemma returns_prepare:
  assumes R: "redis_works R view" and t: "hosts_ok R d (redis_server ro)" and n: "database_number ro \<le> 0"
  shows "returns (holds view D) (redis_prepare R d ro) (\<lambda>_. linked_with view (redis_server ro) D)"
proof -
  let ?a = "redis_server ro" and ?is = "default_tokens R (trim d (redis_server ro))"
  from t have t': "?is \<noteq> []" "\<forall>i \<in> set ?is. \<exists>h rest. tokenize_by d i '':'' = h # rest \<and> (rest = [] \<or> to_int d (trim d (hd rest)) \<noteq> None)"
    by (auto simp: hosts_ok_def)
  have c: "returns (holds view D) (redis_configure R d ?a ?is) (\<lambda>_. linked_with view ?a D)"
    using t'(1) by (intro returns_weaken [OF returns_configure [OF R t'(2)]]) (auto simp: linked_with_def)
  have "returns (linked_with view ?a D)
      (seqM (if redis_password ro \<noteq> [] then redis_login R ?a (redis_password ro) else ret ())
        (if 0 < database_number ro then redis_select R d ?a (database_number ro) else ret ())) (\<lambda>_. linked_with view ?a D)"
    unfolding redis_login_def using n
    by (intro returns_seq [where Q = "\<lambda>_. linked_with view ?a D"]) (auto intro: returns_require [OF R] returns_ret)
  note conf = returns_seq [OF c this]
  have "returns (\<lambda>s. holds view D s \<and> pooled s (''redis'', ?a) = Some cn)
      (if configured cn then ret () else seqM (redis_configure R d ?a ?is)
        (seqM (if redis_password ro \<noteq> [] then redis_login R ?a (redis_password ro) else ret ())
          (if 0 < database_number ro then redis_select R d ?a (database_number ro) else ret ()))) (\<lambda>_. linked_with view ?a D)" for cn
  proof (cases "configured cn")
    case True
    then show ?thesis by (auto intro!: returns_ret simp: linked_with_def holds_def redis_inv_def linked_def)
  next
    case False
    show ?thesis unfolding if_not_P [OF False] by (rule returns_weaken [OF conf]) auto
  qed
  then show ?thesis unfolding redis_prepare_def by (intro returns_bind [OF returns_acquire])
qed

lemma returns_get:
  assumes R: "redis_works R view" and t: "hosts_ok R d (redis_server ro)" and n: "database_number ro \<le> 0"
  shows "returns (holds view D) (redis_get_value R d ro key (Suc j) msg)
    (\<lambda>v s. v = (case D (c_str key) of None \<Rightarrow> [] | Some v \<Rightarrow> c_str v) \<and> holds view D s)"
proof -
  let ?r = "case D (c_str key) of None \<Rightarrow> Reply_other | Some v \<Rightarrow> Reply_string v"
  let ?read = "\<lambda>x. case x of Some (Reply_string v) \<Rightarrow> ret (c_str v) | Some Reply_other \<Rightarrow> ret []
      | None \<Rightarrow> redis_failed R (redis_server ro) (redis_get_value R d ro key j)"
  have cmd: "returns (linked_with view (redis_server ro) D) (redis_command R (redis_server ro) [''GET'', c_str key])
      (\<lambda>x s. (\<exists>r. x = Some r \<and> r = ?r) \<and> linked_with view (redis_server ro) D s)"
    using R unfolding redis_works_def by (intro returns_command) metis
  have "returns (\<lambda>s. (\<exists>r. x = Some r \<and> r = ?r) \<and> linked_with view (redis_server ro) D s) (?read x)
      (\<lambda>v s. v = (case D (c_str key) of None \<Rightarrow> [] | Some v \<Rightarrow> c_str v) \<and> holds view D s)" for x
  proof (cases "x = Some ?r")
    case True
    then show ?thesis by (cases "D (c_str key)") (auto simp: returns_def ret_def linked_with_def)
  qed (auto simp: returns_def)
  then show ?thesis unfolding redis_get_value.simps
    by (intro returns_seq [OF returns_prepare [OF R t n]] returns_bind [OF cmd])
qed

lemma returns_put:
  assumes R: "redis_works R view" and t: "hosts_ok R d (redis_server ro)" and n: "database_number ro \<le> 0"
  shows "returns (holds view D) (redis_put_value R d ro key v (Suc j) msg) (\<lambda>_. holds view (D(c_str key \<mapsto> c_str v)))"
proof -
  let ?a = "redis_server ro" and ?D = "D(c_str key \<mapsto> c_str v)"
  let ?failed = "redis_failed R ?a (redis_put_value R d ro key v j)"
  have set: "returns (linked_with view ?a D) (redis_command R ?a [''SET'', c_str key, c_str v])
      (\<lambda>x s. (\<exists>r. x = Some r \<and> True) \<and> linked_with view ?a ?D s)"
    using R unfolding redis_works_def by (intro returns_command) metis
  have "returns (linked_with view ?a ?D) (redis_command R ?a [''EXPIRE'', c_str key, of_int_str d (redis_ttl ro)])
      (\<lambda>x s. (\<exists>r. x = Some r \<and> True) \<and> linked_with view ?a ?D s)"
  proof (rule returns_command)
    fix k c m
    assume "view m = ?D"
    moreover from R have "hd ws \<in> {''AUTH'', ''EXPIRE''} \<longrightarrow> (\<exists>r m'. redisCommand R k c ws m = (Some r, m') \<and> view m' = view m)" for ws
      unfolding redis_works_def by blast
    ultimately show "\<exists>r m'. redisCommand R k c [''EXPIRE'', c_str key, of_int_str d (redis_ttl ro)] m = (Some r, m') \<and> view m' = ?D \<and> True"
      by fastforce
  qed
  then have exp: "returns (linked_with view ?a ?D) (bindM (redis_command R ?a [''EXPIRE'', c_str key, of_int_str d (redis_ttl ro)])
      (\<lambda>r. case r of None \<Rightarrow> ?failed | Some _ \<Rightarrow> ret ())) (\<lambda>_. holds view ?D)"
    by (rule returns_bind) (auto simp: returns_def ret_def linked_with_def)
  have fin: "returns (linked_with view ?a ?D) (ret ()) (\<lambda>_. holds view ?D)" by (auto intro: returns_ret simp: linked_with_def)
  have "returns (\<lambda>s. (\<exists>r. x = Some r \<and> True) \<and> linked_with view ?a ?D s)
      (case x of None \<Rightarrow> ?failed | Some _ \<Rightarrow>
        if 0 < redis_ttl ro then bindM (redis_command R ?a [''EXPIRE'', c_str key, of_int_str d (redis_ttl ro)])
          (\<lambda>r. case r of None \<Rightarrow> ?failed | Some _ \<Rightarrow> ret ()) else ret ()) (\<lambda>_. holds view ?D)" for x
    using exp fin by (cases x) (auto simp: returns_def)
  then show ?thesis unfolding redis_put_value.simps
    by (intro returns_seq [OF returns_prepare [OF R t n]] returns_bind [OF set])
qed

text \<open>Texts without a zero byte pass through \<open>c_str\<close>.\<close>

lemma c_str_append: "c_str a = a \<Longrightarrow> c_str (a @ b) = a @ c_str b"
  unfolding c_str_def takeWhile_eq_all_conv by (simp add: takeWhile_append2)

lemma c_str_join: "list_all (\<lambda>(k, v). c_str k = k \<and> c_str v = v) es \<Longrightarrow> c_str (join_entries es) = join_entries es"
proof (induction es rule: join_entries.induct)
  case (2 k v)
  then have "c_str (k @ ''='' @ v) = k @ c_str (''='' @ v)" "c_str (''='' @ v) = ''='' @ c_str v"
    by (intro c_str_append; simp add: c_str_def)+
  with 2 show ?case by simp
next
  case (3 k v e es)
  have eq: "c_str ''='' = ''=''" "c_str '';'' = '';''" by (simp_all add: c_str_def)
  from 3 show ?case by (simp only: join_entries.simps c_str_append eq list.pred_inject prod.case)
qed (simp add: c_str_def)

text \<open>What one request saves, a later request of the session loads, whatever its connections.\<close>

lemma redis_save_load:
  assumes laws: "compare_refl (dclib w)" "cuts (dclib w) (CHR '';'')" "cuts_pair (dclib w) (CHR ''='')" "fair_order (dclib w)"
    and R: "redis_works R view" "hosts_ok R (dclib w) (redis_server (redis_opts h))" "database_number (redis_opts h) \<le> 0"
    and c: "\<not> ctx_empty c" "wf_layers (vstack c)" "list_all storable (get_values c)"
      "list_all (\<lambda>(k, v). c_str k = k \<and> c_str v = v) (get_values c)"
    and s: "ctxs s = c # cs" "redis_inv s"
  shows "\<exists>s1. save_session (mod_session_redis_factory R w H ro) h resp s =
      (Ok (h, save_cookies H c (redis_id h) (redis_new h) (redis_https h) resp), [], s1) \<and>
    (\<forall>h2 s2. redis_id h2 = redis_id h \<longrightarrow> redis_opts h2 = redis_opts h \<longrightarrow> remote s2 = remote s1 \<longrightarrow> redis_inv s2 \<longrightarrow> has_top (ctxs s2) \<longrightarrow>
      (\<exists>s3. load_session (mod_session_redis_factory R w H ro) h2 s2 = (Ok (), [], s3) \<and>
        (\<forall>n. get_value (ctxs s3) n = (case find_var (vstack c) (upcase n) of Some v \<Rightarrow> v | None \<Rightarrow> get_value (ctxs s2) n))))"
proof -
  let ?t = "session_text w c" and ?o = "redis_opts h" and ?k = "redis_id h"
  have "list_all (\<lambda>(k, v). c_str k = k \<and> c_str v = v) (um_iter (um_order (dclib w)) (get_values c))"
    using c(4) set_um_iter [of "um_order (dclib w)" "get_values c"] by (auto simp: list_all_iff)
  then have t: "c_str ?t = ?t" unfolding session_text_def by (rule c_str_join)
  have "holds view (view (remote s)) s" using s(2) by (simp add: holds_def)
  from returnsD [OF returns_put [OF R] this, of ?k ?t 2 "''Unknown error''"] obtain s1 where
    1: "redis_put_value R (dclib w) ?o ?k ?t 3 ''Unknown error'' s = (Ok (), [], s1)" "view (remote s1) = (view (remote s))(c_str ?k \<mapsto> ?t)"
    by (auto simp: numeral_3_eq_3 t holds_def)
  have "save_session (mod_session_redis_factory R w H ro) h resp s =
      (Ok (h, save_cookies H c ?k (redis_new h) (redis_https h) resp), [], s1)"
    using 1(1) c(1) s(1) by (simp add: mod_session_redis_factory_def redis_save_def bind_Ok seq_Ok ret_def)
  moreover have "\<exists>s3. load_session (mod_session_redis_factory R w H ro) h2 s2 = (Ok (), [], s3) \<and>
        (\<forall>n. get_value (ctxs s3) n = (case find_var (vstack c) (upcase n) of Some v \<Rightarrow> v | None \<Rightarrow> get_value (ctxs s2) n))"
    if h2: "redis_id h2 = ?k" "redis_opts h2 = ?o" "remote s2 = remote s1" "redis_inv s2" "has_top (ctxs s2)" for h2 s2
  proof -
    have "holds view (view (remote s1)) s2" using h2 by (simp add: holds_def)
    from returnsD [OF returns_get [OF R] this, of ?k 2 "''Unknown error''"] obtain s3 where
      2: "redis_get_value R (dclib w) ?o ?k 3 ''Unknown error'' s2 = (Ok ?t, [], s3)" "ctxs s3 = ctxs s2"
      by (auto simp: numeral_3_eq_3 1(2) t)
    from h2(5) 2(2) have "has_top (ctxs s3)" by simp
    from session_text_loads [OF laws c(2,3) this, unfolded 2(2)] obtain s4 where
      "load_text w ?t s3 = (Ok (), [], s4)"
      "\<forall>n. get_value (ctxs s4) n = (case find_var (vstack c) (upcase n) of Some v \<Rightarrow> v | None \<Rightarrow> get_value (ctxs s2) n)" by blast
    with 2(1) h2(1,2) show ?thesis by (simp add: mod_session_redis_factory_def redis_load_def bind_Ok)
  qed
  ultimately show ?thesis by blast
qed

section \<open>Tokens\<close>

text \<open>
  What jwt-cpp and jsoncpp document: a signed token decodes to its claims, beside others whose names do
  not begin with an underscore, and passes the verification with its secret and issuer.
\<close>

definition jwt_works :: "jwt_lib \<Rightarrow> ext \<Rightarrow> bool" where
  "jwt_works J x \<longleftrightarrow>
     (\<forall>k s i t cl. distinct (map fst cl) \<longrightarrow> (\<exists>ms. jwt_decode J (jwt_sign J k s i t cl) = Inr ms \<and> distinct (map fst ms) \<and>
        (\<forall>n. hd n = CHR ''_'' \<longrightarrow> n \<noteq> [] \<longrightarrow> map_of ms n = map_option J_string (map_of cl n)))) \<and>
     (\<forall>k s i t cl. jwt_sign J k s i t cl \<noteq> []) \<and>
     (\<forall>k k' s i t cl. jwt_verify J k' s i (jwt_sign J k s i t cl) = None) \<and> (\<forall>v. json_text x (J_string v) = Some v)"

text \<open>The claims that the variables with the prefix give.\<close>

definition claim_name :: "string \<Rightarrow> string \<Rightarrow> string" where
  "claim_name p key = CHR ''_'' # downcase (drop (length p + 1) key)"

definition prefixed :: "string \<Rightarrow> string \<Rightarrow> bool" where
  "prefixed p key \<longleftrightarrow> take (length p) key = p"

definition claim_list :: "string \<Rightarrow> (string \<times> string) list \<Rightarrow> string umap \<Rightarrow> string umap" where
  "claim_list p es cl = fold (\<lambda>(k, v). um_put (claim_name p k) v) (filter (\<lambda>(k, v). prefixed p k) es) cl"

definition claim_map :: "string \<Rightarrow> (string \<times> string) list \<Rightarrow> (string \<rightharpoonup> string)" where
  "claim_map p es = map_of (rev (map (\<lambda>(k, v). (claim_name p k, v)) (filter (\<lambda>(k, v). prefixed p k) es)))"

lemma claim_list_map: "map_of (claim_list p es cl) = map_of cl ++ claim_map p es"
proof -
  have "map_of (fold (\<lambda>(k, v). um_put (claim_name p k) v) fs cl) = map_of cl ++ map_of (rev (map (\<lambda>(k, v). (claim_name p k, v)) fs))" for fs
    by (induction fs arbitrary: cl) (auto simp: map_add_upd_left map_add_def fun_eq_iff split: option.split)
  then show ?thesis by (simp add: claim_list_def claim_map_def)
qed

lemma claim_list_distinct: "distinct (map fst cl) \<Longrightarrow> distinct (map fst (claim_list p es cl))"
proof -
  have "distinct (map fst cl) \<Longrightarrow> distinct (map fst (fold (\<lambda>(k, v). um_put (claim_name p k) v) fs cl))" for fs
    by (induction fs arbitrary: cl) (auto intro: distinct_um_put)
  then show "distinct (map fst cl) \<Longrightarrow> distinct (map fst (claim_list p es cl))" by (simp add: claim_list_def)
qed

lemma jwt_claims_run:
  assumes "\<forall>(k, v) \<in> set es. prefixed p k \<longrightarrow> length p < length k"
  shows "jwt_claims J p es cl s = (Ok (claim_list p es cl), [], s)"
  using assms
proof (induction es arbitrary: cl)
  case (Cons e es)
  obtain k v where e: "e = (k, v)" by (cases e)
  from Cons show ?case by (auto simp: e claim_list_def prefixed_def claim_name_def)
qed (simp add: claim_list_def ret_def)

text \<open>The name of a claim gives the name of the variable back.\<close>

lemma claim_variable:
  assumes "upcase k = k" "k = upcase pfx @ CHR ''_'' # r"
  shows "upcase (pfx @ claim_name (upcase pfx) k) = k"
proof -
  have "to_upper (CHR ''_'') = CHR ''_''" by code_simp
  moreover have "claim_name (upcase pfx) k = CHR ''_'' # downcase r" by (simp add: claim_name_def assms(2))
  moreover have "upcase (downcase r) = r" using assms by (simp add: to_upper_to_lower comp_def)
  ultimately show ?thesis using assms(2) by simp
qed

lemma last_value_unique:
  assumes "(m, v) \<in> set ps" "upcase m = upcase n" "\<forall>(m', v') \<in> set ps. upcase m' = upcase n \<longrightarrow> v' = v"
  shows "last_value ps n = Some v"
proof -
  have "upcase n \<in> fst ` set (rev (map (\<lambda>(n, v). (upcase n, v)) ps))" using assms(1,2) by force
  then have "last_value ps n \<noteq> None" unfolding last_value_def map_of_eq_None_iff by simp
  then obtain v' where v': "last_value ps n = Some v'" by auto
  then have "(upcase n, v') \<in> set (map (\<lambda>(n, v). (upcase n, v)) ps)" unfolding last_value_def by (auto dest: map_of_SomeD)
  with assms(3) v' show ?thesis by fastforce
qed

text \<open>The variables that a list of claims sets.\<close>

definition claim_vars :: "ext \<Rightarrow> string \<Rightarrow> (string \<times> json) list \<Rightarrow> (string \<times> string) list" where
  "claim_vars x pfx ms =
     concat (map (\<lambda>(key, v). if key \<noteq> [] \<and> hd key = CHR ''_'' then [(pfx @ key, the (json_text x v))] else []) ms)"

lemma jwt_load_run:
  assumes c: "compare_refl (dclib w)" and d: "jwt_id h \<noteq> []" "jwt_decode J (jwt_id h) = Inr ms"
    and v: "\<And>k. jwt_verify J k (jwt_secret (jwt_opts h)) (jwt_issuer (jwt_opts h)) (jwt_id h) = None"
    and t: "\<forall>(key, v) \<in> set ms. key \<noteq> [] \<longrightarrow> hd key = CHR ''_'' \<longrightarrow> json_text (ext w) v \<noteq> None"
    and top: "has_top (ctxs s)"
  shows "jwt_load J w h s = (Ok (), [], s\<lparr>tick := Suc (tick s),
    ctxs := put_vars (claim_vars (ext w) (jwt_prefix (jwt_opts h)) ms) (ctxs s)\<rparr>)"
proof -
  let ?body = "\<lambda>(key, v). if key \<noteq> [] \<and> hd key = CHR ''_''
    then bindM (as_stringM J w v) (\<lambda>t. addM w (jwt_prefix (jwt_opts h) @ key) t []) else ret ()"
  have "assigns (forM ms ?body) (claim_vars (ext w) (jwt_prefix (jwt_opts h)) ms)"
    unfolding claim_vars_def
  proof (intro assigns_forM)
    fix p
    assume "p \<in> set ms"
    moreover obtain key v where p: "p = (key, v)" by (cases p)
    ultimately have *: "json_text (ext w) v \<noteq> None" if "key \<noteq> []" "hd key = CHR ''_''" using t that by auto
    have "bindM (ret x) f = f x" for x :: string and f :: "string \<Rightarrow> unit prog" by (simp add: fun_eq_iff bindM_def ret_def split: prod.split)
    with * assigns_add [OF c] show "assigns (?body p) (case p of (key, v) \<Rightarrow> if key \<noteq> [] \<and> hd key = CHR ''_''
        then [(jwt_prefix (jwt_opts h) @ key, the (json_text (ext w) v))] else [])"
      by (auto simp: p as_stringM_def intro: assigns_ret)
  qed
  from assignsD [OF this, of "s\<lparr>tick := Suc (tick s)\<rparr>"] top show ?thesis
    by (simp add: jwt_load_def d jwt_decodeM_def bind_Ok ret_def tryM_def tickM_def v)
qed

text \<open>The names that the format of a token can carry: the prefix, an underscore and the rest.\<close>

definition token_names :: "string \<Rightarrow> (string \<times> string) list \<Rightarrow> bool" where
  "token_names p es \<longleftrightarrow> list_all (\<lambda>(k, v). upcase k = k \<and> (prefixed p k \<longrightarrow> (\<exists>r. k = p @ CHR ''_'' # r))) es"

lemma token_variable:
  assumes "token_names (upcase pfx) es" "(k, v) \<in> set es" "prefixed (upcase pfx) k"
  shows "upcase (pfx @ claim_name (upcase pfx) k) = k"
proof -
  from assms obtain r where "upcase k = k" "k = upcase pfx @ CHR ''_'' # r" by (fastforce simp: token_names_def list_all_iff)
  then show ?thesis by (rule claim_variable)
qed

lemma claim_map_at:
  assumes n: "token_names (upcase pfx) es" and d: "distinct (map fst es)" and kv: "(k, v) \<in> set es" "prefixed (upcase pfx) k"
  shows "claim_map (upcase pfx) es (claim_name (upcase pfx) k) = Some v"
proof -
  let ?p = "upcase pfx"
  let ?fs = "filter (\<lambda>(k, v). prefixed ?p k) es"
  have var: "upcase (pfx @ claim_name ?p k') = k'" if "(k', v') \<in> set ?fs" for k' v'
    using that by (intro token_variable [OF n]) auto
  have "inj_on (claim_name ?p) (fst ` set ?fs)" by (rule inj_on_inverseI [where g = "\<lambda>m. upcase (pfx @ m)"]) (auto simp: var simp del: map_append)
  moreover have "distinct (map fst ?fs)" using d by (induction es) auto
  ultimately have "distinct (map (claim_name ?p) (map fst ?fs))" unfolding distinct_map set_map by blast
  then have "distinct (map fst (map (\<lambda>(k, v). (claim_name ?p k, v)) ?fs))"
    by (simp add: case_prod_unfold comp_def)
  moreover have "(claim_name ?p k, v) \<in> set (map (\<lambda>(k, v). (claim_name ?p k, v)) ?fs)" using kv by force
  ultimately show ?thesis by (simp add: claim_map_def map_of_rev_distinct)
qed

lemma claim_map_only:
  assumes "claim_map p es m = Some v"
  shows "\<exists>k. (k, v) \<in> set es \<and> prefixed p k \<and> m = claim_name p k"
  using assms by (auto simp: claim_map_def dest!: map_of_SomeD)

text \<open>The variables that the claims of a context set are the prefixed ones of the context.\<close>

lemma claim_vars_value:
  assumes n: "token_names (upcase pfx) es" and d: "distinct (map fst es)" and ms: "distinct (map fst ms)"
    and cl: "\<And>m. hd m = CHR ''_'' \<Longrightarrow> m \<noteq> [] \<Longrightarrow> map_of ms m = map_option J_string (claim_map (upcase pfx) es m)"
    and j: "\<And>v. json_text x (J_string v) = Some v"
  shows "last_value (claim_vars x pfx ms) n = (if prefixed (upcase pfx) (upcase n) then map_of es (upcase n) else None)"
proof -
  let ?p = "upcase pfx" and ?L = "claim_vars x pfx ms"
  have L: "\<exists>k. (k, v) \<in> set es \<and> prefixed ?p k \<and> upcase m = k" if mv: "(m, v) \<in> set ?L" for m v
  proof -
    from mv obtain key y where k: "(key, y) \<in> set ms" "key \<noteq> []" "hd key = CHR ''_''" "m = pfx @ key" "v = the (json_text x y)"
      by (auto simp: claim_vars_def split: if_splits)
    from k(1) ms have "map_of ms key = Some y" by simp
    then have "map_option J_string (claim_map ?p es key) = Some y" by (simp only: cl [OF k(3,2)])
    then obtain v' where v': "claim_map ?p es key = Some v'" "y = J_string v'" by blast
    from claim_map_only [OF v'(1)] obtain k' where k': "(k', v') \<in> set es" "prefixed ?p k'" "key = claim_name ?p k'" by blast
    with token_variable [OF n k'(1,2)] have "upcase (pfx @ key) = k'" by (simp only:)
    with k k' v' j show ?thesis by auto
  qed
  show ?thesis
  proof (cases "prefixed ?p (upcase n) \<and> map_of es (upcase n) \<noteq> None")
    case True
    then obtain v where v: "(upcase n, v) \<in> set es" "map_of es (upcase n) = Some v" "prefixed ?p (upcase n)" by (auto dest: map_of_SomeD)
    from claim_map_at [OF n d v(1,3)] cl [of "claim_name ?p (upcase n)"]
    have "(claim_name ?p (upcase n), J_string v) \<in> set ms" by (auto simp: claim_name_def dest: map_of_SomeD)
    then have "(pfx @ claim_name ?p (upcase n), v) \<in> set ?L"
      by (force simp: claim_vars_def claim_name_def j)
    moreover have "upcase (pfx @ claim_name ?p (upcase n)) = upcase n"
      by (rule token_variable [OF n v(1,3)])
    moreover have "\<forall>(m', v') \<in> set ?L. upcase m' = upcase n \<longrightarrow> v' = v"
      using L d v(1) by (fastforce dest: eq_key_imp_eq_value)
    ultimately have "last_value ?L n = Some v" by (intro last_value_unique)
    with v show ?thesis by simp
  next
    case False
    have "last_value ?L n = None"
    proof (rule last_value_None, rule notI)
      assume "upcase n \<in> (\<lambda>p. upcase (fst p)) ` set ?L"
      then obtain m v where "(m, v) \<in> set ?L" "upcase m = upcase n" by auto
      from L [OF this(1)] this(2) False show False by (force simp: map_of_eq_None_iff)
    qed
    with False show ?thesis by auto
  qed
qed

lemma jwt_save_new:
  assumes "jwt_id h = []" "\<not> ctx_empty c" "es = um_iter (um_order (dclib w)) (get_values c)"
    and "token_names (upcase (jwt_prefix (jwt_opts h))) es"
  shows "jwt_save J w H c h resp s =
    (let i = jwt_sign J (Suc (tick s)) (jwt_secret (jwt_opts h)) (jwt_issuer (jwt_opts h)) (jwt_ttl (jwt_opts h))
               (claim_list (upcase (jwt_prefix (jwt_opts h))) es [])
     in (Ok (h\<lparr>jwt_id := i, jwt_new := True\<rparr>, set_cookie H (token_cookie H i (jwt_https h)) resp), [], s\<lparr>tick := tick s + 2\<rparr>))"
proof -
  have "\<forall>(k, v) \<in> set es. prefixed (upcase (jwt_prefix (jwt_opts h))) k \<longrightarrow> length (upcase (jwt_prefix (jwt_opts h))) < length k"
    using assms(4) by (fastforce simp: token_names_def list_all_iff)
  from jwt_claims_run [OF this, of J "[]" s] assms(1-3) show ?thesis
    by (simp add: jwt_save_def Let_def bind_Ok signM_def tickM_def ret_def)
qed

text \<open>What a new token saves of the user's variables, those with the prefix, the next request loads.\<close>

lemma jwt_save_load:
  assumes laws: "compare_refl (dclib w)" "fair_order (dclib w)" "jwt_works J (ext w)"
    and h: "jwt_id h = []"
    and c: "\<not> ctx_empty c" "wf_layers (vstack c)" "token_names (upcase (jwt_prefix (jwt_opts h))) (get_values c)"
    and s: "ctxs s = c # cs"
  shows "\<exists>h1 resp1 s1. save_session (mod_session_jwt_factory J w H jo) h resp s = (Ok (h1, resp1), [], s1) \<and>
    (\<forall>h2 s2. jwt_id h2 = jwt_id h1 \<longrightarrow> jwt_opts h2 = jwt_opts h \<longrightarrow> has_top (ctxs s2) \<longrightarrow>
      (\<exists>s3. load_session (mod_session_jwt_factory J w H jo) h2 s2 = (Ok (), [], s3) \<and>
        (\<forall>n. get_value (ctxs s3) n =
          (case (if prefixed (upcase (jwt_prefix (jwt_opts h))) (upcase n) then find_var (vstack c) (upcase n) else None) of
             Some v \<Rightarrow> v | None \<Rightarrow> get_value (ctxs s2) n))))"
proof -
  let ?o = "jwt_opts h" and ?pfx = "jwt_prefix (jwt_opts h)"
  let ?es = "um_iter (um_order (dclib w)) (get_values c)" and ?p = "upcase ?pfx"
  let ?cl = "claim_list ?p ?es []"
  let ?i = "jwt_sign J (Suc (tick s)) (jwt_secret ?o) (jwt_issuer ?o) (jwt_ttl ?o) ?cl"
  have es: "token_names ?p ?es"
    using c(3) set_um_iter [of "um_order (dclib w)" "get_values c"] by (auto simp: token_names_def list_all_iff)
  note k = fair_order_keys [OF laws(2) get_values_distinct [of c]]
  from laws(3) obtain ms where ms: "jwt_decode J ?i = Inr ms" "distinct (map fst ms)" "?i \<noteq> []"
      "\<And>n. hd n = CHR ''_'' \<Longrightarrow> n \<noteq> [] \<Longrightarrow> map_of ms n = map_option J_string (map_of ?cl n)"
    using claim_list_distinct [of "[]" ?p ?es] unfolding jwt_works_def by (metis list.map(1) distinct.simps(1))
  have cl: "map_of ?cl = claim_map ?p ?es" by (simp add: claim_list_map)
  have j: "json_text (ext w) (J_string v) = Some v" and v: "jwt_verify J k' (jwt_secret ?o) (jwt_issuer ?o) ?i = None" for v k'
    using laws(3) unfolding jwt_works_def by blast+
  have "json_text (ext w) y \<noteq> None" if "(key, y) \<in> set ms" "key \<noteq> []" "hd key = CHR ''_''" for key y
  proof -
    have "map_of ms key = Some y" using that(1) ms(2) by simp
    then have "map_option J_string (map_of ?cl key) = Some y" by (simp only: ms(4) [OF that(3,2)])
    with j show ?thesis by auto
  qed
  then have t: "\<forall>(key, v) \<in> set ms. key \<noteq> [] \<longrightarrow> hd key = CHR ''_'' \<longrightarrow> json_text (ext w) v \<noteq> None" by blast
  have val: "last_value (claim_vars (ext w) ?pfx ms) n = (if prefixed ?p (upcase n) then find_var (vstack c) (upcase n) else None)" for n
    using claim_vars_value [OF es k(2) ms(2) ms(4) [unfolded cl] j] k(3) get_values_abs [OF c(2)] by simp
  have "save_session (mod_session_jwt_factory J w H jo) h resp s =
      (Ok (h\<lparr>jwt_id := ?i, jwt_new := True\<rparr>, set_cookie H (token_cookie H ?i (jwt_https h)) resp), [], s\<lparr>tick := tick s + 2\<rparr>)"
    using jwt_save_new [OF h c(1) refl es] s by (simp add: mod_session_jwt_factory_def Let_def)
  moreover have "\<exists>s3. load_session (mod_session_jwt_factory J w H jo) h2 s2 = (Ok (), [], s3) \<and>
        (\<forall>n. get_value (ctxs s3) n = (case (if prefixed ?p (upcase n) then find_var (vstack c) (upcase n) else None) of
             Some v \<Rightarrow> v | None \<Rightarrow> get_value (ctxs s2) n))"
    if h2: "jwt_id h2 = ?i" "jwt_opts h2 = ?o" "has_top (ctxs s2)" for h2 s2
  proof -
    have "jwt_load J w h2 s2 = (Ok (), [], s2\<lparr>tick := Suc (tick s2), ctxs := put_vars (claim_vars (ext w) ?pfx ms) (ctxs s2)\<rparr>)"
      using jwt_load_run [OF laws(1), of h2 J ms s2] h2 ms(1,3) v t by simp
    with h2(3) val show ?thesis by (simp add: mod_session_jwt_factory_def get_value_put_vars)
  qed
  ultimately show ?thesis by (intro exI conjI) (assumption, simp)
qed

end
