(* ===== verification/Server_Correct.thy ===== *)
theory Server_Correct
  imports Request_Correct Parser_Correct Fcgi_Session
begin

text \<open>
  The server as a whole: the response that \<open>process_cgi_request\<close> makes of what the page did, the cache
  of applications, and the way of a request from the bytes of the client to the bytes of the answer.
\<close>

section \<open>Parsing leaves the variables alone\<close>

definition R_vars :: "state \<Rightarrow> state \<Rightarrow> bool" where
  "R_vars s s' \<longleftrightarrow> ctxs s' = ctxs s"

interpretation rv: kept R_vars
  by unfold_locales (auto simp: R_vars_def)

lemma vars_store [pres_intros]:
  "pres R_vars (allocM n)" "pres R_vars (storeM f)" "pres R_vars (linkM t)"
  by (auto intro!: presI simp: allocM_def storeM_def linkM_def R_vars_def split: outcome.splits)

lemma vars_new_context [pres_intros]: "pres R_vars (in_new_context m)"
  by (auto intro!: presI simp: in_new_context_def R_vars_def split: prod.splits)

lemma vars_delete [pres_intros]: "pres R_vars (delete_tag t)"
  unfolding delete_tag_def by (intro rv.pres_bind rv.pres_deref rv.pres_mod) (simp add: R_vars_def)

lemma vars_attributes [pres_intros]: "pres R_vars (process_attributes ex t as)"
proof -
  have "pres R_vars (add_parameterM ex t name p)" for name p
    unfolding add_parameterM_def by (intro pres_intros)
  then show ?thesis
    unfolding process_attributes_def process_attribute_def by (intro pres_intros)
qed

lemma vars_node:
  assumes "\<And>href. pres R_vars (sub href)"
  shows "pres R_vars (process_node w f ex sub current ev)"
proof -
  have splice: "pres R_vars (splice_include current rslt included)" for rslt included
    unfolding splice_include_def by (cases included; cases current) (auto intro!: pres_intros)
  have elem: "pres R_vars (process_element w f ex sub current object uri qname depth as)" for object uri qname depth as
    unfolding process_element_def by (intro pres_intros splice assms)
  have "pres R_vars (text_child w k name v depth current)" for k name v depth
    unfolding text_child_def by (intro pres_intros)
  moreover have "pres R_vars (process_end current)"
    unfolding process_end_def by (intro pres_intros)
  ultimately show ?thesis unfolding process_node_def using elem by (cases ev) (auto intro!: pres_intros)
qed

lemma vars_parse_loop: "(\<And>c ev. pres R_vars (pn c ev)) \<Longrightarrow> pres R_vars (parse_loop pn evs root current)"
  by (induction evs arbitrary: root current) (auto intro!: pres_intros)

lemma vars_parse: "pres R_vars (parse w f env ex n u)"
proof (induction n arbitrary: u)
  case (Suc n)
  then show ?case
    by (auto intro!: pres_intros vars_parse_loop vars_node split: option.split)
qed (simp add: rv.pres_diverge)

lemma vars_application: "pres R_vars (new_application E f n u)"
  unfolding new_application_def by (intro pres_intros vars_parse)

section \<open>Relations that a request keeps\<close>

lemma truncate_fields [simp]:
  "wd (host.truncate E) = wd E" "hlib (host.truncate E) = hlib E" "sess (host.truncate E) = sess E"
  "mime_parse (host.truncate E) = mime_parse E" "xml_root (host.truncate E) = xml_root E"
  by (simp_all add: host.truncate_def)

context chain_frame
begin

lemma pres_mime: "pres R (parse_mime w m)" "pres R (parse_mime_parts w ms)"
proof -
  have "v = w \<longrightarrow> pres R (parse_mime v m)" "v = w \<longrightarrow> pres R (parse_mime_parts v ms)" for v
    by (induction v m and v ms rule: parse_mime_parse_mime_parts.induct) (auto intro!: pres_intros)
  then show "pres R (parse_mime w m)" "pres R (parse_mime_parts w ms)" by simp_all
qed

lemma pres_body:
  assumes w: "wd E = w"
  shows "pres R (parse_body E q)"
  unfolding parse_body_def parse_urlencoded_def add_params_def parse_data_def parse_json_def parse_plain_def Let_def w
  by (intro pres_intros pres_mime) (auto intro!: pres_intros split: json.split)

lemma pres_params:
  assumes w: "wd E = w"
  shows "pres R (fastcgi_params E q vars)"
proof -
  from w have w': "wd (host.truncate E) = w" by (simp add: host.truncate_def)
  have p: "pres R (parse_plain (host.truncate E) q)"
    unfolding parse_plain_def w' by (intro pres_intros)
  show ?thesis
    unfolding fastcgi_params_def init_custom_params_def add_params_def Let_def w w'
    by (intro pres_intros) (auto intro!: pres_intros pres_body w' p split: http_method.split)
qed

lemma pres_path:
  assumes w: "wd E = w"
  shows "pres R (get_path E q)"
proof -
  have "pres R (path_args w cnt ps)" for cnt ps
    by (induction ps arbitrary: cnt) (auto intro!: pres_intros)
  then show ?thesis unfolding get_path_def Let_def w by (intro pres_intros)
qed

end

lemma chain_local: "pres R_chain m \<Longrightarrow> pres R_chain (with_local m)"
  by (rule presI) (auto simp: with_local_def R_chain_def split: prod.splits dest!: presD)

lemma chain_execute: "pres R_chain (app_execute (wd E) n (fastcgi_params E q vars) t)"
  unfolding app_execute_def by (intro pres_intros chain.pres_params [OF refl] chain_local chain.pres_execute)

lemma tree_local: "pres R_tree m \<Longrightarrow> pres R_tree (with_local m)"
  by (rule presI) (auto simp: with_local_def R_tree_def fresh_tags_def split: prod.splits dest!: presD)

lemma tree_execute: "pres R_tree (app_execute (wd E) n (fastcgi_params E q vars) t)"
  unfolding app_execute_def by (intro pres_intros tree.pres_params [OF refl] tree_local tree.pres_execute)

text \<open>Server programs: what \<open>pres\<close> says of them.\<close>

definition presS :: "(state \<Rightarrow> state \<Rightarrow> bool) \<Rightarrow> 'a sprog \<Rightarrow> bool" where
  "presS R m \<longleftrightarrow> (\<forall>sv r sv'. m sv = (r, sv') \<longrightarrow> r \<noteq> Crash \<longrightarrow> r \<noteq> Diverge \<longrightarrow> R (pstate sv) (pstate sv'))"

lemma presS_on_page: "pres R m \<Longrightarrow> presS R (on_page m)"
  unfolding presS_def on_page_def by (auto split: prod.splits dest: presD)

lemma presS_bind:
  assumes "kept R" "presS R m" "\<And>x. presS R (f x)"
  shows "presS R (bindS m f)"
  unfolding presS_def
proof (intro allI impI)
  fix sv r sv'
  assume b: "bindS m f sv = (r, sv')" "r \<noteq> Crash" "r \<noteq> Diverge"
  obtain r1 sv1 where 1: "m sv = (r1, sv1)" by (cases "m sv")
  show "R (pstate sv) (pstate sv')"
  proof (cases r1)
    case (Ok x)
    with 1 b have "f x sv1 = (r, sv')" by (simp add: bindS_def)
    with assms 1 Ok b show ?thesis unfolding presS_def by (metis kept.R_trans outcome.distinct(3,5))
  next
    case (Throw e)
    with 1 b assms(2) show ?thesis unfolding presS_def bindS_def by fastforce
  qed (use 1 b in \<open>simp_all add: bindS_def\<close>)
qed

lemma chain_get_app: "presS R_chain (get_app E n u)"
proof -
  have "pres R_chain (new_application E f n u)" for f
    using vars_application [of E f n u] by (auto simp: pres_def R_vars_def R_chain_def)
  note a = presS_on_page [OF this]
  have "presS R_chain (bindS (on_page (new_application E f n u))
      (\<lambda>t sv1. (Ok t, sv1\<lparr>itp := (itp sv1)\<lparr>apps := um_insert u t (apps (itp sv1))\<rparr>\<rparr>)))" for f
    by (rule presS_bind [OF rc.kept_axioms a]) (simp add: presS_def R_chain_def)
  with a show ?thesis unfolding presS_def get_app_def Let_def by (auto simp: R_chain_def split: if_splits option.splits)
qed

lemma chain_run_page: "presS R_chain (run_page E n q vars)"
  unfolding run_page_def
  by (intro presS_bind [OF rc.kept_axioms] presS_on_page chain.pres_path [OF refl] chain_get_app rc.pres_capture chain_execute)

section \<open>A site with the built-in sessions\<close>

definition internal_host :: "('d, session_holder_int, 'q, 'r, 'z) host_scheme \<Rightarrow> bool" where
  "internal_host E \<longleftrightarrow> sess E = session_int (wd E) (hlib E) \<and> compare_refl (dclib (wd E)) \<and>
     tokenize_by (dclib (wd E)) [] '';'' = []"

definition base_vars :: "session_holder_int \<Rightarrow> (string \<times> string) list" where
  "base_vars h = [(''CONTENT_TYPE'', ''text/plain''), (''SESSION'', sid h), (''SESSION_PERSISTENT'', ''0'')]"

definition env_begun :: "session_holder_int \<Rightarrow> nat \<Rightarrow> state \<Rightarrow> state" where
  "env_begun h i s = s\<lparr>tick := i, ctxs := put_vars (base_vars h) environment_contexts\<rparr>"

lemma int_create_sid:
  assumes "\<forall>j. uuid_at (ext w) j \<noteq> []" "int_create w H q s = (Ok h, t, s')"
  shows "sid h \<noteq> []"
proof -
  have n: "new_session_holder w s = (Ok g, t, s') \<Longrightarrow> sid g \<noteq> []" for g t s'
    using assms(1) by (auto simp: new_session_holder_run)
  then have "session_holder_of w v s = (Ok g, t, s') \<Longrightarrow> sid g \<noteq> []" for g v t s'
    by (cases "v = []") (auto simp: session_holder_of_def ret_def)
  with n assms(2) show ?thesis
    by (cases "find (\<lambda>c. cookie_name c = ''session'') (get_cookies H q)")
      (auto simp: int_create_def bindM_def ret_def split: prod.splits outcome.splits)
qed

lemma internal_environment:
  assumes E: "internal_host E"
  shows "\<exists>h i. new_http_environment E q s = (Ok (Some h), [], env_begun h i s) \<and> buffer h = [] \<and>
    ((\<forall>j. uuid_at (ext (wd E)) j \<noteq> []) \<longrightarrow> sid h \<noteq> [])"
proof -
  let ?w = "wd E"
  have c: "compare_refl (dclib ?w)" using E by (simp add: internal_host_def)
  have a: "addM ?w n v [] s1 = (Ok (), [], s1\<lparr>ctxs := put_vars [(n, v)] (ctxs s1)\<rparr>)" if "has_top (ctxs s1)" for n v s1
    using assignsD [OF assigns_add [OF c] that] .
  have top: "has_top environment_contexts" by (simp add: environment_contexts_def new_context_def)
  let ?s0 = "s\<lparr>ctxs := put_vars [(''CONTENT_TYPE'', ''text/plain'')] environment_contexts\<rparr>"
  have 0: "new_environment ?w s = (Ok (), [], ?s0)"
    using a [of "s\<lparr>ctxs := environment_contexts\<rparr>"] top by (simp add: new_environment_def seq_Ok modM_def)
  from int_create_run [of ?w "hlib E" q ?s0] obtain h i where
    1: "create_session (sess E) q ?s0 = (Ok h, [], ?s0\<lparr>tick := i\<rparr>)" "buffer h = []"
    using E by (auto simp: session_int_def internal_host_def)
  have u: "(\<forall>j. uuid_at (ext ?w) j \<noteq> []) \<longrightarrow> sid h \<noteq> []"
    using int_create_sid [of ?w "hlib E" q ?s0] 1(1) E by (auto simp: session_int_def internal_host_def)
  let ?s1 = "?s0\<lparr>tick := i\<rparr>"
  have l: "on_user (load_session (sess E) h) ?s1 = (Ok (), [], ?s1)"
    using fresh_holder_loads_nothing [of ?w h] 1(2) E
    by (simp add: on_user_def session_int_def internal_host_def environment_contexts_def new_context_def put_top.simps)
  have i: "holder_id (sess E) h = sid h" using E by (simp add: internal_host_def session_int_def)
  have "new_http_environment E q s = (Ok (Some h), [], env_begun h i s)"
    using 1(1) l i top
    by (simp add: new_http_environment_def seq_Ok 0 bind_Ok run_catch a ret_def env_begun_def base_vars_def)
  with 1(2) u show ?thesis by blast
qed

text \<open>What \<open>init_response\<close> makes of a response: headers, the content type, and the cookie of the session.\<close>

definition prepared ::
  "('d, session_holder_int, 'q, 'r, 'z) host_scheme \<Rightarrow> 'q \<Rightarrow> session_holder_int \<Rightarrow> contexts \<Rightarrow> 'r \<Rightarrow> 'r" where
  "prepared E q h cs resp =
     (let resp1 = fold (\<lambda>(n, v). set_header (hlib E) (downcase n) v)
                    (um_iter (um_order (dclib (wd E))) (get_values (cs ! 3))) resp;
          resp2 = set_content_type (hlib E) (get_value cs ''CONTENT_TYPE'') resp1
      in if get_method (hlib E) q = M_head then resp2
         else snd (int_save (wd E) (hlib E) (cs ! 1) h resp2))"

lemma internal_init_response:
  assumes E: "internal_host E" and s: "length (ctxs s) = 4"
  shows "\<exists>oh. init_response E q (Some h) resp s = (Ok (None, oh, prepared E q h (ctxs s) resp), [], s)"
proof -
  from s obtain c0 c1 c2 c3 where cs: "ctxs s = [c0, c1, c2, c3]" by (auto simp: length_Suc_conv numeral_eq_Suc)
  with E show ?thesis
    by (auto simp: init_response_def bind_Ok getM_def ret_def prepared_def Let_def internal_host_def session_int_def
        on_user_def tryM_def bindM_def split: prod.splits)
qed

definition first_response :: "('d, 'h, 'q, 'r) site \<Rightarrow> 'r" where
  "first_response E =
     set_header (hlib E) ''X-Powered-By'' (app_full_name (ext (wd E)) @ '' (FastCGI)'') (new_response (hlib E))"

definition ended :: "server \<Rightarrow> server" where
  "ended sv = sv\<lparr>pstate := (pstate sv)\<lparr>ctxs := []\<rparr>\<rparr>"

definition begun_server :: "session_holder_int \<Rightarrow> nat \<Rightarrow> server \<Rightarrow> server" where
  "begun_server h i sv = sv\<lparr>pstate := env_begun h i (pstate sv)\<rparr>"

lemma internal_truncate [simp]: "internal_host (host.truncate E) = internal_host E"
  by (simp add: internal_host_def)

lemma prepared_truncate [simp]: "prepared (host.truncate E) = prepared E"
  by (simp add: prepared_def fun_eq_iff Let_def)

lemma run_page_length:
  assumes "run_page E n q vars (begun_server h i sv) = (r, sv1)" "r \<noteq> Crash" "r \<noteq> Diverge"
  shows "length (ctxs (pstate sv1)) = 4"
proof -
  have "length environment_contexts = 4" by (simp add: environment_contexts_def new_context_def)
  with chain_run_page [of E n q vars] assms show ?thesis
    unfolding presS_def R_chain_def by (fastforce simp: begun_server_def env_begun_def)
qed

definition error_log :: "'d world \<Rightarrow> exn \<Rightarrow> string list" where
  "error_log w e = (if is_logged e then [fmt (dclib w) ''Internal error: {0}'' [what e]] else [])"

text \<open>The answer to a request, by what running the page gives.\<close>

definition answer_to ::
  "('d, session_holder_int, 'q, 'r) site \<Rightarrow> 'q \<Rightarrow> session_holder_int \<Rightarrow> string outcome \<Rightarrow> server \<Rightarrow> 'r outcome \<times> server" where
  "answer_to E q h r sv =
     (let resp = prepared E q h (ctxs (pstate sv)) (first_response E) in
      case r of
        Ok out \<Rightarrow> (Ok (set_content (hlib E) out resp), ended sv)
      | Throw e \<Rightarrow>
          if is_dbp e then
            (Ok (error_response (hlib E) e resp),
             ended (sv\<lparr>pstate := (pstate sv)\<lparr>logged := logged (pstate sv) @ error_log (wd E) e\<rparr>\<rparr>))
          else (Throw e, ended sv)
      | Crash \<Rightarrow> (Crash, ended sv)
      | Diverge \<Rightarrow> (Diverge, ended sv))"

lemma process_internal:
  assumes E: "internal_host E" and sv: "isession (itp sv) \<noteq> None"
  shows "\<exists>h i. buffer h = [] \<and> ((\<forall>j. uuid_at (ext (wd E)) j \<noteq> []) \<longrightarrow> sid h \<noteq> []) \<and> process_cgi_request E n q vars sv =
    (case run_page E n q vars (begun_server h i sv) of (r, sv1) \<Rightarrow> answer_to E q h r sv1)"
proof -
  from internal_environment [of "host.truncate E" q "pstate sv"] E obtain h i where
    1: "new_http_environment (host.truncate E) q (pstate sv) = (Ok (Some h), [], env_begun h i (pstate sv))" "buffer h = []"
      "(\<forall>j. uuid_at (ext (wd E)) j \<noteq> []) \<longrightarrow> sid h \<noteq> []"
    by auto
  obtain r sv1 where 2: "run_page E n q vars (begun_server h i sv) = (r, sv1)"
    by (cases "run_page E n q vars (begun_server h i sv)")
  have p: "process_cgi_request E n q vars sv =
      (case answer E n q vars (Some h) (first_response E) (begun_server h i sv) of (r, sv1) \<Rightarrow> (r, ended sv1))"
    using sv 1(1) by (auto simp: process_cgi_request_def bindS_def on_page_def begun_server_def first_response_def ended_def)
  have ini: "\<exists>oh. init_response (host.truncate E) q (Some h) resp (pstate sv1) =
      (Ok (None, oh, prepared E q h (ctxs (pstate sv1)) resp), [], pstate sv1)" if "r \<noteq> Crash" "r \<noteq> Diverge" for resp
    using internal_init_response [of "host.truncate E" "pstate sv1" q h resp] E run_page_length [OF 2 that] by simp
  show ?thesis
  proof (cases r)
    case (Ok out)
    with ini [of "first_response E"] 2 1(2,3) show ?thesis
      by (intro exI [of _ h] exI [of _ i]) (auto simp: p answer_def bindS_def on_page_def ret_def answer_to_def)
  next
    case (Throw e)
    with ini [of "first_response E"] 2 1(2,3) show ?thesis
      by (intro exI [of _ h] exI [of _ i])
        (auto simp: p answer_def handle_error_def bindS_def on_page_def ret_def throwM_def log_error_def modM_def
          error_log_def answer_to_def)
  qed (use 1(2,3) 2 in \<open>auto simp: p answer_def answer_to_def intro!: exI [of _ h] exI [of _ i]\<close>)
qed

section \<open>The cache\<close>

lemma get_path_Ok: "get_path E q s = (Ok p, t, s') \<Longrightarrow> p = get_field (hlib E) Path_translated q"
  by (auto simp: get_path_def Let_def seqM_def bindM_def ret_def crashM_def split: if_splits option.splits prod.splits outcome.splits)

text \<open>A page in the cache is run where it is: nothing is parsed, and its tags stay as they are.\<close>

lemma cached_run_page:
  assumes c: "use_cache (itp sv)"
    "map_of (apps (itp sv)) (url_of E (''file://'' @ get_field (hlib E) Path_translated q)) = Some t"
    and f: "fresh_tags (pstate sv)" and run: "run_page E n q vars sv = (r, sv')" "r \<noteq> Crash" "r \<noteq> Diverge"
  shows "itp sv' = itp sv \<and> heap (pstate sv') = heap (pstate sv)"
proof -
  obtain r1 t1 s1 where 1: "get_path (host.truncate E) q (pstate sv) = (r1, t1, s1)"
    by (cases "get_path (host.truncate E) q (pstate sv)")
  let ?m = "capture (app_execute (wd E) n (fastcgi_params E q vars) t)"
  obtain r2 t2 s2 where 2: "?m s1 = (r2, t2, s2)" by (cases "?m s1")
  have R1: "R_tree (pstate sv) s1" if "r1 \<noteq> Crash" "r1 \<noteq> Diverge"
    using presD [OF tree.pres_path [OF refl] 1 that] by simp
  have R2: "R_tree s1 s2" if "r2 \<noteq> Crash" "r2 \<noteq> Diverge"
    using presD [OF rt.pres_capture [OF tree_execute] 2 that] .
  show ?thesis
  proof (cases r1)
    case (Ok p)
    with get_path_Ok [of "host.truncate E" q "pstate sv"] 1 have p: "p = get_field (hlib E) Path_translated q" by simp
    with 1 2 Ok c run(1) have sv': "r = r2" "sv' = sv\<lparr>pstate := s2\<rparr>"
      by (auto simp: run_page_def bindS_def on_page_def get_app_def)
    with R1 R2 run(2,3) Ok f show ?thesis by (auto simp: R_tree_def fresh_tags_def)
  next
    case (Throw e)
    with 1 run(1) have "sv' = sv\<lparr>pstate := s1\<rparr>" by (auto simp: run_page_def bindS_def on_page_def)
    with R1 Throw f show ?thesis by (auto simp: R_tree_def)
  qed (use 1 run in \<open>auto simp: run_page_def bindS_def on_page_def\<close>)
qed

lemma cached_process:
  assumes E: "internal_host E" "isession (itp sv) \<noteq> None" and c: "use_cache (itp sv)"
    "map_of (apps (itp sv)) (url_of E (''file://'' @ get_field (hlib E) Path_translated q)) = Some t"
    and f: "fresh_tags (pstate sv)" and run: "process_cgi_request E n q vars sv = (r, sv')" "r \<noteq> Crash" "r \<noteq> Diverge"
  shows "itp sv' = itp sv \<and> heap (pstate sv') = heap (pstate sv)"
proof -
  from process_internal [OF E, of n q vars] obtain h i where
    1: "process_cgi_request E n q vars sv =
      (case run_page E n q vars (begun_server h i sv) of (r, sv1) \<Rightarrow> answer_to E q h r sv1)" by blast
  obtain r1 sv1 where 2: "run_page E n q vars (begun_server h i sv) = (r1, sv1)"
    by (cases "run_page E n q vars (begun_server h i sv)")
  have f': "fresh_tags (pstate (begun_server h i sv))" using f by (simp add: begun_server_def env_begun_def fresh_tags_def)
  have "itp sv1 = itp sv \<and> heap (pstate sv1) = heap (pstate sv)" if "r1 \<noteq> Crash" "r1 \<noteq> Diverge"
    using cached_run_page [OF _ _ f' 2 that] c by (auto simp: begun_server_def env_begun_def)
  with 1 2 run show ?thesis by (cases r1) (auto simp: ended_def answer_to_def Let_def split: if_splits)
qed

section \<open>A static page\<close>

fun path_vars :: "'d dcl \<Rightarrow> nat \<Rightarrow> string list \<Rightarrow> (string \<times> string) list" where
  "path_vars d cnt [] = []"
| "path_vars d cnt (p # ps) =
     (if 0 < cnt then [(''arg'' @ of_int_str d (int cnt), p)] else []) @ path_vars d (Suc cnt) ps"

lemma path_args_assigns:
  assumes c: "compare_refl (dclib w)"
  shows "assigns (path_args w cnt ps) (path_vars (dclib w) cnt ps)"
proof (induction ps arbitrary: cnt)
  case (Cons p ps)
  then show ?case unfolding path_args.simps path_vars.simps by (intro assigns_intros c)
qed (simp add: assigns_ret)

text \<open>A request whose path is taken as it is, and the variables it assigns in all.\<close>

definition plain_path :: "('q, 'r) http \<Rightarrow> 'q \<Rightarrow> bool" where
  "plain_path H q \<longleftrightarrow> \<not> (get_method H q = M_post \<and> get_field H Content_type q = ''text/xml'')"

definition all_vars :: "('d, 'h, 'q, 'r) site \<Rightarrow> 'q \<Rightarrow> string umap \<Rightarrow> (string \<times> string) list option" where
  "all_vars E q vars =
     map_option (\<lambda>ps. path_vars (dclib (wd E)) 0 (tokenize_by (dclib (wd E)) (get_field (hlib E) Path_info q) ''/'') @
         ps @ um_iter (um_order (dclib (wd E))) vars)
       (request_vars (host.truncate E) q)"

lemma params_assigns:
  assumes c: "compare_refl (dclib (wd E))" and p: "request_vars (host.truncate E) q = Some ps"
  shows "assigns (fastcgi_params E q vars) (ps @ um_iter (um_order (dclib (wd E))) vars)"
  unfolding fastcgi_params_def
  using init_custom_params_assigns [of "host.truncate E", OF _ p] c
    assigns_forM_pairs [OF c, of "um_iter (um_order (dclib (wd E))) vars" "\<lambda>n. n" "\<lambda>v. v"]
  by (intro assigns_seq) simp_all

lemma get_path_plain:
  assumes c: "compare_refl (dclib (wd E))" and p: "plain_path (hlib E) q" and s: "has_top (ctxs s)"
  shows "get_path E q s = (Ok (get_field (hlib E) Path_translated q), [],
    s\<lparr>ctxs := put_vars (path_vars (dclib (wd E)) 0 (tokenize_by (dclib (wd E)) (get_field (hlib E) Path_info q) ''/'')) (ctxs s)\<rparr>)"
  using assignsD [OF path_args_assigns [OF c] s] p
  by (auto simp: get_path_def Let_def plain_path_def seq_Ok ret_def)

text \<open>The output of a static page that is not in the cache yet.\<close>

lemma run_static_page:
  assumes c: "compare_refl (dclib (wd E))" and p: "plain_path (hlib E) q" "all_vars E q vars = Some vs"
    and s: "has_top (ctxs (pstate sv))" and first: "get_value (put_vars vs (ctxs (pstate sv))) ''@HTML:FIRST@'' = []"
    and u: "u = url_of E (''file://'' @ get_field (hlib E) Path_translated q)" "\<not> use_cache (itp sv) \<or> map_of (apps (itp sv)) u = None"
    and doc: "xml_open (reader E) u = Some (events sc uri 0 (D_elem nm as ds), 0)" "html_uri uri"
      "parsable (D_elem nm as ds)" "safe_doc (folded (D_elem nm as ds))" "doc_depth (folded (D_elem nm as ds)) \<le> n"
  shows "\<exists>sv'. run_page E n q vars sv = (Ok (serialize (um_order (dclib (wd E))) (folded (D_elem nm as ds))), sv') \<and>
    ctxs (pstate sv') = put_vars vs (ctxs (pstate sv)) \<and> isession (itp sv') = isession (itp sv)"
proof -
  let ?d = "D_elem nm as ds" and ?w = "wd E"
  obtain m where m: "n = Suc m" using doc(5) by (cases n) auto
  from p(2) obtain ps where ps: "request_vars (host.truncate E) q = Some ps"
    "vs = path_vars (dclib ?w) 0 (tokenize_by (dclib ?w) (get_field (hlib E) Path_info q) ''/'') @ ps @ um_iter (um_order (dclib ?w)) vars"
    by (auto simp: all_vars_def)
  let ?pv = "path_vars (dclib ?w) 0 (tokenize_by (dclib ?w) (get_field (hlib E) Path_info q) ''/'')"
  define s1 where "s1 = (pstate sv)\<lparr>ctxs := put_vars ?pv (ctxs (pstate sv))\<rparr>"
  have 1: "get_path (host.truncate E) q (pstate sv) = (Ok (get_field (hlib E) Path_translated q), [], s1)"
    using get_path_plain [of "host.truncate E" q "pstate sv"] c p(1) s by (simp add: s1_def)
  obtain t s2 where 2: "parse ?w (ifactory (itp sv)) (reader E) (execute ?w n) n u s1 = (Ok (Some t), [], s2)"
    "doc_node (heap s2) t (folded ?d)" "s2 = s1\<lparr>heap := heap s2, next_tag := next_tag s2\<rparr>"
    using parse_document [OF doc(1-3), of ?w "ifactory (itp sv)" "execute ?w n" m s1] m by blast
  have a: "new_application E (ifactory (itp sv)) n u s1 = (Ok t, [], s2)"
    using 2(1) by (simp add: new_application_def bind_Ok ret_def)
  have ctx2: "ctxs s2 = ctxs s1" by (subst 2(3)) simp
  define s3 where "s3 = s2\<lparr>ctxs := put_vars vs (ctxs (pstate sv))\<rparr>"
  have 3: "fastcgi_params E q vars s2 = (Ok (), [], s3)"
    using assignsD [OF params_assigns [OF c ps(1)], of s2] s by (simp add: ctx2 s1_def s3_def ps(2))
  let ?c = "(hd (new_context ''local'' []))\<lparr>has_services := True\<rparr>"
  define out where "out = serialize (um_order (dclib ?w)) (folded ?d)"
  have ex: "execute ?w n t None (s3\<lparr>ctxs := ?c # ctxs s3\<rparr>) = (Ok (), out, s3\<lparr>ctxs := ?c # ctxs s3\<rparr>)"
    using execute_outermost [of "s3\<lparr>ctxs := ?c # ctxs s3\<rparr>" t nm _ _ n ?c "ctxs s3" ?w None] 2(2) doc(4,5) c first
    by (simp add: s3_def new_context_def compare_refl_def out_def)
  define sv2 where "sv2 = (if use_cache (itp sv) then sv\<lparr>pstate := s2, itp := (itp sv)\<lparr>apps := um_insert u t (apps (itp sv))\<rparr>\<rparr>
    else sv\<lparr>pstate := s2\<rparr>)"
  have g: "get_app E n u (sv\<lparr>pstate := s1\<rparr>) = (Ok t, sv2)"
    using a u(2) by (auto simp: get_app_def Let_def on_page_def bindS_def sv2_def)
  have "pstate sv2 = s2" by (simp add: sv2_def)
  then have "run_page E n q vars sv = (Ok out, sv2\<lparr>pstate := s3\<rparr>)"
    using 1 g 3 ex
    by (simp add: run_page_def bindS_def on_page_def u(1) [symmetric, simplified] capture_def app_execute_def seq_Ok with_local_def)
  then show ?thesis by (auto simp: s3_def sv2_def out_def)
qed

text \<open>The whole response: status and headers as dcl begins them, the type that the variable gives, the page.\<close>

definition static_response :: "('d, 'h, 'q, 'r) site \<Rightarrow> (string \<times> string) list \<Rightarrow> string \<Rightarrow> 'r" where
  "static_response E vs page =
     set_content (hlib E) page
       (set_content_type (hlib E) (case last_value vs ''CONTENT_TYPE'' of None \<Rightarrow> ''text/plain'' | Some v \<Rightarrow> v)
         (first_response E))"

text \<open>The variables of a request on top of those the environment begins with, and the response they prepare.\<close>

lemma begun_value:
  "get_value (put_vars vs (put_vars (base_vars h) environment_contexts)) x =
    (case last_value (base_vars h @ vs) x of None \<Rightarrow> [] | Some v \<Rightarrow> v)"
proof -
  have "has_top environment_contexts" "get_value environment_contexts x = []"
    by (simp_all add: environment_contexts_def new_context_def)
  then show ?thesis using get_value_put_vars [of environment_contexts "base_vars h @ vs" x] by (auto split: option.splits)
qed

lemma prepared_vars:
  assumes o: "um_order (dclib (wd E)) [] = []" and h: "sid h \<noteq> []"
  shows "prepared E q h (put_vars vs (put_vars (base_vars h) environment_contexts)) resp =
    set_content_type (hlib E) (case last_value vs ''CONTENT_TYPE'' of None \<Rightarrow> ''text/plain'' | Some v \<Rightarrow> v) resp"
proof -
  let ?us = "tl environment_contexts" and ?cs = "put_vars vs (put_vars (base_vars h) environment_contexts)"
  have top: "has_top environment_contexts" by (simp add: environment_contexts_def new_context_def)
  have n: "?cs ! Suc j = ?us ! j" for j
    by (metis nth_tl nth_Cons_Suc list.exhaust_sel top has_top.simps(1) has_top_put_vars tl_put_vars)
  have us: "ctx_empty (?cs ! 1)" "get_values (?cs ! 3) = []"
    using n [of 0] n [of 2] by (simp_all add: environment_contexts_def new_context_def ctx_empty_def get_values_def merge_layer_def numeral_eq_Suc)
  have b: "last_value (base_vars h) ''CONTENT_TYPE'' = Some ''text/plain''"
    by (simp add: base_vars_def last_value_def to_upper_def is_lower_def)
  have ct: "get_value ?cs ''CONTENT_TYPE'' = (case last_value vs ''CONTENT_TYPE'' of None \<Rightarrow> ''text/plain'' | Some v \<Rightarrow> v)"
    using b unfolding begun_value by (auto simp: last_value_append split: option.splits)
  show ?thesis using us o h by (simp add: prepared_def Let_def um_iter_def int_save_def save_cookies_def ct)
qed

lemma path_vars_names: "p \<in> set (path_vars d cnt ps) \<Longrightarrow> \<exists>r. fst p = ''arg'' @ r"
  by (induction ps arbitrary: cnt) (auto split: if_splits)

lemma path_vars_no_type: "last_value (path_vars d cnt ps) ''CONTENT_TYPE'' = None"
proof (rule last_value_None, rule notI)
  assume "upcase ''CONTENT_TYPE'' \<in> (\<lambda>p. upcase (fst p)) ` set (path_vars d cnt ps)"
  then obtain p where p: "upcase ''CONTENT_TYPE'' = upcase (fst p)" "p \<in> set (path_vars d cnt ps)" by (rule imageE)
  from path_vars_names [OF p(2)] obtain r where "fst p = ''arg'' @ r" by (rule exE)
  with p(1) have "to_upper (CHR ''C'') = to_upper (CHR ''a'')" by (simp only: append_Cons list.map list.inject)
  moreover have "to_upper (CHR ''C'') \<noteq> to_upper (CHR ''a'')" by code_simp
  ultimately show False by (rule notE [rotated])
qed

lemma process_static_page:
  assumes E: "internal_host E" "isession (itp sv) \<noteq> None" "\<forall>j. uuid_at (ext (wd E)) j \<noteq> []"
    and o: "um_order (dclib (wd E)) [] = []"
    and p: "plain_path (hlib E) q" "all_vars E q vars = Some vs" "last_value vs ''@HTML:FIRST@'' = None"
    and u: "u = url_of E (''file://'' @ get_field (hlib E) Path_translated q)" "\<not> use_cache (itp sv) \<or> map_of (apps (itp sv)) u = None"
    and doc: "xml_open (reader E) u = Some (events sc uri 0 (D_elem nm as ds), 0)" "html_uri uri"
      "parsable (D_elem nm as ds)" "safe_doc (folded (D_elem nm as ds))" "doc_depth (folded (D_elem nm as ds)) \<le> n"
  shows "\<exists>sv'. process_cgi_request E n q vars sv =
    (Ok (static_response E vs (serialize (um_order (dclib (wd E))) (folded (D_elem nm as ds)))), sv')"
proof -
  from process_internal [OF E(1,2), of n q vars] E(3) obtain h i where
    1: "process_cgi_request E n q vars sv =
      (case run_page E n q vars (begun_server h i sv) of (r, sv1) \<Rightarrow> answer_to E q h r sv1)" "sid h \<noteq> []" by blast
  let ?sv = "begun_server h i sv"
  have c: "compare_refl (dclib (wd E))" using E(1) by (simp add: internal_host_def)
  have cs: "ctxs (pstate ?sv) = put_vars (base_vars h) environment_contexts" "itp ?sv = itp sv"
    by (simp_all add: begun_server_def env_begun_def)
  have top: "has_top environment_contexts" by (simp add: environment_contexts_def new_context_def)
  note v = begun_value [of vs h, folded cs(1)]
  have "get_value (put_vars vs (ctxs (pstate ?sv))) ''@HTML:FIRST@'' = []"
    unfolding v by (simp add: last_value_append p(3)) (simp add: base_vars_def last_value_def to_upper_def is_lower_def)
  from run_static_page [OF c p(1,2) _ this u(1) _ doc] u(2) top cs obtain sv1 where
    2: "run_page E n q vars ?sv = (Ok (serialize (um_order (dclib (wd E))) (folded (D_elem nm as ds))), sv1)"
      "ctxs (pstate sv1) = put_vars vs (put_vars (base_vars h) environment_contexts)" by auto
  have "prepared E q h (ctxs (pstate sv1)) (first_response E) =
      set_content_type (hlib E) (case last_value vs ''CONTENT_TYPE'' of None \<Rightarrow> ''text/plain'' | Some v \<Rightarrow> v) (first_response E)"
    unfolding 2(2) by (rule prepared_vars [OF o 1(2)])
  with 1(1) 2(1) show ?thesis by (simp add: answer_to_def static_response_def)
qed

text \<open>A page that cannot be opened: the answer is that of \<open>not_found\<close>, and nothing is logged.\<close>

lemma process_missing_page:
  assumes E: "internal_host E" "isession (itp sv) \<noteq> None" "\<forall>j. uuid_at (ext (wd E)) j \<noteq> []"
    and o: "um_order (dclib (wd E)) [] = []"
    and p: "plain_path (hlib E) q" "u = url_of E (''file://'' @ get_field (hlib E) Path_translated q)"
    and u: "\<not> use_cache (itp sv) \<or> map_of (apps (itp sv)) u = None" "xml_open (reader E) u = None"
  shows "\<exists>sv'. process_cgi_request E (Suc m) q vars sv =
      (Ok (plain_error (hlib E) (not_found (hlib E)) (fmt (dclib (wd E)) ''unable to open file '{0}'. {1}'' [u, []])
        (set_content_type (hlib E) ''text/plain'' (first_response E))), sv') \<and>
    itp sv' = itp sv \<and> heap (pstate sv') = heap (pstate sv) \<and> logged (pstate sv') = logged (pstate sv)"
proof -
  let ?e = "Parser_exc 1 (fmt (dclib (wd E)) ''unable to open file '{0}'. {1}'' [u, []])"
  from process_internal [OF E(1,2), of "Suc m" q vars] E(3) obtain h i where
    1: "process_cgi_request E (Suc m) q vars sv =
      (case run_page E (Suc m) q vars (begun_server h i sv) of (r, sv1) \<Rightarrow> answer_to E q h r sv1)" "sid h \<noteq> []" by blast
  let ?sv = "begun_server h i sv"
  have sv: "ctxs (pstate ?sv) = put_vars (base_vars h) environment_contexts" "itp ?sv = itp sv"
    "heap (pstate ?sv) = heap (pstate sv)" "logged (pstate ?sv) = logged (pstate sv)"
    by (simp_all add: begun_server_def env_begun_def)
  have c: "compare_refl (dclib (wd E))" using E(1) by (simp add: internal_host_def)
  have top: "has_top environment_contexts" by (simp add: environment_contexts_def new_context_def)
  let ?pv = "path_vars (dclib (wd E)) 0 (tokenize_by (dclib (wd E)) (get_field (hlib E) Path_info q) ''/'')"
  define s1 where "s1 = (pstate ?sv)\<lparr>ctxs := put_vars ?pv (ctxs (pstate ?sv))\<rparr>"
  have g: "get_path (host.truncate E) q (pstate ?sv) = (Ok (get_field (hlib E) Path_translated q), [], s1)"
    using get_path_plain [of "host.truncate E" q "pstate ?sv"] c p(1) top sv by (simp add: s1_def)
  have n: "new_application E f (Suc m) u s = (Throw ?e, [], s)" for f s
    using u(2) by (simp add: new_application_def bind_Throw throwM_def)
  have 2: "run_page E (Suc m) q vars ?sv = (Throw ?e, ?sv\<lparr>pstate := s1\<rparr>)"
    using g u(1) n sv(2) p(2) by (auto simp: run_page_def bindS_def on_page_def get_app_def Let_def)
  have "prepared E q h (ctxs s1) (first_response E) = set_content_type (hlib E) ''text/plain'' (first_response E)"
    using prepared_vars [OF o 1(2), where vs = ?pv] sv(1) by (simp add: s1_def path_vars_no_type)
  with 1(1) 2 sv show ?thesis by (simp add: answer_to_def ended_def error_log_def s1_def)
qed

section \<open>From the client and back\<close>

definition wire_parts :: "('q, 'r) http \<Rightarrow> 'r \<Rightarrow> byte list list" where
  "wire_parts H resp = [ascii (''Status: '' @ get_status H resp), ascii CRLF, ascii (response_text H resp)]"

lemma send_response_parts: "send_response H resp = put_all (wire_parts H resp)"
proof -
  have "FCGX_PutS (ascii CRLF) = FCGX_PutStr (ascii CRLF)"
    by (simp add: FCGX_PutS_def ascii_def CRLF_def)
  then show ?thesis by (simp add: send_response_def wire_parts_def)
qed

text \<open>The HTTP request that the parameters of an accepted request without a body give.\<close>

definition read_params :: "'d dcl \<Rightarrow> ('q, 'r) http \<Rightarrow> byte list list \<Rightarrow> 'q reading outcome" where
  "read_params d H env =
     read_env d H (map (\<lambda>e. c_str (text_of e)) env) \<lparr>rd_req = new_request H, rd_len = 0, rd_vars = []\<rparr>"

text \<open>What the server answers is what the client gets.\<close>

lemma serve_delivers:
  assumes s: "serves fd env W rq k" and k: "reliable fd k" "\<not> asyncIoInUse (aio k)" "fd \<noteq> -1"
    and a: "read_params (dclib (wd E)) (hlib E) env = Ok a" "rd_len a \<le> 0"
    and p: "process_cgi_request E n (rd_req a) (rd_vars a) sv = (Ok resp, sv')"
  shows "\<exists>rq2 k2 rq3 k3 cs. serve_request E f n rq k sv = Ret (Ok (), rq2, k2, sv') \<and>
    FCGX_Finish_r rq2 k2 = Ret (rq3, k3) \<and> concat cs = concat (wire_parts (hlib E) resp) \<and>
    list_all (\<lambda>c. c \<noteq> [] \<and> length c \<le> 65528) cs \<and>
    finished fd (keepConnection (core rq))
      (sent_on fd k @ response (requestId (core rq)) (appStatus (core rq)) cs) k rq3 k3"
proof -
  from s obtain ins os where io: "in_stream rq = Some ins" "out_stream rq = Some os" "envp rq = Some env"
    by (auto simp: serves_def)
  from finish_response [OF s k io(2), of "wire_parts (hlib E) resp"] obtain w k1 rq' k2 cs where
    1: "run_on os (put_all (wire_parts (hlib E) resp)) (core rq, k) = Ret ((), w, core rq, k1)"
      "FCGX_Finish_r (rq\<lparr>out_stream := Some w\<rparr>) k1 = Ret (rq', k2)"
      "concat cs = concat (wire_parts (hlib E) resp)" "list_all (\<lambda>c. c \<noteq> [] \<and> length c \<le> 65528) cs"
      "finished fd (keepConnection (core rq))
        (sent_on fd k @ response (requestId (core rq)) (appStatus (core rq)) cs) k rq' k2" by blast
  have g: "get_request f (dclib (wd E)) (hlib E) (envp rq) ins (core rq, k) = Ret (Ok (rd_req a, rd_vars a), ins, core rq, k)"
    using a io(3) by (simp add: get_request_def read_params_def)
  have rq: "rq\<lparr>in_stream := Some ins, core := core rq\<rparr> = rq" using io(1) by (cases rq) simp
  have "serve_request E f n rq k sv = Ret (Ok (), rq\<lparr>out_stream := Some w\<rparr>, k1, sv')"
    using g p 1(1) io rq by (simp add: serve_request_def send_response_parts)
  with 1 show ?thesis by blast
qed

text \<open>All together, from the bytes that the client sends.\<close>

lemma static_page_served:
  assumes rq: "in_stream rq = None" "ipcFd (core rq) = -1"
    and k: "\<not> shutdownPending k" "\<not> shutdownNow k" "accepts k = Acc_conn fd pr c # evs" "admitted ia addrs pr" "0 \<le> fd"
      "\<not> asyncIoInUse (aio k)"
    and c: "list_all (\<lambda>e. arrived e \<noteq> []) (crx c)" "concat (map arrived (crx c)) = request_bytes rid body rs @ W"
      "list_all takes (cplan c)" "csent c = []"
    and ok: "request_ok rid body rs ps" and re: "role_entry (two_bytes (body ! 0) (body ! 1)) = Some re"
    and fuel: "length (request_bytes rid body rs @ W) < f"
    and a: "read_params (dclib (wd E)) (hlib E) (re # map pair_entry ps) = Ok a" "rd_len a \<le> 0"
    and E: "internal_host E" "isession (itp sv) \<noteq> None" "\<forall>j. uuid_at (ext (wd E)) j \<noteq> []" "um_order (dclib (wd E)) [] = []"
    and p: "plain_path (hlib E) (rd_req a)" "all_vars E (rd_req a) (rd_vars a) = Some vs" "last_value vs ''@HTML:FIRST@'' = None"
    and u: "u = url_of E (''file://'' @ get_field (hlib E) Path_translated (rd_req a))"
      "\<not> use_cache (itp sv) \<or> map_of (apps (itp sv)) u = None"
    and doc: "xml_open (reader E) u = Some (events sc uri 0 (D_elem nm as ds), 0)" "html_uri uri"
      "parsable (D_elem nm as ds)" "safe_doc (folded (D_elem nm as ds))" "doc_depth (folded (D_elem nm as ds)) \<le> n"
  shows "\<exists>rq1 k1 rq2 k2 sv2 rq3 k3 cs. FCGX_Accept_r (Suc m) f ia True addrs rq k = Ret (0, rq1, k1) \<and>
    serve_request E f n rq1 k1 sv = Ret (Ok (), rq2, k2, sv2) \<and> FCGX_Finish_r rq2 k2 = Ret (rq3, k3) \<and>
    concat cs = concat (wire_parts (hlib E)
      (static_response E vs (serialize (um_order (dclib (wd E))) (folded (D_elem nm as ds))))) \<and>
    list_all (\<lambda>c. c \<noteq> [] \<and> length c \<le> 65528) cs \<and>
    finished fd (body ! 2 AND FCGI_KEEP_CONN \<noteq> 0) (response rid (appStatus (core rq)) cs) k rq3 k3"
proof -
  from accept_r_request [OF rq k(1-5) c(1,2) ok re fuel] obtain rq1 k1 where
    1: "FCGX_Accept_r (Suc m) f ia True addrs rq k = Ret (0, rq1, k1)" "serves fd (re # map pair_entry ps) W rq1 k1"
      "requestId (core rq1) = rid" "keepConnection (core rq1) = (body ! 2 AND FCGI_KEEP_CONN \<noteq> 0)"
      "appStatus (core rq1) = appStatus (core rq)" "rx_only fd ((set_conn fd c k)\<lparr>accepts := evs\<rparr>) k1" by blast
  from 1(6) obtain x where k1: "k1 = set_conn fd (c\<lparr>crx := x\<rparr>) ((set_conn fd c k)\<lparr>accepts := evs\<rparr>)"
    by (auto simp: rx_only_def)
  then have r: "reliable fd k1" "\<not> asyncIoInUse (aio k1)" "sent_on fd k1 = []" "closed_log k1 = closed_log k"
    using k c(3,4) by (auto simp: reliable_def sent_on_def)
  from process_static_page [OF E p u doc] obtain sv2 where
    2: "process_cgi_request E n (rd_req a) (rd_vars a) sv =
      (Ok (static_response E vs (serialize (um_order (dclib (wd E))) (folded (D_elem nm as ds)))), sv2)" by blast
  from serve_delivers [OF 1(2) r(1,2) _ a 2, of f] k(5) obtain rq2 k2 rq3 k3 cs where
    3: "serve_request E f n rq1 k1 sv = Ret (Ok (), rq2, k2, sv2)" "FCGX_Finish_r rq2 k2 = Ret (rq3, k3)"
      "concat cs = concat (wire_parts (hlib E)
        (static_response E vs (serialize (um_order (dclib (wd E))) (folded (D_elem nm as ds)))))"
      "list_all (\<lambda>c. c \<noteq> [] \<and> length c \<le> 65528) cs"
      "finished fd (keepConnection (core rq1)) (sent_on fd k1 @ response (requestId (core rq1)) (appStatus (core rq1)) cs) k1 rq3 k3"
    by auto
  have "finished fd (body ! 2 AND FCGI_KEEP_CONN \<noteq> 0) (response rid (appStatus (core rq)) cs) k rq3 k3"
    using 3(5) unfolding finished_def r(3,4) 1(3,4,5) by simp
  with 1(1) 3 show ?thesis by blast
qed

end
