(* ===== verification/Server_Properties.thy ===== *)
theory Server_Properties
  imports Server_Correct Sample Fcgi_Properties
begin

text \<open>The properties of sessions, environments and the FastCGI server, with witnesses on a small site.\<close>

section \<open>A small site\<close>

record sample_query =
  sq_field :: "req_field \<Rightarrow> string"
  sq_port :: int
  sq_https :: bool
  sq_headers :: "(string \<times> string) list"
  sq_content :: "string option"

record sample_answer =
  sa_status :: int
  sa_headers :: "(string \<times> string) list"
  sa_type :: string
  sa_content :: string
  sa_cookies :: "http_cookie list"

definition sample_method :: "string \<Rightarrow> http_method" where
  "sample_method t = (if t = ''HEAD'' then M_head else if t = ''GET'' then M_get else if t = ''DELETE'' then M_del
     else if t = ''PUT'' then M_put else if t = ''POST'' then M_post else M_other)"

definition sample_http :: "(sample_query, sample_answer) http" where
  "sample_http = \<lparr>new_request = \<lparr>sq_field = (\<lambda>_. []), sq_port = 0, sq_https = False, sq_headers = [], sq_content = None\<rparr>,
     set_field = (\<lambda>f v q. q\<lparr>sq_field := (sq_field q)(f := v)\<rparr>), set_server_port = (\<lambda>n q. q\<lparr>sq_port := n\<rparr>),
     set_https = (\<lambda>b q. q\<lparr>sq_https := b\<rparr>), set_req_header = (\<lambda>n v q. q\<lparr>sq_headers := sq_headers q @ [(n, v)]\<rparr>),
     set_req_content = (\<lambda>t q. q\<lparr>sq_content := Some t\<rparr>), get_field = (\<lambda>f q. sq_field q f),
     get_method = (\<lambda>q. sample_method (sq_field q Request_method)), get_server_port = sq_port, get_https = sq_https,
     all_headers = sq_headers, get_content = sq_content, get_cookies = (\<lambda>_. []),
     new_response = \<lparr>sa_status = 200, sa_headers = [], sa_type = [], sa_content = [], sa_cookies = []\<rparr>,
     set_status = (\<lambda>i r. r\<lparr>sa_status := i\<rparr>), set_header = (\<lambda>n v r. r\<lparr>sa_headers := sa_headers r @ [(n, v)]\<rparr>),
     set_content = (\<lambda>t r. r\<lparr>sa_content := t\<rparr>), set_content_type = (\<lambda>t r. r\<lparr>sa_type := t\<rparr>),
     set_cookies = (\<lambda>cs r. r\<lparr>sa_cookies := cs\<rparr>), set_cookie = (\<lambda>c r. r\<lparr>sa_cookies := [c]\<rparr>),
     get_status = (\<lambda>r. show_int (sa_status r)), get_content_type = sa_type,
     response_text = (\<lambda>r. ''Content-Type: '' @ sa_type r @ CRLF @ CRLF @ sa_content r),
     new_cookie = (\<lambda>n v. \<lparr>cookie_name = n, cookie_value = v, cookie_path = [], http_only = False, same_site = [],
       secure = False, partitioned = False, expires = None\<rparr>),
     not_found = 404, internal_server_error = 500\<rparr>"

abbreviation sample_page :: doc where
  "sample_page \<equiv> D_elem ''p'' [] [D_text ''hi'']"

definition sample_site :: "(int, session_holder_int, sample_query, sample_answer) site" where
  "sample_site = \<lparr>wd = sample_world, hlib = sample_http, sess = session_int sample_world sample_http,
     mime_parse = (\<lambda>t. Mime [] [] [] [] t []), xml_root = (\<lambda>t. Some ''a''),
     reader = \<lparr>xml_open = (\<lambda>u. if u = ''file:///p'' then Some (events (\<lambda>n. False) [] 0 sample_page, 0) else None),
               xml_error = (\<lambda>_. []), include_url = (\<lambda>b h. h)\<rparr>,
     url_of = (\<lambda>t. t)\<rparr>"

definition sample_server :: server where
  "sample_server = \<lparr>pstate = sample_state [],
     itp = (new_interpreter tag_factory)\<lparr>isession := Some Internal_service, use_cache := True\<rparr>\<rparr>"

lemma sample_internal: "internal_host sample_site" "isession (itp sample_server) \<noteq> None"
  "\<forall>j. uuid_at (ext (wd sample_site)) j \<noteq> []" "um_order (dclib (wd sample_site)) [] = []" "fresh_tags (pstate sample_server)"
  by (simp_all add: internal_host_def sample_site_def sample_world_def sample_dcl_def sample_ext_def compare_refl_def
      sample_server_def sample_state_def fresh_tags_def new_interpreter_def show_nat.simps)

lemma sample_http_fields: "http_fields sample_http"
  by (simp add: http_fields_def sample_http_def)

lemma sample_parts [simp]: "wd sample_site = sample_world" "hlib sample_site = sample_http" "url_of sample_site = (\<lambda>t. t)"
  by (simp_all add: sample_site_def)

lemma c_str_pair:
  assumes "0 \<notin> set (n @ v)"
  shows "c_str (text_of (pair_entry (n, v))) = text_of n @ CHR ''='' # text_of v"
proof -
  have z: "code (char_of (unat b)) \<noteq> 0" if "b \<noteq> 0" for b :: byte
  proof -
    have "unat b < 2 ^ LENGTH(8)" by (rule unsigned_less)
    with that show ?thesis by (simp add: unat_eq_zero)
  qed
  have t: "c_str (text_of bs) = text_of bs" if "0 \<notin> set bs" for bs :: "byte list"
    unfolding c_str_def takeWhile_eq_all_conv using that z by (auto simp del: of_char_of) (metis z)
  have "char_of (61 :: nat) = CHR ''=''" by code_simp
  with t [of "n @ [equals_sign] @ v"] assms show ?thesis by (simp add: equals_sign_def)
qed

section \<open>Serving a page\<close>

definition site_pairs :: "(byte list \<times> byte list) list" where
  "site_pairs = [(ascii ''REQUEST_METHOD'', ascii ''GET''), (ascii ''PATH_TRANSLATED'', ascii ''/p'')]"

definition site_param_recs :: "rec list" where
  "site_param_recs = [(FCGI_PARAMS, 1, concat (map encode_pair site_pairs), [])]"

definition site_bytes :: "byte list" where
  "site_bytes = request_bytes 1 sample_body site_param_recs @ []"

definition site_conn :: conn where
  "site_conn = \<lparr>crx = [Rx_bytes (take 3 site_bytes), Rx_bytes (drop 3 site_bytes)], cplan = [Tx_take 5], csent = []\<rparr>"

definition site_arrival :: kernel where
  "site_arrival = (sample_kernel [])\<lparr>accepts := [Acc_conn 7 (Unix_socket True) site_conn]\<rparr>"

definition site_query :: sample_query where
  "site_query = (new_request sample_http)\<lparr>sq_field := ((\<lambda>_. [])(Request_method := ''GET''))(Path_translated := ''/p'')\<rparr>"

definition site_reading :: "sample_query reading" where
  "site_reading = \<lparr>rd_req = site_query, rd_len = 0, rd_vars = [(''ENV_FCGI_ROLE'', ''RESPONDER'')]\<rparr>"

lemma site_read: "read_params (dclib sample_world) sample_http (ascii ''FCGI_ROLE=RESPONDER'' # map pair_entry site_pairs) = Ok site_reading"
proof -
  have l: "map (\<lambda>e. c_str (text_of e)) (ascii ''FCGI_ROLE=RESPONDER'' # map pair_entry site_pairs) =
      [''FCGI_ROLE=RESPONDER'', ''REQUEST_METHOD=GET'', ''PATH_TRANSLATED=/p'']"
    by code_simp
  have s: "split_env ''FCGI_ROLE=RESPONDER'' = (''FCGI_ROLE'', ''RESPONDER'')" "split_env ''REQUEST_METHOD=GET'' = (''REQUEST_METHOD'', ''GET'')"
    "split_env ''PATH_TRANSLATED=/p'' = (''PATH_TRANSLATED'', ''/p'')" by code_simp+
  have f: "map_of field_names ''FCGI_ROLE'' = None" "map_of field_names ''REQUEST_METHOD'' = Some Request_method"
    "map_of field_names ''PATH_TRANSLATED'' = Some Path_translated" by code_simp+
  show ?thesis
    unfolding read_params_def l by (simp add: s f analyze_def site_reading_def site_query_def sample_http_def)
qed

lemma site_vars: "\<exists>vs. all_vars sample_site site_query [(''ENV_FCGI_ROLE'', ''RESPONDER'')] = Some vs \<and>
   last_value vs ''@HTML:FIRST@'' = None \<and> last_value vs ''CONTENT_TYPE'' = None"
  by (rule exI, rule conjI, code_simp) code_simp

lemma sample_page_ok: "html_uri []" "parsable sample_page" "safe_doc (folded sample_page)" "doc_depth (folded sample_page) \<le> 5"
  "serialize (um_order (dclib sample_world)) (folded sample_page) = ''<p>hi</p>''"
  by (simp_all add: html_uri_def is_prefix_def dbpager_custom_uri_def dbpager_uri_def its_uri_def safe_name_def safe_text_def
      plain_char_def markup_char_def stub_byte_def um_iter_def attr_text_def htmlentities_def entity.simps void_tags_def)

lemma sample_open: "xml_open (reader sample_site) ''file:///p'' = Some (events (\<lambda>n. False) [] 0 sample_page, 0)"
  by (simp add: sample_site_def)

text \<open>
  C1: A client that sends a request for a static page gets the page: from the bytes on the connection, cut into
  records and delivered in any way, over the parameters, the environment, the parser and the interpreter to
  the records of the answer, which carry the status, the headers and the markup of the page, followed by the
  end of the request; the connection is kept exactly if the client asked for it.
\<close>

theorem serve_static_page:
  assumes "in_stream rq = None" "ipcFd (core rq) = -1"
    and "\<not> shutdownPending k" "\<not> shutdownNow k" "accepts k = Acc_conn fd pr c # evs" "admitted ia addrs pr" "0 \<le> fd"
      "\<not> asyncIoInUse (aio k)"
    and "list_all (\<lambda>e. arrived e \<noteq> []) (crx c)" "concat (map arrived (crx c)) = request_bytes rid body rs @ W"
      "list_all takes (cplan c)" "csent c = []"
    and "request_ok rid body rs ps" and "role_entry (two_bytes (body ! 0) (body ! 1)) = Some re"
    and "length (request_bytes rid body rs @ W) < f"
    and "read_params (dclib (wd E)) (hlib E) (re # map pair_entry ps) = Ok a" "rd_len a \<le> 0"
    and "internal_host E" "isession (itp sv) \<noteq> None" "\<forall>j. uuid_at (ext (wd E)) j \<noteq> []" "um_order (dclib (wd E)) [] = []"
    and "plain_path (hlib E) (rd_req a)" "all_vars E (rd_req a) (rd_vars a) = Some vs" "last_value vs ''@HTML:FIRST@'' = None"
    and "u = url_of E (''file://'' @ get_field (hlib E) Path_translated (rd_req a))"
      "\<not> use_cache (itp sv) \<or> map_of (apps (itp sv)) u = None"
    and "xml_open (reader E) u = Some (events sc uri 0 (D_elem nm as ds), 0)" "html_uri uri"
      "parsable (D_elem nm as ds)" "safe_doc (folded (D_elem nm as ds))" "doc_depth (folded (D_elem nm as ds)) \<le> n"
  shows "\<exists>rq1 k1 rq2 k2 sv2 rq3 k3 cs. FCGX_Accept_r (Suc m) f ia True addrs rq k = Ret (0, rq1, k1) \<and>
    serve_request E f n rq1 k1 sv = Ret (Ok (), rq2, k2, sv2) \<and> FCGX_Finish_r rq2 k2 = Ret (rq3, k3) \<and>
    concat cs = concat (wire_parts (hlib E)
      (static_response E vs (serialize (um_order (dclib (wd E))) (folded (D_elem nm as ds))))) \<and>
    list_all (\<lambda>c. c \<noteq> [] \<and> length c \<le> 65528) cs \<and>
    finished fd (body ! 2 AND FCGI_KEEP_CONN \<noteq> 0) (response rid (appStatus (core rq)) cs) k rq3 k3"
  using assms by (rule static_page_served)

lemma site_request_ok: "request_ok 1 sample_body site_param_recs site_pairs"
  by (simp add: request_ok_def ident_def sample_body_def site_param_recs_def small_packet_def fcgi_types site_pairs_def
      encode_length_def ascii_def)

theorem serve_static_page_witness:
  "\<exists>rq1 k1 rq2 k2 sv2 rq3 k3 cs. FCGX_Accept_r 1 400 (\<lambda>_. 0) True None (FCGX_InitRequest 0 0) site_arrival = Ret (0, rq1, k1) \<and>
    serve_request sample_site 400 5 rq1 k1 sample_server = Ret (Ok (), rq2, k2, sv2) \<and> FCGX_Finish_r rq2 k2 = Ret (rq3, k3) \<and>
    concat cs = ascii (''Status: 200'' @ CRLF @ ''Content-Type: text/plain'' @ CRLF @ CRLF @ ''<p>hi</p>'') \<and>
    closed_log k3 = [(7, response 1 0 cs)]"
proof -
  have len: "length site_bytes < 400" "drop 3 site_bytes \<noteq> []" "take 3 site_bytes \<noteq> []" by code_simp+
  have r: "role_entry (two_bytes (sample_body ! 0) (sample_body ! 1)) = Some (ascii ''FCGI_ROLE=RESPONDER'')"
    "sample_body ! 2 AND FCGI_KEEP_CONN = 0"
    by (simp_all add: sample_body_def two_bytes_def role_entry_def FCGI_RESPONDER_def FCGI_KEEP_CONN_def)
  have k: "\<not> shutdownPending site_arrival" "\<not> shutdownNow site_arrival"
    "accepts site_arrival = Acc_conn 7 (Unix_socket True) site_conn # []" "admitted (\<lambda>_. 0) None (Unix_socket True)"
    "in_stream (FCGX_InitRequest 0 0) = None" "ipcFd (core (FCGX_InitRequest 0 0)) = -1" "\<not> asyncIoInUse (aio site_arrival)"
    "appStatus (core (FCGX_InitRequest 0 0)) = 0" "closed_log site_arrival = []"
    by (simp_all add: site_arrival_def sample_kernel_def admitted_def FCGX_InitRequest_def sample_aio_def OS_LibInit_def)
  have c: "list_all (\<lambda>e. arrived e \<noteq> []) (crx site_conn)" "concat (map arrived (crx site_conn)) = site_bytes"
    "list_all takes (cplan site_conn)" "csent site_conn = []"
    using len by (simp_all add: site_conn_def)
  have q: "rd_req site_reading = site_query" "rd_vars site_reading = [(''ENV_FCGI_ROLE'', ''RESPONDER'')]" "rd_len site_reading \<le> 0"
    "plain_path sample_http site_query" "''file:///p'' = ''file://'' @ get_field sample_http Path_translated site_query"
    by (simp_all add: site_reading_def site_query_def sample_http_def plain_path_def sample_method_def)
  from site_vars obtain vs where vs: "all_vars sample_site site_query [(''ENV_FCGI_ROLE'', ''RESPONDER'')] = Some vs"
    "last_value vs ''@HTML:FIRST@'' = None" "last_value vs ''CONTENT_TYPE'' = None" by blast
  have w: "concat (wire_parts sample_http (static_response sample_site vs ''<p>hi</p>'')) =
      ascii (''Status: 200'' @ CRLF @ ''Content-Type: text/plain'' @ CRLF @ CRLF @ ''<p>hi</p>'')"
    by (simp add: wire_parts_def static_response_def first_response_def vs(3) sample_http_def ascii_def show_int_def show_nat.simps)
  have cache: "map_of (apps (itp sample_server)) ''file:///p'' = None"
    by (simp add: sample_server_def new_interpreter_def)
  show ?thesis
    using serve_static_page [OF k(5,6,1-4) _ k(7) c(1) c(2) [unfolded site_bytes_def] c(3,4) site_request_ok r(1)
      len(1) [unfolded site_bytes_def], where E = sample_site and sv = sample_server and n = 5 and m = 0, unfolded sample_parts,
      OF _ site_read q(3) sample_internal(1,2) _ _ _ _ vs(2) _ _ sample_open sample_page_ok(1-4), unfolded sample_page_ok(5) w]
      vs q sample_internal cache r(2) k(8,9)
    by (auto simp: finished_def)
qed

text \<open>
  C2: A page that is in the cache is run from there: the request leaves the cache, the configuration and
  every tag as they were, so the next request for the page finds the same tree.
\<close>

theorem cached_page_reused:
  assumes "internal_host E" "isession (itp sv) \<noteq> None" and "use_cache (itp sv)"
    and "map_of (apps (itp sv)) (url_of E (''file://'' @ get_field (hlib E) Path_translated q)) = Some t"
    and "fresh_tags (pstate sv)"
    and "process_cgi_request E n q vars sv = (r, sv')" "r \<noteq> Crash" "r \<noteq> Diverge"
  shows "itp sv' = itp sv \<and> heap (pstate sv') = heap (pstate sv)"
  using assms by (rule cached_process)

definition cached_server :: server where
  "cached_server = \<lparr>pstate = sample_state [(0, new_node C_tag_catch [])],
     itp = (new_interpreter tag_factory)\<lparr>isession := Some Internal_service, use_cache := True, apps := [(''file:///p'', 0)]\<rparr>\<rparr>"

theorem cached_page_reused_witness:
  "itp (snd (process_cgi_request sample_site 2 site_query [] cached_server)) = itp cached_server \<and>
   heap (pstate (snd (process_cgi_request sample_site 2 site_query [] cached_server))) = heap (pstate cached_server)"
proof -
  let ?p = "process_cgi_request sample_site 2 site_query [] cached_server"
  have "(case fst ?p of Ok r \<Rightarrow> True | _ \<Rightarrow> False)" by code_simp
  then have r: "fst ?p \<noteq> Crash" "fst ?p \<noteq> Diverge" by (auto split: outcome.splits)
  have c: "isession (itp cached_server) \<noteq> None" "use_cache (itp cached_server)" "fresh_tags (pstate cached_server)"
    "map_of (apps (itp cached_server)) (url_of sample_site (''file://'' @ get_field (hlib sample_site) Path_translated site_query)) = Some 0"
    by (simp_all add: cached_server_def fresh_tags_def sample_state_def site_query_def sample_http_def)
  from cached_page_reused [OF sample_internal(1) c(1,2,4,3) surjective_pairing r] show ?thesis .
qed

section \<open>Requests\<close>

text \<open>
  C3: The fields of the HTTP request are those of the parameters that the web server sent; of a name sent twice
  the later value counts.
\<close>

theorem request_fields:
  assumes "http_fields H" and "list_all (\<lambda>(n, v). 0 \<notin> set (n @ v) \<and> CHR ''='' \<notin> set (text_of n)) ps"
    and "get_request f d H (Some (map pair_entry ps)) ins rk = Ret (Ok (q, vars), rest)"
  shows "get_field H fl q =
    (case map_of (rev (map (\<lambda>(n, v). (text_of n, text_of v)) ps)) (field_name fl) of
       Some v \<Rightarrow> v | None \<Rightarrow> get_field H fl (new_request H))"
proof -
  let ?lines = "map (\<lambda>e. c_str (text_of e)) (map pair_entry ps)"
  have l: "map split_env ?lines = map (\<lambda>(n, v). (text_of n, text_of v)) ps"
    using assms(2) by (induction ps) (auto simp: c_str_pair split_env_pair simp del: pair_entry.simps)
  from assms(3) obtain a where a: "read_env d H ?lines \<lparr>rd_req = new_request H, rd_len = 0, rd_vars = []\<rparr> = Ok a"
    "q = rd_req a \<or> (\<exists>t. q = set_req_content H t (rd_req a))"
    by (auto simp: get_request_def bindR_Ret_iff split: outcome.splits if_splits)
  have "get_field H fl q = get_field H fl (rd_req a)" using a(2) assms(1) by (auto simp: http_fields_def)
  also have "\<dots> = (case map_of (rev (map split_env ?lines)) (field_name fl) of
      Some v \<Rightarrow> v | None \<Rightarrow> get_field H fl (new_request H))"
    using read_env_field [OF assms(1) a(1), of fl] by (simp split: option.split)
  finally show ?thesis unfolding l .
qed

theorem request_fields_witness:
  "\<exists>q vars rest. get_request 9 (dclib sample_world) sample_http (Some (map pair_entry site_pairs))
      (NewReader 4096 8192 FCGI_STDIN) (sample_req, sample_kernel []) = Ret (Ok (q, vars), rest) \<and>
    get_field sample_http Path_translated q = ''/p''"
proof -
  have l: "map (\<lambda>e. c_str (text_of e)) (map pair_entry site_pairs) = [''REQUEST_METHOD=GET'', ''PATH_TRANSLATED=/p'']"
    "map (\<lambda>(n, v). (text_of n, text_of v)) site_pairs = [(''REQUEST_METHOD'', ''GET''), (''PATH_TRANSLATED'', ''/p'')]"
    by code_simp+
  have s: "split_env ''REQUEST_METHOD=GET'' = (''REQUEST_METHOD'', ''GET'')" "split_env ''PATH_TRANSLATED=/p'' = (''PATH_TRANSLATED'', ''/p'')"
    "map_of field_names ''REQUEST_METHOD'' = Some Request_method" "map_of field_names ''PATH_TRANSLATED'' = Some Path_translated"
    by code_simp+
  have "read_env (dclib sample_world) sample_http [''REQUEST_METHOD=GET'', ''PATH_TRANSLATED=/p'']
      \<lparr>rd_req = new_request sample_http, rd_len = 0, rd_vars = []\<rparr> = Ok \<lparr>rd_req = site_query, rd_len = 0, rd_vars = []\<rparr>"
    by (simp add: s analyze_def site_query_def sample_http_def)
  then have g: "get_request 9 (dclib sample_world) sample_http (Some (map pair_entry site_pairs))
      (NewReader 4096 8192 FCGI_STDIN) (sample_req, sample_kernel []) =
      Ret (Ok (site_query, []), NewReader 4096 8192 FCGI_STDIN, sample_req, sample_kernel [])"
    by (simp only: get_request_def option.case l) simp
  have "list_all (\<lambda>(n, v). 0 \<notin> set (n @ v) \<and> CHR ''='' \<notin> set (text_of n)) site_pairs" by code_simp
  from request_fields [OF sample_http_fields this g, of Path_translated] g show ?thesis
    by (simp add: l field_name_def)
qed

section \<open>Variables\<close>

text \<open>The laws of dcl that the query of a request rests on hold for the sample.\<close>

lemma str_find_first:
  assumes "c \<notin> set a"
  shows "str_find (a @ c # b) [c] 0 = Some (length a)"
proof -
  have "find_sub [c] (a @ c # b) = Some (length a)" using assms by (induction a) auto
  then show ?thesis by (simp add: str_find_def)
qed

lemma str_find_none: "c \<notin> set a \<Longrightarrow> str_find a [c] 0 = None"
proof -
  assume "c \<notin> set a"
  then have "find_sub [c] a = None" by (induction a) auto
  then show ?thesis by (simp add: str_find_def)
qed

lemma split_pieces_shift: "split_pieces (x @ s) sep (length x + i) = split_pieces s sep i"
proof (induction s sep i rule: split_pieces.induct)
  case (1 s sep i)
  have f: "str_find (x @ s) sep (length x + i) = map_option ((+) (length x)) (str_find s sep i)"
    by (cases "find_sub sep (drop i s)") (auto simp: str_find_def)
  show ?case
  proof (cases "sep = [] \<or> str_find s sep i = None")
    case True
    then show ?thesis using f by (subst (1 2) split_pieces.simps) auto
  next
    case False
    then obtain p where p: "str_find s sep i = Some p" "sep \<noteq> []" by auto
    with 1 f show ?thesis by (subst (1 2) split_pieces.simps) (simp add: add.assoc)
  qed
qed

lemma split_pieces_cut:
  assumes "ps \<noteq> []" "list_all (\<lambda>p. c \<notin> set p) ps"
  shows "split_pieces (join [c] ps) [c] 0 = ps"
  using assms
proof (induction ps rule: list_nonempty_induct)
  case (single x)
  then show ?case by (subst split_pieces.simps) (simp add: str_find_none)
next
  case (cons x xs)
  have "split_pieces (x @ c # join [c] xs) [c] (length (x @ [c]) + 0) = split_pieces (join [c] xs) [c] 0"
    using split_pieces_shift [of "x @ [c]" "join [c] xs" "[c]" 0] by simp
  with cons show ?case by (subst split_pieces.simps) (simp add: join_Cons str_find_first)
qed

lemma sample_cuts: "cuts (dclib sample_world) c" "cuts_pair (dclib sample_world) c"
proof -
  have "join [c] ps \<noteq> []" if "ps \<noteq> []" "list_all (\<lambda>p. p \<noteq> [] \<and> c \<notin> set p) ps" for ps
    using that by (cases ps; cases "tl ps") auto
  then have "tokenize_by (dclib sample_world) (join [c] ps) [c] = ps" if "list_all (\<lambda>p. p \<noteq> [] \<and> c \<notin> set p) ps" for ps
    using that split_pieces_cut [of ps c] by (cases "ps = []") (auto simp: sample_world_def sample_dcl_def list_all_iff)
  then show "cuts (dclib sample_world) c" by (simp add: cuts_def)
  show "cuts_pair (dclib sample_world) c"
    by (auto simp: cuts_pair_def sample_world_def sample_dcl_def cut_at_def str_find_first)
qed

text \<open>A world with a coding of URLs: two letters for every byte.\<close>

fun two_letters :: "char \<Rightarrow> string" where
  "two_letters c = [char_of (65 + code c div 16), char_of (65 + code c mod 16)]"

fun from_letters :: "string \<Rightarrow> string" where
  "from_letters (a # b # s) = char_of ((code a - 65) * 16 + (code b - 65)) # from_letters s"
| "from_letters _ = []"

definition coded_world :: "int world" where
  "coded_world = sample_world\<lparr>ext := sample_ext\<lparr>url_encode := (\<lambda>t. concat (map two_letters t)), url_decode := from_letters\<rparr>\<rparr>"

definition coded_site :: "(int, session_holder_int, sample_query, sample_answer) site" where
  "coded_site = sample_site\<lparr>wd := coded_world, sess := session_int coded_world sample_http\<rparr>"

lemma letter_small: "(65 + code c div 16) mod 256 = 65 + code c div 16"
proof -
  have "code c < 256" by (rule of_char_less_256)
  then have "65 + code c div 16 < 256" by linarith
  then show ?thesis by simp
qed

lemma two_letters_back: "from_letters (two_letters c @ s) = c # from_letters s"
proof -
  have "(65 + code c div 16 - 65) * 16 + code c mod 16 = code c" by simp
  then show ?thesis by (simp add: letter_small)
qed

lemma coded_url: "url_coding (ext coded_world)"
proof -
  have "from_letters (concat (map two_letters t)) = t" for t
    by (induction t) (simp_all add: two_letters_back del: two_letters.simps from_letters.simps(1))
  moreover have "x \<notin> set (concat (map two_letters t))" if "code x < 65" for x t
    using that by (induction t) (auto simp: letter_small)
  ultimately show ?thesis by (simp add: url_coding_def coded_world_def)
qed

lemma coded_laws: "cuts (dclib coded_world) c" "cuts_pair (dclib coded_world) c" "compare_refl (dclib coded_world)"
  using sample_cuts by (simp_all add: coded_world_def compare_refl_def)





text \<open>
  C9: Neither a header nor the query nor the body of a request can forge the variables that describe it:
  \<open>PATH_INFO\<close>, \<open>HTTP_METHOD\<close>, \<open>HTTP_REMOTE_ADDR\<close>, \<open>SERVER_NAME\<close>, \<open>SERVER_PORT\<close> and \<open>HTTPS\<close> are those of the request.
\<close>

theorem cgi_variables_not_forged:
  assumes "compare_refl (dclib (wd E))" and "request_vars E q = Some vs" and "has_top (ctxs s)"
  shows "\<exists>s'. init_custom_params E q s = (Ok (), [], s') \<and>
    get_value (ctxs s') ''PATH_INFO'' = get_field (hlib E) Path_info q \<and>
    get_value (ctxs s') ''HTTP_METHOD'' = get_field (hlib E) Request_method q \<and>
    get_value (ctxs s') ''HTTP_REMOTE_ADDR'' = get_field (hlib E) Remote_addr q \<and>
    get_value (ctxs s') ''SERVER_NAME'' = get_field (hlib E) Server_name q \<and>
    get_value (ctxs s') ''SERVER_PORT'' = of_int_str (dclib (wd E)) (get_server_port (hlib E) q) \<and>
    get_value (ctxs s') ''HTTPS'' = (if get_https (hlib E) q then ''on'' else [])"
proof -
  let ?c = "cgi_vars E q"
  have "distinct (map fst ?c)" "list_all (\<lambda>(k, v). upcase k = k) ?c" unfolding cgi_vars_def Let_def by code_simp+
  note c = last_value_distinct [OF this]
  from assms(2) obtain ws where vs: "vs = ws @ ?c" by (auto simp: request_vars_def)
  have v: "get_value (put_vars vs (ctxs s)) m = x" if "map_of ?c m = Some x" "upcase m = m" for m x
    using that c [of m] assms(3) by (simp add: vs get_value_put_vars last_value_append)
  have u: "upcase ''PATH_INFO'' = ''PATH_INFO''" "upcase ''HTTP_METHOD'' = ''HTTP_METHOD''" "upcase ''HTTP_REMOTE_ADDR'' = ''HTTP_REMOTE_ADDR''"
    "upcase ''SERVER_NAME'' = ''SERVER_NAME''" "upcase ''SERVER_PORT'' = ''SERVER_PORT''" "upcase ''HTTPS'' = ''HTTPS''"
    by code_simp+
  from assignsD [OF init_custom_params_assigns [OF assms(1,2)] assms(3)] show ?thesis
    by (simp add: v [OF _ u(1)] v [OF _ u(2)] v [OF _ u(3)] v [OF _ u(4)] v [OF _ u(5)] v [OF _ u(6)] cgi_vars_def Let_def)
qed

theorem cgi_variables_not_forged_witness:
  "\<exists>s'. init_custom_params (host.truncate sample_site) site_query (sample_state []) = (Ok (), [], s') \<and>
    get_value (ctxs s') ''HTTP_METHOD'' = ''GET''"
proof -
  have r: "\<exists>vs. request_vars (host.truncate sample_site) site_query = Some vs"
    by (simp add: request_vars_def method_vars_def site_query_def sample_http_def sample_site_def host.truncate_def sample_method_def)
  have "compare_refl (dclib (wd (host.truncate sample_site)))" "has_top (ctxs (sample_state []))"
    by (simp_all add: compare_refl_def sample_state_def sample_contexts_def new_context_def)
  with r cgi_variables_not_forged [of "host.truncate sample_site" site_query _ "sample_state []"] show ?thesis
    by (auto simp: site_query_def sample_http_def)
qed

text \<open>
  The variable \<open>CONTENT_TYPE\<close>, from which the server takes the type of its response, is one that the query
  can set: a link to a page chooses the type under which a browser sees it.
\<close>

theorem query_chooses_type:
  assumes laws: "cuts (dclib (wd E)) (CHR ''&'')" "cuts_pair (dclib (wd E)) (CHR ''='')" "url_coding (ext (wd E))"
    and E: "internal_host E" "isession (itp sv) \<noteq> None" "\<forall>j. uuid_at (ext (wd E)) j \<noteq> []" "um_order (dclib (wd E)) [] = []"
    and q: "get_method (hlib E) q = M_get" "get_field (hlib E) Query_string q = query_text (ext (wd E)) [(''CONTENT_TYPE'', v)]"
      "all_vars E q [] = Some vs" "last_value vs ''@HTML:FIRST@'' = None"
    and u: "u = url_of E (''file://'' @ get_field (hlib E) Path_translated q)" "\<not> use_cache (itp sv) \<or> map_of (apps (itp sv)) u = None"
    and doc: "xml_open (reader E) u = Some (events sc uri 0 (D_elem nm as ds), 0)" "html_uri uri"
      "parsable (D_elem nm as ds)" "safe_doc (folded (D_elem nm as ds))" "doc_depth (folded (D_elem nm as ds)) \<le> n"
  shows "\<exists>sv'. process_cgi_request E n q [] sv =
    (Ok (set_content (hlib E) (serialize (um_order (dclib (wd E))) (folded (D_elem nm as ds)))
      (set_content_type (hlib E) v (first_response E))), sv')"
proof -
  let ?E = "host.truncate E"
  have "last_value (query_vars ?E q) ''CONTENT_TYPE'' = Some v"
    using query_value [OF laws, of "''CONTENT_TYPE''" "[(''CONTENT_TYPE'', v)]"] by (simp add: query_vars_def q(2) values_of_def)
  moreover have "last_value (cgi_vars ?E q) ''CONTENT_TYPE'' = None"
    by (rule last_value_None) (simp add: cgi_vars_def Let_def to_upper_def is_lower_def)
  moreover obtain ws where "vs = ws @ query_vars ?E q @ cgi_vars ?E q"
    using q(1,3) by (auto simp: all_vars_def request_vars_def method_vars_def um_iter_def E(4))
  ultimately have "last_value vs ''CONTENT_TYPE'' = Some v" by (simp add: last_value_append)
  moreover have "plain_path (hlib E) q" by (simp add: plain_path_def q(1))
  ultimately show ?thesis
    using process_static_page [OF E _ q(3,4) u doc] by (simp add: static_response_def)
qed

definition typed_query :: sample_query where
  "typed_query = site_query\<lparr>sq_field := (sq_field site_query)(Query_string := query_text (ext coded_world) [(''CONTENT_TYPE'', ''text/html'')])\<rparr>"

theorem query_chooses_type_witness:
  "\<exists>sv'. process_cgi_request coded_site 5 typed_query [] sample_server =
    (Ok \<lparr>sa_status = 200, sa_headers = [(''X-Powered-By'', ''dbPager (FastCGI)'')], sa_type = ''text/html'',
         sa_content = ''<p>hi</p>'', sa_cookies = []\<rparr>, sv')"
proof -
  have p: "wd coded_site = coded_world" "hlib coded_site = sample_http" "url_of coded_site = (\<lambda>t. t)" "reader coded_site = reader sample_site"
    by (simp_all add: coded_site_def sample_site_def)
  have q: "get_method sample_http typed_query = M_get" "get_field sample_http Path_translated typed_query = ''/p''"
    "get_field sample_http Query_string typed_query = query_text (ext coded_world) [(''CONTENT_TYPE'', ''text/html'')]"
    by (simp_all add: typed_query_def site_query_def sample_http_def sample_method_def)
  have v: "\<exists>vs. all_vars coded_site typed_query [] = Some vs \<and> last_value vs ''@HTML:FIRST@'' = None"
    by (rule exI, rule conjI, code_simp) code_simp
  have i: "internal_host coded_site" "\<forall>j. uuid_at (ext coded_world) j \<noteq> []" "um_order (dclib coded_world) [] = []"
    using coded_laws(3) by (simp_all add: internal_host_def coded_site_def coded_world_def sample_world_def sample_dcl_def sample_ext_def show_nat.simps)
  have f: "um_order (dclib coded_world) = um_order (dclib sample_world)" "app_full_name (ext coded_world) = ''dbPager''"
    by (simp_all add: coded_world_def sample_ext_def)
  have cache: "map_of (apps (itp sample_server)) ''file:///p'' = None" by (simp add: sample_server_def new_interpreter_def)
  from v obtain vs where vs: "all_vars coded_site typed_query [] = Some vs" "last_value vs ''@HTML:FIRST@'' = None" by blast
  have "\<exists>sv'. process_cgi_request coded_site 5 typed_query [] sample_server =
    (Ok (set_content sample_http ''<p>hi</p>'' (set_content_type sample_http ''text/html'' (first_response coded_site))), sv')"
    using query_chooses_type [where E = coded_site and sv = sample_server and n = 5, unfolded p,
      OF coded_laws(1,2) coded_url i(1) sample_internal(2) i(2,3) q(1,3) vs _ _ sample_open sample_page_ok(1-4), unfolded f(1) sample_page_ok(5)]
      q(2) cache by auto
  then show ?thesis by (simp add: first_response_def p f sample_http_def)
qed

section \<open>Sessions\<close>

text \<open>
  The text that a session is saved as gives back the variables of the user when the same holder loads it,
  for names and values without the separators of the format.
\<close>

theorem session_save_load:
  assumes "compare_refl (dclib w)" "cuts (dclib w) (CHR '';'')" "cuts_pair (dclib w) (CHR ''='')" "fair_order (dclib w)"
    and "\<not> ctx_empty c" "wf_layers (vstack c)" "list_all storable (get_values c)" and "has_top (ctxs s)"
  shows "\<exists>s'. int_load w (fst (int_save w H c h resp)) s = (Ok (), [], s') \<and>
    (\<forall>n. get_value (ctxs s') n = (case find_var (vstack c) (upcase n) of Some v \<Rightarrow> v | None \<Rightarrow> get_value (ctxs s) n))"
  using assms by (rule save_load)

definition user_ctx :: ctx where
  "user_ctx = \<lparr>vstack = [[(''LANG'', ''en''), (''CART'', ''a=b'')]], estack = [], vtype = ''user'', has_services = False\<rparr>"

definition sample_holder :: session_holder_int where
  "sample_holder = \<lparr>sid = ''7'', is_new = False, is_https = False, buffer = []\<rparr>"

theorem session_save_load_witness:
  "\<exists>s'. int_load sample_world (fst (int_save sample_world sample_http user_ctx sample_holder (new_response sample_http))) (sample_state []) = (Ok (), [], s') \<and>
    get_value (ctxs s') ''cart'' = ''a=b''"
proof -
  have laws: "compare_refl (dclib sample_world)" "fair_order (dclib sample_world)"
    by (simp_all add: compare_refl_def fair_order_def)
  have c: "\<not> ctx_empty user_ctx" "wf_layers (vstack user_ctx)" "list_all storable (get_values user_ctx)" "has_top (ctxs (sample_state []))"
    by (simp_all add: user_ctx_def ctx_empty_def wf_layers_def get_values_def merge_layer_def storable_def to_upper_def is_lower_def
        sample_state_def sample_contexts_def new_context_def)
  from session_save_load [OF laws(1) sample_cuts laws(2) c, of sample_http sample_holder "new_response sample_http"] obtain s' where
    1: "int_load sample_world (fst (int_save sample_world sample_http user_ctx sample_holder (new_response sample_http))) (sample_state []) = (Ok (), [], s')"
      "\<And>n. get_value (ctxs s') n = (case find_var (vstack user_ctx) (upcase n) of Some v \<Rightarrow> v | None \<Rightarrow> get_value (ctxs (sample_state [])) n)"
    by blast
  have "upcase ''cart'' = ''CART''" by code_simp
  then have "get_value (ctxs s') ''cart'' = ''a=b''" by (simp add: 1(2) user_ctx_def)
  with 1(1) show ?thesis by blast
qed

text \<open>
  With the built-in sessions no request finds variables of an earlier one: every request gets a holder with
  an empty buffer, whatever session it names, and starts with an empty context of the user.
\<close>

theorem session_forgotten:
  assumes "internal_host E"
  shows "\<exists>h s'. new_http_environment E q s = (Ok (Some h), [], s') \<and> tl (ctxs s') = tl environment_contexts"
proof -
  from internal_environment [OF assms, of q s] obtain h i where "new_http_environment E q s = (Ok (Some h), [], env_begun h i s)" by blast
  then show ?thesis by (simp add: env_begun_def)
qed

theorem session_forgotten_witness:
  "\<exists>h s'. new_http_environment (host.truncate sample_site) site_query (sample_state []) = (Ok (Some h), [], s') \<and>
    tl (ctxs s') = tl environment_contexts"
  using session_forgotten [of "host.truncate sample_site" site_query "sample_state []"] sample_internal(1) by simp

section \<open>Failures\<close>

text \<open>
  C8: A page that does not exist is answered with the status for that, the message of the parser as plain text, and
  the worker stays ready for the next request: the cache and the configuration are as before.
\<close>

theorem missing_page_not_found:
  assumes "internal_host E" "isession (itp sv) \<noteq> None" "\<forall>j. uuid_at (ext (wd E)) j \<noteq> []" "um_order (dclib (wd E)) [] = []"
    and "plain_path (hlib E) q" "u = url_of E (''file://'' @ get_field (hlib E) Path_translated q)"
    and "\<not> use_cache (itp sv) \<or> map_of (apps (itp sv)) u = None" "xml_open (reader E) u = None"
  shows "\<exists>sv'. process_cgi_request E (Suc m) q vars sv =
      (Ok (plain_error (hlib E) (not_found (hlib E)) (fmt (dclib (wd E)) ''unable to open file '{0}'. {1}'' [u, []])
        (set_content_type (hlib E) ''text/plain'' (first_response E))), sv') \<and>
    itp sv' = itp sv \<and> heap (pstate sv') = heap (pstate sv) \<and> logged (pstate sv') = logged (pstate sv)"
  using assms by (rule process_missing_page)

theorem missing_page_not_found_witness:
  "\<exists>sv'. process_cgi_request sample_site 1 (set_field sample_http Path_translated ''/q'' site_query) [] sample_server =
      (Ok \<lparr>sa_status = 404, sa_headers = [(''X-Powered-By'', ''dbPager (FastCGI)'')], sa_type = ''text/plain; charset=utf-8'',
        sa_content = fmt (dclib sample_world) ''unable to open file '{0}'. {1}'' [''file:///q'', []], sa_cookies = []\<rparr>, sv') \<and>
    itp sv' = itp sample_server"
proof -
  let ?q = "set_field sample_http Path_translated ''/q'' site_query"
  have q: "plain_path sample_http ?q" "get_field sample_http Path_translated ?q = ''/q''"
    by (simp_all add: plain_path_def site_query_def sample_http_def sample_method_def)
  have u: "xml_open (reader sample_site) ''file:///q'' = None" "map_of (apps (itp sample_server)) ''file:///q'' = None"
    by (simp_all add: sample_site_def sample_server_def new_interpreter_def)
  have "app_full_name (ext sample_world) = ''dbPager''" by (simp add: sample_world_def sample_ext_def)
  then show ?thesis
    using missing_page_not_found [where E = sample_site and u = "''file:///q''" and m = 0, unfolded sample_parts,
      OF sample_internal(1,2) sample_internal(3,4) [unfolded sample_parts] q(1) _ _ u(1)] u(2) q(2)
    by (auto simp: plain_error_def first_response_def sample_http_def)
qed




lemma read_env_bad_length:
  assumes "list_all (\<lambda>l. fst (split_env l) \<notin> {''CONTENT_LENGTH'', ''SERVER_PORT''}) ls"
    and "split_env l = (''CONTENT_LENGTH'', v)" "to_int d v = None"
  shows "read_env d H (ls @ l # ls') a = Throw type_error"
  using assms(1)
proof (induction ls arbitrary: a)
  case Nil
  then show ?case using assms(2,3) by (simp add: analyze_def field_names_def)
next
  case (Cons x ls)
  then have "\<exists>b. analyze d H (fst (split_env x)) (snd (split_env x)) a = Ok b" by (auto simp: analyze_def split: option.split)
  with Cons show ?case by (auto split: prod.split)
qed

text \<open>
  C40: A request with a content length that is no number ends the worker: the exception is thrown where no
  handler is in place, and nothing is sent to the client.
\<close>

theorem bad_content_length_ends_worker:
  assumes rq: "in_stream rq = None" "ipcFd (core rq) = -1"
    and k: "\<not> shutdownPending k" "\<not> shutdownNow k" "accepts k = Acc_conn fd pr c # evs" "admitted ia addrs pr" "0 \<le> fd"
    and c: "list_all (\<lambda>e. arrived e \<noteq> []) (crx c)" "concat (map arrived (crx c)) = request_bytes rid body rs @ W"
    and ok: "request_ok rid body rs (as @ (ascii ''CONTENT_LENGTH'', v) # bs)" "role_entry (two_bytes (body ! 0) (body ! 1)) = Some re"
      "length (request_bytes rid body rs @ W) < f"
    and v: "0 \<notin> set v" "to_int (dclib (wd E)) (text_of v) = None"
    and as: "list_all (\<lambda>(n, x). 0 \<notin> set (n @ x) \<and> CHR ''='' \<notin> set (text_of n) \<and> text_of n \<notin> {''CONTENT_LENGTH'', ''SERVER_PORT''}) as"
  shows "\<exists>rq' k'. process_loop (Suc j) (Suc m) f ia addrs E n rq k sv = Ret (Throw type_error, rq', k', sv) \<and>
    sent_on fd k' = csent c"
proof -
  let ?line = "\<lambda>e. c_str (text_of e)" and ?ps = "as @ (ascii ''CONTENT_LENGTH'', v) # bs"
  from accept_r_request [OF rq k c ok] obtain rq1 k1 where
    1: "FCGX_Accept_r (Suc m) f ia True addrs rq k = Ret (0, rq1, k1)" "serves fd (re # map pair_entry ?ps) W rq1 k1"
      "rx_only fd ((set_conn fd c k)\<lparr>accepts := evs\<rparr>) k1" by blast
  from 1(2) obtain ins os where io: "in_stream rq1 = Some ins" "out_stream rq1 = Some os" "envp rq1 = Some (re # map pair_entry ?ps)"
    by (auto simp: serves_def)
  have t: "text_of (ascii ''CONTENT_LENGTH'') = ''CONTENT_LENGTH''" "0 \<notin> set (ascii ''CONTENT_LENGTH'')" by code_simp+
  have l: "split_env (?line (pair_entry (ascii ''CONTENT_LENGTH'', v))) = (''CONTENT_LENGTH'', text_of v)"
    using c_str_pair [of "ascii ''CONTENT_LENGTH''" v] t v(1) by (simp add: split_env_def del: pair_entry.simps)
  have r: "fst (split_env (?line re)) \<notin> {''CONTENT_LENGTH'', ''SERVER_PORT''}"
  proof -
    have e: "fst (split_env (?line (ascii ''FCGI_ROLE=RESPONDER''))) = ''FCGI_ROLE''" "fst (split_env (?line (ascii ''FCGI_ROLE=AUTHORIZER''))) = ''FCGI_ROLE''"
      "fst (split_env (?line (ascii ''FCGI_ROLE=FILTER''))) = ''FCGI_ROLE''" by code_simp+
    from ok(2) have "re = ascii ''FCGI_ROLE=RESPONDER'' \<or> re = ascii ''FCGI_ROLE=AUTHORIZER'' \<or> re = ascii ''FCGI_ROLE=FILTER''"
      unfolding role_entry_def by (metis option.distinct(1) option.inject)
    then show ?thesis by (elim disjE) (simp_all only: e, simp_all)
  qed
  have "list_all (\<lambda>l. fst (split_env l) \<notin> {''CONTENT_LENGTH'', ''SERVER_PORT''}) (map ?line (re # map pair_entry as))"
    using as r by (auto simp: list_all_iff c_str_pair split_env_pair simp del: pair_entry.simps)
  note bad = read_env_bad_length [OF this l v(2)]
  have m: "map ?line (re # map pair_entry ?ps) =
      map ?line (re # map pair_entry as) @ ?line (pair_entry (ascii ''CONTENT_LENGTH'', v)) # map ?line (map pair_entry bs)" by simp
  have "get_request f (dclib (wd E)) (hlib E) (envp rq1) ins (core rq1, k1) = Ret (Throw type_error, ins, core rq1, k1)"
    unfolding get_request_def io(3) option.case m bad by simp
  moreover have "rq1\<lparr>in_stream := Some ins, core := core rq1\<rparr> = rq1" using io(1) by (cases rq1) simp
  ultimately have "serve_request E f n rq1 k1 sv = Ret (Throw type_error, rq1, k1, sv)"
    using io by (simp add: serve_request_def)
  moreover have "sent_on fd k1 = csent c" using 1(3) by (auto simp: rx_only_def sent_on_def)
  ultimately show ?thesis using 1(1) by auto
qed

definition bad_pairs :: "(byte list \<times> byte list) list" where
  "bad_pairs = [(ascii ''REQUEST_METHOD'', ascii ''POST''), (ascii ''CONTENT_LENGTH'', ascii ''x'')]"

definition bad_recs :: "rec list" where
  "bad_recs = [(FCGI_PARAMS, 1, concat (map encode_pair bad_pairs), [])]"

definition bad_conn :: conn where
  "bad_conn = \<lparr>crx = [Rx_bytes (request_bytes 1 sample_body bad_recs @ [])], cplan = [], csent = []\<rparr>"

definition bad_arrival :: kernel where
  "bad_arrival = (sample_kernel [])\<lparr>accepts := [Acc_conn 7 (Unix_socket True) bad_conn]\<rparr>"

theorem bad_content_length_ends_worker_witness:
  "\<exists>rq' k'. process_loop 1 1 400 (\<lambda>_. 0) None sample_site 5 (FCGX_InitRequest 0 0) bad_arrival sample_server =
      Ret (Throw type_error, rq', k', sample_server) \<and> sent_on 7 k' = []"
proof -
  have len: "length (request_bytes 1 sample_body bad_recs @ []) < 400" "request_bytes 1 sample_body bad_recs \<noteq> []" by code_simp+
  have r: "role_entry (two_bytes (sample_body ! 0) (sample_body ! 1)) = Some (ascii ''FCGI_ROLE=RESPONDER'')"
    by (simp add: sample_body_def two_bytes_def role_entry_def FCGI_RESPONDER_def)
  have k: "\<not> shutdownPending bad_arrival" "\<not> shutdownNow bad_arrival"
    "accepts bad_arrival = Acc_conn 7 (Unix_socket True) bad_conn # []" "admitted (\<lambda>_. 0) None (Unix_socket True)"
    "in_stream (FCGX_InitRequest 0 0) = None" "ipcFd (core (FCGX_InitRequest 0 0)) = -1"
    by (simp_all add: bad_arrival_def sample_kernel_def admitted_def FCGX_InitRequest_def)
  have c: "list_all (\<lambda>e. arrived e \<noteq> []) (crx bad_conn)" "concat (map arrived (crx bad_conn)) = request_bytes 1 sample_body bad_recs @ []"
    "csent bad_conn = []"
    using len by (simp_all add: bad_conn_def)
  have ok: "request_ok 1 sample_body bad_recs ([(ascii ''REQUEST_METHOD'', ascii ''POST'')] @ (ascii ''CONTENT_LENGTH'', ascii ''x'') # [])"
    by (simp add: request_ok_def ident_def sample_body_def bad_recs_def small_packet_def fcgi_types bad_pairs_def
      encode_length_def ascii_def)
  have v: "0 \<notin> set (ascii ''x'')" "to_int (dclib (wd sample_site)) (text_of (ascii ''x'')) = None"
    "list_all (\<lambda>(n, x). 0 \<notin> set (n @ x) \<and> CHR ''='' \<notin> set (text_of n) \<and> text_of n \<notin> {''CONTENT_LENGTH'', ''SERVER_PORT''})
      [(ascii ''REQUEST_METHOD'', ascii ''POST'')]" by code_simp+
  show ?thesis
    using bad_content_length_ends_worker [OF k(5,6,1-4) _ c(1,2) ok r len(1) v, of 0 0 5 sample_server] c(3) by simp
qed

text \<open>
  Without a configuration file the interpreter warns that it uses default values, but then has no session
  service, and the first request ends the server.
\<close>

theorem missing_config_crashes:
  assumes "read_config file = None" and "load_interpreter M read_config file (new_interpreter tag_factory) = Ok (it, warned)"
  shows "warned \<and> process_cgi_request E n q vars \<lparr>pstate = s, itp = it\<rparr> = (Crash, \<lparr>pstate = s, itp = it\<rparr>)"
  using assms by (auto simp: load_interpreter_def process_cgi_request_def new_interpreter_def)

theorem missing_config_crashes_witness:
  "process_cgi_request sample_site 5 site_query [] \<lparr>pstate = sample_state [], itp = (new_interpreter tag_factory)\<lparr>options := (\<lambda>_. [])\<rparr>\<rparr> =
    (Crash, \<lparr>pstate = sample_state [], itp = (new_interpreter tag_factory)\<lparr>options := (\<lambda>_. [])\<rparr>\<rparr>)"
  using missing_config_crashes [of "\<lambda>_. None" "''dbpager.conf''" "\<lparr>module_service = (\<lambda>_ _. Ok False), module_tags = (\<lambda>_. Throw type_error)\<rparr>" "(new_interpreter tag_factory)\<lparr>options := (\<lambda>_. [])\<rparr>" True
      sample_site 5 site_query "[]" "sample_state []"]
  by (simp add: load_interpreter_def)

end
