(* ===== verification/Session_Properties.thy ===== *)
theory Session_Properties
  imports Session_Persistence Server_Properties
begin

text \<open>The properties of the modules for sessions, with witnesses on a small server and a small format of tokens.\<close>

section \<open>A small Redis server\<close>

fun sample_command :: "string list \<Rightarrow> (string \<rightharpoonup> string) \<Rightarrow> reply option \<times> (string \<rightharpoonup> string)" where
  "sample_command [c, k, v] m = (Some Reply_other, if c = ''SET'' then m(k \<mapsto> v) else m)"
| "sample_command [c, k] m =
     (Some (case (if c = ''GET'' then m k else None) of None \<Rightarrow> Reply_other | Some v \<Rightarrow> Reply_string v), m)"
| "sample_command _ m = (Some Reply_other, m)"

definition sample_redis :: hiredis where
  "sample_redis = \<lparr>redisConnect = (\<lambda>_ _ _. Some (1, None)), redisCommand = (\<lambda>_ _. sample_command),
     errstr = (\<lambda>_ _. []), default_tokens = (\<lambda>t. [t])\<rparr>"

definition sample_redis_options :: redis_options where
  "sample_redis_options = \<lparr>redis_server = ''db'', redis_password = ''pw'', database_number = 0, redis_ttl = 60\<rparr>"




lemma sample_redis_hosts:
  "hosts_ok sample_redis (dclib sample_world) ''db''" "redis_up sample_redis (dclib sample_world) ''db''"
proof -
  have "tokenize_by (dclib sample_world) (trim (dclib sample_world) ''db'') '':'' = [''db'']" by code_simp
  then show "hosts_ok sample_redis (dclib sample_world) ''db''" "redis_up sample_redis (dclib sample_world) ''db''"
    by (simp_all add: hosts_ok_def redis_up_def sample_redis_def)
qed

section \<open>Redis\<close>



text \<open>The environment has a session whenever one could be created.\<close>

lemma environment_session:
  assumes "\<And>s. \<exists>h s1. create_session (sess E) q s = (Ok h, [], s1)" "new_http_environment E q s = (Ok oh, t, s')"
  shows "oh \<noteq> None"
proof -
  have ret: "seqM m (seqM k (ret (Some h))) s = (Ok oh, t, s') \<Longrightarrow> oh = Some h" for m k :: "unit prog" and h s t s'
    by (auto simp: seqM_def bindM_def ret_def split: prod.splits outcome.splits)
  obtain r0 t0 s0 where 0: "new_environment (wd E) s = (r0, t0, s0)" by (cases "new_environment (wd E) s")
  from assms(1) [of s0] obtain h s1 where "create_session (sess E) q s0 = (Ok h, [], s1)" by blast
  then have this_catch: "catch_dbp (bindM (create_session (sess E) q) (\<lambda>h. ret (Some h)))
      (\<lambda>e. seqM (addM (wd E) ''SESSION_ERROR'' (what e) []) (ret None)) s0 = (Ok (Some h), [], s1)"
    by (intro run_catch) (simp add: bind_Ok ret_def)
  note run = assms(2) [unfolded new_http_environment_def seqM_def [of "new_environment (wd E)"] bindM_def [of "new_environment (wd E)"] 0]
  show ?thesis
  proof (cases r0)
    case (Ok u)
    with run show ?thesis by (auto simp: bind_Ok [where m = "catch_dbp _ _", OF this_catch] split: prod.splits dest!: ret)
  qed (use run in auto)
qed

text \<open>
  C6: A Redis server that fails never keeps a page from running: whatever it answers, the environment of the
  request is built with its four contexts, and the response can be initialised; at worst with an exception
  that the server has a handler for.
\<close>

theorem failing_redis_keeps_page:
  assumes E: "sess E = mod_session_redis_factory R (wd E) (hlib E) ro" "compare_refl (dclib (wd E))"
    and R: "redis_up R (dclib (wd E)) (redis_server ro)" and s: "redis_inv s"
  shows "\<exists>oh s1 failed oh' resp' s2. new_http_environment E q s = (Ok oh, [], s1) \<and> length (ctxs s1) = 4 \<and>
    get_value (ctxs s1) ''CONTENT_TYPE'' = ''text/plain'' \<and>
    init_response E q oh resp s1 = (Ok (failed, oh', resp'), [], s2) \<and> ctxs s2 = ctxs s1 \<and> redis_inv s2 \<and>
    (\<forall>e. failed = Some e \<longrightarrow> is_dbp e)"
proof -
  note p = redis_provider [OF R]
  obtain r t s1 where run: "new_http_environment E q s = (r, t, s1)" by (cases "new_http_environment E q s")
  from session_provider.new_environment_ready [OF p E s run] obtain oh ps us where
    1: "r = Ok oh" "t = []" "redis_inv s1" "\<forall>h. oh = Some h \<longrightarrow> redis_valid R (dclib (wd E)) h" "layered us" "length us = 3"
      "fst ` set ps \<subseteq> {''SESSION'', ''SESSION_ERROR'', ''SESSION_PERSISTENT''}"
      "ctxs s1 = put_vars ((''CONTENT_TYPE'', ''text/plain'') # ps) (hd environment_contexts # us)" by blast
  have "\<exists>h s1. create_session (sess E) q s = (Ok h, [], s1)" for s
    unfolding E(1) mod_session_redis_factory_def session_factory.simps redis_create_def session_id_of_def Let_def
    by (auto simp: bindM_def ret_def tickM_def split: option.split)
  then have oh: "oh \<noteq> None" by (rule environment_session) (use run 1(1) in simp)
  let ?base = "hd environment_contexts # us"
  have top: "has_top ?base" by (simp add: environment_contexts_def new_context_def)
  have len: "length (ctxs s1) = 4" unfolding 1(8) length_put_vars by (simp add: 1(6))
  from 1(8) top have "tl (ctxs s1) = us" "has_top (ctxs s1)" by (simp_all only: tl_put_vars list.sel has_top_put_vars)
  then have lay: "layered (ctxs s1)" using 1(5) by (cases "ctxs s1") (auto simp: layered_def)
  have u: "upcase ''CONTENT_TYPE'' \<notin> {upcase ''SESSION'', upcase ''SESSION_ERROR'', upcase ''SESSION_PERSISTENT''}" by code_simp
  have "last_value ps ''CONTENT_TYPE'' = None" using u 1(7) by (intro last_value_None) auto
  then have "last_value ([(''CONTENT_TYPE'', ''text/plain'')] @ ps) ''CONTENT_TYPE'' = Some ''text/plain''"
    by (simp only: last_value_append option.case last_value_single simp_thms if_True)
  then have v: "get_value (ctxs s1) ''CONTENT_TYPE'' = ''text/plain''"
    using get_value_put_vars [OF top, of "[(''CONTENT_TYPE'', ''text/plain'')] @ ps"] 1(8) by simp
  from session_provider.init_response_returns [OF p E(1) lay len _ _ 1(3), of oh q resp] oh 1(4) obtain failed oh' resp' s2 where
    "init_response E q oh resp s1 = (Ok (failed, oh', resp'), [], s2)" "ctxs s2 = ctxs s1" "redis_inv s2" "\<forall>e. failed = Some e \<longrightarrow> is_dbp e" by blast
  with run 1(1,2) len v show ?thesis by blast
qed

definition broken_redis :: hiredis where
  "broken_redis = sample_redis\<lparr>redisCommand := (\<lambda>_ _ _ m. (None, m)), errstr := (\<lambda>_ _. ''gone'')\<rparr>"

definition redis_site :: "(int, mod_session_redis, sample_query, sample_answer) host" where
  "redis_site = \<lparr>wd = sample_world, hlib = sample_http,
     sess = mod_session_redis_factory broken_redis sample_world sample_http sample_redis_options,
     mime_parse = (\<lambda>t. Mime [] [] [] [] t []), xml_root = (\<lambda>t. None)\<rparr>"

theorem failing_redis_keeps_page_witness:
  "\<exists>oh s1 failed oh' resp' s2. new_http_environment redis_site site_query (sample_state []) = (Ok oh, [], s1) \<and>
    init_response redis_site site_query oh (new_response sample_http) s1 = (Ok (failed, oh', resp'), [], s2)"
proof -
  have "sess redis_site = mod_session_redis_factory broken_redis (wd redis_site) (hlib redis_site) sample_redis_options"
    "compare_refl (dclib (wd redis_site))" "redis_inv (sample_state [])"
    by (simp_all add: redis_site_def compare_refl_def redis_inv_def sample_state_def)
  moreover have "redis_up broken_redis (dclib (wd redis_site)) (redis_server sample_redis_options)"
    using sample_redis_hosts(2) by (simp add: redis_up_def broken_redis_def sample_redis_options_def redis_site_def)
  ultimately show ?thesis
    using failing_redis_keeps_page [of redis_site broken_redis sample_redis_options "sample_state []" site_query "new_response sample_http"] by blast
qed

section \<open>Tokens\<close>

text \<open>A format of tokens: each text with its length before it.\<close>

definition put_text :: "string \<Rightarrow> string" where
  "put_text t = replicate (length t) (CHR ''a'') @ CHR ''b'' # t"

function texts :: "string \<Rightarrow> string list" where
  "texts t = (if t = [] then [] else
     let n = length (takeWhile (\<lambda>c. c = CHR ''a'') t); r = drop (n + 1) t in take n r # texts (drop n r))"
  by pat_completeness auto

termination
  by (relation "measure length") auto

declare texts.simps [simp del]


fun pairs_of :: "string list \<Rightarrow> (string \<times> json) list" where
  "pairs_of (k # v # ts) = (k, J_string v) # pairs_of ts"
| "pairs_of _ = []"

definition sample_jwt :: jwt_lib where
  "sample_jwt = \<lparr>jwt_decode = (\<lambda>t. if take 1 t = ''t'' then Inr (pairs_of (texts (drop 1 t))) else Inl ''invalid token''),
     jwt_verify = (\<lambda>_ _ _ _. None),
     jwt_sign = (\<lambda>_ _ _ _ cl. ''t'' @ concat (map (\<lambda>(k, v). put_text k @ put_text v) cl)),
     as_string_what = [], substr_what = []\<rparr>"

definition token_world :: "int world" where
  "token_world = sample_world\<lparr>ext := sample_ext\<lparr>json_text := (\<lambda>v. case v of J_string t \<Rightarrow> Some t | _ \<Rightarrow> None)\<rparr>\<rparr>"



definition sample_jwt_options :: jwt_options where
  "sample_jwt_options = \<lparr>jwt_secret = ''s'', jwt_prefix = ''token'', jwt_issuer = [], jwt_ttl = 0\<rparr>"




text \<open>
  A request that brings a token which cannot be decoded is refused: the exception of the library is none of the
  program's own, so that neither the environment nor \<open>process_cgi_request\<close> handles it, and the page does not run.
\<close>

theorem malformed_token_refused:
  assumes "sess E = mod_session_jwt_factory J (wd E) (hlib E) jo" "compare_refl (dclib (wd E))" "isession (itp sv) \<noteq> None"
    and "find (\<lambda>c. cookie_name c = ''session-token'') (get_cookies (hlib E) q) = Some c" "cookie_value c \<noteq> []"
    and "jwt_decode J (cookie_value c) = Inl msg"
  shows "\<exists>sv'. process_cgi_request E n q vars sv = (Throw (Std_exc msg), sv') \<and> itp sv' = itp sv \<and> heap (pstate sv') = heap (pstate sv)"
proof -
  let ?E = "host.truncate E"
  let ?s0 = "(pstate sv)\<lparr>ctxs := put_vars [(''CONTENT_TYPE'', ''text/plain'')] environment_contexts\<rparr>"
  have top: "has_top environment_contexts" by (simp add: environment_contexts_def new_context_def)
  have 0: "new_environment (wd E) (pstate sv) = (Ok (), [], ?s0)"
    using assignsD [OF assigns_add [OF assms(2)], of "(pstate sv)\<lparr>ctxs := environment_contexts\<rparr>"] top
    by (simp add: new_environment_def seq_Ok modM_def)
  let ?h = "jwt_create (hlib E) jo q"
  have h: "jwt_id ?h = cookie_value c" using assms(4) by (simp add: jwt_create_def)
  have cr: "create_session (sess E) q ?s0 = (Ok ?h, [], ?s0)" by (simp add: assms(1) mod_session_jwt_factory_def ret_def)
  have "has_top (ctxs ?s0)" using top by (simp del: put_vars_Cons)
  then obtain d us where cs: "ctxs ?s0 = d # us" by (cases "ctxs ?s0") (auto simp del: put_vars_Cons)
  have "on_user (load_session (sess E) ?h) ?s0 = (Throw (Std_exc msg), [], ?s0)"
    using cs assms(5,6) by (simp add: assms(1) mod_session_jwt_factory_def on_user_def jwt_load_def h jwt_decodeM_def bind_Throw throwM_def)
  then have "catch_dbp (seqM (on_user (load_session (sess E) ?h)) (addM (wd E) ''SESSION'' (holder_id (sess E) ?h) []))
      (\<lambda>e. addM (wd E) ''SESSION_ERROR'' (what e) []) ?s0 = (Throw (Std_exc msg), [], ?s0)"
    by (simp add: catch_dbp_def tryM_def seq_Throw throwM_def)
  with 0 cr have "new_http_environment ?E q (pstate sv) = (Throw (Std_exc msg), [], ?s0)"
    by (simp add: new_http_environment_def seq_Ok bind_Ok run_catch ret_def seq_Throw)
  with assms(3) show ?thesis by (simp add: process_cgi_request_def bindS_def on_page_def)
qed

definition token_http :: "(sample_query, sample_answer) http" where
  "token_http = sample_http\<lparr>get_cookies := (\<lambda>_. [new_cookie sample_http ''session-token'' ''x''])\<rparr>"

definition token_site :: "(int, mod_session_jwt, sample_query, sample_answer) site" where
  "token_site = \<lparr>wd = token_world, hlib = token_http,
     sess = mod_session_jwt_factory sample_jwt token_world token_http sample_jwt_options,
     mime_parse = (\<lambda>t. Mime [] [] [] [] t []), xml_root = (\<lambda>t. None), reader = reader sample_site, url_of = (\<lambda>t. t)\<rparr>"

theorem malformed_token_refused_witness:
  "\<exists>sv'. process_cgi_request token_site 5 site_query [] sample_server = (Throw (Std_exc ''invalid token''), sv')"
proof -
  have "sess token_site = mod_session_jwt_factory sample_jwt (wd token_site) (hlib token_site) sample_jwt_options"
    "compare_refl (dclib (wd token_site))"
    "find (\<lambda>c. cookie_name c = ''session-token'') (get_cookies (hlib token_site) site_query) = Some (new_cookie sample_http ''session-token'' ''x'')"
    "cookie_value (new_cookie sample_http ''session-token'' ''x'') = ''x''" "jwt_decode sample_jwt ''x'' = Inl ''invalid token''"
    by (simp_all add: token_site_def token_http_def compare_refl_def token_world_def sample_http_def sample_jwt_def)
  with malformed_token_refused [of token_site sample_jwt sample_jwt_options sample_server site_query _ _ 5 "[]"] sample_internal(2) show ?thesis
    by fastforce
qed

end
