(* ===== verification/Front_Ends.thy ===== *)
theory Front_Ends
  imports Server
begin

text \<open>
  The other front ends around the same environment and interpreter: the CGI program
  (\<open>application/dbp_cgi.cpp\<close>), the module for Apache (\<open>application/mod_dbp.cpp\<close>) and the interpreter for the
  command line (\<open>application/dbpager.cpp\<close>). What is written to the standard error stream is left out.
\<close>

section \<open>A request of a web server\<close>

text \<open>
  The statements of the \<open>try\<close> block up to the output; \<open>to_url\<close> makes the address of the page from its path.
\<close>

definition web_page :: "('d, 'h, 'q, 'r) site \<Rightarrow> nat \<Rightarrow> (string \<Rightarrow> string) \<Rightarrow> 'q \<Rightarrow> string sprog" where
  "web_page E n to_url q =
     bindS (on_page (get_path (host.truncate E) q)) (\<lambda>path.
     bindS (get_app E n (to_url path)) (\<lambda>t.
       on_page (capture (app_execute (wd E) n (init_custom_params (host.truncate E) q) t))))"

text \<open>The handlers: which exceptions they catch and what they make of the response.\<close>

definition handle_with ::
  "('d, 'h, 'q, 'r) site \<Rightarrow> (exn \<Rightarrow> bool) \<Rightarrow> (exn \<Rightarrow> 'r \<Rightarrow> 'r) \<Rightarrow> 'q \<Rightarrow> exn \<Rightarrow> 'h option \<Rightarrow> 'r \<Rightarrow> 'r sprog" where
  "handle_with E catches respond q e oh resp =
     (if \<not> catches e then on_page (throwM e)
      else
        bindS (on_page (init_response (host.truncate E) q oh resp)) (\<lambda>(failed, oh', resp').
          case failed of
            Some e' \<Rightarrow> on_page (throwM e')
          | None \<Rightarrow> on_page (ret (respond e resp'))))"

definition web_answer ::
  "('d, 'h, 'q, 'r) site \<Rightarrow> nat \<Rightarrow> (string \<Rightarrow> string) \<Rightarrow> (exn \<Rightarrow> bool) \<Rightarrow> (exn \<Rightarrow> 'r \<Rightarrow> 'r) \<Rightarrow> 'q \<Rightarrow> 'h option \<Rightarrow> 'r \<Rightarrow> 'r sprog" where
  "web_answer E n to_url catches respond q oh resp sv =
     (case web_page E n to_url q sv of
        (Ok out, sv1) \<Rightarrow>
          bindS (on_page (init_response (host.truncate E) q oh resp)) (\<lambda>(failed, oh', resp').
            case failed of
              Some e \<Rightarrow> handle_with E catches respond q e oh' resp'
            | None \<Rightarrow> on_page (ret (set_content (hlib E) out resp'))) sv1
      | (Throw e, sv1) \<Rightarrow> handle_with E catches respond q e oh resp sv1
      | (Crash, sv1) \<Rightarrow> (Crash, sv1)
      | (Diverge, sv1) \<Rightarrow> (Diverge, sv1))"

definition web_request ::
  "('d, 'h, 'q, 'r) site \<Rightarrow> nat \<Rightarrow> (string \<Rightarrow> string) \<Rightarrow> (exn \<Rightarrow> bool) \<Rightarrow> (exn \<Rightarrow> 'r \<Rightarrow> 'r) \<Rightarrow> 'q \<Rightarrow> 'r \<Rightarrow> 'r sprog" where
  "web_request E n to_url catches respond q resp sv =
     (if isession (itp sv) = None then (Crash, sv)
      else
        case
          bindS (on_page (new_http_environment (host.truncate E) q)) (\<lambda>oh.
            web_answer E n to_url catches respond q oh resp) sv
        of (r, sv1) \<Rightarrow> (r, sv1\<lparr>pstate := (pstate sv1)\<lparr>ctxs := []\<rparr>\<rparr>))"

section \<open>CGI\<close>

fun cgi_error :: "('q, 'r) http \<Rightarrow> exn \<Rightarrow> 'r \<Rightarrow> 'r" where
  "cgi_error H (Parser_exc c msg) resp =
     plain_error H (if c = 1 then not_found H else internal_server_error H) msg resp"
| "cgi_error H (App_exc msg c) resp =
     (if c \<in> {301, 302, 303, 307, 308} then set_header H ''Location'' msg (set_status H c resp)
      else plain_error H c msg resp)"
| "cgi_error H e resp = plain_error H (internal_server_error H) (what e) resp"

text \<open>
  The loop that finds the file in the path and moves the rest to \<open>PATH_INFO\<close>: \<open>can_open\<close> is \<open>fopen\<close>, \<open>split\<close> is
  \<open>tokenize()\<close> of dcl with its default separator. Whether it ends depends on \<open>split\<close>, so it takes fuel.
\<close>

fun cgi_path :: "nat \<Rightarrow> (string \<Rightarrow> bool) \<Rightarrow> (string \<Rightarrow> string \<times> string) \<Rightarrow> string \<Rightarrow> string \<Rightarrow> (string \<times> string) option outcome" where
  "cgi_path 0 can_open split p pinfo = Diverge"
| "cgi_path (Suc n) can_open split p pinfo =
     (if can_open (c_str p) then Ok (Some (p, pinfo))
      else if p = [] then Ok None
      else
        case split p of (left, right) \<Rightarrow>
          cgi_path n can_open split left (if pinfo = [] then right else right @ ''/'' @ pinfo))"

text \<open>\<open>dbp_cgi::process_request\<close>; every request makes an interpreter of its own.\<close>

definition cgi_request ::
  "('d, 'h, 'q, 'r) site \<Rightarrow> nat \<Rightarrow> nat \<Rightarrow> (string \<Rightarrow> bool) \<Rightarrow> (string \<Rightarrow> string \<times> string) \<Rightarrow>
     (interpreter \<times> bool) outcome \<Rightarrow> 'q \<Rightarrow> state \<Rightarrow> 'r outcome \<times> state" where
  "cgi_request E n f can_open split loaded q s =
     (let H = hlib E;
          resp = set_header H ''X-Powered-By'' (app_full_name (ext (wd E)) @ '' (CGI)'') (new_response H)
      in case cgi_path f can_open split (get_field H Path_translated q) [] of
           Ok None \<Rightarrow> (Ok (set_status H (not_found H) resp), s)
         | Ok (Some (p, pinfo)) \<Rightarrow>
             let r = set_field H Path_info (''/'' @ pinfo) (set_field H Path_translated p q) in
             (case loaded of
                Ok (it, warned) \<Rightarrow>
                  (case web_request E n (\<lambda>path. url_of E (''file://'' @ path)) is_dbp (cgi_error H) r resp \<lparr>pstate = s, itp = it\<rparr> of
                     (res, sv) \<Rightarrow> (res, pstate sv))
              | Throw e \<Rightarrow> (Throw e, s)
              | Crash \<Rightarrow> (Crash, s)
              | Diverge \<Rightarrow> (Diverge, s))
         | Throw e \<Rightarrow> (Throw e, s)
         | Crash \<Rightarrow> (Crash, s)
         | Diverge \<Rightarrow> (Diverge, s))"

section \<open>Apache\<close>

text \<open>\<open>catch (...)\<close> sets the status and nothing else.\<close>

fun apache_error :: "('q, 'r) http \<Rightarrow> exn \<Rightarrow> 'r \<Rightarrow> 'r" where
  "apache_error H (Parser_exc c msg) resp = cgi_error H (Parser_exc c msg) resp"
| "apache_error H (App_exc msg c) resp = cgi_error H (App_exc msg c) resp"
| "apache_error H e resp = set_status H (internal_server_error H) resp"

text \<open>\<open>on_handle_request\<close>; \<open>file_url\<close> is \<open>url (path)\<close> with the scheme set to \<open>file\<close>.\<close>

definition apache_request :: "('d, 'h, 'q, 'r) site \<Rightarrow> nat \<Rightarrow> (string \<Rightarrow> string) \<Rightarrow> 'q \<Rightarrow> 'r sprog" where
  "apache_request E n file_url q =
     web_request E n file_url (\<lambda>_. True) (apache_error (hlib E)) q
       (set_header (hlib E) ''X-Powered-By'' (app_full_name (ext (wd E)) @ '' (Apache module)'') (new_response (hlib E)))"

section \<open>The command line\<close>

definition console_params :: "'d world \<Rightarrow> string list \<Rightarrow> unit prog" where
  "console_params w vars =
     forM (drop 1 vars) (\<lambda>i. case split_pair (dclib w) i ''='' of (n, v) \<Rightarrow> addM w n v [])"

text \<open>
  \<open>console_application::on_execute\<close>: the exit code or exception, and what reached the standard output. The
  environment takes a reference to the session service but never uses it.
\<close>

definition console_execute ::
  "('d, 'h, 'q, 'r) site \<Rightarrow> nat \<Rightarrow> (string \<Rightarrow> string) \<Rightarrow> string list \<Rightarrow> server \<Rightarrow> int outcome \<times> string \<times> server" where
  "console_execute E n console_url filenames sv =
     (case filenames of
        [] \<Rightarrow> (Ok (- 1), [], sv)
      | file # _ \<Rightarrow>
         (case bindS (on_page (new_environment (wd E))) (\<lambda>_. get_app E n (console_url file)) sv of
            (Ok t, sv1) \<Rightarrow>
              (case app_execute (wd E) n (console_params (wd E) filenames) t (pstate sv1) of
                 (r, out, s) \<Rightarrow> (bindO r (\<lambda>_. Ok 0), out, sv1\<lparr>pstate := s\<lparr>ctxs := []\<rparr>\<rparr>))
          | (Throw e, sv1) \<Rightarrow> (Throw e, [], sv1\<lparr>pstate := (pstate sv1)\<lparr>ctxs := []\<rparr>\<rparr>)
          | (Crash, sv1) \<Rightarrow> (Crash, [], sv1)
          | (Diverge, sv1) \<Rightarrow> (Diverge, [], sv1)))"

end
