(* ===== verification/Front_Ends_Correct.thy ===== *)
theory Front_Ends_Correct
  imports Front_Ends Server_Correct
begin

text \<open>
  The front ends compared: the CGI program answers like the FastCGI server, and it finds the file in the
  path of a request.
\<close>

section \<open>The path of a CGI request\<close>

text \<open>The part of \<open>tokenize()\<close> of dcl that the loop relies on: an absolute path is cut at its last slash.\<close>

definition cuts_last :: "(string \<Rightarrow> string \<times> string) \<Rightarrow> bool" where
  "cuts_last split \<longleftrightarrow> (\<forall>p. p \<noteq> [] \<longrightarrow> hd p = CHR ''/'' \<longrightarrow>
     (case split p of (l, r) \<Rightarrow> p = l @ CHR ''/'' # r \<and> CHR ''/'' \<notin> set r))"

definition joined :: "string \<Rightarrow> string \<Rightarrow> string" where
  "joined p pinfo = (if pinfo = [] then p else p @ CHR ''/'' # pinfo)"

text \<open>Nothing above \<open>p\<close> on the way down from \<open>P\<close> can be opened.\<close>

definition closed_above :: "(string \<Rightarrow> bool) \<Rightarrow> string \<Rightarrow> string \<Rightarrow> bool" where
  "closed_above can_open P p \<longleftrightarrow> \<not> can_open (c_str P) \<and>
     (\<forall>x y. P = x @ CHR ''/'' # y \<longrightarrow> length p < length x \<longrightarrow> \<not> can_open (c_str x))"

lemma slash_between:
  assumes "x @ CHR ''/'' # y = l @ CHR ''/'' # r @ z" "CHR ''/'' \<notin> set r" "length l < length x"
  shows "length (l @ CHR ''/'' # r) \<le> length x"
  using assms
proof (induction l arbitrary: x)
  case Nil
  then obtain v where x: "x = CHR ''/'' # v" "v @ CHR ''/'' # y = r @ z" by (cases x) auto
  have "length r \<le> length v" using x(2) Nil.prems(2)
  proof (induction r arbitrary: v)
    case (Cons c r)
    then show ?case by (cases v) auto
  qed simp
  with x(1) show ?case by simp
next
  case (Cons c l)
  then show ?case by (cases x) auto
qed

lemma joined_step:
  assumes "p = l @ CHR ''/'' # r" "pinfo = [] \<Longrightarrow> r \<noteq> []"
  shows "joined l (if pinfo = [] then r else r @ ''/'' @ pinfo) = joined p pinfo"
  using assms by (auto simp: joined_def)

lemma cgi_path_run:
  assumes split: "cuts_last split" and p: "p = [] \<or> hd p = CHR ''/''" and P: "P = joined p pinfo"
    and slash: "pinfo = [] \<Longrightarrow> last p \<noteq> CHR ''/''"
    and above: "pinfo \<noteq> [] \<Longrightarrow> closed_above can_open P p" and f: "length p < f"
  shows "\<exists>res. cgi_path f can_open split p pinfo = Ok res \<and>
    (case res of
       None \<Rightarrow> closed_above can_open P [] \<and> \<not> can_open []
     | Some (x, y) \<Rightarrow> can_open (c_str x) \<and> joined x y = P \<and> (y \<noteq> [] \<longrightarrow> closed_above can_open P x))"
  using p P slash above f
proof (induction f arbitrary: p pinfo)
  case (Suc f)
  show ?case
  proof (cases "can_open (c_str p)")
    case True
    with Suc.prems show ?thesis by auto
  next
    case no: False
    show ?thesis
    proof (cases "p = []")
      case True
      with no have "\<not> can_open []" by (simp add: c_str_def)
      moreover have "closed_above can_open P []"
      proof (cases "pinfo = []")
        case True
        with \<open>p = []\<close> Suc.prems(2) have "P = []" by (simp add: joined_def)
        with no \<open>p = []\<close> show ?thesis by (simp add: closed_above_def)
      next
        case False
        with Suc.prems(4) \<open>p = []\<close> show ?thesis by simp
      qed
      ultimately show ?thesis using True no by (simp add: c_str_def)
    next
      case False
      with Suc.prems(1) have hd: "hd p = CHR ''/''" by simp
      obtain l r where lr: "split p = (l, r)" by (cases "split p")
      with split False hd have pe: "p = l @ CHR ''/'' # r" "CHR ''/'' \<notin> set r" by (auto simp: cuts_last_def)
      let ?pi = "if pinfo = [] then r else r @ ''/'' @ pinfo"
      have r: "pinfo = [] \<Longrightarrow> r \<noteq> []" using Suc.prems(3) pe(1) by auto
      then have pi: "?pi \<noteq> []" by auto
      have P: "P = joined l ?pi" using joined_step [OF pe(1) r] Suc.prems(2) by simp
      have l: "l = [] \<or> hd l = CHR ''/''" using hd pe(1) by (cases l) auto
      have up: "closed_above can_open P l"
        unfolding closed_above_def
      proof (intro conjI allI impI)
        show "\<not> can_open (c_str P)" using Suc.prems(2,4) no by (cases "pinfo = []") (auto simp: joined_def closed_above_def)
      next
        fix x y
        assume xy: "P = x @ CHR ''/'' # y" "length l < length x"
        obtain z where z: "P = p @ z" using Suc.prems(2) by (cases "pinfo = []") (auto simp: joined_def)
        with xy(1) pe(1) have "x @ CHR ''/'' # y = l @ CHR ''/'' # r @ z" by simp
        from slash_between [OF this pe(2) xy(2)] pe(1) have le: "length p \<le> length x" by simp
        show "\<not> can_open (c_str x)"
        proof (cases "length x = length p")
          case True
          with xy(1) z have "x = p" by simp
          with no show ?thesis by simp
        next
          case False
          with le have lt: "length p < length x" by simp
          with xy(1) Suc.prems(2) have "pinfo \<noteq> []" by (auto simp: joined_def)
          with Suc.prems(4) lt xy(1) show ?thesis by (auto simp: closed_above_def)
        qed
      qed
      have "length l < f" using Suc.prems(5) pe(1) by simp
      from Suc.IH [OF l P _ up this] pi have "\<exists>res. cgi_path f can_open split l ?pi = Ok res \<and>
        (case res of None \<Rightarrow> closed_above can_open P [] \<and> \<not> can_open []
          | Some (x, y) \<Rightarrow> can_open (c_str x) \<and> joined x y = P \<and> (y \<noteq> [] \<longrightarrow> closed_above can_open P x))" by blast
      with False no lr show ?thesis by simp
    qed
  qed
qed simp

section \<open>CGI and FastCGI\<close>

lemma fastcgi_params_none:
  assumes "um_order (dclib (wd E)) [] = []"
  shows "fastcgi_params E q [] = init_custom_params (host.truncate E) q"
proof -
  have "seqM m (ret ()) = m" for m :: "unit prog"
    by (auto simp: fun_eq_iff seqM_def bindM_def ret_def split: prod.split outcome.split)
  with assms show ?thesis by (simp add: fastcgi_params_def um_iter_def)
qed

lemma run_page_web:
  assumes "um_order (dclib (wd E)) [] = []"
  shows "run_page E n q [] = web_page E n (\<lambda>p. url_of E (''file://'' @ p)) q"
  by (simp add: run_page_def web_page_def fastcgi_params_none [OF assms])

text \<open>The two answers are the same, but for the type of the content after an application exception.\<close>

definition alike :: "('q, 'r) http \<Rightarrow> 'r outcome \<Rightarrow> 'r outcome \<Rightarrow> bool" where
  "alike H a b \<longleftrightarrow> a = b \<or> (\<exists>msg c resp. a = Ok (plain_error H c msg resp) \<and> b = Ok (set_content H msg (set_status H c resp)))"

lemma error_alike: "alike H (Ok (cgi_error H e resp)) (Ok (error_response H e resp))"
proof (cases e)
  case (App_exc msg c)
  then show ?thesis
    by (cases "get_content_type H (set_content H msg (set_status H c resp)) = []")
      (auto simp: alike_def Let_def plain_error_def)
qed (simp_all add: alike_def)

lemma cgi_like_fastcgi:
  assumes E: "internal_host E" and sv: "isession (itp sv) \<noteq> None" and o: "um_order (dclib (wd E)) [] = []"
  shows "alike (hlib E)
    (fst (web_request E n (\<lambda>p. url_of E (''file://'' @ p)) is_dbp (cgi_error (hlib E)) q (first_response E) sv))
    (fst (process_cgi_request E n q [] sv))"
proof -
  let ?u = "\<lambda>p. url_of E (''file://'' @ p)"
  from sv obtain y where y: "isession (itp sv) = Some y" by auto
  from internal_environment [of "host.truncate E" q "pstate sv"] E obtain h i where
    1: "new_http_environment (host.truncate E) q (pstate sv) = (Ok (Some h), [], env_begun h i (pstate sv))" by auto
  obtain r sv1 where 2: "run_page E n q [] (begun_server h i sv) = (r, sv1)" by (cases "run_page E n q [] (begun_server h i sv)")
  then have 3: "web_page E n ?u q (begun_server h i sv) = (r, sv1)" by (simp add: run_page_web [OF o])
  have p: "fst (process_cgi_request E n q [] sv) = fst (answer E n q [] (Some h) (first_response E) (begun_server h i sv))"
    using y 1 by (simp add: process_cgi_request_def bindS_def on_page_def begun_server_def first_response_def split: prod.split)
  have w: "fst (web_request E n ?u is_dbp (cgi_error (hlib E)) q (first_response E) sv) =
      fst (web_answer E n ?u is_dbp (cgi_error (hlib E)) q (Some h) (first_response E) (begun_server h i sv))"
    using y 1 by (simp add: web_request_def bindS_def on_page_def begun_server_def split: prod.split)
  have ini: "\<exists>oh. init_response (host.truncate E) q (Some h) resp (pstate sv1) =
      (Ok (None, oh, prepared E q h (ctxs (pstate sv1)) resp), [], pstate sv1)" if "r \<noteq> Crash" "r \<noteq> Diverge" for resp
    using internal_init_response [of "host.truncate E" "pstate sv1" q h resp] E run_page_length [OF 2 that] by simp
  show ?thesis unfolding p w
  proof (cases r)
    case (Ok out)
    with ini [of "first_response E"] 2 3 show "alike (hlib E) (fst (web_answer E n ?u is_dbp (cgi_error (hlib E)) q (Some h) (first_response E) (begun_server h i sv)))
        (fst (answer E n q [] (Some h) (first_response E) (begun_server h i sv)))"
      by (auto simp: answer_def web_answer_def bindS_def on_page_def ret_def alike_def)
  next
    case (Throw e)
    with ini [of "first_response E"] obtain oh where "init_response (host.truncate E) q (Some h) (first_response E) (pstate sv1) =
      (Ok (None, oh, prepared E q h (ctxs (pstate sv1)) (first_response E)), [], pstate sv1)" by auto
    with Throw 2 3 error_alike [of "hlib E" e "prepared E q h (ctxs (pstate sv1)) (first_response E)"]
    show "alike (hlib E) (fst (web_answer E n ?u is_dbp (cgi_error (hlib E)) q (Some h) (first_response E) (begun_server h i sv)))
        (fst (answer E n q [] (Some h) (first_response E) (begun_server h i sv)))"
      by (cases "is_dbp e") (auto simp: answer_def web_answer_def handle_error_def handle_with_def bindS_def on_page_def ret_def throwM_def
          log_error_def modM_def alike_def)
  qed (use 2 3 in \<open>auto simp: answer_def web_answer_def alike_def\<close>)
qed

end
