(* ===== verification/Front_Properties.thy ===== *)
theory Front_Properties
  imports Front_Ends_Correct Server_Properties
begin

text \<open>The properties of the other front ends, with witnesses.\<close>







end
