(* ===== verification/Sqlite_Tags.thy ===== *)
theory Sqlite_Tags
  imports Interp
begin

text \<open>
  The module \<open>modules/dbp_sqlite\<close>: the tags \<open>database\<close>, \<open>transaction\<close> and \<open>query\<close>.

  SQLite and the pool of dcl are parameters. Their functions act on the state of the libraries outside of
  the process, the component \<open>remote\<close> of the state, and give their answer with the new state of the library.
  A statement is a pointer that may be \<open>NULL\<close>: SQLite prepares the empty text to it.
\<close>

section \<open>Calls of a library\<close>

type_synonym lib = "string \<rightharpoonup> string"

definition libM :: "(lib \<Rightarrow> 'a \<times> lib) \<Rightarrow> 'a prog" where
  "libM f s = (case f (remote s) of (x, l) \<Rightarrow> (Ok x, [], s\<lparr>remote := l\<rparr>))"

definition askM :: "(lib \<Rightarrow> 'a) \<Rightarrow> 'a prog" where
  "askM f = getM (\<lambda>s. f (remote s))"

definition module_error :: "string \<Rightarrow> 'a prog" where
  "module_error msg = throwM (Dbp_exc Module_exception msg)"

text \<open>
  The pointer that an enclosing tag left in a variable, whose name ends with the parameter \<open>database\<close>.
\<close>

definition database_ptr :: "'d world \<Rightarrow> exec_fn \<Rightarrow> nat \<Rightarrow> string \<Rightarrow> nat prog" where
  "database_ptr w ex self prefix =
     bindM (get_parameter ex self ''database'') (\<lambda>name.
     bindM (valueM (prefix @ name)) (\<lambda>db_ptr.
       if db_ptr = [] then
         bindM (get_parameter ex self ''database'') (\<lambda>i.
           throw_fmt w Module_exception ''database (id='{0}') is not defined in the current context''
             [if i = [] then ''(default)'' else i])
       else to_ptrM w db_ptr))"

section \<open>SQLite\<close>

type_synonym stmt = "nat option"

record sqlite3 =
  sqlite_acquire :: "string \<Rightarrow> lib \<Rightarrow> nat \<times> lib"
  sqlite_release :: "nat \<Rightarrow> lib \<Rightarrow> lib"
  sqlite3_open_v2 :: "string \<Rightarrow> lib \<Rightarrow> (int \<times> nat option) \<times> lib"
  sqlite3_errstr :: "int \<Rightarrow> string"
  sqlite3_exec :: "nat \<Rightarrow> string \<Rightarrow> lib \<Rightarrow> (int \<times> string option) \<times> lib"
  sqlite3_prepare_v2 :: "nat \<Rightarrow> string \<Rightarrow> lib \<Rightarrow> (int \<times> stmt) \<times> lib"
  sqlite3_bind_parameter_count :: "stmt \<Rightarrow> lib \<Rightarrow> nat"
  sqlite3_bind_parameter_name :: "stmt \<Rightarrow> nat \<Rightarrow> lib \<Rightarrow> string option"
  sqlite3_bind_null :: "stmt \<Rightarrow> nat \<Rightarrow> lib \<Rightarrow> int \<times> lib"
  sqlite3_bind_text :: "stmt \<Rightarrow> nat \<Rightarrow> string \<Rightarrow> lib \<Rightarrow> int \<times> lib"
  sqlite3_step :: "stmt \<Rightarrow> lib \<Rightarrow> int \<times> lib"
  sqlite3_changes :: "nat \<Rightarrow> lib \<Rightarrow> int"
  sqlite3_column_count :: "stmt \<Rightarrow> lib \<Rightarrow> nat"
  sqlite3_column_name :: "stmt \<Rightarrow> nat \<Rightarrow> lib \<Rightarrow> string option"
  sqlite3_column_text :: "stmt \<Rightarrow> nat \<Rightarrow> lib \<Rightarrow> string option"
  sqlite3_reset :: "stmt \<Rightarrow> lib \<Rightarrow> lib"
  sqlite3_finalize :: "stmt \<Rightarrow> lib \<Rightarrow> lib"

definition SQLITE_OK :: int where "SQLITE_OK = 0"

definition SQLITE_ROW :: int where "SQLITE_ROW = 100"

definition SQLITE_DONE :: int where "SQLITE_DONE = 101"

text \<open>
  \<open>if (int code = f () != SQLITE_OK) throw ... (sqlite3_errstr (code))\<close>: the comparison binds before the
  initialisation, so \<open>code\<close> is the truth value.
\<close>

definition sqlite_check :: "sqlite3 \<Rightarrow> int \<Rightarrow> unit prog" where
  "sqlite_check S r = (if r \<noteq> SQLITE_OK then module_error (sqlite3_errstr S 1) else ret ())"

section \<open>The tag database\<close>

text \<open>
  A \<open>sqlite_connection\<close> of the pool, by its address. \<open>sqlite3_open_v2\<close> stores a pointer also when it fails.
\<close>

definition sqlite_item :: "'d world \<Rightarrow> nat \<Rightarrow> string \<times> string" where
  "sqlite_item w a = (''sqlite'', ptr_str (dclib w) a)"

definition sqlite_open :: "sqlite3 \<Rightarrow> 'd world \<Rightarrow> string \<Rightarrow> nat \<Rightarrow> (nat option) prog" where
  "sqlite_open S w dsn a =
     bindM (getM (\<lambda>s. pooled s (sqlite_item w a))) (\<lambda>c.
       case (case c of None \<Rightarrow> None | Some c \<Rightarrow> handle c) of
         Some p \<Rightarrow> ret (Some p)
       | None \<Rightarrow>
           bindM (libM (sqlite3_open_v2 S (c_str dsn))) (\<lambda>(rc, p).
           seqM (modM (\<lambda>s. s\<lparr>pooled := (pooled s)(sqlite_item w a \<mapsto> \<lparr>handle = p, configured = True\<rparr>)\<rparr>))
            (seqM (sqlite_check S rc) (ret p))))"

definition sqlite_pool :: "sqlite3 \<Rightarrow> string \<Rightarrow> (nat \<Rightarrow> unit prog) \<Rightarrow> unit prog" where
  "sqlite_pool S dsn m =
     bindM (libM (sqlite_acquire S dsn)) (\<lambda>a. finallyM (m a) (libM (\<lambda>l. ((), sqlite_release S a l))))"

definition sqlite_database_execute :: "sqlite3 \<Rightarrow> 'd world \<Rightarrow> exec_fn \<Rightarrow> nat \<Rightarrow> nat option \<Rightarrow> unit prog" where
  "sqlite_database_execute S w ex self caller =
     bindM (get_parameter ex self ''dsn'') (\<lambda>dsn.
     bindM (get_parameter ex self ''id'') (\<lambda>database.
       if dsn = [] then module_error ''data source name (dsn) is not defined''
       else
         bindM (valueM (''@SQLITE:DATABASE@'' @ database)) (\<lambda>db_ptr.
           if db_ptr \<noteq> [] then impl_execute ex self caller
           else
             scoped
              (sqlite_pool S dsn (\<lambda>a.
                 bindM (sqlite_open S w dsn a) (\<lambda>p.
                 bindM (get_parameter ex self ''id'') (\<lambda>i.
                 seqM (addM w (''@SQLITE:DATABASE@'' @ i) (ptr_str (dclib w) (case p of None \<Rightarrow> 0 | Some p \<Rightarrow> p)) [])
                  (impl_execute ex self caller))))))))"

section \<open>The tag transaction\<close>

text \<open>The message of a failure is copied through its pointer.\<close>

definition sqlite_command :: "sqlite3 \<Rightarrow> nat \<Rightarrow> string \<Rightarrow> unit prog" where
  "sqlite_command S conn cmd =
     bindM (libM (sqlite3_exec S conn cmd)) (\<lambda>(rc, msg).
       if rc \<noteq> SQLITE_OK then (case msg of None \<Rightarrow> crashM | Some m \<Rightarrow> module_error (c_str m)) else ret ())"

definition sqlite_transaction :: "sqlite3 \<Rightarrow> nat \<Rightarrow> unit prog \<Rightarrow> unit prog" where
  "sqlite_transaction S conn m =
     seqM (sqlite_command S conn ''BEGIN'')
      (tryM (seqM m (sqlite_command S conn ''COMMIT''))
        (\<lambda>e. seqM (sqlite_command S conn ''ROLLBACK'') (throwM e)))"

definition sqlite_transaction_execute :: "sqlite3 \<Rightarrow> 'd world \<Rightarrow> exec_fn \<Rightarrow> nat \<Rightarrow> nat option \<Rightarrow> unit prog" where
  "sqlite_transaction_execute S w ex self caller =
     bindM (database_ptr w ex self ''@SQLITE:DATABASE@'') (\<lambda>conn.
       sqlite_transaction S conn (impl_execute ex self caller))"

section \<open>The tag query\<close>

definition sqlite_bind_value :: "sqlite3 \<Rightarrow> stmt \<Rightarrow> nat \<Rightarrow> string \<Rightarrow> unit prog" where
  "sqlite_bind_value S st i v =
     bindM (libM (if v = [] then sqlite3_bind_null S st i else sqlite3_bind_text S st i v)) (sqlite_check S)"

text \<open>
  The loop over the parameters of the statement: an unnamed one takes the next value of the list while there is
  one, a named one the value of the variable, without the sign before its name.
\<close>

fun sqlite_bind :: "sqlite3 \<Rightarrow> stmt \<Rightarrow> nat list \<Rightarrow> string list \<Rightarrow> unit prog" where
  "sqlite_bind S st [] params = ret ()"
| "sqlite_bind S st (i # is) params =
     bindM (askM (sqlite3_bind_parameter_name S st i)) (\<lambda>n.
       case n of
         None \<Rightarrow>
           (case params of
              [] \<Rightarrow> sqlite_bind S st is []
            | v # vs \<Rightarrow> seqM (sqlite_bind_value S st i v) (sqlite_bind S st is vs))
       | Some n \<Rightarrow> bindM (valueM (drop 1 n)) (\<lambda>v. seqM (sqlite_bind_value S st i v) (sqlite_bind S st is params)))"

definition sqlite_column :: "sqlite3 \<Rightarrow> 'd world \<Rightarrow> stmt \<Rightarrow> nat \<Rightarrow> unit prog" where
  "sqlite_column S w st i =
     bindM (askM (sqlite3_column_name S st i)) (\<lambda>n.
       case n of
         None \<Rightarrow> module_error ''Can't allocate memory to fetch query results''
       | Some n \<Rightarrow>
           bindM (askM (sqlite3_column_text S st i)) (\<lambda>v.
             addM w (c_str n) (case v of None \<Rightarrow> [] | Some v \<Rightarrow> c_str v) []))"

text \<open>The loop over the rows; the number bounds its rounds.\<close>

fun sqlite_rows :: "sqlite3 \<Rightarrow> 'd world \<Rightarrow> stmt \<Rightarrow> unit prog \<Rightarrow> nat \<Rightarrow> int \<Rightarrow> unit prog" where
  "sqlite_rows S w st body 0 rc = divergeM"
| "sqlite_rows S w st body (Suc n) rc =
     (if rc = SQLITE_DONE then scoped (libM (\<lambda>l. ((), sqlite3_reset S st l)))
      else
        bindM
         (scoped
          (if rc = SQLITE_ROW then
             bindM (askM (sqlite3_column_count S st)) (\<lambda>c.
             seqM (forM [0..<c] (sqlite_column S w st)) (seqM body (libM (sqlite3_step S st))))
           else module_error (sqlite3_errstr S rc)))
         (sqlite_rows S w st body n))"

text \<open>A prepared statement, finalized on every path.\<close>

definition sqlite_prepared :: "sqlite3 \<Rightarrow> nat \<Rightarrow> string \<Rightarrow> (stmt \<Rightarrow> unit prog) \<Rightarrow> unit prog" where
  "sqlite_prepared S conn statement m =
     bindM (libM (sqlite3_prepare_v2 S conn (c_str statement))) (\<lambda>(rc, st).
     seqM (sqlite_check S rc) (finallyM (m st) (libM (\<lambda>l. ((), sqlite3_finalize S st l)))))"

definition sqlite_query_execute :: "sqlite3 \<Rightarrow> 'd world \<Rightarrow> exec_fn \<Rightarrow> nat \<Rightarrow> nat \<Rightarrow> nat option \<Rightarrow> unit prog" where
  "sqlite_query_execute S w ex n self caller =
     bindM (database_ptr w ex self ''@SQLITE:DATABASE@'') (\<lambda>conn.
     bindM (get_parameter ex self ''statement'') (\<lambda>statement.
       sqlite_prepared S conn statement (\<lambda>st.
         bindM (get_parameter ex self ''parameters'') (\<lambda>params.
         bindM (askM (sqlite3_bind_parameter_count S st)) (\<lambda>c.
         seqM (sqlite_bind S st [1..<Suc c] (tokenize (dclib w) params))
          (bindM (libM (sqlite3_step S st)) (\<lambda>rc.
           bindM (askM (sqlite3_changes S conn)) (\<lambda>ch.
             if rc = SQLITE_DONE \<and> 0 < ch then
               seqM (libM (\<lambda>l. ((), sqlite3_reset S st l))) (scoped (impl_execute ex self caller))
             else sqlite_rows S w st (impl_execute ex self caller) n rc))))))))"

text \<open>\<open>create_object\<close> of the module.\<close>

datatype sqlite_tag = Sqlite_database | Sqlite_transaction | Sqlite_query

definition sqlite_create_object :: "string \<Rightarrow> sqlite_tag option" where
  "sqlite_create_object name =
     (if name = ''database'' then Some Sqlite_database
      else if name = ''transaction'' then Some Sqlite_transaction
      else if name = ''query'' then Some Sqlite_query
      else None)"

definition sqlite_execute :: "sqlite3 \<Rightarrow> 'd world \<Rightarrow> exec_fn \<Rightarrow> sqlite_tag \<Rightarrow> nat \<Rightarrow> nat \<Rightarrow> nat option \<Rightarrow> unit prog" where
  "sqlite_execute S w ex k n self caller =
     (case k of
        Sqlite_database \<Rightarrow> sqlite_database_execute S w ex self caller
      | Sqlite_transaction \<Rightarrow> sqlite_transaction_execute S w ex self caller
      | Sqlite_query \<Rightarrow> sqlite_query_execute S w ex n self caller)"

end
