(* ===== verification/Pgsql_Tags.thy ===== *)
theory Pgsql_Tags
  imports Sqlite_Tags
begin

text \<open>
  The module \<open>modules/dbp_pgsql\<close>: the tags \<open>database\<close>, \<open>transaction\<close> and \<open>query\<close>. libpqxx is a parameter, and
  its functions may throw; \<open>pq_exec\<close> is \<open>work->prepared (name) (arguments) .exec ()\<close>, where an argument is absent
  for \<open>NULL\<close>.
\<close>

section \<open>libpqxx\<close>

text \<open>A field of a result; \<open>field_bool\<close> is \<open>as<bool> ()\<close>, absent if the conversion throws.\<close>

record pg_field =
  field_name :: string
  field_type :: int
  field_text :: string
  field_bool :: "bool option"

record pqxx =
  pgsql_acquire :: "string \<Rightarrow> lib \<Rightarrow> nat \<times> lib"
  pgsql_release :: "nat \<Rightarrow> lib \<Rightarrow> lib"
  pq_connect :: "string \<Rightarrow> lib \<Rightarrow> (exn + nat) \<times> lib"
  pq_disconnect :: "nat \<Rightarrow> lib \<Rightarrow> lib"
  pq_work :: "nat \<Rightarrow> lib \<Rightarrow> (exn + nat) \<times> lib"
  pq_commit :: "nat \<Rightarrow> lib \<Rightarrow> (exn + unit) \<times> lib"
  pq_abort :: "nat \<Rightarrow> lib \<Rightarrow> (exn + unit) \<times> lib"
  pq_delete :: "nat \<Rightarrow> lib \<Rightarrow> lib"
  pq_unprepare :: "nat \<Rightarrow> string \<Rightarrow> lib \<Rightarrow> (exn + unit) \<times> lib"
  pq_prepare :: "nat \<Rightarrow> string \<Rightarrow> string \<Rightarrow> lib \<Rightarrow> (exn + unit) \<times> lib"
  pq_exec :: "nat \<Rightarrow> string \<Rightarrow> string option list \<Rightarrow> lib \<Rightarrow> (exn + pg_field list list) \<times> lib"

definition libE :: "(lib \<Rightarrow> (exn + 'a) \<times> lib) \<Rightarrow> 'a prog" where
  "libE f = bindM (libM f) (\<lambda>r. case r of Inl e \<Rightarrow> throwM e | Inr x \<Rightarrow> ret x)"

definition delete_work :: "pqxx \<Rightarrow> nat \<Rightarrow> unit prog" where
  "delete_work P work = libM (\<lambda>l. ((), pq_delete P work l))"

section \<open>Statements\<close>

text \<open>
  \<open>parse\<close>: outside of quotes, \<open>?\<close> and \<open>:name\<close> become the numbered parameters of PostgreSQL. A quote of either kind
  switches its own state only.
\<close>

definition param_char :: "char \<Rightarrow> bool" where
  "param_char c \<longleftrightarrow> is_alnum c \<or> c = CHR ''_''"

function pg_parse :: "'d dcl \<Rightarrow> string \<Rightarrow> bool \<Rightarrow> bool \<Rightarrow> nat \<Rightarrow> string \<times> string list" where
  "pg_parse d [] ssq dsq n = ([], [])"
| "pg_parse d (c # cs) ssq dsq n =
     (if c = CHR 0x27 then (case pg_parse d cs (\<not> ssq) dsq n of (q, ps) \<Rightarrow> (c # q, ps))
      else if c = CHR 0x22 then (case pg_parse d cs ssq (\<not> dsq) n of (q, ps) \<Rightarrow> (c # q, ps))
      else if c = CHR ''?'' \<and> \<not> ssq \<and> \<not> dsq then
        (case pg_parse d cs ssq dsq (Suc n) of
           (q, ps) \<Rightarrow> (CHR ''$'' # of_int_str d (int (Suc n)) @ q, [] # ps))
      else if c = CHR '':'' \<and> \<not> ssq \<and> \<not> dsq then
        (case pg_parse d (dropWhile param_char cs) ssq dsq (Suc n) of
           (q, ps) \<Rightarrow> (CHR ''$'' # of_int_str d (int (Suc n)) @ q, takeWhile param_char cs # ps))
      else (case pg_parse d cs ssq dsq n of (q, ps) \<Rightarrow> (c # q, ps)))"
  by pat_completeness auto

termination pg_parse
  by (relation "measure (\<lambda>(d, cs, _). length cs)") (auto simp: le_imp_less_Suc length_dropWhile_le)

text \<open>
  The arguments. An unnamed one takes the next of the passed values without a look at the end of their list.
\<close>

fun pg_args :: "string list \<Rightarrow> string list \<Rightarrow> (string option list) prog" where
  "pg_args [] js = ret []"
| "pg_args (p # ps) js =
     (if p = [] then
        (case js of
           [] \<Rightarrow> crashM
         | j # js \<Rightarrow> bindM (pg_args ps js) (\<lambda>args. ret (Some j # args)))
      else
        bindM (valueM p) (\<lambda>v.
        bindM (pg_args ps js) (\<lambda>args. ret ((if v = [] then None else Some v) # args))))"

section \<open>The tag query\<close>

definition pg_run :: "pqxx \<Rightarrow> 'd world \<Rightarrow> exec_fn \<Rightarrow> nat \<Rightarrow> nat \<Rightarrow> nat \<Rightarrow> (pg_field list list) prog" where
  "pg_run P w ex self conn work =
     bindM (get_parameter ex self ''statement'') (\<lambda>st.
       case pg_parse (dclib w) st False False 0 of
         (statement, params) \<Rightarrow>
           seqM (libE (pq_unprepare P conn (ptr_str (dclib w) self)))
            (seqM (libE (pq_prepare P conn (ptr_str (dclib w) self) statement))
              (bindM (get_parameter ex self ''parameters'') (\<lambda>passed.
               bindM (pg_args params (tokenize (dclib w) passed)) (\<lambda>args.
                 libE (pq_exec P work (ptr_str (dclib w) self) args))))))"

text \<open>The type 16 is the type \<open>bool\<close> of PostgreSQL.\<close>

definition pg_value :: "pg_field \<Rightarrow> string" where
  "pg_value f =
     (if field_type f = 16 then
        (case field_bool f of None \<Rightarrow> [] | Some b \<Rightarrow> (if b then ''1'' else ''0''))
      else field_text f)"

definition pg_rows :: "'d world \<Rightarrow> string \<Rightarrow> unit prog \<Rightarrow> pg_field list list \<Rightarrow> unit prog" where
  "pg_rows w prefix body rows =
     forM rows (\<lambda>row. scoped (seqM (forM row (\<lambda>f. addM w (prefix @ field_name f) (pg_value f) [])) body))"

text \<open>The transaction of an enclosing tag, or one of its own; the flag is \<open>need_to_free\<close>.\<close>

definition pg_work :: "pqxx \<Rightarrow> 'd world \<Rightarrow> nat \<Rightarrow> (nat \<times> bool) prog" where
  "pg_work P w conn =
     bindM (valueM ''@PGSQL:WORK@'') (\<lambda>work_ptr.
       if work_ptr \<noteq> [] then bindM (to_ptrM w work_ptr) (\<lambda>p. ret (p, False))
       else tryM (bindM (libE (pq_work P conn)) (\<lambda>p. ret (p, True))) (\<lambda>e. module_error (what e)))"

definition pgsql_query_execute :: "pqxx \<Rightarrow> 'd world \<Rightarrow> exec_fn \<Rightarrow> nat \<Rightarrow> nat option \<Rightarrow> unit prog" where
  "pgsql_query_execute P w ex self caller =
     bindM (database_ptr w ex self ''@PGSQL:DATABASE@'') (\<lambda>conn.
     bindM (pg_work P w conn) (\<lambda>(work, need_to_free).
     bindM
      (tryM
        (bindM (pg_run P w ex self conn work) (\<lambda>r.
         seqM (if need_to_free then seqM (libE (pq_commit P work)) (delete_work P work) else ret ()) (ret r)))
        (\<lambda>e. seqM (if need_to_free then seqM (libE (pq_abort P work)) (delete_work P work) else ret ())
               (module_error (what e))))
      (\<lambda>r.
       bindM (get_parameter ex self ''prefix'') (\<lambda>prefix.
         pg_rows w prefix (impl_execute ex self caller) r))))"

section \<open>The tag transaction\<close>

definition pgsql_transaction_execute :: "pqxx \<Rightarrow> 'd world \<Rightarrow> exec_fn \<Rightarrow> nat \<Rightarrow> nat option \<Rightarrow> unit prog" where
  "pgsql_transaction_execute P w ex self caller =
     bindM (database_ptr w ex self ''@PGSQL:DATABASE@'') (\<lambda>conn.
     bindM (tryM (libE (pq_work P conn)) (\<lambda>e. module_error (what e))) (\<lambda>work.
     seqM enterM
      (tryM
        (seqM (addM w ''@PGSQL:WORK@'' (ptr_str (dclib w) work) [])
          (seqM (impl_execute ex self caller)
            (seqM (libE (pq_commit P work)) (seqM (delete_work P work) leaveM))))
        (\<lambda>e. seqM (libE (pq_abort P work)) (seqM (delete_work P work) (seqM leaveM (throwM e)))))))"

section \<open>The tag database\<close>

definition pgsql_item :: "'d world \<Rightarrow> nat \<Rightarrow> string \<times> string" where
  "pgsql_item w a = (''pgsql'', ptr_str (dclib w) a)"

definition pg_keep :: "'d world \<Rightarrow> nat \<Rightarrow> nat option \<Rightarrow> unit prog" where
  "pg_keep w a p = modM (\<lambda>s. s\<lparr>pooled := (pooled s)(pgsql_item w a \<mapsto> \<lparr>handle = p, configured = True\<rparr>)\<rparr>)"

definition pg_held :: "'d world \<Rightarrow> nat \<Rightarrow> (nat option) prog" where
  "pg_held w a =
     getM (\<lambda>s. case pooled s (pgsql_item w a) of None \<Rightarrow> None | Some c \<Rightarrow> handle c)"

definition pg_open :: "pqxx \<Rightarrow> 'd world \<Rightarrow> string \<Rightarrow> nat \<Rightarrow> nat prog" where
  "pg_open P w dsn a =
     bindM (pg_held w a) (\<lambda>h.
       case h of
         Some c \<Rightarrow> ret c
       | None \<Rightarrow> bindM (libE (pq_connect P dsn)) (\<lambda>c. seqM (pg_keep w a (Some c)) (ret c)))"

text \<open>\<open>pp->reset ()\<close> drops the connection, if there is one.\<close>

definition pg_reset :: "pqxx \<Rightarrow> 'd world \<Rightarrow> nat \<Rightarrow> unit prog" where
  "pg_reset P w a =
     bindM (pg_held w a) (\<lambda>h.
     seqM (case h of None \<Rightarrow> ret () | Some c \<Rightarrow> libM (\<lambda>l. ((), pq_disconnect P c l))) (pg_keep w a None))"

definition service_log :: "string \<Rightarrow> unit prog" where
  "service_log t =
     bindM (getM (\<lambda>s. ctxs s \<noteq> [] \<and> has_services (hd (ctxs s)))) (\<lambda>ok.
       if ok then modM (\<lambda>s. s\<lparr>logged := logged s @ [t]\<rparr>) else crashM)"

definition pg_attempt :: "pqxx \<Rightarrow> 'd world \<Rightarrow> exec_fn \<Rightarrow> nat \<Rightarrow> nat option \<Rightarrow> string \<Rightarrow> nat \<Rightarrow> unit prog" where
  "pg_attempt P w ex self caller dsn a =
     bindM (pg_open P w dsn a) (\<lambda>c.
     bindM (get_parameter ex self ''id'') (\<lambda>i.
     seqM (addM w (''@PGSQL:DATABASE@'' @ i) (ptr_str (dclib w) c) [])
      (seqM (impl_execute ex self caller) leaveM)))"

text \<open>The loop; the number is \<open>attempts\<close> after its decrement.\<close>

fun pg_attempts :: "pqxx \<Rightarrow> 'd world \<Rightarrow> exec_fn \<Rightarrow> nat \<Rightarrow> nat option \<Rightarrow> string \<Rightarrow> nat \<Rightarrow> nat \<Rightarrow> unit prog" where
  "pg_attempts P w ex self caller dsn a 0 =
     tryM (pg_attempt P w ex self caller dsn a)
      (\<lambda>e. case e of
         Broken_connection msg \<Rightarrow>
           seqM (pg_reset P w a) (seqM leaveM (seqM (service_log (trim (dclib w) msg)) (module_error msg)))
       | _ \<Rightarrow> seqM leaveM (throwM e))"
| "pg_attempts P w ex self caller dsn a (Suc k) =
     tryM (pg_attempt P w ex self caller dsn a)
      (\<lambda>e. case e of
         Broken_connection msg \<Rightarrow>
           seqM (pg_reset P w a)
            (seqM (service_log (trim (dclib w) msg @ '', reconnecting...''))
              (pg_attempts P w ex self caller dsn a k))
       | _ \<Rightarrow> seqM leaveM (throwM e))"

definition pgsql_database_execute :: "pqxx \<Rightarrow> 'd world \<Rightarrow> exec_fn \<Rightarrow> nat \<Rightarrow> nat option \<Rightarrow> unit prog" where
  "pgsql_database_execute P w ex self caller =
     bindM (get_parameter ex self ''dsn'') (\<lambda>dsn.
     bindM (get_parameter ex self ''id'') (\<lambda>database.
       if dsn = [] then module_error ''data source name (dsn) is not defined''
       else
         bindM (valueM (''@PGSQL:DATABASE@'' @ database)) (\<lambda>db_ptr.
           if db_ptr \<noteq> [] then impl_execute ex self caller
           else
             bindM (libM (pgsql_acquire P dsn)) (\<lambda>a.
               finallyM (seqM enterM (pg_attempts P w ex self caller dsn a 2))
                (libM (\<lambda>l. ((), pgsql_release P a l)))))))"

text \<open>\<open>create_object\<close> of the module.\<close>

datatype pgsql_tag = Pgsql_database | Pgsql_transaction | Pgsql_query

definition pgsql_create_object :: "string \<Rightarrow> pgsql_tag option" where
  "pgsql_create_object name =
     (if name = ''database'' then Some Pgsql_database
      else if name = ''transaction'' then Some Pgsql_transaction
      else if name = ''query'' then Some Pgsql_query
      else None)"

definition pgsql_execute :: "pqxx \<Rightarrow> 'd world \<Rightarrow> exec_fn \<Rightarrow> pgsql_tag \<Rightarrow> nat \<Rightarrow> nat option \<Rightarrow> unit prog" where
  "pgsql_execute P w ex k self caller =
     (case k of
        Pgsql_database \<Rightarrow> pgsql_database_execute P w ex self caller
      | Pgsql_transaction \<Rightarrow> pgsql_transaction_execute P w ex self caller
      | Pgsql_query \<Rightarrow> pgsql_query_execute P w ex self caller)"

end
