(* ===== verification/Odbc_Tags.thy ===== *)
theory Odbc_Tags
  imports Pgsql_Tags
begin

text \<open>
  The module \<open>modules/dbp_odbc\<close>: the tags \<open>database\<close>, \<open>transaction\<close> and \<open>query\<close>. The classes \<open>connection\<close> and
  \<open>query\<close> of dcl are parameters, and their functions may throw. \<open>odbc_prepare\<close> gives the query and its parameters,
  the name and the value each; \<open>odbc_drop\<close> is the destructor of the query.
\<close>

record odbc =
  odbc_acquire :: "string \<Rightarrow> lib \<Rightarrow> nat \<times> lib"
  odbc_release :: "nat \<Rightarrow> lib \<Rightarrow> lib"
  odbc_is_open :: "nat \<Rightarrow> lib \<Rightarrow> bool"
  odbc_open :: "nat \<Rightarrow> string \<Rightarrow> string \<Rightarrow> string \<Rightarrow> lib \<Rightarrow> (exn + unit) \<times> lib"
  odbc_close :: "nat \<Rightarrow> lib \<Rightarrow> (exn + unit) \<times> lib"
  odbc_begin :: "nat \<Rightarrow> lib \<Rightarrow> (exn + unit) \<times> lib"
  odbc_commit :: "nat \<Rightarrow> lib \<Rightarrow> (exn + unit) \<times> lib"
  odbc_rollback :: "nat \<Rightarrow> lib \<Rightarrow> (exn + unit) \<times> lib"
  odbc_query :: "nat \<Rightarrow> lib \<Rightarrow> (exn + nat) \<times> lib"
  odbc_prepare :: "nat \<Rightarrow> string \<Rightarrow> lib \<Rightarrow> (exn + (string \<times> string) list) \<times> lib"
  odbc_execute_query :: "nat \<Rightarrow> (string \<times> string) list \<Rightarrow> lib \<Rightarrow> (exn + unit) \<times> lib"
  odbc_next :: "nat \<Rightarrow> lib \<Rightarrow> (exn + bool) \<times> lib"
  odbc_fields :: "nat \<Rightarrow> lib \<Rightarrow> (string \<times> string) list"
  odbc_drop :: "nat \<Rightarrow> lib \<Rightarrow> lib"

definition odbc_database_execute :: "odbc \<Rightarrow> 'd world \<Rightarrow> exec_fn \<Rightarrow> nat \<Rightarrow> nat option \<Rightarrow> unit prog" where
  "odbc_database_execute B w ex self caller =
     bindM (get_parameter ex self ''dsn'') (\<lambda>dsn.
     bindM (get_parameter ex self ''user'') (\<lambda>user.
     bindM (get_parameter ex self ''password'') (\<lambda>password.
     bindM (get_parameter ex self ''id'') (\<lambda>database.
       if dsn = [] then module_error ''data source name (dsn) is not defined''
       else
         bindM (valueM (''@ODBC:DATABASE@'' @ database)) (\<lambda>db_ptr.
           if db_ptr \<noteq> [] then impl_execute ex self caller
           else
             bindM (libM (odbc_acquire B (dsn @ user @ password))) (\<lambda>c.
               finallyM
                (seqM enterM
                  (tryM
                    (bindM (askM (odbc_is_open B c)) (\<lambda>is_open.
                     seqM (if is_open then ret () else libE (odbc_open B c dsn user password))
                      (bindM (get_parameter ex self ''id'') (\<lambda>i.
                       seqM (addM w (''@ODBC:DATABASE@'' @ i) (ptr_str (dclib w) c) [])
                        (seqM (impl_execute ex self caller) leaveM)))))
                    (\<lambda>e. seqM (libE (odbc_close B c)) (seqM leaveM (throwM e)))))
                (libM (\<lambda>l. ((), odbc_release B c l)))))))))"

definition odbc_transaction_execute :: "odbc \<Rightarrow> 'd world \<Rightarrow> exec_fn \<Rightarrow> nat \<Rightarrow> nat option \<Rightarrow> unit prog" where
  "odbc_transaction_execute B w ex self caller =
     bindM (database_ptr w ex self ''@ODBC:DATABASE@'') (\<lambda>conn.
     seqM (libE (odbc_begin B conn))
      (tryM
        (seqM (impl_execute ex self caller) (libE (odbc_commit B conn)))
        (\<lambda>e. seqM (libE (odbc_rollback B conn)) (throwM e))))"

text \<open>The values of the parameters: an unnamed one keeps its own when the list has ended.\<close>

fun odbc_params :: "(string \<times> string) list \<Rightarrow> string list \<Rightarrow> ((string \<times> string) list) prog" where
  "odbc_params [] js = ret []"
| "odbc_params ((name, value) # ps) js =
     (if name = [] then
        (case js of
           [] \<Rightarrow> bindM (odbc_params ps []) (\<lambda>r. ret ((name, value) # r))
         | j # js \<Rightarrow> bindM (odbc_params ps js) (\<lambda>r. ret ((name, j) # r)))
      else bindM (valueM name) (\<lambda>v. bindM (odbc_params ps js) (\<lambda>r. ret ((name, v) # r))))"

text \<open>\<open>while (q.next ())\<close>; the number bounds its rounds.\<close>

fun odbc_rows :: "odbc \<Rightarrow> 'd world \<Rightarrow> nat \<Rightarrow> unit prog \<Rightarrow> nat \<Rightarrow> unit prog" where
  "odbc_rows B w q body 0 = divergeM"
| "odbc_rows B w q body (Suc n) =
     bindM (libE (odbc_next B q)) (\<lambda>more.
       if \<not> more then ret ()
       else
         seqM
          (scoped
            (bindM (askM (odbc_fields B q)) (\<lambda>fs. seqM (forM fs (\<lambda>(k, v). addM w k v [])) body)))
          (odbc_rows B w q body n))"

definition odbc_query_execute :: "odbc \<Rightarrow> 'd world \<Rightarrow> exec_fn \<Rightarrow> nat \<Rightarrow> nat \<Rightarrow> nat option \<Rightarrow> unit prog" where
  "odbc_query_execute B w ex n self caller =
     bindM (database_ptr w ex self ''@ODBC:DATABASE@'') (\<lambda>conn.
     bindM (libE (odbc_query B conn)) (\<lambda>q.
       finallyM
        (bindM (get_parameter ex self ''statement'') (\<lambda>statement.
         bindM (libE (odbc_prepare B q statement)) (\<lambda>p.
         bindM (get_parameter ex self ''parameters'') (\<lambda>params.
         bindM (odbc_params p (tokenize (dclib w) params)) (\<lambda>values.
         seqM (libE (odbc_execute_query B q values)) (odbc_rows B w q (impl_execute ex self caller) n))))))
        (libM (\<lambda>l. ((), odbc_drop B q l)))))"

datatype odbc_tag = Odbc_database | Odbc_transaction | Odbc_query

definition odbc_create_object :: "string \<Rightarrow> odbc_tag option" where
  "odbc_create_object name =
     (if name = ''database'' then Some Odbc_database
      else if name = ''transaction'' then Some Odbc_transaction
      else if name = ''query'' then Some Odbc_query
      else None)"

definition odbc_execute :: "odbc \<Rightarrow> 'd world \<Rightarrow> exec_fn \<Rightarrow> odbc_tag \<Rightarrow> nat \<Rightarrow> nat \<Rightarrow> nat option \<Rightarrow> unit prog" where
  "odbc_execute B w ex k n self caller =
     (case k of
        Odbc_database \<Rightarrow> odbc_database_execute B w ex self caller
      | Odbc_transaction \<Rightarrow> odbc_transaction_execute B w ex self caller
      | Odbc_query \<Rightarrow> odbc_query_execute B w ex n self caller)"

end
