(* ===== verification/Redis_Tags.thy ===== *)
theory Redis_Tags
  imports Sqlite_Tags Session_Modules
begin

text \<open>
  The module \<open>modules/dbp_redis\<close>: the tags \<open>connection\<close> and \<open>query\<close>. The connection is the class of
  \<open>redis_connection.h\<close> that the session module uses too. A connection of the pool is known by the text of its
  address.
\<close>

text \<open>
  The answer to a command, with the text that \<open>str\<close> of an element points to; \<open>str\<close> is \<open>NULL\<close> in an element
  that is a number or nil. Replies are values: \<open>freeReplyObject\<close> runs on every path.
\<close>

datatype redis_reply =
    REDIS_REPLY_STATUS string | REDIS_REPLY_ERROR string | REDIS_REPLY_INTEGER int | REDIS_REPLY_STRING string
  | REDIS_REPLY_NIL | REDIS_REPLY_ARRAY "string option list" | REDIS_REPLY_unknown

record redis_lib =
  redis_pool_acquire :: "string \<Rightarrow> lib \<Rightarrow> nat \<times> lib"
  redis_pool_release :: "nat \<Rightarrow> lib \<Rightarrow> lib"
  redisCommandArgv :: "nat \<Rightarrow> string list \<Rightarrow> lib \<Rightarrow> redis_reply option \<times> lib"
  redis_errstr_of :: "nat \<Rightarrow> lib \<Rightarrow> string"

section \<open>The tag connection\<close>

record redis_defaults =
  dflt_server :: string
  dflt_password :: string
  dflt_database :: int

definition redis_setup :: "hiredis \<Rightarrow> 'd dcl \<Rightarrow> string \<Rightarrow> string \<Rightarrow> string \<Rightarrow> int \<Rightarrow> unit prog" where
  "redis_setup R d key server password database =
     bindM (redis_acquire key) (\<lambda>c.
       if configured c then ret ()
       else
         seqM (redis_configure R d key (default_tokens R (trim d server)))
          (seqM (if password \<noteq> [] then redis_login R key password else ret ())
            (if 0 < database then redis_select R d key database else ret ())))"

definition redis_connection_execute ::
  "hiredis \<Rightarrow> redis_lib \<Rightarrow> redis_defaults \<Rightarrow> 'd world \<Rightarrow> exec_fn \<Rightarrow> nat \<Rightarrow> nat option \<Rightarrow> unit prog" where
  "redis_connection_execute R A D w ex self caller =
     bindM (get_parameter ex self ''server'') (\<lambda>server0.
     bindM (get_parameter ex self ''password'') (\<lambda>password0.
     bindM (get_parameter ex self ''id'') (\<lambda>connection.
     bindM (valueM (''@REDIS:CONNECTION@'' @ connection)) (\<lambda>db_ptr.
       let server = (if server0 = [] then dflt_server D else server0);
           password = (if password0 = [] then dflt_password D else password0)
       in
         if db_ptr \<noteq> [] then impl_execute ex self caller
         else
           bindM (libM (redis_pool_acquire A (server @ connection))) (\<lambda>a.
             finallyM
              (seqM enterM
                (tryM
                  (seqM (redis_setup R (dclib w) (ptr_str (dclib w) a) server password (dflt_database D))
                    (seqM (addM w (''@REDIS:CONNECTION@'' @ connection) (ptr_str (dclib w) a) [])
                      (seqM (impl_execute ex self caller) leaveM)))
                  (\<lambda>e. seqM (redis_reset (ptr_str (dclib w) a)) (seqM leaveM (throwM e)))))
              (libM (\<lambda>l. ((), redis_pool_release A a l))))))))"

section \<open>The tag query\<close>

definition redis_context :: "string \<Rightarrow> nat prog" where
  "redis_context key =
     bindM (getM (\<lambda>s. pooled s (''redis'', key))) (\<lambda>c.
       case (case c of None \<Rightarrow> None | Some c \<Rightarrow> handle c) of None \<Rightarrow> crashM | Some h \<Rightarrow> ret h)"

text \<open>One element of an array: \<open>add_value\<close> makes a string of the pointer \<open>str\<close>.\<close>

definition redis_element :: "'d world \<Rightarrow> unit prog \<Rightarrow> string option \<Rightarrow> unit prog" where
  "redis_element w body e =
     scoped (case e of None \<Rightarrow> crashM | Some t \<Rightarrow> seqM (addM w ''value'' (c_str t) []) body)"

definition redis_answer :: "'d world \<Rightarrow> unit prog \<Rightarrow> redis_reply \<Rightarrow> unit prog" where
  "redis_answer w body r =
     (case r of
        REDIS_REPLY_STATUS t \<Rightarrow> seqM (addM w ''value'' (c_str t) []) body
      | REDIS_REPLY_ERROR t \<Rightarrow> throwM (Dbp_exc Plain_exception (c_str t))
      | REDIS_REPLY_INTEGER i \<Rightarrow> seqM (addM w ''value'' (of_int_str (dclib w) i) []) body
      | REDIS_REPLY_STRING t \<Rightarrow> seqM (addM w ''value'' (c_str t) []) body
      | REDIS_REPLY_NIL \<Rightarrow> ret ()
      | REDIS_REPLY_ARRAY es \<Rightarrow>
          seqM (addM w ''count'' (of_int_str (dclib w) (int (length es))) []) (forM es (redis_element w body))
      | REDIS_REPLY_unknown \<Rightarrow> throwM (Dbp_exc Plain_exception ''Redis: unknown reply type''))"

definition redis_query_execute :: "redis_lib \<Rightarrow> 'd world \<Rightarrow> exec_fn \<Rightarrow> nat \<Rightarrow> nat option \<Rightarrow> unit prog" where
  "redis_query_execute A w ex self caller =
     bindM (database_ptr w ex self ''@REDIS:CONNECTION@'') (\<lambda>conn.
     seqM enterM
      (tryM
        (bindM (get_parameter ex self ''command'') (\<lambda>statement.
         bindM (get_parameter ex self ''args'') (\<lambda>args.
         bindM (redis_context (ptr_str (dclib w) conn)) (\<lambda>h.
         bindM (libM (redisCommandArgv A h (statement # tokenize (dclib w) args))) (\<lambda>reply.
         seqM
          (case reply of
             None \<Rightarrow> bindM (askM (redis_errstr_of A h)) (\<lambda>t. throwM (Dbp_exc Plain_exception (c_str t)))
           | Some r \<Rightarrow> redis_answer w (impl_execute ex self caller) r)
          leaveM)))))
        (\<lambda>e. seqM leaveM (module_error (what e)))))"

section \<open>The module\<close>

definition redis_module_init :: "(config \<Rightarrow> string \<Rightarrow> string \<Rightarrow> int \<Rightarrow> int) \<Rightarrow> config option \<Rightarrow> string \<Rightarrow> redis_defaults" where
  "redis_module_init int_value oc password =
     (case oc of
        None \<Rightarrow> \<lparr>dflt_server = ''localhost:6379'', dflt_password = password, dflt_database = 0\<rparr>
      | Some cfg \<Rightarrow>
          \<lparr>dflt_server = cfg_value cfg ''modules.redis'' ''server'' ''localhost:6379'',
           dflt_password = cfg_value cfg ''modules.redis'' ''password'' [],
           dflt_database = int_value cfg ''modules.redis'' ''database'' 0\<rparr>)"

datatype redis_tag = Redis_connection | Redis_query

definition redis_tag_object :: "string \<Rightarrow> redis_tag option" where
  "redis_tag_object name =
     (if name = ''connection'' then Some Redis_connection
      else if name = ''query'' then Some Redis_query
      else None)"

definition redis_execute ::
  "hiredis \<Rightarrow> redis_lib \<Rightarrow> redis_defaults \<Rightarrow> 'd world \<Rightarrow> exec_fn \<Rightarrow> redis_tag \<Rightarrow> nat \<Rightarrow> nat option \<Rightarrow> unit prog" where
  "redis_execute R A D w ex k self caller =
     (case k of
        Redis_connection \<Rightarrow> redis_connection_execute R A D w ex self caller
      | Redis_query \<Rightarrow> redis_query_execute A w ex self caller)"

end
