(* ===== verification/Module_Interp.thy ===== *)
theory Module_Interp
  imports Sqlite_Tags Pgsql_Tags Odbc_Tags Redis_Tags Invariants
begin

text \<open>
  The interpreter with the tags of modules. A page that uses a module holds objects that \<open>create_object\<close> of the
  module made; \<open>cl\<close> gives the class of these, by their address, and \<open>X\<close> is their virtual function \<open>execute\<close>. All other
  objects run as before.
\<close>

primrec execute_with ::
  "'d world \<Rightarrow> (exec_fn \<Rightarrow> 'k \<Rightarrow> nat \<Rightarrow> nat \<Rightarrow> nat option \<Rightarrow> unit prog) \<Rightarrow> (nat \<rightharpoonup> 'k) \<Rightarrow> nat \<Rightarrow> exec_fn" where
  "execute_with w X cl 0 = (\<lambda>self caller. divergeM)"
| "execute_with w X cl (Suc n) =
     (\<lambda>self caller.
        case cl self of
          Some k \<Rightarrow> X (execute_with w X cl n) k n self caller
        | None \<Rightarrow> bindM (derefM self) (\<lambda>me. dispatch w (execute_with w X cl n) n (cls me) self caller))"

lemma execute_without_modules: "execute_with w X (\<lambda>_. None) n = execute w n"
  by (induction n) simp_all

section \<open>Relations kept by pages with modules\<close>

text \<open>
  A module is a client of the interpreter: its tags keep a relation whenever the tags they call do. Then so does
  every page.
\<close>

locale module_frame = tag_frame R w for R :: "state \<Rightarrow> state \<Rightarrow> bool" and w :: "'d world" +
  fixes X :: "exec_fn \<Rightarrow> 'k \<Rightarrow> nat \<Rightarrow> nat \<Rightarrow> nat option \<Rightarrow> unit prog"
  assumes pres_module: "(\<And>t c. pres R (ex t c)) \<Longrightarrow> pres R (X ex k n self caller)"
begin

lemma pres_execute_with: "pres R (execute_with w X cl n t c)"
proof (induction n arbitrary: t c)
  case (Suc n)
  then have calls: "tag_frame_calls R w (execute_with w X cl n)" by unfold_locales
  show ?case
  proof (cases "cl t")
    case None
    with tag_frame_calls.pres_execute_step [OF calls] show ?thesis by simp
  next
    case (Some k)
    with pres_module [OF Suc] show ?thesis by simp
  qed
qed (simp add: pres_diverge)

end

section \<open>Relations on the state of the libraries\<close>

definition R_lib :: "(lib \<Rightarrow> lib \<Rightarrow> bool) \<Rightarrow> state \<Rightarrow> state \<Rightarrow> bool" where
  "R_lib Q s s' \<longleftrightarrow> Q (remote s) (remote s')"

locale lib_frame =
  fixes Q :: "lib \<Rightarrow> lib \<Rightarrow> bool"
  assumes Q_refl: "Q l l"
    and Q_trans: "Q l l' \<Longrightarrow> Q l' l'' \<Longrightarrow> Q l l''"
begin

lemma R_lib_kept: "kept (R_lib Q)"
  by unfold_locales (auto simp: R_lib_def intro: Q_refl Q_trans)

lemma R_lib_call:
  assumes ex: "\<And>t. pres (R_lib Q) (ex t None)"
  shows "pres (R_lib Q) (run_call d ex self nd args)"
proof (rule presI)
  fix s r t s'
  assume "run_call d ex self nd args s = (r, t, s')" and r: "r \<noteq> Crash" "r \<noteq> Diverge"
  then obtain s1 s2 where 1: "install_call d self nd args s = Some s1"
    and 2: "capture (ex (next_tag s) None) s1 = (r, t, s2)"
    and s': "s' = s2\<lparr>heap := (\<lambda>a. if next_tag s \<le> a \<and> a \<le> next_tag s + length args then None else heap s2 a)\<rparr>"
    by (rule run_call_cases)
  from 1 have "remote s1 = remote s" by (auto simp: install_call_def Let_def split: option.splits)
  with presD [OF kept.pres_capture [OF R_lib_kept ex] 2 r] show "R_lib Q s s'" by (simp add: R_lib_def s')
qed

lemma R_lib_data:
  "pres (R_lib Q) (put_umap a um)" "pres (R_lib Q) (put_vlist a xs)"
  "(\<And>a. pres (R_lib Q) (f a)) \<Longrightarrow> pres (R_lib Q) (with_umap f)"
  "(\<And>a. pres (R_lib Q) (g a)) \<Longrightarrow> pres (R_lib Q) (with_vlist g)"
proof -
  show "pres (R_lib Q) (put_umap a um)" "pres (R_lib Q) (put_vlist a xs)"
    by (auto intro!: presI Q_refl simp: put_umap_def put_vlist_def R_lib_def split: if_splits)
  show "(\<And>a. pres (R_lib Q) (f a)) \<Longrightarrow> pres (R_lib Q) (with_umap f)"
    "(\<And>a. pres (R_lib Q) (g a)) \<Longrightarrow> pres (R_lib Q) (with_vlist g)"
    by (rule pres_with_umapI pres_with_vlistI; simp add: R_lib_def)+
qed

lemma pres_libM: "(\<And>l. Q l (snd (f l))) \<Longrightarrow> pres (R_lib Q) (libM f)"
  by (rule presI) (auto simp: libM_def R_lib_def split: prod.splits, metis snd_conv)

end

sublocale lib_frame \<subseteq> data_frame "R_lib Q" w for w
  by (intro data_frame.intro R_lib_kept data_frame_axioms.intro R_lib_data R_lib_call)
    (auto simp: R_lib_def intro: Q_refl)

section \<open>The tags of the SQLite module\<close>

text \<open>
  The laws of the brackets of the module and of the calls between them. They are what the tags of the module
  require of a relation beyond the laws of the interpreter.
\<close>

locale sqlite_frame = tag_frame R w for R :: "state \<Rightarrow> state \<Rightarrow> bool" and w :: "'d world" +
  fixes S :: sqlite3
  assumes pres_pooled [pres_intros]: "pres R (modM (\<lambda>s. s\<lparr>pooled := f s\<rparr>))"
    and pres_open [pres_intros]: "pres R (libM (sqlite3_open_v2 S dsn))"
    and pres_bind_null [pres_intros]: "pres R (libM (sqlite3_bind_null S st i))"
    and pres_bind_text [pres_intros]: "pres R (libM (sqlite3_bind_text S st i v))"
    and pres_step [pres_intros]: "pres R (libM (sqlite3_step S st))"
    and pres_reset [pres_intros]: "pres R (libM (\<lambda>l. ((), sqlite3_reset S st l)))"
    and pres_pool [pres_intros]: "(\<And>a. pres R (m a)) \<Longrightarrow> pres R (sqlite_pool S dsn m)"
    and pres_prepared [pres_intros]: "(\<And>st. pres R (p st)) \<Longrightarrow> pres R (sqlite_prepared S conn statement p)"
    and pres_transaction [pres_intros]: "pres R b \<Longrightarrow> pres R (sqlite_transaction S conn b)"
    and pres_scoped_code: "pres R (c :: int prog) \<Longrightarrow> pres R (scoped c)"
begin

lemma pres_module_error [pres_intros]: "pres R (module_error msg)"
  unfolding module_error_def by (rule pres_throw)

lemma pres_ask [pres_intros]: "pres R (askM f)"
  unfolding askM_def by (rule pres_get)

lemma pres_check [pres_intros]: "pres R (sqlite_check S r)"
  unfolding sqlite_check_def by (intro pres_intros)

lemma pres_bind_value [pres_intros]: "pres R (sqlite_bind_value S st i v)"
  unfolding sqlite_bind_value_def by (cases "v = []"; simp; intro pres_intros)

lemma pres_sqlite_bind [pres_intros]: "pres R (sqlite_bind S st is params)"
  by (induction "is" arbitrary: params) (auto intro!: pres_intros split: option.split list.split)

lemma pres_column [pres_intros]: "pres R (sqlite_column S w st i)"
  unfolding sqlite_column_def by (intro pres_intros)

lemma pres_rows [pres_intros]: "pres R body \<Longrightarrow> pres R (sqlite_rows S w st body n rc)"
proof (induction n arbitrary: rc)
  case (Suc n)
  then show ?case unfolding sqlite_rows.simps
    by (intro pres_if pres_scoped pres_bind pres_scoped_code pres_intros)
qed (simp add: pres_diverge)

lemma pres_sqlite_open [pres_intros]: "pres R (sqlite_open S w dsn a)"
  unfolding sqlite_open_def by (intro pres_intros)

end

text \<open>With the called program, all tags of the module.\<close>

locale sqlite_frame_calls = sqlite_frame R w S + tag_frame_calls R w ex
  for R :: "state \<Rightarrow> state \<Rightarrow> bool" and w :: "'d world" and S :: sqlite3 and ex :: exec_fn
begin

lemma pres_database_ptr [pres_intros]: "pres R (database_ptr w ex self prefix)"
  unfolding database_ptr_def by (intro pres_intros)

lemma pres_sqlite_tag: "pres R (sqlite_execute S w ex k n self c)"
  unfolding sqlite_execute_def sqlite_database_execute_def sqlite_transaction_execute_def sqlite_query_execute_def
  by (cases k; simp; intro pres_intros)

end

sublocale sqlite_frame \<subseteq> module_frame R w "sqlite_execute S w"
proof unfold_locales
  fix ex :: exec_fn and k n self caller
  assume "\<And>t c. pres R (ex t c)"
  then have "sqlite_frame_calls R w S ex" by unfold_locales
  then show "pres R (sqlite_execute S w ex k n self caller)" by (rule sqlite_frame_calls.pres_sqlite_tag)
qed

context sqlite_frame
begin

lemma pres_sqlite_page: "pres R (execute_with w (sqlite_execute S w) cl n t c)"
  by (rule pres_execute_with)

lemma pres_sqlite_body: "pres R (impl_execute (execute_with w (sqlite_execute S w) cl n) t c)"
  unfolding impl_execute_def by (intro pres_intros pres_execute_with)

end

section \<open>Relations that do not look at the libraries\<close>

locale library_free = tag_frame R w for R :: "state \<Rightarrow> state \<Rightarrow> bool" and w :: "'d world" +
  assumes L_pooled: "R s (s\<lparr>pooled := p\<rparr>)"
    and L_remote: "R s (s\<lparr>remote := l\<rparr>)"
    and L_scoped: "pres R (c :: int prog) \<Longrightarrow> pres R (scoped c)"
begin

lemma pres_lib [pres_intros]: "pres R (libM f)"
  by (auto intro!: presI L_remote simp: libM_def split: prod.splits)

lemma pres_error [pres_intros]: "pres R (module_error msg)" "pres R (sqlite_check S r)" "pres R (sqlite_command S conn cmd)"
  unfolding module_error_def sqlite_check_def sqlite_command_def by (auto intro!: pres_intros split: option.split)

lemma pres_brackets:
  "(\<And>a. pres R (m a)) \<Longrightarrow> pres R (sqlite_pool S dsn m)"
  "(\<And>st. pres R (p st)) \<Longrightarrow> pres R (sqlite_prepared S conn statement p)"
  "pres R b \<Longrightarrow> pres R (sqlite_transaction S conn b)"
  unfolding sqlite_pool_def sqlite_prepared_def sqlite_transaction_def by (intro pres_intros; simp)+

end

sublocale library_free \<subseteq> sqlite_frame R w S for S
  by unfold_locales (auto intro!: pres_lib pres_mod L_pooled L_scoped pres_brackets)

end
