(* ===== verification/Sqlite_Correct.thy ===== *)
theory Sqlite_Correct
  imports Module_Interp
begin

text \<open>
  Pages with the tags of the SQLite module: the contexts are left as they were found, each prepared statement is
  finalized and each connection goes back to the pool, and a transaction is committed as a whole or not at all.
\<close>

section \<open>Contexts\<close>

interpretation shape_sqlite: library_free "R_shape w" w for w
  by unfold_locales (auto intro: R_shape_scoped simp: R_shape_def)

section \<open>Statements and connections are given back\<close>

text \<open>
  What SQLite documents about its statements and dcl about its pool: \<open>opened\<close> counts the statements that are
  prepared and not finalized, \<open>taken\<close> the connections that are acquired and not released.
\<close>

definition same_counts :: "(lib \<Rightarrow> nat) \<Rightarrow> (lib \<Rightarrow> nat) \<Rightarrow> lib \<Rightarrow> lib \<Rightarrow> bool" where
  "same_counts opened taken l l' \<longleftrightarrow> opened l' = opened l \<and> taken l' = taken l"

definition counting_laws :: "sqlite3 \<Rightarrow> (lib \<Rightarrow> nat) \<Rightarrow> (lib \<Rightarrow> nat) \<Rightarrow> bool" where
  "counting_laws S opened taken \<longleftrightarrow>
     (\<forall>conn x l rc st l'. sqlite3_prepare_v2 S conn x l = ((rc, st), l') \<longrightarrow>
        opened l' = opened l + (if rc = SQLITE_OK \<and> st \<noteq> None then 1 else 0) \<and> taken l' = taken l) \<and>
     (\<forall>st l. opened (sqlite3_finalize S st l) = opened l - (if st = None then 0 else 1)) \<and>
     (\<forall>st l. taken (sqlite3_finalize S st l) = taken l) \<and>
     (\<forall>dsn l a l'. sqlite_acquire S dsn l = (a, l') \<longrightarrow> taken l' = Suc (taken l) \<and> opened l' = opened l) \<and>
     (\<forall>a l. taken (sqlite_release S a l) = taken l - 1 \<and> opened (sqlite_release S a l) = opened l) \<and>
     (\<forall>dsn l. same_counts opened taken l (snd (sqlite3_open_v2 S dsn l))) \<and>
     (\<forall>st i l. same_counts opened taken l (snd (sqlite3_bind_null S st i l))) \<and>
     (\<forall>st i v l. same_counts opened taken l (snd (sqlite3_bind_text S st i v l))) \<and>
     (\<forall>st l. same_counts opened taken l (snd (sqlite3_step S st l))) \<and>
     (\<forall>st l. same_counts opened taken l (sqlite3_reset S st l)) \<and>
     (\<forall>conn cmd l. same_counts opened taken l (snd (sqlite3_exec S conn cmd l)))"

interpretation counts: lib_frame "same_counts opened taken" for opened taken
  by unfold_locales (auto simp: same_counts_def)

lemma lib_unit: "libM (\<lambda>l. ((), f l)) = modM (\<lambda>s. s\<lparr>remote := f (remote s)\<rparr>)"
  by (simp add: libM_def modM_def fun_eq_iff)

lemma pool_cases:
  assumes "sqlite_pool S dsn m s = (r, t, s')" "r \<noteq> Crash" "r \<noteq> Diverge"
  obtains a l s1 where "sqlite_acquire S dsn (remote s) = (a, l)" "m a (s\<lparr>remote := l\<rparr>) = (r, t, s1)"
    "s' = s1\<lparr>remote := sqlite_release S a (remote s1)\<rparr>"
  using assms by (auto simp: sqlite_pool_def bindM_def libM_def [of "sqlite_acquire S dsn"] lib_unit
      split: prod.splits elim!: finally_mod_cases)

lemma prepared_cases:
  assumes "sqlite_prepared S conn text m s = (r, t, s')" "r \<noteq> Crash" "r \<noteq> Diverge"
  obtains (failed) rc st l where "sqlite3_prepare_v2 S conn (c_str text) (remote s) = ((rc, st), l)" "rc \<noteq> SQLITE_OK"
      "s' = s\<lparr>remote := l\<rparr>"
  | (run) st l s1 where "sqlite3_prepare_v2 S conn (c_str text) (remote s) = ((SQLITE_OK, st), l)"
      "m st (s\<lparr>remote := l\<rparr>) = (r, t, s1)" "s' = s1\<lparr>remote := sqlite3_finalize S st (remote s1)\<rparr>"
proof -
  obtain rc st l where p: "sqlite3_prepare_v2 S conn (c_str text) (remote s) = ((rc, st), l)" by (metis surj_pair)
  show thesis
  proof (cases "rc = SQLITE_OK")
    case False
    with p assms show ?thesis
      by (intro failed [OF p]) (auto simp: sqlite_prepared_def prog_defs libM_def sqlite_check_def module_error_def)
  next
    case True
    with p assms have "finallyM (m st) (modM (\<lambda>s. s\<lparr>remote := sqlite3_finalize S st (remote s)\<rparr>)) (s\<lparr>remote := l\<rparr>) = (r, t, s')"
      by (auto simp: sqlite_prepared_def bindM_def seqM_def libM_def [of "sqlite3_prepare_v2 S conn (c_str text)"]
          sqlite_check_def ret_def lib_unit split: prod.splits outcome.splits)
    with assms(2,3) True p show ?thesis by (auto elim!: finally_mod_cases intro: run)
  qed
qed

text \<open>The ways through a transaction.\<close>

lemma command_run:
  assumes "sqlite3_exec S conn cmd (remote s) = ((rc, msg), l)"
  shows "sqlite_command S conn cmd s =
    (if rc = SQLITE_OK then (Ok (), [], s\<lparr>remote := l\<rparr>)
     else case msg of None \<Rightarrow> (Crash, [], s\<lparr>remote := l\<rparr>)
       | Some m \<Rightarrow> (Throw (Dbp_exc Module_exception (c_str m)), [], s\<lparr>remote := l\<rparr>))"
  using assms by (auto simp: sqlite_command_def libM_def prog_defs module_error_def split: option.splits)

lemma transaction_cases:
  assumes run: "sqlite_transaction S conn b s = (r, t, s')" and r: "r \<noteq> Crash" "r \<noteq> Diverge"
  obtains (no_begin) rc msg l where "sqlite3_exec S conn ''BEGIN'' (remote s) = ((rc, msg), l)" "rc \<noteq> SQLITE_OK"
      "\<exists>e. r = Throw e" "s' = s\<lparr>remote := l\<rparr>"
  | (commit) msg l ob sb msg' l' where "sqlite3_exec S conn ''BEGIN'' (remote s) = ((SQLITE_OK, msg), l)"
      "b (s\<lparr>remote := l\<rparr>) = (Ok (), ob, sb)" "sqlite3_exec S conn ''COMMIT'' (remote sb) = ((SQLITE_OK, msg'), l')"
      "r = Ok ()" "s' = sb\<lparr>remote := l'\<rparr>"
  | (no_commit) msg l ob sb rc msg' l' r2 where "sqlite3_exec S conn ''BEGIN'' (remote s) = ((SQLITE_OK, msg), l)"
      "b (s\<lparr>remote := l\<rparr>) = (Ok (), ob, sb)" "sqlite3_exec S conn ''COMMIT'' (remote sb) = ((rc, msg'), l')" "rc \<noteq> SQLITE_OK"
      "\<exists>e. r = Throw e" "sqlite3_exec S conn ''ROLLBACK'' l' = (r2, remote s')"
  | (body) msg l ob sb e r2 where "sqlite3_exec S conn ''BEGIN'' (remote s) = ((SQLITE_OK, msg), l)"
      "b (s\<lparr>remote := l\<rparr>) = (Throw e, ob, sb)" "\<exists>e. r = Throw e"
      "sqlite3_exec S conn ''ROLLBACK'' (remote sb) = (r2, remote s')"
proof -
  obtain rc msg l where b: "sqlite3_exec S conn ''BEGIN'' (remote s) = ((rc, msg), l)" by (metis surj_pair)
  obtain rb ob sb where m: "b (s\<lparr>remote := l\<rparr>) = (rb, ob, sb)" by (metis surj_pair)
  obtain rc' msg' l' where c: "sqlite3_exec S conn ''COMMIT'' (remote sb) = ((rc', msg'), l')" by (metis surj_pair)
  have rollback: "\<exists>e r2. r = Throw e \<and> sqlite3_exec S conn ''ROLLBACK'' (remote u) = (r2, remote s')"
    if "seqM (sqlite_command S conn ''ROLLBACK'') (throwM e) u = (r, t', s')" for e t' u
  proof -
    obtain rc msg l where x: "sqlite3_exec S conn ''ROLLBACK'' (remote u) = ((rc, msg), l)" by (metis surj_pair)
    from that r show ?thesis
      by (auto simp: x seqM_def bindM_def throwM_def command_run [OF x] split: if_splits option.splits)
  qed
  show thesis
  proof (cases "rc = SQLITE_OK")
    case False
    with b run r show ?thesis
      by (intro no_begin [OF b]) (auto simp: sqlite_transaction_def seqM_def bindM_def command_run [OF b] split: option.splits)
  next
    case ok: True
    note begin_run = run [unfolded sqlite_transaction_def seqM_def bindM_def [of "sqlite_command S conn ''BEGIN''"]
        command_run [OF b], unfolded ok, simplified]
    show ?thesis
    proof (cases rb)
      case (Ok u)
      then have m': "b (s\<lparr>remote := l\<rparr>) = (Ok (), ob, sb)" using m by simp
      show ?thesis
      proof (cases "rc' = SQLITE_OK")
        case True
        with begin_run c m' have "r = Ok ()" "s' = sb\<lparr>remote := l'\<rparr>"
          by (auto simp: tryM_def bindM_def command_run [OF c] split: prod.splits)
        then show ?thesis using commit [OF b [unfolded ok] m' c [unfolded True]] by simp
      next
        case False
        with begin_run c m' r obtain e t' where
          "seqM (sqlite_command S conn ''ROLLBACK'') (throwM e) (sb\<lparr>remote := l'\<rparr>) = (r, t', s')"
          by (auto simp: tryM_def bindM_def [of b] seqM_def command_run [OF c] split: prod.splits option.splits)
        from rollback [OF this] no_commit [OF b [unfolded ok] m' c False] show ?thesis by auto
      qed
    next
      case (Throw e)
      with begin_run m obtain t' where "seqM (sqlite_command S conn ''ROLLBACK'') (throwM e) sb = (r, t', s')"
        by (auto simp: tryM_def bindM_def [of b] seqM_def split: prod.splits)
      from rollback [OF this] body [OF b [unfolded ok] m [unfolded Throw]] show ?thesis by auto
    qed (use begin_run m r in \<open>auto simp: tryM_def bindM_def\<close>)
  qed
qed

lemma counting_lawsD:
  assumes "counting_laws S opened taken"
  shows "sqlite3_prepare_v2 S conn x l = ((rc, st), l') \<Longrightarrow>
      opened l' = opened l + (if rc = SQLITE_OK \<and> st \<noteq> None then 1 else 0) \<and> taken l' = taken l"
    and "opened (sqlite3_finalize S st l) = opened l - (if st = None then 0 else 1)"
    and "taken (sqlite3_finalize S st l) = taken l"
    and "sqlite_acquire S dsn l = (a, l') \<Longrightarrow> taken l' = Suc (taken l) \<and> opened l' = opened l"
    and "taken (sqlite_release S a l) = taken l - 1" "opened (sqlite_release S a l) = opened l"
  using assms unfolding counting_laws_def by - (elim conjE; simp)+

lemma counting_quiet:
  assumes "counting_laws S opened taken"
  shows "same_counts opened taken l (snd (sqlite3_open_v2 S dsn l))"
    "same_counts opened taken l (snd (sqlite3_bind_null S st i l))"
    "same_counts opened taken l (snd (sqlite3_bind_text S st i v l))"
    "same_counts opened taken l (snd (sqlite3_step S st l))"
    "same_counts opened taken l (sqlite3_reset S st l)"
    "same_counts opened taken l (snd (sqlite3_exec S conn cmd l))"
  using assms unfolding counting_laws_def by - (elim conjE; simp)+

lemma counting_brackets:
  fixes opened taken
  defines "R \<equiv> R_lib (same_counts opened taken)"
  assumes laws: "counting_laws S opened taken"
  shows "(\<And>a. pres R (m a)) \<Longrightarrow> pres R (sqlite_pool S dsn m)"
    and "(\<And>st. pres R (p st)) \<Longrightarrow> pres R (sqlite_prepared S conn text p)"
proof -
  assume m: "\<And>a. pres R (m a)"
  show "pres R (sqlite_pool S dsn m)"
  proof (rule presI)
    fix s r t s'
    assume *: "sqlite_pool S dsn m s = (r, t, s')" "r \<noteq> Crash" "r \<noteq> Diverge"
    then obtain a l s1 where 1: "sqlite_acquire S dsn (remote s) = (a, l)" "m a (s\<lparr>remote := l\<rparr>) = (r, t, s1)"
        "s' = s1\<lparr>remote := sqlite_release S a (remote s1)\<rparr>" by (rule pool_cases)
    from presD [OF m 1(2) *(2,3)] counting_lawsD(4) [OF laws 1(1)] show "R s s'"
      by (simp add: R_def R_lib_def same_counts_def 1(3) counting_lawsD(5,6) [OF laws])
  qed
next
  assume p: "\<And>st. pres R (p st)"
  show "pres R (sqlite_prepared S conn text p)"
  proof (rule presI)
    fix s r t s'
    assume *: "sqlite_prepared S conn text p s = (r, t, s')" "r \<noteq> Crash" "r \<noteq> Diverge"
    then show "R s s'"
    proof (cases rule: prepared_cases)
      case (failed rc st l)
      with counting_lawsD(1) [OF laws failed(1)] show ?thesis by (simp add: R_def R_lib_def same_counts_def)
    next
      case (run st l s1)
      from presD [OF p run(2) *(2,3)] counting_lawsD(1) [OF laws run(1)] show ?thesis
        by (simp add: R_def R_lib_def same_counts_def run(3) counting_lawsD(2,3) [OF laws] split: if_splits)
    qed
  qed
qed

lemma counting_frame:
  assumes laws: "counting_laws S opened taken"
  shows "sqlite_frame (R_lib (same_counts opened taken)) w S"
proof -
  let ?R = "R_lib (same_counts opened taken)"
  have command: "pres ?R (sqlite_command S conn cmd)" for conn cmd
    unfolding sqlite_command_def module_error_def
    by (intro counts.pres_bind counts.pres_libM counting_quiet [OF laws])
      (auto intro!: counts.pres_throw counts.pres_ret counts.pres_crash split: option.split)
  have "pres ?R (sqlite_transaction S conn b)" if "pres ?R b" for conn b
    unfolding sqlite_transaction_def by (intro counts.pres_seq counts.pres_try counts.pres_throw command that)
  moreover have "pres ?R (modM (\<lambda>s. s\<lparr>pooled := f s\<rparr>))" for f
    by (intro counts.pres_mod) (simp add: R_lib_def same_counts_def)
  moreover have "pres ?R (scoped c)" if "pres ?R c" for c :: "int prog"
    unfolding scoped_def by (intro counts.pres_seq counts.pres_finally counts.pres_ctx_ops that)
  moreover have "pres ?R (libM (\<lambda>l. ((), sqlite3_reset S st l)))" for st
    by (rule counts.pres_libM) (simp add: counting_quiet [OF laws])
  ultimately show ?thesis
    by (intro sqlite_frame.intro counts.tag_frame_axioms sqlite_frame_axioms.intro)
      (auto intro: counting_brackets [OF laws] counts.pres_libM counting_quiet [OF laws])
qed

section \<open>Transactions are atomic\<close>

text \<open>
  What SQLite documents about transactions, for one connection \<open>c\<close>: \<open>com\<close> holds the changes that the connection
  committed and \<open>pend\<close> those of its open transaction, if there is one. \<open>ctl\<close> counts the events that end or start a
  transaction without the tag: statements of the page itself such as \<open>COMMIT\<close>, and the automatic rollback after
  some errors. Between such events, no call but \<open>sqlite3_exec\<close> ends a transaction or commits within it.
\<close>

definition steady :: "(lib \<Rightarrow> 'x list) \<Rightarrow> (lib \<Rightarrow> 'x list option) \<Rightarrow> (lib \<Rightarrow> nat) \<Rightarrow> lib \<Rightarrow> lib \<Rightarrow> bool" where
  "steady com pend ctl l l' \<longleftrightarrow> ctl l \<le> ctl l' \<and>
     (ctl l' = ctl l \<longrightarrow> pend l \<noteq> None \<longrightarrow> pend l' \<noteq> None \<and> com l' = com l)"

definition quiet_calls :: "sqlite3 \<Rightarrow> (lib \<Rightarrow> lib \<Rightarrow> bool) \<Rightarrow> bool" where
  "quiet_calls S Q \<longleftrightarrow>
     (\<forall>dsn l. Q l (snd (sqlite_acquire S dsn l))) \<and> (\<forall>a l. Q l (sqlite_release S a l)) \<and>
     (\<forall>dsn l. Q l (snd (sqlite3_open_v2 S dsn l))) \<and> (\<forall>conn x l. Q l (snd (sqlite3_prepare_v2 S conn x l))) \<and>
     (\<forall>st i l. Q l (snd (sqlite3_bind_null S st i l))) \<and> (\<forall>st i v l. Q l (snd (sqlite3_bind_text S st i v l))) \<and>
     (\<forall>st l. Q l (snd (sqlite3_step S st l))) \<and> (\<forall>st l. Q l (sqlite3_reset S st l)) \<and>
     (\<forall>st l. Q l (sqlite3_finalize S st l))"

definition transaction_laws ::
  "sqlite3 \<Rightarrow> nat \<Rightarrow> (lib \<Rightarrow> 'x list) \<Rightarrow> (lib \<Rightarrow> 'x list option) \<Rightarrow> (lib \<Rightarrow> nat) \<Rightarrow> bool" where
  "transaction_laws S c com pend ctl \<longleftrightarrow>
     quiet_calls S (steady com pend ctl) \<and>
     (\<forall>conn cmd l r l'. sqlite3_exec S conn cmd l = (r, l') \<longrightarrow> ctl l' = ctl l \<and>
        (conn \<noteq> c \<longrightarrow> com l' = com l \<and> pend l' = pend l)) \<and>
     (\<forall>l rc msg l'. sqlite3_exec S c ''BEGIN'' l = ((rc, msg), l') \<longrightarrow> com l' = com l \<and>
        (if rc = SQLITE_OK then pend l = None \<and> pend l' = Some [] else pend l' = pend l)) \<and>
     (\<forall>l rc msg l'. sqlite3_exec S c ''COMMIT'' l = ((rc, msg), l') \<longrightarrow>
        (if rc = SQLITE_OK then pend l' = None \<and> (\<exists>p. pend l = Some p \<and> com l' = com l @ p) else com l' = com l)) \<and>
     (\<forall>l rc msg l'. sqlite3_exec S c ''ROLLBACK'' l = ((rc, msg), l') \<longrightarrow> com l' = com l \<and>
        (rc = SQLITE_OK \<longrightarrow> pend l' = None))"

definition rollback_refused :: "sqlite3 \<Rightarrow> nat \<Rightarrow> lib \<Rightarrow> bool" where
  "rollback_refused S c l' \<longleftrightarrow> (\<exists>l rc msg. sqlite3_exec S c ''ROLLBACK'' l = ((rc, msg), l') \<and> rc \<noteq> SQLITE_OK)"

lemma transaction_lawsD:
  assumes "transaction_laws S c com pend ctl"
  shows "quiet_calls S (steady com pend ctl)"
    and "sqlite3_exec S conn cmd l = (r, l') \<Longrightarrow> ctl l' = ctl l \<and> (conn \<noteq> c \<longrightarrow> com l' = com l \<and> pend l' = pend l)"
    and "sqlite3_exec S c ''BEGIN'' l = ((rc, msg), l') \<Longrightarrow> com l' = com l \<and>
        (if rc = SQLITE_OK then pend l = None \<and> pend l' = Some [] else pend l' = pend l)"
    and "sqlite3_exec S c ''COMMIT'' l = ((rc, msg), l') \<Longrightarrow>
        (if rc = SQLITE_OK then pend l' = None \<and> (\<exists>p. pend l = Some p \<and> com l' = com l @ p) else com l' = com l)"
    and "sqlite3_exec S c ''ROLLBACK'' l = ((rc, msg), l') \<Longrightarrow> com l' = com l \<and> (rc = SQLITE_OK \<longrightarrow> pend l' = None)"
  using assms unfolding transaction_laws_def by (elim conjE; metis)+

interpretation steadily: lib_frame "steady com pend ctl" for com pend ctl
proof unfold_locales
  fix l l' l'' assume 1: "steady com pend ctl l l'" "steady com pend ctl l' l''"
  show "steady com pend ctl l l''" unfolding steady_def
  proof (intro conjI impI)
    from 1 show "ctl l \<le> ctl l''" by (simp add: steady_def)
    assume "ctl l'' = ctl l" "pend l \<noteq> None"
    with 1 show "pend l'' \<noteq> None" "com l'' = com l" by (auto simp: steady_def)
  qed
qed (simp add: steady_def)

text \<open>A transaction of the page keeps an open one on the same connection: the inner \<open>BEGIN\<close> fails.\<close>

lemma steady_transaction:
  assumes laws: "transaction_laws S c com pend ctl" and b: "pres (R_lib (steady com pend ctl)) b"
  shows "pres (R_lib (steady com pend ctl)) (sqlite_transaction S conn b)"
proof (rule presI)
  fix s r t s'
  assume run: "sqlite_transaction S conn b s = (r, t, s')" "r \<noteq> Crash" "r \<noteq> Diverge"
  note ctl = transaction_lawsD(2) [OF laws]
  have inner: "steady com pend ctl (remote s) l'"
    if "sqlite3_exec S conn ''BEGIN'' (remote s) = ((SQLITE_OK, msg), l)" "steady com pend ctl l lb"
      "ctl l' = ctl lb" "conn \<noteq> c \<Longrightarrow> com l' = com lb \<and> pend l' = pend lb" for msg l lb l'
  proof (cases "conn = c")
    case True
    with that transaction_lawsD(3) [OF laws, of "remote s" SQLITE_OK msg l] ctl [OF that(1)] show ?thesis
      by (simp add: steady_def)
  next
    case False
    with that ctl [OF that(1)] show ?thesis by (simp add: steady_def)
  qed
  from run show "R_lib (steady com pend ctl) s s'"
  proof (cases rule: transaction_cases)
    case (no_begin rc msg l)
    with ctl [OF no_begin(1)] transaction_lawsD(3) [OF laws, of "remote s" rc msg l] show ?thesis
      by (cases "conn = c") (simp_all add: R_lib_def steady_def)
  next
    case (commit msg l ob sb msg' l')
    from presD [OF b commit(2)] have "steady com pend ctl l (remote sb)" by (simp add: R_lib_def)
    from inner [OF commit(1) this] ctl [OF commit(3)] show ?thesis by (simp add: R_lib_def commit(5))
  next
    case (no_commit msg l ob sb rc msg' l' r2)
    from presD [OF b no_commit(2)] have "steady com pend ctl l (remote sb)" by (simp add: R_lib_def)
    from inner [OF no_commit(1) this] ctl [OF no_commit(3)] ctl [OF no_commit(6)] show ?thesis by (simp add: R_lib_def)
  next
    case (body msg l ob sb e r2)
    from presD [OF b body(2)] have "steady com pend ctl l (remote sb)" by (simp add: R_lib_def)
    from inner [OF body(1) this] ctl [OF body(4)] show ?thesis by (simp add: R_lib_def)
  qed
qed

lemma quiet_callsD:
  assumes "quiet_calls S Q"
  shows "Q l (snd (sqlite_acquire S dsn l))" "Q l (sqlite_release S a l)" "Q l (snd (sqlite3_open_v2 S dsn l))"
    "Q l (snd (sqlite3_prepare_v2 S conn x l))" "Q l (snd (sqlite3_bind_null S st i l))"
    "Q l (snd (sqlite3_bind_text S st i v l))" "Q l (snd (sqlite3_step S st l))" "Q l (sqlite3_reset S st l)"
    "Q l (sqlite3_finalize S st l)"
  using assms unfolding quiet_calls_def by - (elim conjE; simp)+

lemma steady_frame:
  assumes laws: "transaction_laws S c com pend ctl"
  shows "sqlite_frame (R_lib (steady com pend ctl)) w S"
proof -
  let ?R = "R_lib (steady com pend ctl)"
  note quiet = quiet_callsD [OF transaction_lawsD(1) [OF laws]]
  have unit: "pres ?R (libM (\<lambda>l. ((), f l)))" if "\<And>l. steady com pend ctl l (f l)" for f
    by (rule steadily.pres_libM) (simp add: that)
  have "pres ?R (sqlite_pool S dsn m)" if "\<And>a. pres ?R (m a)" for dsn m
    unfolding sqlite_pool_def by (intro steadily.pres_bind steadily.pres_finally steadily.pres_libM unit quiet that)
  moreover have "pres ?R (sqlite_prepared S conn x p)" if "\<And>st. pres ?R (p st)" for conn x p
    unfolding sqlite_prepared_def sqlite_check_def module_error_def
    by (intro steadily.pres_bind steadily.pres_prod steadily.pres_seq steadily.pres_if steadily.pres_throw steadily.pres_ret
        steadily.pres_finally steadily.pres_libM unit quiet that)
  moreover have "pres ?R (scoped m)" if "pres ?R m" for m :: "int prog"
    unfolding scoped_def by (intro steadily.pres_seq steadily.pres_finally steadily.pres_ctx_ops that)
  moreover have "pres ?R (modM (\<lambda>s. s\<lparr>pooled := f s\<rparr>))" for f
    by (intro steadily.pres_mod) (simp add: R_lib_def steady_def)
  ultimately show ?thesis
    by (intro sqlite_frame.intro steadily.tag_frame_axioms sqlite_frame_axioms.intro)
      (auto intro: steady_transaction [OF laws] steadily.pres_libM unit quiet)
qed

lemma transaction_atomic:
  assumes laws: "transaction_laws S c com pend ctl" and b: "pres (R_lib (steady com pend ctl)) b"
    and run: "sqlite_transaction S c b s = (r, t, s')" "r \<noteq> Crash" "r \<noteq> Diverge" and ctl: "ctl (remote s') = ctl (remote s)"
  shows "case r of
      Ok _ \<Rightarrow> \<exists>s1 ob sb p. b s1 = (Ok (), ob, sb) \<and> pend (remote s1) = Some [] \<and> pend (remote sb) = Some p \<and>
        com (remote s') = com (remote s) @ p \<and> pend (remote s') = None
    | _ \<Rightarrow> com (remote s') = com (remote s) \<and>
        (pend (remote s') = None \<or> pend (remote s) \<noteq> None \<or>
         rollback_refused S c (remote s'))"
proof -
  have rolled: "com (remote s') = com l \<and> (pend (remote s') = None \<or>
      rollback_refused S c (remote s'))"
    if "sqlite3_exec S c ''ROLLBACK'' l = (r2, remote s')" for l r2
    using that transaction_lawsD(5) [OF laws, of l "fst r2" "snd r2" "remote s'"] by (cases r2) (auto simp: rollback_refused_def)
  have stays: "com lb = com (remote s) \<and> ctl l = ctl (remote s) \<and> pend l = Some []"
    if "sqlite3_exec S c ''BEGIN'' (remote s) = ((SQLITE_OK, msg), l)" "steady com pend ctl l lb" "ctl lb = ctl (remote s')" for msg l lb
    using transaction_lawsD(2,3) [OF laws that(1)] that(2,3) ctl by (simp add: steady_def)
  from run show ?thesis
  proof (cases rule: transaction_cases)
    case (no_begin rc msg l)
    with transaction_lawsD(3) [OF laws no_begin(1)] show ?thesis by auto
  next
    case (commit msg l ob sb msg' l')
    from presD [OF b commit(2)] have 1: "steady com pend ctl l (remote sb)" by (simp add: R_lib_def)
    from transaction_lawsD(2) [OF laws commit(3)] have "ctl (remote sb) = ctl (remote s')" by (simp add: commit(5))
    from stays [OF commit(1) 1 this] transaction_lawsD(4) [OF laws commit(3)] commit(2,4,5) show ?thesis by force
  next
    case (no_commit msg l ob sb rc msg' l' r2)
    from presD [OF b no_commit(2)] have 1: "steady com pend ctl l (remote sb)" by (simp add: R_lib_def)
    from transaction_lawsD(2) [OF laws no_commit(3)] transaction_lawsD(2) [OF laws no_commit(6)]
    have "ctl (remote sb) = ctl (remote s')" by simp
    from stays [OF no_commit(1) 1 this] transaction_lawsD(4) [OF laws no_commit(3)] rolled [OF no_commit(6)]
      no_commit(4,5) show ?thesis by auto
  next
    case (body msg l ob sb e r2)
    from presD [OF b body(2)] have 1: "steady com pend ctl l (remote sb)" by (simp add: R_lib_def)
    from transaction_lawsD(2) [OF laws body(4)] have "ctl (remote sb) = ctl (remote s')" by simp
    from stays [OF body(1) 1 this] rolled [OF body(4)] body(3) show ?thesis by auto
  qed
qed

end
