(* ===== verification/Pgsql_Correct.thy ===== *)
theory Pgsql_Correct
  imports Module_Interp
begin

text \<open>
  The PostgreSQL module: what \<open>parse\<close> makes of a statement, and how often a connection is tried.
\<close>

section \<open>Statements\<close>

text \<open>The pieces of a statement: a character that is kept, or one of the two forms of a parameter.\<close>

datatype piece = Lit char | Mark | Colon string

fun piece_src :: "piece \<Rightarrow> string" where
  "piece_src (Lit c) = [c]"
| "piece_src Mark = ''?''"
| "piece_src (Colon p) = CHR '':'' # p"

fun numbered :: "'d dcl \<Rightarrow> nat \<Rightarrow> piece list \<Rightarrow> string" where
  "numbered d n [] = []"
| "numbered d n (Lit c # ts) = c # numbered d n ts"
| "numbered d n (t # ts) = CHR ''$'' # of_int_str d (int (Suc n)) @ numbered d (Suc n) ts"

fun piece_params :: "piece list \<Rightarrow> string list" where
  "piece_params [] = []"
| "piece_params (Lit c # ts) = piece_params ts"
| "piece_params (Mark # ts) = [] # piece_params ts"
| "piece_params (Colon p # ts) = p # piece_params ts"

text \<open>Parameters stand outside of quotes, and inside of them the signs of parameters are characters.\<close>

fun well_quoted :: "bool \<Rightarrow> bool \<Rightarrow> piece list \<Rightarrow> bool" where
  "well_quoted ssq dsq [] = True"
| "well_quoted ssq dsq (Lit c # ts) =
     (if c = CHR 0x27 then well_quoted (\<not> ssq) dsq ts
      else if c = CHR 0x22 then well_quoted ssq (\<not> dsq) ts
      else (c = CHR ''?'' \<or> c = CHR '':'' \<longrightarrow> ssq \<or> dsq) \<and> well_quoted ssq dsq ts)"
| "well_quoted ssq dsq (Mark # ts) = (\<not> ssq \<and> \<not> dsq \<and> well_quoted ssq dsq ts)"
| "well_quoted ssq dsq (Colon p # ts) = (\<not> ssq \<and> \<not> dsq \<and> list_all param_char p \<and> well_quoted ssq dsq ts)"

lemma pg_parse_pieces:
  "\<exists>ts. concat (map piece_src ts) = st \<and> well_quoted ssq dsq ts \<and>
     pg_parse d st ssq dsq n = (numbered d n ts, piece_params ts)"
proof (induction d st ssq dsq n rule: pg_parse.induct)
  case (1 d ssq dsq n)
  show ?case by (rule exI [of _ "[]"]) simp
next
  case (2 d c cs ssq dsq n)
  consider "c = CHR 0x27" | "c = CHR 0x22" | "c = CHR ''?''" "\<not> ssq" "\<not> dsq" | "c = CHR '':''" "\<not> ssq" "\<not> dsq"
    | "c \<noteq> CHR 0x27" "c \<noteq> CHR 0x22" "c = CHR ''?'' \<or> c = CHR '':'' \<longrightarrow> ssq \<or> dsq" by blast
  then show ?case
  proof cases
    case 1
    with 2(1) obtain ts where ts: "concat (map piece_src ts) = cs" "well_quoted (\<not> ssq) dsq ts"
      "pg_parse d cs (\<not> ssq) dsq n = (numbered d n ts, piece_params ts)" by auto
    show ?thesis by (rule exI [of _ "Lit c # ts"]) (use 1 ts in simp)
  next
    case q: 2
    with 2(2) obtain ts where ts: "concat (map piece_src ts) = cs" "well_quoted ssq (\<not> dsq) ts"
      "pg_parse d cs ssq (\<not> dsq) n = (numbered d n ts, piece_params ts)" by auto
    show ?thesis by (rule exI [of _ "Lit c # ts"]) (use q ts in simp)
  next
    case 3
    with 2(3) obtain ts where ts: "concat (map piece_src ts) = cs" "well_quoted ssq dsq ts"
      "pg_parse d cs ssq dsq (Suc n) = (numbered d (Suc n) ts, piece_params ts)" by auto
    show ?thesis by (rule exI [of _ "Mark # ts"]) (use 3 ts in simp)
  next
    case 4
    with 2(4) obtain ts where ts: "concat (map piece_src ts) = dropWhile param_char cs" "well_quoted ssq dsq ts"
      "pg_parse d (dropWhile param_char cs) ssq dsq (Suc n) = (numbered d (Suc n) ts, piece_params ts)" by auto
    show ?thesis
      by (rule exI [of _ "Colon (takeWhile param_char cs) # ts"]) (use 4 ts in \<open>auto simp: list_all_iff dest: set_takeWhileD\<close>)
  next
    case 5
    with 2(5) obtain ts where ts: "concat (map piece_src ts) = cs" "well_quoted ssq dsq ts"
      "pg_parse d cs ssq dsq n = (numbered d n ts, piece_params ts)" by auto
    show ?thesis by (rule exI [of _ "Lit c # ts"]) (use 5 ts in auto)
  qed
qed

text \<open>A statement with no sign of a parameter outside of quotes is left alone.\<close>

lemma pieces_without_params:
  "well_quoted ssq dsq ts \<Longrightarrow> piece_params ts = [] \<Longrightarrow> numbered d n ts = concat (map piece_src ts)"
  by (induction ts arbitrary: ssq dsq rule: piece_params.induct) (auto split: if_splits)

section \<open>Arguments\<close>

text \<open>The arguments can be read exactly if there is a value for each unnamed parameter.\<close>

lemma pg_args_crash:
  "(\<exists>as. pg_args ps js s = (Ok as, [], s) \<and> length as = length ps \<and> length (filter (\<lambda>p. p = []) ps) \<le> length js) \<or>
   pg_args ps js s = (Crash, [], s) \<and> length js < length (filter (\<lambda>p. p = []) ps)"
proof (induction ps js rule: pg_args.induct)
  case (2 p ps js)
  show ?case
  proof (cases "p = []")
    case True
    with 2(1) show ?thesis by (cases js) (auto simp: bindM_def ret_def crashM_def)
  next
    case False
    with 2(2) show ?thesis by (auto simp: bindM_def ret_def valueM_def getM_def)
  qed
qed (simp add: ret_def)

section \<open>A server that does not answer\<close>

text \<open>An attempt with no connection in the pool.\<close>

lemma attempt_broken:
  assumes "pq_connect P dsn (remote s) = (Inl (Broken_connection msg), l)" and "pg_held w a s = (Ok None, [], s)"
  shows "pg_attempt P w ex self caller dsn a s = (Throw (Broken_connection msg), [], s\<lparr>remote := l\<rparr>)"
  using assms by (simp add: pg_attempt_def pg_open_def bind_Ok libE_def bindM_def libM_def throwM_def)

lemma reset_empty:
  "pg_held w a s = (Ok None, [], s) \<Longrightarrow>
   pg_reset P w a s = (Ok (), [], s\<lparr>pooled := (pooled s)(pgsql_item w a \<mapsto> \<lparr>handle = None, configured = True\<rparr>)\<rparr>)"
  by (simp add: pg_reset_def bind_Ok pg_keep_def modM_def seqM_def bindM_def ret_def)

lemma held_after_reset:
  "pg_held w a (s\<lparr>pooled := (pooled s)(pgsql_item w a \<mapsto> \<lparr>handle = None, configured = True\<rparr>), logged := ls\<rparr>) =
   (Ok None, [], s\<lparr>pooled := (pooled s)(pgsql_item w a \<mapsto> \<lparr>handle = None, configured = True\<rparr>), logged := ls\<rparr>)"
  by (simp add: pg_held_def getM_def)

lemma log_run:
  "ctxs s \<noteq> [] \<Longrightarrow> has_services (hd (ctxs s)) \<Longrightarrow> service_log t s = (Ok (), [], s\<lparr>logged := logged s @ [t]\<rparr>)"
  by (simp add: service_log_def bindM_def getM_def modM_def)

text \<open>The loop, while every attempt to connect fails: it tries once more than the number says.\<close>

lemma attempts_broken:
  assumes "\<And>l. pq_connect P dsn l = (Inl (Broken_connection msg), tried l)" and "pg_held w a s = (Ok None, [], s)"
    and "ctxs s = c # cs" "has_services c" "leave (c # cs) = Ok cs'" "cs' \<noteq> []" "has_services (hd cs')"
  shows "pg_attempts P w ex self caller dsn a k s =
    (Throw (Dbp_exc Module_exception msg), [],
     s\<lparr>ctxs := cs', pooled := (pooled s)(pgsql_item w a \<mapsto> \<lparr>handle = None, configured = True\<rparr>),
       remote := (tried ^^ Suc k) (remote s),
       logged := logged s @ replicate k (trim (dclib w) msg @ '', reconnecting...'') @ [trim (dclib w) msg]\<rparr>)"
  using assms(2,3)
proof (induction k arbitrary: s)
  case 0
  let ?s = "s\<lparr>remote := tried (remote s)\<rparr>"
  have h: "pg_held w a ?s = (Ok None, [], ?s)" using 0(1) by (simp add: pg_held_def getM_def)
  have "pg_attempts P w ex self caller dsn a 0 s =
    seqM (pg_reset P w a) (seqM leaveM (seqM (service_log (trim (dclib w) msg)) (module_error msg))) ?s"
    unfolding pg_attempts.simps tryM_def attempt_broken [OF assms(1) 0(1)] by (simp split: prod.split)
  also have "\<dots> = seqM leaveM (seqM (service_log (trim (dclib w) msg)) (module_error msg))
      (?s\<lparr>pooled := (pooled s)(pgsql_item w a \<mapsto> \<lparr>handle = None, configured = True\<rparr>)\<rparr>)"
    using reset_empty [OF h, of P] by (simp add: seq_Ok)
  finally show ?case using 0(2) assms(4-)
    by (simp add: seqM_def bindM_def leaveM_def ctxM_def log_run module_error_def throwM_def del: leave.simps)
      (rule state.equality, simp_all add: fun_eq_iff)
next
  case (Suc k)
  let ?s = "s\<lparr>remote := tried (remote s)\<rparr>"
  let ?t = "?s\<lparr>pooled := (pooled s)(pgsql_item w a \<mapsto> \<lparr>handle = None, configured = True\<rparr>),
    logged := logged s @ [trim (dclib w) msg @ '', reconnecting...'']\<rparr>"
  have h: "pg_held w a ?s = (Ok None, [], ?s)" using Suc(2) by (simp add: pg_held_def getM_def)
  have "pg_attempts P w ex self caller dsn a (Suc k) s =
    seqM (pg_reset P w a) (seqM (service_log (trim (dclib w) msg @ '', reconnecting...'')) (pg_attempts P w ex self caller dsn a k)) ?s"
    unfolding pg_attempts.simps tryM_def attempt_broken [OF assms(1) Suc(2)] by (simp split: prod.split)
  also have "\<dots> = pg_attempts P w ex self caller dsn a k ?t"
    using reset_empty [OF h, of P] Suc(3) assms(4) by (simp add: seq_Ok log_run)
  also have "\<dots> = (Throw (Dbp_exc Module_exception msg), [],
     ?t\<lparr>ctxs := cs', pooled := (pooled ?t)(pgsql_item w a \<mapsto> \<lparr>handle = None, configured = True\<rparr>),
       remote := (tried ^^ Suc k) (remote ?t),
       logged := logged ?t @ replicate k (trim (dclib w) msg @ '', reconnecting...'') @ [trim (dclib w) msg]\<rparr>)"
    by (rule Suc.IH) (use Suc(3) in \<open>simp_all add: pg_held_def getM_def\<close>)
  finally show ?case by (simp add: funpow_swap1) (rule state.equality, simp_all add: fun_eq_iff)
qed

end
