(* ===== verification/Bdb_Tags.thy ===== *)
theory Bdb_Tags
  imports Pgsql_Tags
begin

text \<open>
  The module \<open>modules/dbp_bdb\<close>: the tags \<open>storage\<close>, \<open>get\<close>, \<open>set\<close>, \<open>find\<close> and \<open>delete\<close> over Berkeley DB, whose C++
  interface is a parameter. Its functions may throw; a missing key is an answer and not an exception.
\<close>

record bdb =
  bdb_path :: "string \<Rightarrow> string \<times> string"
  bdb_env_open :: "string \<Rightarrow> lib \<Rightarrow> (string + nat) \<times> lib"
  bdb_new :: "nat \<Rightarrow> lib \<Rightarrow> nat \<times> lib"
  bdb_open :: "nat \<Rightarrow> string \<Rightarrow> lib \<Rightarrow> (string + unit) \<times> lib"
  bdb_close :: "nat \<Rightarrow> lib \<Rightarrow> lib"
  bdb_delete_db :: "nat \<Rightarrow> lib \<Rightarrow> lib"
  bdb_get :: "nat \<Rightarrow> string \<Rightarrow> lib \<Rightarrow> (exn + string option) \<times> lib"
  bdb_put :: "nat \<Rightarrow> string \<Rightarrow> string \<Rightarrow> lib \<Rightarrow> (exn + bool) \<times> lib"
  bdb_del :: "nat \<Rightarrow> string \<Rightarrow> lib \<Rightarrow> (exn + bool) \<times> lib"
  bdb_cursor :: "nat \<Rightarrow> lib \<Rightarrow> (exn + nat) \<times> lib"
  bdb_set_range :: "nat \<Rightarrow> string \<Rightarrow> lib \<Rightarrow> (exn + (string \<times> string) option) \<times> lib"
  bdb_next :: "nat \<Rightarrow> lib \<Rightarrow> (exn + (string \<times> string) option) \<times> lib"
  bdb_cursor_close :: "nat \<Rightarrow> lib \<Rightarrow> lib"

section \<open>Environments and databases\<close>

text \<open>The environments are kept by their path, for the life of the process.\<close>

definition bdb_environment :: "bdb \<Rightarrow> 'd world \<Rightarrow> string \<Rightarrow> nat prog" where
  "bdb_environment B w href =
     (let path = (case bdb_path B href of (p, _) \<Rightarrow> if p = [] then ''./'' else p) in
      bindM (getM (\<lambda>s. pooled s (''bdb-env'', path))) (\<lambda>c.
        case (case c of None \<Rightarrow> None | Some c \<Rightarrow> handle c) of
          Some env \<Rightarrow> ret env
        | None \<Rightarrow>
            bindM (libM (bdb_env_open B (c_str path))) (\<lambda>r.
              case r of
                Inl msg \<Rightarrow> throw_fmt w Module_exception ''storage can't be opened ({0})'' [msg]
              | Inr env \<Rightarrow>
                  seqM (modM (\<lambda>s. s\<lparr>pooled := (pooled s)((''bdb-env'', path) \<mapsto> \<lparr>handle = Some env, configured = True\<rparr>)\<rparr>))
                   (ret env))))"

text \<open>
  A \<open>bdb_database\<close> is kept under its address: \<open>configured\<close> is \<open>_is_opened\<close>. \<open>_was_write\<close> is read by \<open>flush\<close> only, which
  no tag calls.
\<close>

definition bdb_item :: "'d world \<Rightarrow> nat \<Rightarrow> string \<times> string" where
  "bdb_item w a = (''bdb'', ptr_str (dclib w) a)"

definition bdb_keep :: "'d world \<Rightarrow> nat \<Rightarrow> connection option \<Rightarrow> unit prog" where
  "bdb_keep w a c = modM (\<lambda>s. s\<lparr>pooled := (pooled s)(bdb_item w a := c)\<rparr>)"

definition bdb_open_database :: "bdb \<Rightarrow> 'd world \<Rightarrow> nat \<Rightarrow> string \<Rightarrow> unit prog" where
  "bdb_open_database B w a fname =
     bindM (libM (bdb_open B a (c_str fname))) (\<lambda>r.
       case r of
         Inl msg \<Rightarrow> throw_fmt w Module_exception ''storage can't be opened ({0})'' [msg]
       | Inr _ \<Rightarrow> bdb_keep w a (Some \<lparr>handle = Some a, configured = True\<rparr>))"

definition bdb_destroy :: "bdb \<Rightarrow> 'd world \<Rightarrow> nat \<Rightarrow> unit prog" where
  "bdb_destroy B w a =
     bindM (getM (\<lambda>s. pooled s (bdb_item w a))) (\<lambda>c.
     seqM
      (case c of
         None \<Rightarrow> ret ()
       | Some c \<Rightarrow> if configured c then libM (\<lambda>l. ((), bdb_close B a l)) else ret ())
      (seqM (libM (\<lambda>l. ((), bdb_delete_db B a l))) (bdb_keep w a None)))"

definition bdb_opened :: "'d world \<Rightarrow> nat \<Rightarrow> unit prog" where
  "bdb_opened w a =
     bindM (getM (\<lambda>s. pooled s (bdb_item w a))) (\<lambda>c.
       case c of
         None \<Rightarrow> crashM
       | Some c \<Rightarrow> if configured c then ret () else module_error ''storage is not opened'')"

definition bdb_database_get :: "bdb \<Rightarrow> 'd world \<Rightarrow> nat \<Rightarrow> string \<Rightarrow> string prog" where
  "bdb_database_get B w a key =
     seqM (bdb_opened w a)
      (bindM (libE (bdb_get B a key)) (\<lambda>r.
         case r of
           Some v \<Rightarrow> ret v
         | None \<Rightarrow> throw_fmt w Module_exception ''can't retrieve data from the storage ({0})'' [key]))"

definition bdb_database_set :: "bdb \<Rightarrow> 'd world \<Rightarrow> nat \<Rightarrow> string \<Rightarrow> string \<Rightarrow> unit prog" where
  "bdb_database_set B w a key v =
     seqM (bdb_opened w a)
      (bindM (libE (bdb_put B a key v)) (\<lambda>ok.
         if ok then ret () else throw_fmt w Module_exception ''can't add data to the storage ({0})'' [key]))"

definition bdb_database_del :: "bdb \<Rightarrow> 'd world \<Rightarrow> nat \<Rightarrow> string \<Rightarrow> unit prog" where
  "bdb_database_del B w a key =
     seqM (bdb_opened w a)
      (bindM (libE (bdb_del B a key)) (\<lambda>ok.
         if ok then ret () else throw_fmt w Module_exception ''can't delete data from the storage ({0})'' [key]))"

section \<open>Iterators\<close>

text \<open>
  \<open>strncmp (data, key, n) == 0\<close>, where the data has no zero byte at its end: \<open>None\<close> if a byte behind it is read.
\<close>

fun c_ncmp :: "string \<Rightarrow> string \<Rightarrow> nat \<Rightarrow> bool option" where
  "c_ncmp a b 0 = Some True"
| "c_ncmp [] b (Suc n) = None"
| "c_ncmp (x # xs) b (Suc n) =
     (let y = (case b of [] \<Rightarrow> CHR 0x00 | y # _ \<Rightarrow> y)
      in if x \<noteq> y then Some False
         else if x = CHR 0x00 then Some True
         else c_ncmp xs (tl b) n)"

text \<open>The entry at the cursor, if its key starts with the searched one; else the iterator is at its end.\<close>

definition bdb_entry :: "string \<Rightarrow> (string \<times> string) option \<Rightarrow> ((string \<times> string) option) prog" where
  "bdb_entry key r =
     (case r of
        None \<Rightarrow> ret None
      | Some (k, v) \<Rightarrow>
          (case c_ncmp k key (length key) of
             None \<Rightarrow> crashM
           | Some eq \<Rightarrow> ret (if eq then Some (k, v) else None)))"

definition bdb_find_tag :: "'d world \<Rightarrow> unit prog \<Rightarrow> string \<times> string \<Rightarrow> unit prog" where
  "bdb_find_tag w body kv =
     scoped (seqM (addM w ''key'' (fst kv) []) (seqM (addM w ''value'' (snd kv) []) body))"

fun bdb_rows :: "bdb \<Rightarrow> 'd world \<Rightarrow> nat \<Rightarrow> string \<Rightarrow> unit prog \<Rightarrow> nat \<Rightarrow> (string \<times> string) option \<Rightarrow> unit prog" where
  "bdb_rows B w cur key body n None = ret ()"
| "bdb_rows B w cur key body 0 (Some kv) = divergeM"
| "bdb_rows B w cur key body (Suc n) (Some kv) =
     seqM (bdb_find_tag w body kv)
      (bindM (libE (bdb_next B cur)) (\<lambda>r.
       bindM (bdb_entry key r) (bdb_rows B w cur key body n)))"

definition bdb_find :: "bdb \<Rightarrow> 'd world \<Rightarrow> nat \<Rightarrow> string \<Rightarrow> unit prog \<Rightarrow> nat \<Rightarrow> unit prog" where
  "bdb_find B w a key body n =
     seqM (bdb_opened w a)
      (bindM (libE (bdb_cursor B a)) (\<lambda>cur.
         finallyM
          (bindM (libE (bdb_set_range B cur key)) (\<lambda>r.
           bindM (bdb_entry key r) (bdb_rows B w cur key body n)))
          (libM (\<lambda>l. ((), bdb_cursor_close B cur l)))))"

section \<open>The tags\<close>

definition bdb_storage_execute :: "bdb \<Rightarrow> 'd world \<Rightarrow> exec_fn \<Rightarrow> nat \<Rightarrow> nat option \<Rightarrow> unit prog" where
  "bdb_storage_execute B w ex self caller =
     bindM (get_parameter ex self ''href'') (\<lambda>href.
     bindM (get_parameter ex self ''id'') (\<lambda>i.
       if href = [] then module_error ''storage file name (href) is not defined''
       else
         bindM (bdb_environment B w href) (\<lambda>env.
         bindM (libM (bdb_new B env)) (\<lambda>a.
           finallyM
            (seqM (bdb_open_database B w a href)
              (scoped
                (seqM (addM w (''@BDB:DATABASE@'' @ i) (ptr_str (dclib w) a) []) (impl_execute ex self caller))))
            (bdb_destroy B w a)))))"

definition bdb_ptr :: "'d world \<Rightarrow> exec_fn \<Rightarrow> nat \<Rightarrow> nat prog" where
  "bdb_ptr w ex self =
     bindM (get_parameter ex self ''storage'') (\<lambda>name.
     bindM (valueM (''@BDB:DATABASE@'' @ name)) (\<lambda>db_ptr.
       if db_ptr = [] then
         bindM (get_parameter ex self ''storage'') (\<lambda>i.
           throw_fmt w Module_exception ''storage (id='{0}') is not defined in the current context''
             [if i = [] then ''(default)'' else i])
       else to_ptrM w db_ptr))"

definition bdb_named :: "'d world \<Rightarrow> exec_fn \<Rightarrow> nat \<Rightarrow> (string \<Rightarrow> nat \<Rightarrow> unit prog) \<Rightarrow> unit prog" where
  "bdb_named w ex self m =
     bindM (get_parameter ex self ''name'') (\<lambda>name.
       if name = [] then module_error ''key name (name) is not defined''
       else bindM (bdb_ptr w ex self) (m name))"

definition bdb_delete_execute :: "bdb \<Rightarrow> 'd world \<Rightarrow> exec_fn \<Rightarrow> nat \<Rightarrow> nat option \<Rightarrow> unit prog" where
  "bdb_delete_execute B w ex self caller =
     bdb_named w ex self (\<lambda>name a. seqM (bdb_database_del B w a name) (impl_execute ex self caller))"

definition bdb_get_execute :: "bdb \<Rightarrow> 'd world \<Rightarrow> exec_fn \<Rightarrow> nat \<Rightarrow> nat option \<Rightarrow> unit prog" where
  "bdb_get_execute B w ex self caller =
     bdb_named w ex self (\<lambda>name a.
       bindM (bdb_database_get B w a name) (\<lambda>v. seqM (outM v) (impl_execute ex self caller)))"

definition bdb_set_execute :: "bdb \<Rightarrow> 'd world \<Rightarrow> exec_fn \<Rightarrow> nat \<Rightarrow> nat option \<Rightarrow> unit prog" where
  "bdb_set_execute B w ex self caller =
     bdb_named w ex self (\<lambda>name a.
       bindM (capture (impl_execute ex self caller)) (\<lambda>v. bdb_database_set B w a name v))"

definition bdb_find_execute :: "bdb \<Rightarrow> 'd world \<Rightarrow> exec_fn \<Rightarrow> nat \<Rightarrow> nat \<Rightarrow> nat option \<Rightarrow> unit prog" where
  "bdb_find_execute B w ex n self caller =
     bdb_named w ex self (\<lambda>name a. bdb_find B w a name (impl_execute ex self caller) n)"

datatype bdb_tag = Bdb_storage | Bdb_get | Bdb_set | Bdb_find | Bdb_delete

definition bdb_create_object :: "string \<Rightarrow> bdb_tag option" where
  "bdb_create_object name =
     (if name = ''storage'' then Some Bdb_storage
      else if name = ''get'' then Some Bdb_get
      else if name = ''set'' then Some Bdb_set
      else if name = ''find'' then Some Bdb_find
      else if name = ''delete'' then Some Bdb_delete
      else None)"

definition bdb_execute :: "bdb \<Rightarrow> 'd world \<Rightarrow> exec_fn \<Rightarrow> bdb_tag \<Rightarrow> nat \<Rightarrow> nat \<Rightarrow> nat option \<Rightarrow> unit prog" where
  "bdb_execute B w ex k n self caller =
     (case k of
        Bdb_storage \<Rightarrow> bdb_storage_execute B w ex self caller
      | Bdb_get \<Rightarrow> bdb_get_execute B w ex self caller
      | Bdb_set \<Rightarrow> bdb_set_execute B w ex self caller
      | Bdb_find \<Rightarrow> bdb_find_execute B w ex n self caller
      | Bdb_delete \<Rightarrow> bdb_delete_execute B w ex self caller)"

end
