(* ===== verification/Bdb_Correct.thy ===== *)
theory Bdb_Correct
  imports Module_Interp Bdb_Tags
begin

text \<open>The tag \<open>find\<close> of the Berkeley DB module visits exactly the entries whose key starts with the searched one.\<close>

section \<open>Keys\<close>

text \<open>The comparison stays inside of a key that is not before the searched one.\<close>

lemma c_ncmp_prefix:
  "\<not> str_less k key \<Longrightarrow> CHR 0x00 \<notin> set key \<Longrightarrow> c_ncmp k key (length key) = Some (take (length key) k = key)"
proof (induction key arbitrary: k)
  case (Cons y key)
  then show ?case by (cases k) (auto simp: Let_def)
qed simp

text \<open>The keys with a prefix are neighbours.\<close>

lemma prefix_ends:
  "str_less k k' \<Longrightarrow> \<not> str_less k key \<Longrightarrow> take (length key) k \<noteq> key \<Longrightarrow> take (length key) k' \<noteq> key"
proof (induction key arbitrary: k k')
  case (Cons y key)
  then show ?case by (cases k; cases k') auto
qed simp

lemma str_less_order: "str_less k k' \<Longrightarrow> \<not> str_less k key \<Longrightarrow> \<not> str_less k' key"
  using str_less_trans by blast

lemma prefix_not_less: "take (length key) k = key \<Longrightarrow> \<not> str_less k key"
proof (induction key arbitrary: k)
  case (Cons y key)
  then show ?case by (cases k) auto
qed simp

section \<open>The loop\<close>

fun visit :: "('a \<Rightarrow> unit prog) \<Rightarrow> unit prog \<Rightarrow> 'a list \<Rightarrow> unit prog" where
  "visit f step [] = ret ()"
| "visit f step (x # xs) = seqM (f x) (seqM step (visit f step xs))"

definition first_of :: "'a list \<Rightarrow> 'a option" where
  "first_of xs = (case xs of [] \<Rightarrow> None | x # _ \<Rightarrow> Some x)"

text \<open>A cursor as Berkeley DB documents it: \<open>rest\<close> holds the entries behind its position.\<close>

definition cursor_laws :: "bdb \<Rightarrow> nat \<Rightarrow> (lib \<Rightarrow> (string \<times> string) list) \<Rightarrow> bool" where
  "cursor_laws B cur rest \<longleftrightarrow>
     (\<forall>l. \<exists>l'. bdb_next B cur l = (Inr (first_of (rest l)), l') \<and> rest l' = tl (rest l))"

definition same_rest :: "(lib \<Rightarrow> (string \<times> string) list) \<Rightarrow> lib \<Rightarrow> lib \<Rightarrow> bool" where
  "same_rest rest l l' \<longleftrightarrow> rest l' = rest l"

interpretation resting: lib_frame "same_rest rest" for rest
  by unfold_locales (auto simp: same_rest_def)

lemma seq_cong: "(\<And>t s1. m s = (Ok (), t, s1) \<Longrightarrow> k s1 = k' s1) \<Longrightarrow> seqM m k s = seqM m k' s"
  by (auto simp: seqM_def bindM_def split: prod.splits outcome.splits)

abbreviation has_prefix :: "string \<Rightarrow> string \<times> 'a \<Rightarrow> bool" where
  "has_prefix key e \<equiv> take (length key) (fst e) = key"

definition entry_of :: "string \<Rightarrow> (string \<times> string) list \<Rightarrow> (string \<times> string) option" where
  "entry_of key es = (case es of [] \<Rightarrow> None | e # _ \<Rightarrow> if has_prefix key e then Some e else None)"

lemma entry_run:
  assumes "CHR 0x00 \<notin> set key" "\<forall>e\<in>set es. \<not> str_less (fst e) key"
  shows "bdb_entry key (first_of es) = ret (entry_of key es)"
  using assms by (cases es) (auto simp: bdb_entry_def first_of_def entry_of_def c_ncmp_prefix split: prod.split)

lemma no_prefix_after:
  assumes "sorted_wrt (\<lambda>x y. str_less (fst x) (fst y)) (e # es)" "\<not> str_less (fst e) key" "\<not> has_prefix key e"
  shows "filter (has_prefix key) (e # es) = []"
  using assms prefix_ends [of "fst e" _ key] by (auto simp: filter_empty_conv)

lemma rows_visit:
  assumes laws: "cursor_laws B cur rest" and key: "CHR 0x00 \<notin> set key" and body: "pres (R_lib (same_rest rest)) body"
  shows "sorted_wrt (\<lambda>x y. str_less (fst x) (fst y)) es \<Longrightarrow> \<forall>e\<in>set es. \<not> str_less (fst e) key \<Longrightarrow>
    rest (remote s) = tl es \<Longrightarrow> length es \<le> n \<Longrightarrow>
    bdb_rows B w cur key body n (entry_of key es) s =
      visit (bdb_find_tag w body) (libM (\<lambda>l. ((), snd (bdb_next B cur l)))) (filter (has_prefix key) es) s"
proof (induction es arbitrary: s n)
  case (Cons e es)
  show ?case
  proof (cases "has_prefix key e")
    case False
    with no_prefix_after [OF Cons.prems(1)] Cons.prems(2) show ?thesis by (simp add: entry_of_def)
  next
    case True
    obtain m where n: "n = Suc m" "length es \<le> m" using Cons.prems(4) by (cases n) auto
    let ?f = "bdb_find_tag w body e" and ?step = "libM (\<lambda>l. ((), snd (bdb_next B cur l)))"
    have f: "pres (R_lib (same_rest rest)) ?f"
      unfolding bdb_find_tag_def by (intro resting.pres_scoped resting.pres_seq resting.pres_add body)
    have "bdb_rows B w cur key body n (entry_of key (e # es)) s =
      seqM ?f (bindM (libE (bdb_next B cur)) (\<lambda>r. bindM (bdb_entry key r) (bdb_rows B w cur key body m))) s"
      using True by (simp add: entry_of_def n(1))
    also have "\<dots> = seqM ?f (seqM ?step (visit (bdb_find_tag w body) ?step (filter (has_prefix key) es))) s"
    proof (rule seq_cong)
      fix t s1 assume "?f s = (Ok (), t, s1)"
      from presD [OF f this] Cons.prems(3) have 1: "rest (remote s1) = es" by (simp add: R_lib_def same_rest_def)
      with laws obtain l' where 2: "bdb_next B cur (remote s1) = (Inr (first_of es), l')" "rest l' = tl es"
        unfolding cursor_laws_def by metis
      let ?s = "s1\<lparr>remote := l'\<rparr>"
      have "bindM (libE (bdb_next B cur)) (\<lambda>r. bindM (bdb_entry key r) (bdb_rows B w cur key body m)) s1 =
        bdb_rows B w cur key body m (entry_of key es) ?s"
        using Cons.prems(2) 2(1) key by (simp add: libE_def bindM_def [of "libM _"] libM_def ret_def bind_Ok entry_run
            bindM_def [of "\<lambda>s. (Ok _, _, _)"] split: prod.split)
      also have "\<dots> = visit (bdb_find_tag w body) ?step (filter (has_prefix key) es) ?s"
        using Cons.prems(1,2) n(2) 2(2) by (intro Cons.IH) auto
      also have "\<dots> = seqM ?step (visit (bdb_find_tag w body) ?step (filter (has_prefix key) es)) s1"
        using 2(1) by (simp add: seq_Ok libM_def)
      finally show "bindM (libE (bdb_next B cur)) (\<lambda>r. bindM (bdb_entry key r) (bdb_rows B w cur key body m)) s1 =
        seqM ?step (visit (bdb_find_tag w body) ?step (filter (has_prefix key) es)) s1" .
    qed
    finally show ?thesis using True by simp
  qed
qed (simp add: entry_of_def)

lemma filter_from_start:
  "filter (has_prefix key) (dropWhile (\<lambda>e. str_less (fst e) key) xs) = filter (has_prefix key) xs"
proof (induction xs)
  case (Cons x xs)
  show ?case
  proof (cases "str_less (fst x) key")
    case True
    then have "\<not> has_prefix key x" using prefix_not_less by blast
    with True Cons show ?thesis by simp
  qed simp
qed simp

lemma start_not_less:
  assumes "sorted_wrt (\<lambda>x y. str_less (fst x) (fst y)) xs"
  shows "\<forall>e\<in>set (dropWhile (\<lambda>e. str_less (fst e) key) xs). \<not> str_less (fst e) key"
  using assms
proof (induction xs)
  case (Cons x xs)
  show ?case
  proof (cases "str_less (fst x) key")
    case True
    then have "dropWhile (\<lambda>e. str_less (fst e) key) (x # xs) = dropWhile (\<lambda>e. str_less (fst e) key) xs" by simp
    with Cons.IH Cons.prems show ?thesis by (metis sorted_wrt.simps(2))
  next
    case False
    with Cons.prems have "\<not> str_less (fst e) key" if "e \<in> set (x # xs)" for e
      using that str_less_order [of "fst x" "fst e" key] unfolding set_simps sorted_wrt.simps by blast
    with False show ?thesis by simp
  qed
qed simp

lemma find_visits:
  assumes laws: "cursor_laws B cur rest" and key: "CHR 0x00 \<notin> set key" and body: "pres (R_lib (same_rest rest)) body"
    and xs: "sorted_wrt (\<lambda>x y. str_less (fst x) (fst y)) xs" "length xs \<le> n"
    and start: "bdb_set_range B cur key (remote s) = (Inr (first_of (dropWhile (\<lambda>e. str_less (fst e) key) xs)), l)"
      "rest l = tl (dropWhile (\<lambda>e. str_less (fst e) key) xs)"
  shows "bindM (libE (bdb_set_range B cur key)) (\<lambda>r. bindM (bdb_entry key r) (bdb_rows B w cur key body n)) s =
    visit (bdb_find_tag w body) (libM (\<lambda>l. ((), snd (bdb_next B cur l)))) (filter (has_prefix key) xs) (s\<lparr>remote := l\<rparr>)"
proof -
  let ?es = "dropWhile (\<lambda>e. str_less (fst e) key) xs"
  have "bindM (libE (bdb_set_range B cur key)) (\<lambda>r. bindM (bdb_entry key r) (bdb_rows B w cur key body n)) s =
    bdb_rows B w cur key body n (entry_of key ?es) (s\<lparr>remote := l\<rparr>)"
    using start(1) entry_run [OF key start_not_less [OF xs(1)]]
    by (simp add: libE_def bind_assoc bind_Ok libM_def)
  also have "sorted_wrt (\<lambda>x y. str_less (fst x) (fst y)) ?es" using xs(1)
    by (metis dropWhile_eq_drop sorted_wrt_drop)
  then have "bdb_rows B w cur key body n (entry_of key ?es) (s\<lparr>remote := l\<rparr>) =
    visit (bdb_find_tag w body) (libM (\<lambda>l. ((), snd (bdb_next B cur l)))) (filter (has_prefix key) ?es) (s\<lparr>remote := l\<rparr>)"
    by (rule rows_visit [OF laws key body _ start_not_less [OF xs(1)] _ le_trans [OF length_dropWhile_le xs(2)]])
      (simp add: start(2))
  finally show ?thesis by (simp only: filter_from_start)
qed

end
