(* ===== verification/Ldap_Tags.thy ===== *)
theory Ldap_Tags
  imports Pgsql_Tags
begin

text \<open>
  The module \<open>modules/dbp_ldap\<close>: the class \<open>ldap_connection\<close> and the tags \<open>connection\<close>, \<open>bind\<close> and \<open>search\<close>. The
  client library is a parameter; an object of the class is known by its handle of the library.
\<close>

text \<open>An entry of an answer: its name, and the attributes with their values; both may be missing.\<close>

type_synonym ldap_entry = "string option \<times> (string \<times> string list option) list"

record ldap =
  ldap_initialize :: "string \<Rightarrow> lib \<Rightarrow> (int \<times> nat) \<times> lib"
  ldap_set_version :: "nat \<Rightarrow> lib \<Rightarrow> int \<times> lib"
  ldap_unbind :: "nat \<Rightarrow> lib \<Rightarrow> lib"
  ldap_err2string :: "int \<Rightarrow> string"
  ldap_sasl_bind :: "nat \<Rightarrow> (string \<times> string) option \<Rightarrow> lib \<Rightarrow> int \<times> lib"
  ldap_search_ext :: "nat \<Rightarrow> string \<Rightarrow> string \<Rightarrow> lib \<Rightarrow> (int \<times> ldap_entry list) \<times> lib"

definition ldap_check :: "ldap \<Rightarrow> int \<Rightarrow> unit prog" where
  "ldap_check L rc = (if rc \<noteq> 0 then module_error (ldap_err2string L rc) else ret ())"

definition ldap_new :: "ldap \<Rightarrow> string \<Rightarrow> nat prog" where
  "ldap_new L url =
     bindM (libM (ldap_initialize L (c_str url))) (\<lambda>(rc, h).
     seqM (ldap_check L rc)
      (bindM (libM (ldap_set_version L h)) (\<lambda>rc. seqM (ldap_check L rc) (ret h))))"

definition ldap_bind :: "ldap \<Rightarrow> nat \<Rightarrow> string \<Rightarrow> string \<Rightarrow> unit prog" where
  "ldap_bind L h dn password =
     bindM (libM (ldap_sasl_bind L h (if dn = [] \<and> password = [] then None else Some (c_str dn, password)))) (ldap_check L)"

text \<open>\<open>std::map\<close>: ordered by its keys, and of the values of an attribute the last one stays.\<close>

fun ordered_put :: "string \<Rightarrow> string \<Rightarrow> (string \<times> string) list \<Rightarrow> (string \<times> string) list" where
  "ordered_put k v [] = [(k, v)]"
| "ordered_put k v ((k', v') # m) =
     (if k = k' then (k, v) # m
      else if str_less k k' then (k, v) # (k', v') # m
      else (k', v') # ordered_put k v m)"

definition ldap_item :: "ldap_entry \<Rightarrow> (string \<times> string) list" where
  "ldap_item e =
     (case e of (dn, as) \<Rightarrow>
        fold (\<lambda>(a, vals) m. case vals of None \<Rightarrow> m | Some vs \<Rightarrow> fold (ordered_put a) vs m) as
          (case dn of None \<Rightarrow> [] | Some dn \<Rightarrow> [(''dn'', dn)]))"

definition ldap_search :: "ldap \<Rightarrow> nat \<Rightarrow> string \<Rightarrow> string \<Rightarrow> ((string \<times> string) list list) prog" where
  "ldap_search L h base flt =
     bindM (libM (ldap_search_ext L h (c_str base) (c_str flt))) (\<lambda>(rc, es).
     seqM (ldap_check L rc) (ret (map ldap_item es)))"

section \<open>The tags\<close>

text \<open>\<open>enter\<close> comes before the constructor of the connection, which is not in the \<open>try\<close> block.\<close>

definition ldap_connection_execute :: "ldap \<Rightarrow> 'd world \<Rightarrow> exec_fn \<Rightarrow> nat \<Rightarrow> nat option \<Rightarrow> unit prog" where
  "ldap_connection_execute L w ex self caller =
     bindM (get_parameter ex self ''href'') (\<lambda>href.
       if href = [] then module_error ''LDAP connection URI (href) is not defined''
       else
         seqM enterM
          (bindM (ldap_new L href) (\<lambda>c.
             finallyM
              (tryM
                (seqM (addM w ''@LDAP_CONNECTION@'' (ptr_str (dclib w) c) []) (seqM (impl_execute ex self caller) leaveM))
                (\<lambda>e. seqM leaveM (throwM e)))
              (libM (\<lambda>l. ((), ldap_unbind L c l))))))"

definition ldap_ptr :: "'d world \<Rightarrow> nat prog" where
  "ldap_ptr w =
     bindM (valueM ''@LDAP_CONNECTION@'') (\<lambda>db_ptr.
       if db_ptr = [] then module_error ''LDAP server is not defined in the current context'' else to_ptrM w db_ptr)"

definition ldap_rebind :: "ldap \<Rightarrow> nat \<Rightarrow> unit prog" where
  "ldap_rebind L conn =
     bindM (valueM ''@LDAP_BIND_DN@'') (\<lambda>old_dn.
     bindM (valueM ''@LDAP_BIND_PW@'') (\<lambda>old_pw.
       if old_dn \<noteq> [] \<and> old_pw \<noteq> [] then ldap_bind L conn old_dn old_pw else ret ()))"

definition ldap_bind_execute :: "ldap \<Rightarrow> 'd world \<Rightarrow> exec_fn \<Rightarrow> nat \<Rightarrow> nat option \<Rightarrow> unit prog" where
  "ldap_bind_execute L w ex self caller =
     bindM (get_parameter ex self ''dn'') (\<lambda>dn.
     bindM (get_parameter ex self ''password'') (\<lambda>password.
     bindM (ldap_ptr w) (\<lambda>conn.
     seqM enterM
      (tryM
        (seqM (addM w ''@LDAP_BIND_DN@'' dn [])
          (seqM (addM w ''@LDAP_BIND_PW@'' password [])
            (seqM (ldap_bind L conn dn password)
              (seqM (impl_execute ex self caller) (seqM leaveM (ldap_rebind L conn))))))
        (\<lambda>e. seqM leaveM (throwM e))))))"

definition ldap_search_execute :: "ldap \<Rightarrow> 'd world \<Rightarrow> exec_fn \<Rightarrow> nat \<Rightarrow> nat option \<Rightarrow> unit prog" where
  "ldap_search_execute L w ex self caller =
     bindM (get_parameter ex self ''base'') (\<lambda>basedn.
       if basedn = [] then module_error ''base DN (base) is not defined''
       else
         bindM (get_parameter ex self ''filter'') (\<lambda>flt.
           if flt = [] then module_error ''filter is not defined''
           else
             bindM (ldap_ptr w) (\<lambda>conn.
             bindM (ldap_search L conn basedn flt) (\<lambda>rows.
               forM rows (\<lambda>row.
                 scoped (seqM (forM row (\<lambda>(k, v). addM w k v [])) (impl_execute ex self caller)))))))"

datatype ldap_tag = Ldap_connection | Ldap_bind | Ldap_search

definition ldap_create_object :: "string \<Rightarrow> ldap_tag option" where
  "ldap_create_object name =
     (if name = ''connection'' then Some Ldap_connection
      else if name = ''bind'' then Some Ldap_bind
      else if name = ''search'' then Some Ldap_search
      else None)"

definition ldap_execute :: "ldap \<Rightarrow> 'd world \<Rightarrow> exec_fn \<Rightarrow> ldap_tag \<Rightarrow> nat \<Rightarrow> nat option \<Rightarrow> unit prog" where
  "ldap_execute L w ex k self caller =
     (case k of
        Ldap_connection \<Rightarrow> ldap_connection_execute L w ex self caller
      | Ldap_bind \<Rightarrow> ldap_bind_execute L w ex self caller
      | Ldap_search \<Rightarrow> ldap_search_execute L w ex self caller)"

section \<open>Layers of variables\<close>

text \<open>The map keeps its order and gives the value that was put last.\<close>

lemma ordered_put_lookup: "map_of (ordered_put k v m) x = (if x = k then Some v else map_of m x)"
  by (induction k v m rule: ordered_put.induct) auto

lemma leave_enter [simp]: "ctxs s = c # cs \<Longrightarrow> enterM s = (Ok (), [], s\<lparr>ctxs := c\<lparr>vstack := [] # vstack c\<rparr> # cs\<rparr>)"
  by (simp add: enterM_def ctxM_def)

text \<open>When the server cannot be reached, the layer of the tag stays on the context.\<close>

lemma ldap_connection_failure:
  assumes "get_parameter ex self ''href'' s = (Ok href, [], s)" "href \<noteq> []" "ctxs s = c # cs"
    and "ldap_new L href (s\<lparr>ctxs := c\<lparr>vstack := [] # vstack c\<rparr> # cs\<rparr>) = (Throw e, [], s')"
  shows "ldap_connection_execute L w ex self caller s = (Throw e, [], s')"
  using assms by (simp add: ldap_connection_execute_def bind_Ok seq_Ok bind_Throw)

lemma ldap_new_ctxs: "ldap_new L url s = (r, t, s') \<Longrightarrow> ctxs s' = ctxs s \<and> t = []"
  by (auto simp: ldap_new_def prog_defs libM_def ldap_check_def module_error_def split: prod.splits if_splits)

end
