(* ===== verification/Mqtt_Tags.thy ===== *)
theory Mqtt_Tags
  imports Pgsql_Tags Session_Modules
begin

text \<open>
  The module \<open>modules/dbp_mqtt\<close>: the tags \<open>connection\<close>, \<open>pub\<close> and \<open>sub\<close> over the class of mosquitto, which is a
  parameter; \<open>MOSQ_ERR_SUCCESS\<close> is \<open>0\<close>. \<open>mq_bool\<close> is \<open>from_string<bool>\<close> of dcl.
\<close>

record mosquitto =
  mq_new :: "string \<Rightarrow> lib \<Rightarrow> nat \<times> lib"
  mq_delete :: "nat \<Rightarrow> lib \<Rightarrow> lib"
  mq_auth :: "nat \<Rightarrow> string \<Rightarrow> string \<Rightarrow> lib \<Rightarrow> int \<times> lib"
  mq_connect :: "nat \<Rightarrow> string \<Rightarrow> int \<Rightarrow> lib \<Rightarrow> int \<times> lib"
  mq_disconnect :: "nat \<Rightarrow> lib \<Rightarrow> lib"
  mq_publish :: "nat \<Rightarrow> string \<Rightarrow> string \<Rightarrow> int \<Rightarrow> bool \<Rightarrow> lib \<Rightarrow> int \<times> lib"
  mq_subscribe :: "nat \<Rightarrow> string \<Rightarrow> int \<Rightarrow> lib \<Rightarrow> int \<times> lib"
  mq_bool :: "string \<Rightarrow> bool option"

record mqtt_options =
  mqtt_host :: string
  mqtt_port :: string
  mqtt_user :: string
  mqtt_password :: string

definition mq_check :: "string \<Rightarrow> int prog \<Rightarrow> unit prog" where
  "mq_check msg m = bindM m (\<lambda>rc. if rc \<noteq> 0 then module_error msg else ret ())"

definition mqtt_connection_execute ::
  "mosquitto \<Rightarrow> mqtt_options \<Rightarrow> 'd world \<Rightarrow> exec_fn \<Rightarrow> nat \<Rightarrow> nat option \<Rightarrow> unit prog" where
  "mqtt_connection_execute Q mo w ex self caller =
     bindM (valueM ''@MOSQUITTO:CONNECTION@'') (\<lambda>m_ptr.
       if m_ptr \<noteq> [] then impl_execute ex self caller
       else
         seqM enterM
          (bindM (libM (mq_new Q (c_str (app_full_name (ext w))))) (\<lambda>c.
             finallyM
              (tryM
                (seqM
                  (if mqtt_user mo \<noteq> [] then
                     mq_check ''Can't authenticate on MQTT server''
                       (libM (mq_auth Q c (c_str (mqtt_user mo)) (c_str (mqtt_password mo))))
                   else ret ())
                  (seqM
                    (bindM (to_intM w (mqtt_port mo)) (\<lambda>p.
                       mq_check ''Can't establish MQTT connection'' (libM (mq_connect Q c (c_str (mqtt_host mo)) p))))
                    (seqM (addM w ''@MOSQUITTO:CONNECTION@'' (ptr_str (dclib w) c) [])
                      (seqM (impl_execute ex self caller)
                        (seqM leaveM (libM (\<lambda>l. ((), mq_disconnect Q c l))))))))
                (\<lambda>e. seqM leaveM (throwM e)))
              (libM (\<lambda>l. ((), mq_delete Q c l))))))"

definition mq_ptr :: "'d world \<Rightarrow> nat prog" where
  "mq_ptr w =
     bindM (valueM ''@MOSQUITTO:CONNECTION@'') (\<lambda>m_ptr.
       if m_ptr = [] then module_error ''MQTT connection is not established yet'' else to_ptrM w m_ptr)"

definition or_zero :: "string \<Rightarrow> string" where
  "or_zero t = (if t = [] then ''0'' else t)"

definition mqtt_pub_execute :: "mosquitto \<Rightarrow> 'd world \<Rightarrow> exec_fn \<Rightarrow> nat \<Rightarrow> nat option \<Rightarrow> unit prog" where
  "mqtt_pub_execute Q w ex self caller =
     bindM (get_parameter ex self ''topic'') (\<lambda>topic.
     bindM (get_parameter ex self ''qos'') (\<lambda>qos.
     bindM (get_parameter ex self ''retain'') (\<lambda>retain.
     bindM (capture (impl_execute ex self caller)) (\<lambda>payload.
     bindM (mq_ptr w) (\<lambda>conn.
     bindM (to_intM w (or_zero qos)) (\<lambda>q.
       case mq_bool Q (or_zero retain) of
         None \<Rightarrow> throwM type_error
       | Some r \<Rightarrow> mq_check ''MQTT message publish failed'' (libM (mq_publish Q conn (c_str topic) payload q r))))))))"

definition mqtt_sub_execute :: "mosquitto \<Rightarrow> 'd world \<Rightarrow> exec_fn \<Rightarrow> nat \<Rightarrow> nat option \<Rightarrow> unit prog" where
  "mqtt_sub_execute Q w ex self caller =
     bindM (get_parameter ex self ''topic'') (\<lambda>topic.
     bindM (get_parameter ex self ''qos'') (\<lambda>qos.
     bindM (mq_ptr w) (\<lambda>conn.
     bindM (to_intM w (or_zero qos)) (\<lambda>q.
       mq_check ''Can't subscribe to MQTT topic'' (libM (mq_subscribe Q conn (c_str topic) q))))))"

text \<open>Without a configuration the strings of the module keep their first value, which is empty.\<close>

definition mqtt_init :: "config option \<Rightarrow> mqtt_options" where
  "mqtt_init oc =
     (case oc of
        None \<Rightarrow> \<lparr>mqtt_host = [], mqtt_port = [], mqtt_user = [], mqtt_password = []\<rparr>
      | Some cfg \<Rightarrow>
          \<lparr>mqtt_host = cfg_value cfg ''modules.mqtt'' ''host'' ''127.0.0.1'',
           mqtt_port = cfg_value cfg ''modules.mqtt'' ''port'' ''1883'',
           mqtt_user = cfg_value cfg ''modules.mqtt'' ''user'' [],
           mqtt_password = cfg_value cfg ''modules.mqtt'' ''password'' []\<rparr>)"

datatype mqtt_tag = Mqtt_connection | Mqtt_pub | Mqtt_sub

definition mqtt_create_object :: "string \<Rightarrow> mqtt_tag option" where
  "mqtt_create_object name =
     (if name = ''connection'' then Some Mqtt_connection
      else if name = ''pub'' then Some Mqtt_pub
      else if name = ''sub'' then Some Mqtt_sub
      else None)"

definition mqtt_execute ::
  "mosquitto \<Rightarrow> mqtt_options \<Rightarrow> 'd world \<Rightarrow> exec_fn \<Rightarrow> mqtt_tag \<Rightarrow> nat \<Rightarrow> nat option \<Rightarrow> unit prog" where
  "mqtt_execute Q mo w ex k self caller =
     (case k of
        Mqtt_connection \<Rightarrow> mqtt_connection_execute Q mo w ex self caller
      | Mqtt_pub \<Rightarrow> mqtt_pub_execute Q w ex self caller
      | Mqtt_sub \<Rightarrow> mqtt_sub_execute Q w ex self caller)"

end
