(* ===== verification/Xslt_Tags.thy ===== *)
theory Xslt_Tags
  imports Pgsql_Tags
begin

text \<open>
  The module \<open>modules/dbp_xslt\<close>: the tags \<open>transform\<close> and \<open>transform-json\<close>. libxml2 and libxslt are parameters; a
  document of JSON data is built as a tree of elements.
\<close>

datatype xml_tree = Element string string "xml_tree list"

record xslt =
  xslt_sheet :: "string \<Rightarrow> lib \<Rightarrow> nat option \<times> lib"
  xml_document :: "string \<Rightarrow> lib \<Rightarrow> nat option \<times> lib"
  xml_of_tree :: "xml_tree \<Rightarrow> lib \<Rightarrow> nat \<times> lib"
  xslt_apply :: "nat \<Rightarrow> nat \<Rightarrow> string list \<Rightarrow> lib \<Rightarrow> nat option \<times> lib"
  xslt_text :: "nat \<Rightarrow> nat \<Rightarrow> lib \<Rightarrow> string"
  xslt_free_sheet :: "nat \<Rightarrow> lib \<Rightarrow> lib"
  xml_free :: "nat \<Rightarrow> lib \<Rightarrow> lib"

text \<open>
  The value of a parameter becomes a string of XPath, unless it starts or ends with a quote already.
\<close>

definition xslt_quote :: "string \<Rightarrow> string" where
  "xslt_quote v =
     (if v \<noteq> [] \<and> hd v \<noteq> CHR 0x27 \<and> last v \<noteq> CHR 0x27 then
        [CHR 0x27] @ concat (map (\<lambda>c. if c = CHR 0x27 then [CHR 0x27, CHR 0x27] else [c]) v) @ [CHR 0x27]
      else v)"

definition xslt_params :: "'d world \<Rightarrow> exec_fn \<Rightarrow> nat \<Rightarrow> (string list) prog" where
  "xslt_params w ex self =
     bindM (derefM self) (\<lambda>me.
     bindM
      (mapM (filter (\<lambda>(k, p). k \<noteq> ''href'') (um_iter (um_order (dclib w)) (nparams me))) (\<lambda>(k, p).
         bindM (capture (ex p (Some self))) (\<lambda>v. ret [c_str k, c_str (xslt_quote v)])))
      (\<lambda>ps. ret (concat ps)))"

text \<open>From the document to the output, with the resources of the \<open>try\<close> block freed on every path.\<close>

definition xslt_transform :: "xslt \<Rightarrow> 'd world \<Rightarrow> exec_fn \<Rightarrow> nat \<Rightarrow> string \<Rightarrow> nat \<Rightarrow> nat \<Rightarrow> unit prog" where
  "xslt_transform Z w ex self msg cur doc =
     finallyM
      (bindM (xslt_params w ex self) (\<lambda>ps.
       bindM (libM (xslt_apply Z cur doc ps)) (\<lambda>r.
         case r of
           None \<Rightarrow> module_error msg
         | Some res \<Rightarrow>
             bindM (askM (xslt_text Z res cur)) (\<lambda>t. seqM (outM t) (libM (\<lambda>l. ((), xml_free Z res l)))))))
      (seqM (libM (\<lambda>l. ((), xslt_free_sheet Z cur l))) (libM (\<lambda>l. ((), xml_free Z doc l))))"

definition xslt_stylesheet :: "xslt \<Rightarrow> 'd world \<Rightarrow> exec_fn \<Rightarrow> nat \<Rightarrow> nat prog" where
  "xslt_stylesheet Z w ex self =
     bindM (get_parameter ex self ''href'') (\<lambda>href.
     bindM (libM (xslt_sheet Z (c_str href))) (\<lambda>r.
       case r of
         None \<Rightarrow> throw_fmt w Module_exception (''can't parse stylesheet file '{0}'' @ [CHR 0x27]) [href]
       | Some cur \<Rightarrow> ret cur))"

definition tag_transform_execute :: "xslt \<Rightarrow> 'd world \<Rightarrow> exec_fn \<Rightarrow> nat \<Rightarrow> nat option \<Rightarrow> unit prog" where
  "tag_transform_execute Z w ex self caller =
     bindM (xslt_stylesheet Z w ex self) (\<lambda>cur.
     bindM (capture (impl_execute ex self caller)) (\<lambda>t.
     bindM (libM (xml_document Z t)) (\<lambda>r.
       case r of
         None \<Rightarrow> module_error ''the input stream does not contain the valid XML data''
       | Some doc \<Rightarrow> xslt_transform Z w ex self ''can't transform XML data'' cur doc)))"

section \<open>JSON\<close>

text \<open>
  \<open>write_value\<close>: the scalar values are the contents of their element, the members of arrays and objects become
  children.
\<close>

fun json_tree :: "ext \<Rightarrow> string \<Rightarrow> json \<Rightarrow> xml_tree" where
  "json_tree e name (J_array vs) = Element name [] (map (json_tree e ''element'') vs)"
| "json_tree e name (J_object ms) = Element name [] (map (\<lambda>(k, v). json_tree e k v) ms)"
| "json_tree e name J_null = Element name [] []"
| "json_tree e name v = Element name (case json_text e v of None \<Rightarrow> [] | Some t \<Rightarrow> c_str t) []"

text \<open>A text that is no JSON leaves the value \<open>null\<close>: the answer of the reader is not looked at.\<close>

definition tag_transform_json_execute :: "xslt \<Rightarrow> 'd world \<Rightarrow> exec_fn \<Rightarrow> nat \<Rightarrow> nat option \<Rightarrow> unit prog" where
  "tag_transform_json_execute Z w ex self caller =
     bindM (xslt_stylesheet Z w ex self) (\<lambda>cur.
     bindM (capture (impl_execute ex self caller)) (\<lambda>t.
     bindM (libM (xml_of_tree Z (json_tree (ext w) ''root'' (case json_parse (ext w) t of None \<Rightarrow> J_null | Some v \<Rightarrow> v))))
      (xslt_transform Z w ex self ''can't transform JSON data'' cur)))"

datatype xslt_tag = Xslt_transform | Xslt_transform_json

definition xslt_create_object :: "string \<Rightarrow> xslt_tag option" where
  "xslt_create_object name =
     (if name = ''transform'' then Some Xslt_transform
      else if name = ''transform-json'' then Some Xslt_transform_json
      else None)"

section \<open>Quotes\<close>

text \<open>A value without quotes becomes a string of XPath whose only quotes are its first and last character.\<close>

lemma xslt_quote_plain:
  assumes "v \<noteq> []" "CHR 0x27 \<notin> set v"
  shows "xslt_quote v = CHR 0x27 # v @ [CHR 0x27]"
proof -
  have "concat (map (\<lambda>c. if c = CHR 0x27 then [CHR 0x27, CHR 0x27] else [c]) v) = v"
    using assms(2) by (induction v) auto
  moreover have "hd v \<noteq> CHR 0x27" "last v \<noteq> CHR 0x27" using assms hd_in_set last_in_set by metis+
  ultimately show ?thesis using assms(1) by (simp add: xslt_quote_def)
qed

text \<open>A value that starts with a quote reaches XPath as it is.\<close>

lemma xslt_quote_open: "xslt_quote (CHR 0x27 # v) = CHR 0x27 # v"
  by (simp add: xslt_quote_def)

end
