(* ===== verification/Module_Properties.thy ===== *)
theory Module_Properties
  imports Sqlite_Correct Pgsql_Correct Bdb_Correct Ldap_Tags Mqtt_Tags Xslt_Tags Sample
begin

text \<open>The properties of the database modules, with witnesses.\<close>

section \<open>A small SQLite\<close>

text \<open>
  A library with one connection, \<open>1\<close>, whose statements add their own text to the database. It shows that the laws
  can hold together.
\<close>

definition cell :: "string \<Rightarrow> lib \<Rightarrow> string" where
  "cell k l = (case l k of None \<Rightarrow> [] | Some v \<Rightarrow> v)"

definition small_exec :: "nat \<Rightarrow> string \<Rightarrow> lib \<Rightarrow> (int \<times> string option) \<times> lib" where
  "small_exec conn cmd l =
     (if conn \<noteq> 1 then ((1, Some ''no connection''), l)
      else if cmd = ''BEGIN'' \<and> l ''pend'' = None then ((0, None), l(''pend'' \<mapsto> []))
      else if cmd = ''COMMIT'' \<and> l ''pend'' \<noteq> None then
        ((0, None), l(''com'' \<mapsto> cell ''com'' l @ cell ''pend'' l, ''pend'' := None))
      else if cmd = ''ROLLBACK'' \<and> l ''pend'' \<noteq> None then ((0, None), l(''pend'' := None))
      else ((1, Some ''error''), l))"

definition small_step :: "stmt \<Rightarrow> lib \<Rightarrow> int \<times> lib" where
  "small_step st l =
     (case l ''pend'' of
        Some p \<Rightarrow> (101, l(''pend'' \<mapsto> p @ cell ''stmt'' l))
      | None \<Rightarrow> (101, l(''com'' \<mapsto> cell ''com'' l @ cell ''stmt'' l)))"

definition small_sqlite :: sqlite3 where
  "small_sqlite =
     \<lparr>sqlite_acquire = (\<lambda>dsn l. (1, l(''taken'' \<mapsto> CHR ''x'' # cell ''taken'' l))),
      sqlite_release = (\<lambda>a l. l(''taken'' \<mapsto> tl (cell ''taken'' l))),
      sqlite3_open_v2 = (\<lambda>dsn l. ((0, Some 1), l)), sqlite3_errstr = (\<lambda>_. ''error''), sqlite3_exec = small_exec,
      sqlite3_prepare_v2 = (\<lambda>conn x l. ((0, Some 1), l(''stmt'' \<mapsto> x, ''open'' \<mapsto> CHR ''x'' # cell ''open'' l))),
      sqlite3_bind_parameter_count = (\<lambda>st l. 0), sqlite3_bind_parameter_name = (\<lambda>st i l. None),
      sqlite3_bind_null = (\<lambda>st i l. (0, l)), sqlite3_bind_text = (\<lambda>st i v l. (0, l)), sqlite3_step = small_step,
      sqlite3_changes = (\<lambda>conn l. 1), sqlite3_column_count = (\<lambda>st l. 0), sqlite3_column_name = (\<lambda>st i l. None),
      sqlite3_column_text = (\<lambda>st i l. None), sqlite3_reset = (\<lambda>st l. l),
      sqlite3_finalize = (\<lambda>st l. case st of None \<Rightarrow> l | Some _ \<Rightarrow> l(''open'' \<mapsto> tl (cell ''open'' l)))\<rparr>"

lemma small_counting: "counting_laws small_sqlite (\<lambda>l. length (cell ''open'' l)) (\<lambda>l. length (cell ''taken'' l))"
  unfolding counting_laws_def same_counts_def
  by (auto simp: small_sqlite_def cell_def small_exec_def small_step_def SQLITE_OK_def split: option.splits)

lemma small_transactions: "transaction_laws small_sqlite 1 (cell ''com'') (\<lambda>l. l ''pend'') (\<lambda>_. 0)"
  unfolding transaction_laws_def quiet_calls_def steady_def
  by (auto simp: small_sqlite_def cell_def small_exec_def small_step_def SQLITE_OK_def split: option.splits)

text \<open>
  A database with a transaction of two queries: the first adds its text, the second names a database that is not
  there.
\<close>

definition shop_page :: state where
  "shop_page = sample_state
     [(0, (new_node C_tag_impl ''database'')\<lparr>nparams := [(''dsn'', 5)], nchilds := [1]\<rparr>),
      (1, (new_node C_tag_impl ''transaction'')\<lparr>nchilds := [2, 3]\<rparr>),
      (2, (new_node C_tag_impl ''query'')\<lparr>nparams := [(''statement'', 6)]\<rparr>),
      (3, (new_node C_tag_impl ''query'')\<lparr>nparams := [(''statement'', 6), (''database'', 7)]\<rparr>),
      (5, text_tag ''shop.db''), (6, text_tag ''order''), (7, text_tag ''none'')]"

definition shop_class :: "nat \<rightharpoonup> sqlite_tag" where
  "shop_class = [0 \<mapsto> Sqlite_database, 1 \<mapsto> Sqlite_transaction, 2 \<mapsto> Sqlite_query, 3 \<mapsto> Sqlite_query]"

definition shop_inside :: state where
  "shop_inside = shop_page\<lparr>ctxs :=
     (case add_value sample_dcl sample_contexts ''@SQLITE:DATABASE@'' ''1'' [] of Ok cs \<Rightarrow> cs | _ \<Rightarrow> [])\<rparr>"

section \<open>Properties\<close>

text \<open>
  C10: The transaction tag of the SQLite module is atomic, whatever the page within it does with other tags, nested
  queries and nested transactions: if it ends with an exception, its connection has committed nothing; if it
  returns, it has committed exactly the changes that were pending when its contents had been executed. In both
  cases no transaction is left open, unless there was one before the tag or SQLite refused the rollback. This is so
  as long as the page runs no \<open>COMMIT\<close> or \<open>ROLLBACK\<close> of its own.
\<close>

theorem sqlite_transaction_atomic:
  assumes "transaction_laws S c com pend ctl" and "cl self = Some Sqlite_transaction"
    and "database_ptr w (execute_with w (sqlite_execute S w) cl n) self ''@SQLITE:DATABASE@'' s = (Ok c, o1, s0)"
    and "execute_with w (sqlite_execute S w) cl (Suc n) self caller s = (r, out, s')" "r \<noteq> Crash" "r \<noteq> Diverge"
    and "ctl (remote s') = ctl (remote s0)"
  shows "case r of
      Ok _ \<Rightarrow> \<exists>s1 ob sb p. impl_execute (execute_with w (sqlite_execute S w) cl n) self caller s1 = (Ok (), ob, sb) \<and>
        pend (remote s1) = Some [] \<and> pend (remote sb) = Some p \<and>
        com (remote s') = com (remote s0) @ p \<and> pend (remote s') = None
    | _ \<Rightarrow> com (remote s') = com (remote s0) \<and>
        (pend (remote s') = None \<or> pend (remote s0) \<noteq> None \<or>
         rollback_refused S c (remote s'))"
proof -
  let ?b = "impl_execute (execute_with w (sqlite_execute S w) cl n) self caller"
  have b: "pres (R_lib (steady com pend ctl)) ?b"
    by (rule sqlite_frame.pres_sqlite_body [OF steady_frame [OF assms(1)]])
  from assms(2-4) obtain t where "sqlite_transaction S c ?b s0 = (r, t, s')"
    by (auto simp: sqlite_execute_def sqlite_transaction_execute_def bindM_def split: prod.splits)
  from transaction_atomic [OF assms(1) b this assms(5-7)] show ?thesis .
qed

theorem sqlite_transaction_atomic_witness:
  "case execute_with sample_world (sqlite_execute small_sqlite sample_world) shop_class 5 1 None shop_inside of
     (r, out, s') \<Rightarrow> r = Throw (Dbp_exc Module_exception ''database (id='{0}') is not defined in the current context'') \<and>
       cell ''com'' (remote s') = cell ''com'' (remote shop_inside)"
proof -
  let ?run = "execute_with sample_world (sqlite_execute small_sqlite sample_world) shop_class 5 1 None shop_inside"
  obtain r out s' where run: "?run = (r, out, s')" by (metis surj_pair)
  have r: "fst ?run = Throw (Dbp_exc Module_exception ''database (id='{0}') is not defined in the current context'')" by code_simp
  let ?p = "database_ptr sample_world (execute_with sample_world (sqlite_execute small_sqlite sample_world) shop_class 4) 1
    ''@SQLITE:DATABASE@'' shop_inside"
  have p: "?p = (Ok 1, [], shop_inside)"
    by (simp add: database_ptr_def get_parameter_def bindM_def derefM_def shop_inside_def shop_page_def sample_state_def
        new_node_def ret_def valueM_def getM_def to_ptrM_def sample_world_def sample_dcl_def sample_contexts_def new_context_def Let_def is_digit_def)
  have cl: "shop_class 1 = Some Sqlite_transaction" by (simp add: shop_class_def)
  have five: "(5::nat) = Suc 4" by simp
  from r run have r': "r \<noteq> Crash" "r \<noteq> Diverge" by simp_all
  from sqlite_transaction_atomic [where cl = shop_class and self = 1 and ctl = "\<lambda>_. 0",
      OF small_transactions cl p run [unfolded five] r' refl] r run show ?thesis by simp
qed

text \<open>
  C11: A page with SQLite tags gives back what it takes: after it has been executed, returning or throwing, as many
  statements are open and as many connections are out of the pool as before.
\<close>

theorem sqlite_page_gives_back:
  assumes "counting_laws S opened taken"
    and "execute_with w (sqlite_execute S w) cl n t c s = (r, out, s')" "r \<noteq> Crash" "r \<noteq> Diverge"
  shows "opened (remote s') = opened (remote s) \<and> taken (remote s') = taken (remote s)"
  using presD [OF sqlite_frame.pres_sqlite_page [OF counting_frame [OF assms(1)]] assms(2-)]
  by (simp add: R_lib_def same_counts_def)

theorem sqlite_page_gives_back_witness:
  "case execute_with sample_world (sqlite_execute small_sqlite sample_world) shop_class 6 0 None shop_page of
     (r, out, s') \<Rightarrow> length (cell ''open'' (remote s')) = 0 \<and> length (cell ''taken'' (remote s')) = 0"
proof -
  let ?run = "execute_with sample_world (sqlite_execute small_sqlite sample_world) shop_class 6 0 None shop_page"
  obtain r out s' where run: "?run = (r, out, s')" by (metis surj_pair)
  have "fst ?run = Throw (Dbp_exc Module_exception ''database (id='{0}') is not defined in the current context'')" by code_simp
  with run have "r \<noteq> Crash" "r \<noteq> Diverge" by simp_all
  from sqlite_page_gives_back [OF small_counting run this] run show ?thesis
    by (simp add: shop_page_def sample_state_def cell_def)
qed


text \<open>
  C14: When the PostgreSQL server cannot be reached, the database tag tries three times, logs two warnings and an
  error, and ends with the error of the library; the contents of the tag are not executed, the contexts are as
  before and the connection is back in the pool.
\<close>

theorem pgsql_gives_up:
  assumes "get_parameter ex self ''dsn'' s = (Ok dsn, [], s)" "get_parameter ex self ''id'' s = (Ok i, [], s)" "dsn \<noteq> []"
    and "get_value (ctxs s) (''@PGSQL:DATABASE@'' @ i) = []" "ctxs s = c # cs" "has_services c"
    and "pgsql_acquire P dsn (remote s) = (a, l)" "pooled s (pgsql_item w a) = None"
    and "\<And>l. pq_connect P dsn l = (Inl (Broken_connection msg), tried l)"
  shows "\<exists>s'. pgsql_database_execute P w ex self caller s = (Throw (Dbp_exc Module_exception msg), [], s') \<and>
     ctxs s' = ctxs s \<and> remote s' = pgsql_release P a (tried (tried (tried l))) \<and>
     (let t = trim (dclib w) msg in
       logged s' = logged s @ [t @ '', reconnecting...'', t @ '', reconnecting...'', t])"
proof -
  let ?c = "c\<lparr>vstack := [] # vstack c\<rparr>"
  let ?s = "s\<lparr>remote := l, ctxs := ?c # cs\<rparr>"
  have "pg_held w a ?s = (Ok None, [], ?s)" by (simp add: pg_held_def getM_def assms(8))
  from attempts_broken [OF assms(9) this, of ?c cs "c # cs" ex self caller 2] assms(6)
  have run: "pg_attempts P w ex self caller dsn a 2 ?s =
    (Throw (Dbp_exc Module_exception msg), [],
     ?s\<lparr>ctxs := c # cs, pooled := (pooled s)(pgsql_item w a \<mapsto> \<lparr>handle = None, configured = True\<rparr>),
       remote := (tried ^^ Suc 2) l,
       logged := logged s @ replicate 2 (trim (dclib w) msg @ '', reconnecting...'') @ [trim (dclib w) msg]\<rparr>)"
    by simp
  have "pgsql_database_execute P w ex self caller s =
    finallyM (seqM enterM (pg_attempts P w ex self caller dsn a 2)) (libM (\<lambda>l. ((), pgsql_release P a l))) (s\<lparr>remote := l\<rparr>)"
    using assms(1-8) by (simp add: pgsql_database_execute_def bind_Ok valueM_def getM_def bindM_def libM_def)
  with run assms(5) show ?thesis
    by (simp add: finallyM_def seqM_def tryM_def bindM_def enterM_def ctxM_def libM_def throwM_def Let_def numeral_2_eq_2)
qed

definition down_pqxx :: pqxx where
  "down_pqxx =
     \<lparr>pgsql_acquire = (\<lambda>dsn l. (9, l)), pgsql_release = (\<lambda>a l. l),
      pq_connect = (\<lambda>dsn l. (Inl (Broken_connection ''refused''), l(''tries'' \<mapsto> CHR ''x'' # cell ''tries'' l))),
      pq_disconnect = (\<lambda>c l. l), pq_work = (\<lambda>c l. (Inr 1, l)), pq_commit = (\<lambda>c l. (Inr (), l)),
      pq_abort = (\<lambda>c l. (Inr (), l)), pq_delete = (\<lambda>c l. l), pq_unprepare = (\<lambda>c n l. (Inr (), l)),
      pq_prepare = (\<lambda>c n t l. (Inr (), l)), pq_exec = (\<lambda>c n as l. (Inr [], l))\<rparr>"

definition down_page :: state where
  "down_page = shop_page\<lparr>ctxs := [\<lparr>vstack = [[]], estack = [], vtype = ''local'', has_services = True\<rparr>]\<rparr>"

theorem pgsql_gives_up_witness:
  "\<exists>s'. pgsql_database_execute down_pqxx sample_world (\<lambda>t c. outM ''shop.db'') 0 None down_page =
      (Throw (Dbp_exc Module_exception ''refused''), [], s') \<and> cell ''tries'' (remote s') = ''xxx''"
proof -
  let ?ex = "\<lambda>t c. outM ''shop.db''"
  have dsn: "get_parameter ?ex 0 ''dsn'' down_page = (Ok ''shop.db'', [], down_page)"
    by (simp add: get_parameter_def bindM_def derefM_def down_page_def shop_page_def sample_state_def new_node_def
        outM_def capture_def)
  have i: "get_parameter ?ex 0 ''id'' down_page = (Ok [], [], down_page)"
    by (simp add: get_parameter_def bindM_def derefM_def down_page_def shop_page_def sample_state_def new_node_def ret_def)
  show ?thesis
    using pgsql_gives_up [OF dsn i, of "hd (ctxs down_page)" "[]" down_pqxx 9 Map.empty sample_world "''refused''"
        "\<lambda>l. l(''tries'' \<mapsto> CHR ''x'' # cell ''tries'' l)" None]
    by (auto simp: down_pqxx_def down_page_def shop_page_def sample_state_def cell_def)
qed

text \<open>
  An exception of the contents of a Redis query does not leave the tag as it is: every exception that ends the
  tag, other than one of the parameter \<open>database\<close>, is an exception of the module with the message of the first one.
  So the exception by which \<open>case\<close> ends a \<open>switch\<close>, and the status of \<open>throw\<close>, are lost.
\<close>

theorem redis_query_hides_exceptions:
  assumes "redis_query_execute A w ex self caller s = (Throw e, out, s')"
  shows "(\<exists>msg. e = Dbp_exc Module_exception msg) \<or>
    (\<exists>o1 s1. database_ptr w ex self ''@REDIS:CONNECTION@'' s = (Throw e, o1, s1))"
proof (cases "database_ptr w ex self ''@REDIS:CONNECTION@'' s")
  case (fields r o1 s1)
  have leave: "fst (leaveM u) \<noteq> Throw e'" for u e'
    by (simp add: leaveM_def ctxM_def leave_no_throw split: outcome.split)
  have enter: "fst (enterM u) \<noteq> Throw e'" for u e'
    by (simp add: enterM_def ctxM_def enter_no_throw split: outcome.split)
  have handler: "\<exists>msg. e = Dbp_exc Module_exception msg"
    if "seqM leaveM (module_error (what e')) u = (Throw e, o2, s2)" for e' u o2 s2
    using that leave [of u e] by (auto simp: seqM_def bindM_def module_error_def throwM_def split: prod.splits outcome.splits)
  show ?thesis
  proof (cases r)
    case (Ok conn)
    with assms fields enter [of s1 e] show ?thesis
      by (auto simp: redis_query_execute_def seqM_def [of enterM] bindM_def [of "database_ptr w ex self ''@REDIS:CONNECTION@''"]
          bindM_def [of enterM] tryM_def split: prod.splits outcome.splits dest!: handler)
  next
    case (Throw e')
    with assms fields show ?thesis by (simp add: redis_query_execute_def bindM_def)
  qed (use assms fields in \<open>simp_all add: redis_query_execute_def bindM_def\<close>)
qed

definition one_redis :: redis_lib where
  "one_redis =
     \<lparr>redis_pool_acquire = (\<lambda>k l. (1, l)), redis_pool_release = (\<lambda>a l. l),
      redisCommandArgv = (\<lambda>h ws l. (Some (REDIS_REPLY_STRING ''v''), l)), redis_errstr_of = (\<lambda>h l. [])\<rparr>"

text \<open>A query whose only child is a \<open>case\<close>.\<close>

definition redis_page :: state where
  "redis_page = (sample_state
     [(0, (new_node C_tag_impl ''query'')\<lparr>nparams := [(''command'', 5)], nchilds := [1]\<rparr>),
      (1, new_node C_tag_case ''case''), (5, text_tag ''GET'')])
     \<lparr>ctxs := (case add_value sample_dcl sample_contexts ''@REDIS:CONNECTION@'' ''1'' [] of Ok cs \<Rightarrow> cs | _ \<Rightarrow> []),
      pooled := [(''redis'', ''1'') \<mapsto> \<lparr>handle = Some 1, configured = True\<rparr>]\<rparr>"

theorem redis_query_hides_exceptions_witness:
  "case redis_query_execute one_redis sample_world (\<lambda>t c. if t = 1 then throwM Case_exc else outM ''GET'') 0 None redis_page of
     (r, out, s') \<Rightarrow> r = Throw (Dbp_exc Module_exception []) \<and> (\<exists>msg. r = Throw (Dbp_exc Module_exception msg))"
proof -
  let ?run = "redis_query_execute one_redis sample_world (\<lambda>t c. if t = 1 then throwM Case_exc else outM ''GET'') 0 None redis_page"
  obtain r out s' where run: "?run = (r, out, s')" by (metis surj_pair)
  have "fst ?run = Throw (Dbp_exc Module_exception [])" by code_simp
  with run have r: "r = Throw (Dbp_exc Module_exception [])" by simp
  from redis_query_hides_exceptions [OF run [unfolded r]] run r show ?thesis by simp
qed

text \<open>
  C12: The tag \<open>find\<close> of the Berkeley DB module executes its contents once for each entry whose key starts with the
  searched one, in the order of the keys, and for no other entry, and closes its cursor; and it ends. This is so for
  contents that leave the cursor where it is.
\<close>

theorem bdb_find_visits_prefix:
  assumes "cursor_laws B cur rest" "CHR 0x00 \<notin> set key" "pres (R_lib (same_rest rest)) body"
    and "sorted_wrt (\<lambda>x y. str_less (fst x) (fst y)) xs" "length xs \<le> n"
    and "bdb_opened w a s = (Ok (), [], s)" "bdb_cursor B a (remote s) = (Inr cur, l0)"
    and "bdb_set_range B cur key l0 = (Inr (first_of (dropWhile (\<lambda>e. str_less (fst e) key) xs)), l1)"
    and "rest l1 = tl (dropWhile (\<lambda>e. str_less (fst e) key) xs)"
  shows "bdb_find B w a key body n s =
    finallyM
     (visit (bdb_find_tag w body) (libM (\<lambda>l. ((), snd (bdb_next B cur l))))
       (filter (\<lambda>e. take (length key) (fst e) = key) xs))
     (libM (\<lambda>l. ((), bdb_cursor_close B cur l))) (s\<lparr>remote := l1\<rparr>)"
proof -
  let ?m = "bindM (libE (bdb_set_range B cur key)) (\<lambda>r. bindM (bdb_entry key r) (bdb_rows B w cur key body n))"
  have "bdb_find B w a key body n s = finallyM ?m (libM (\<lambda>l. ((), bdb_cursor_close B cur l))) (s\<lparr>remote := l0\<rparr>)"
    using assms(6,7) by (simp add: bdb_find_def seq_Ok libE_def bind_assoc bind_Ok libM_def)
  moreover have "?m (s\<lparr>remote := l0\<rparr>) =
    visit (bdb_find_tag w body) (libM (\<lambda>l. ((), snd (bdb_next B cur l)))) (filter (has_prefix key) xs) (s\<lparr>remote := l1\<rparr>)"
    using find_visits [OF assms(1-5), of "s\<lparr>remote := l0\<rparr>" l1] assms(8,9) by simp
  ultimately show ?thesis by (simp add: finallyM_def bindM_def tryM_def)
qed

definition three_entries :: "(string \<times> string) list" where
  "three_entries = [(''a1'', ''x''), (''b1'', ''y''), (''b2'', ''z'')]"

definition at_cursor :: "lib \<Rightarrow> (string \<times> string) list" where
  "at_cursor l = drop (length (cell ''pos'' l)) three_entries"

definition small_bdb :: bdb where
  "small_bdb =
     \<lparr>bdb_path = (\<lambda>h. ([], h)), bdb_env_open = (\<lambda>p l. (Inr 1, l)), bdb_new = (\<lambda>e l. (1, l)),
      bdb_open = (\<lambda>a f l. (Inr (), l)), bdb_close = (\<lambda>a l. l), bdb_delete_db = (\<lambda>a l. l),
      bdb_get = (\<lambda>a k l. (Inr (map_of three_entries k), l)), bdb_put = (\<lambda>a k v l. (Inr False, l)),
      bdb_del = (\<lambda>a k l. (Inr False, l)), bdb_cursor = (\<lambda>a l. (Inr 2, l)),
      bdb_set_range = (\<lambda>c key l.
        (Inr (first_of (dropWhile (\<lambda>e. str_less (fst e) key) three_entries)),
         l(''pos'' \<mapsto> CHR ''x'' # map (\<lambda>_. CHR ''x'') (takeWhile (\<lambda>e. str_less (fst e) key) three_entries)))),
      bdb_next = (\<lambda>c l. (Inr (first_of (at_cursor l)), l(''pos'' \<mapsto> CHR ''x'' # cell ''pos'' l))),
      bdb_cursor_close = (\<lambda>c l. l)\<rparr>"

lemma small_cursor: "cursor_laws small_bdb 2 at_cursor"
  by (simp add: cursor_laws_def small_bdb_def at_cursor_def cell_def tl_drop drop_Suc)

definition bdb_state :: state where
  "bdb_state = (sample_state [])\<lparr>pooled := [(''bdb'', ''1'') \<mapsto> \<lparr>handle = Some 1, configured = True\<rparr>]\<rparr>"

theorem bdb_find_visits_prefix_witness:
  "fst (snd (bdb_find small_bdb sample_world 1 ''b'' (bindM (valueM ''value'') outM) 3 bdb_state)) = ''yz''"
proof -
  let ?body = "bindM (valueM ''value'') outM" and ?l = "[''pos'' \<mapsto> ''xx'']"
  have body: "pres (R_lib (same_rest at_cursor)) ?body" by (intro resting.pres_bind resting.pres_value resting.pres_out)
  have 1: "sorted_wrt (\<lambda>x y. str_less (fst x) (fst y)) three_entries" "length three_entries \<le> 3" "CHR 0x00 \<notin> set ''b''"
    by (simp_all add: three_entries_def)
  have "show_nat 1 = ''1''" by code_simp
  then have 2: "bdb_opened sample_world 1 bdb_state = (Ok (), [], bdb_state)"
    by (simp add: bdb_opened_def bindM_def getM_def ret_def bdb_item_def bdb_state_def sample_world_def sample_dcl_def)
  have 3: "bdb_cursor small_bdb 1 (remote bdb_state) = (Inr 2, Map.empty)"
    by (simp add: small_bdb_def bdb_state_def sample_state_def)
  have 4: "bdb_set_range small_bdb 2 ''b'' Map.empty =
      (Inr (first_of (dropWhile (\<lambda>e. str_less (fst e) ''b'') three_entries)), ?l)"
    "at_cursor ?l = tl (dropWhile (\<lambda>e. str_less (fst e) ''b'') three_entries)"
    by (simp_all add: small_bdb_def three_entries_def at_cursor_def cell_def)
  show ?thesis unfolding bdb_find_visits_prefix [OF small_cursor 1(3) body 1(1,2) 2 3 4] by code_simp
qed

text \<open>
  When an LDAP server cannot be reached, the layer of variables that the connection tag entered is not left: the
  context has one layer more than before.
\<close>

theorem ldap_failure_keeps_layer:
  assumes "get_parameter ex self ''href'' s = (Ok href, [], s)" "href \<noteq> []" "ctxs s = c # cs"
    and "ldap_initialize L (c_str href) (remote s) = ((rc, h), l)" "rc \<noteq> 0"
  shows "\<exists>s'. ldap_connection_execute L w ex self caller s =
      (Throw (Dbp_exc Module_exception (ldap_err2string L rc)), [], s') \<and>
    length (vstack (hd (ctxs s'))) = Suc (length (vstack c))"
proof -
  let ?s = "s\<lparr>ctxs := c\<lparr>vstack := [] # vstack c\<rparr> # cs\<rparr>"
  have "ldap_new L href ?s = (Throw (Dbp_exc Module_exception (ldap_err2string L rc)), [], ?s\<lparr>remote := l\<rparr>)"
    using assms(4,5) by (simp add: ldap_new_def bindM_def libM_def seqM_def ldap_check_def module_error_def throwM_def)
  from ldap_connection_failure [OF assms(1-3) this] show ?thesis by (intro exI [of _ "?s\<lparr>remote := l\<rparr>"]) simp
qed

definition down_ldap :: ldap where
  "down_ldap =
     \<lparr>ldap_initialize = (\<lambda>u l. ((-1, 0), l)), ldap_set_version = (\<lambda>h l. (0, l)), ldap_unbind = (\<lambda>h l. l),
      ldap_err2string = (\<lambda>_. ''down''), ldap_sasl_bind = (\<lambda>h c l. (0, l)), ldap_search_ext = (\<lambda>h b f l. ((0, []), l))\<rparr>"

definition ldap_page :: state where
  "ldap_page = sample_state [(0, (new_node C_tag_impl ''connection'')\<lparr>nparams := [(''href'', 5)]\<rparr>)]"

theorem ldap_failure_keeps_layer_witness:
  "\<exists>s'. ldap_connection_execute down_ldap sample_world (\<lambda>t c. outM ''ldap:'') 0 None ldap_page =
      (Throw (Dbp_exc Module_exception ''down''), [], s') \<and> length (vstack (hd (ctxs s'))) = 2"
proof -
  let ?ex = "\<lambda>t c. outM ''ldap:''"
  have h: "get_parameter ?ex 0 ''href'' ldap_page = (Ok ''ldap:'', [], ldap_page)"
    by (simp add: get_parameter_def bindM_def derefM_def ldap_page_def sample_state_def new_node_def outM_def capture_def)
  show ?thesis
    using ldap_failure_keeps_layer [OF h, of "hd (ctxs ldap_page)" "tl (ctxs ldap_page)" down_ldap "-1" 0 Map.empty sample_world None]
    by (auto simp: down_ldap_def ldap_page_def sample_state_def sample_contexts_def new_context_def)
qed

end
