(* ===== verification/Mime_Codecs.thy ===== *)
theory Mime_Codecs
  imports Fcgi_Kernel
begin

text \<open>
  The codecs of the bundled MIME library, \<open>src/mimetic/mimetic\<close>: the circular buffer, Base64, quoted-printable, and the
  Boyer-Moore search that its parser uses. Output iterators append, so that a method gives the bytes that it writes.
  Arithmetic on \<open>char_type\<close>, which C++ does in \<open>int\<close>, is done on bytes where each result is stored in
  a byte or stays below 64. What an array holds before it is written is an argument of the constructors.
\<close>

unbundle bit_operations_syntax

section \<open>Circular buffers\<close>

text \<open>\<open>circular_buffer\<close>. The count is unsigned and wraps around; indices are taken modulo the size.\<close>

record 'a circular_buffer =
  m_sz :: nat
  m_count :: nat
  m_first :: nat
  m_last :: nat
  m_pItem :: "nat \<Rightarrow> 'a"

definition circular_buffer_new :: "(nat \<Rightarrow> 'a) \<Rightarrow> nat \<Rightarrow> 'a circular_buffer" where
  "circular_buffer_new g sz = \<lparr>m_sz = sz, m_count = 0, m_first = 0, m_last = 0, m_pItem = g\<rparr>"

definition cb_push_back :: "'a \<Rightarrow> 'a circular_buffer \<Rightarrow> 'a circular_buffer" where
  "cb_push_back c b = b\<lparr>m_pItem := (m_pItem b)(m_last b := c), m_last := (m_last b + 1) mod m_sz b,
     m_count := m_count b + (if m_count b = m_sz b then 0 else 1)\<rparr>"

definition cb_push_front :: "'a \<Rightarrow> 'a circular_buffer \<Rightarrow> 'a circular_buffer" where
  "cb_push_front c b =
     (let f = (m_first b + m_sz b - 1) mod m_sz b
      in b\<lparr>m_first := f, m_pItem := (m_pItem b)(f := c), m_count := m_count b + (if m_count b = m_sz b then 0 else 1)\<rparr>)"

definition cb_pop_front :: "'a circular_buffer \<Rightarrow> 'a circular_buffer" where
  "cb_pop_front b = b\<lparr>m_first := (m_first b + 1) mod m_sz b, m_count := (m_count b + 2 ^ 32 - 1) mod 2 ^ 32\<rparr>"

definition cb_pop_back :: "'a circular_buffer \<Rightarrow> 'a circular_buffer" where
  "cb_pop_back b = b\<lparr>m_last := (m_last b + m_sz b - 1) mod m_sz b, m_count := (m_count b + 2 ^ 32 - 1) mod 2 ^ 32\<rparr>"

definition cb_front :: "'a circular_buffer \<Rightarrow> 'a" where
  "cb_front b = m_pItem b (m_first b)"

definition cb_back :: "'a circular_buffer \<Rightarrow> 'a" where
  "cb_back b = m_pItem b ((m_last b + m_sz b - 1) mod m_sz b)"

definition cb_nth :: "'a circular_buffer \<Rightarrow> nat \<Rightarrow> 'a" where
  "cb_nth b i = m_pItem b ((m_first b + i) mod m_sz b)"

definition cb_empty :: "'a circular_buffer \<Rightarrow> bool" where
  "cb_empty b \<longleftrightarrow> m_count b = 0"

text \<open>The loop of \<open>compare\<close>; its callers give a string of at least \<open>n0\<close> characters.\<close>

definition cb_compare :: "'a circular_buffer \<Rightarrow> nat \<Rightarrow> nat \<Rightarrow> 'a list \<Rightarrow> bool" where
  "cb_compare b off n0 r = list_all (\<lambda>i. cb_nth b (off + i) = r ! i) [0..<n0]"

definition cb_str :: "'a circular_buffer \<Rightarrow> 'a list" where
  "cb_str b = map (cb_nth b) [0..<m_count b]"

section \<open>Coding\<close>

text \<open>
  \<open>code\<close> for a buffered codec: every byte to \<open>process\<close>, then \<open>flush\<close>. The loop and its concatenation of outputs.
\<close>

primrec code_loop :: "('s \<Rightarrow> byte \<Rightarrow> (byte list \<times> 's) cres) \<Rightarrow> 's \<Rightarrow> byte list \<Rightarrow> (byte list \<times> 's) cres" where
  "code_loop p s [] = Ret ([], s)"
| "code_loop p s (c # cs) =
     bindR (p s c) (\<lambda>(o1, s1). bindR (code_loop p s1 cs) (\<lambda>(o2, s2). Ret (o1 @ o2, s2)))"

definition code ::
  "('s \<Rightarrow> byte \<Rightarrow> (byte list \<times> 's) cres) \<Rightarrow> ('s \<Rightarrow> (byte list \<times> 's) cres) \<Rightarrow> 's \<Rightarrow> byte list \<Rightarrow> (byte list \<times> 's) cres" where
  "code p fl s cs = bindR (code_loop p s cs) (\<lambda>(o1, s1). bindR (fl s1) (\<lambda>(o2, s2). Ret (o1 @ o2, s2)))"

section \<open>Base64\<close>

definition bytes_of :: "string \<Rightarrow> byte list" where
  "bytes_of s = map (\<lambda>c. word_of_nat (of_char c)) s"

definition sEncTable :: "byte list" where
  "sEncTable = bytes_of ''ABCDEFGHIJKLMNOPQRSTUVWXYZabcdefghijklmnopqrstuvwxyz0123456789+/=''"

definition eq_sign :: int where "eq_sign = 100"

definition pad_idx :: byte where "pad_idx = 64"

definition sDecTable :: "int list" where
  "sDecTable = [
     -1,-1,-1,-1,-1,-1,-1,-1,-1,-1,
     -1,-1,-1,-1,-1,-1,-1,-1,-1,-1,
     -1,-1,-1,-1,-1,-1,-1,-1,-1,-1,
     -1,-1,-1,-1,-1,-1,-1,-1,-1,-1,
     -1,-1,-1,62,-1,-1,-1,63,52,53,
     54,55,56,57,58,59,60,61,-1,-1,
     -1, eq_sign, -1,-1,-1, 0, 1, 2, 3, 4,
      5, 6, 7, 8, 9,10,11,12,13,14,
     15,16,17,18,19,20,21,22,23,24,
     25,-1,-1,-1,-1,-1,-1,26,27,28,
     29,30,31,32,33,34,35,36,37,38,
     39,40,41,42,43,44,45,46,47,48,
     49,50,51,-1]"

definition sDecTableSz :: nat where "sDecTableSz = length sDecTable"

subsection \<open>The encoder\<close>

record base64_encoder =
  e_ch :: "nat \<Rightarrow> byte"
  e_cidx :: nat
  e_pos :: int
  e_maxlen :: int

definition Base64_Encoder :: "(nat \<Rightarrow> byte) \<Rightarrow> int \<Rightarrow> base64_encoder" where
  "Base64_Encoder g maxlen = \<lparr>e_ch = g, e_cidx = 0, e_pos = 1, e_maxlen = maxlen\<rparr>"

text \<open>The loop over \<open>idx\<close> at the end of \<open>writeBuf\<close>: a character, and a new line when the line is full.\<close>

primrec put_idx :: "int \<Rightarrow> int \<Rightarrow> byte list \<Rightarrow> byte list \<times> int" where
  "put_idx maxlen pos [] = ([], pos)"
| "put_idx maxlen pos (i # is) =
     (let (nl, pos1) = (if maxlen \<noteq> 0 then if pos + 1 > maxlen then ([10], 1) else ([], pos + 1) else ([], pos));
          (rest, pos2) = put_idx maxlen pos1 is
      in (sEncTable ! unat i # nl @ rest, pos2))"

definition enc_writeBuf :: "base64_encoder \<Rightarrow> (byte list \<times> base64_encoder) cres" where
  "enc_writeBuf e =
     (let pad_count = 3 - int (e_cidx e); ch = e_ch e; i0 = drop_bit 2 (ch 0);
          idx = (if pad_count = 0 then
                   Some [i0, push_bit 4 (ch 0 AND 3) OR drop_bit 4 (ch 1), push_bit 2 (ch 1 AND 0xf) OR drop_bit 6 (ch 2),
                     ch 2 AND 0x3f]
                 else if pad_count = 1 then
                   Some [i0, push_bit 4 (ch 0 AND 3) OR drop_bit 4 (ch 1), push_bit 2 (ch 1 AND 0xf), pad_idx]
                 else if pad_count = 2 then Some [i0, push_bit 4 (ch 0 AND 3), pad_idx, pad_idx]
                 else None)
      in case idx of
           None \<Rightarrow> Fault
         | Some is \<Rightarrow>
             (let (out, pos) = put_idx (e_maxlen e) (e_pos e) is in Ret (out, e\<lparr>e_cidx := 0, e_pos := pos\<rparr>)))"

definition enc_process :: "base64_encoder \<Rightarrow> byte \<Rightarrow> (byte list \<times> base64_encoder) cres" where
  "enc_process e c =
     (if e_cidx e \<ge> 3 then Fault
      else let e1 = e\<lparr>e_ch := (e_ch e)(e_cidx e := c), e_cidx := e_cidx e + 1\<rparr>
           in if e_cidx e1 < 3 then Ret ([], e1) else enc_writeBuf e1)"

definition enc_flush :: "base64_encoder \<Rightarrow> (byte list \<times> base64_encoder) cres" where
  "enc_flush e = (if e_cidx e > 0 then enc_writeBuf e else Ret ([], e))"

subsection \<open>The decoder\<close>

record base64_decoder =
  d_cidx :: nat
  d_ch :: "nat \<Rightarrow> byte"

definition Base64_Decoder :: "(nat \<Rightarrow> byte) \<Rightarrow> base64_decoder" where
  "Base64_Decoder g = \<lparr>d_cidx = 0, d_ch = g\<rparr>"

definition dec_writeBuf :: "base64_decoder \<Rightarrow> byte list \<times> base64_decoder" where
  "dec_writeBuf d =
     (if d_cidx d < 2 then ([], d)
      else let eq = word_of_int eq_sign;
               ch = (if d_cidx d = 2 then (d_ch d)(2 := eq, 3 := eq)
                     else if d_cidx d = 3 then (d_ch d)(3 := eq) else d_ch d);
               d1 = d\<lparr>d_ch := ch, d_cidx := 0\<rparr>;
               o0 = push_bit 2 (ch 0) OR (drop_bit 4 (ch 1) AND 3);
               o1 = push_bit 4 (ch 1) OR (drop_bit 2 (ch 2) AND 0xF);
               o2 = push_bit 6 (ch 2) OR ch 3
           in if ch 2 = eq then ([o0], d1) else if ch 3 = eq then ([o0, o1], d1) else ([o0, o1, o2], d1))"

text \<open>The test admits an index equal to the size of the table: one past its end.\<close>

definition dec_process :: "base64_decoder \<Rightarrow> byte \<Rightarrow> (byte list \<times> base64_decoder) cres" where
  "dec_process d c =
     (if unat c > sDecTableSz then Ret ([], d)
      else if unat c \<ge> length sDecTable then Fault
      else if sDecTable ! unat c = -1 then Ret ([], d)
      else if d_cidx d \<ge> 4 then Fault
      else let d1 = d\<lparr>d_ch := (d_ch d)(d_cidx d := word_of_int (sDecTable ! unat c)), d_cidx := d_cidx d + 1\<rparr>
           in if d_cidx d1 < 4 then Ret ([], d1) else Ret (dec_writeBuf d1))"

definition dec_flush :: "base64_decoder \<Rightarrow> (byte list \<times> base64_decoder) cres" where
  "dec_flush d = Ret (if d_cidx d > 0 then dec_writeBuf d else ([], d))"

section \<open>Quoted-printable\<close>

text \<open>The classes of characters, the enumeration of class \<open>QP\<close>: the constructors are in the order of its values.\<close>

datatype qp_class = printable | tab | sp | newline | binary | unsafe

definition sTb :: "nat list" where
  "sTb = [
     4,4,4,4,4,4,4,4,4,1,
     3,4,4,3,4,4,4,4,4,4,
     4,4,4,4,4,4,4,4,4,4,
     4,4,2,5,5,5,5,0,0,0,
     0,0,0,0,0,0,0,0,0,0,
     0,0,0,0,0,0,0,0,0,0,
     0,5,0,0,5,0,0,0,0,0,
     0,0,0,0,0,0,0,0,0,0,
     0,0,0,0,0,0,0,0,0,0,
     0,5,5,5,5,0,5,0,0,0,
     0,0,0,0,0,0,0,0,0,0,
     0,0,0,0,0,0,0,0,0,0,
     0,0,0,5,5,5,5,4,4,4,
     4,4,4,4,4,4,4,4,4,4,
     4,4,4,4,4,4,4,4,4,4,
     4,4,4,4,4,4,4,4,4,4,
     4,4,4,4,4,4,4,4,4,4,
     4,4,4,4,4,4,4,4,4,4,
     4,4,4,4,4,4,4,4,4,4,
     4,4,4,4,4,4,4,4,4,4,
     4,4,4,4,4,4,4,4,4,4,
     4,4,4,4,4,4,4,4,4,4,
     4,4,4,4,4,4,4,4,4,4,
     4,4,4,4,4,4,4,4,4,4,
     4,4,4,4,4,4,4,4,4,4,
     4,4,4,4,4,4]"

definition qp_class_of :: "byte \<Rightarrow> qp_class" where
  "qp_class_of c = [printable, tab, sp, newline, binary, unsafe] ! (sTb ! unat c)"

abbreviation LF :: byte where "LF \<equiv> 0xA"
abbreviation CR :: byte where "CR \<equiv> 0xD"
abbreviation TAB :: byte where "TAB \<equiv> 9"
abbreviation SP :: byte where "SP \<equiv> 32"
abbreviation EQ :: byte where "EQ \<equiv> 61"

subsection \<open>The encoder\<close>

record qp_encoder =
  q_pos :: nat
  q_maxlen :: nat
  q_binary :: bool
  q_cbuf :: "byte circular_buffer"

definition qp_laBufSz :: nat where "qp_laBufSz = 5"

definition QP_Encoder :: "(nat \<Rightarrow> byte) \<Rightarrow> bool \<Rightarrow> qp_encoder" where
  "QP_Encoder g isBinary = \<lparr>q_pos = 1, q_maxlen = 76, q_binary = isBinary, q_cbuf = circular_buffer_new g qp_laBufSz\<rparr>"

definition qp_set_maxlen :: "nat \<Rightarrow> qp_encoder \<Rightarrow> qp_encoder" where
  "qp_set_maxlen i e = e\<lparr>q_maxlen := i\<rparr>"

definition hardLineBrk :: "qp_encoder \<Rightarrow> byte list \<times> qp_encoder" where
  "hardLineBrk e = ([LF], e\<lparr>q_pos := 1\<rparr>)"

definition softLineBrk :: "qp_encoder \<Rightarrow> byte list \<times> qp_encoder" where
  "softLineBrk e = (let (o1, e1) = hardLineBrk e in (EQ # o1, e1))"

definition qp_write :: "byte \<Rightarrow> qp_encoder \<Rightarrow> byte list \<times> qp_encoder" where
  "qp_write ch e =
     (let is_last_ch = cb_empty (q_cbuf e);
          (o1, e1) = (if \<not> is_last_ch \<and> q_pos e = q_maxlen e then softLineBrk e else ([], e))
      in (o1 @ [ch], e1\<lparr>q_pos := q_pos e1 + 1\<rparr>))"

definition hexc :: "byte list" where
  "hexc = bytes_of ''0123456789ABCDEF''"

definition qp_writeHex :: "byte \<Rightarrow> qp_encoder \<Rightarrow> byte list \<times> qp_encoder" where
  "qp_writeHex ch e =
     (let is_last_ch = cb_empty (q_cbuf e);
          (o1, e1) = (if q_pos e + (if is_last_ch then 1 else 2) \<ge> q_maxlen e then softLineBrk e else ([], e))
      in (o1 @ [EQ, hexc ! unat (drop_bit 4 ch), hexc ! unat (ch AND 0xf)], e1\<lparr>q_pos := q_pos e1 + 3\<rparr>))"

definition encodeChar :: "byte \<Rightarrow> qp_encoder \<Rightarrow> byte list \<times> qp_encoder" where
  "encodeChar c e =
     (let b = q_cbuf e; cnt = m_count b; nl0 = (qp_class_of (cb_nth b 0) = newline)
      in case qp_class_of c of
           printable \<Rightarrow>
             if q_pos e = 1 \<and> c = 0x46 \<and> cnt \<ge> 4 \<and> cb_compare b 0 4 (bytes_of ''rom '') then qp_writeHex c e
             else if q_pos e = 1 \<and> c = 0x2E \<and> (cnt = 0 \<or> nl0) then qp_writeHex c e
             else qp_write c e
         | tab \<Rightarrow> if q_binary e \<or> cnt = 0 \<or> nl0 then qp_writeHex c e else qp_write c e
         | sp \<Rightarrow> if q_binary e \<or> cnt = 0 \<or> nl0 then qp_writeHex c e else qp_write c e
         | newline \<Rightarrow>
             if q_binary e then qp_writeHex c e
             else hardLineBrk
               (if cnt \<noteq> 0 \<and> cb_nth b 0 = (if c = CR then LF else CR) then e\<lparr>q_cbuf := cb_pop_front b\<rparr> else e)
         | binary \<Rightarrow> qp_writeHex c (e\<lparr>q_binary := True\<rparr>)
         | unsafe \<Rightarrow> qp_writeHex c e)"

definition qp_process :: "qp_encoder \<Rightarrow> byte \<Rightarrow> (byte list \<times> qp_encoder) cres" where
  "qp_process e ic =
     (let e1 = e\<lparr>q_cbuf := cb_push_back ic (q_cbuf e)\<rparr>
      in if m_count (q_cbuf e1) < qp_laBufSz then Ret ([], e1)
         else Ret (encodeChar (cb_front (q_cbuf e1)) (e1\<lparr>q_cbuf := cb_pop_front (q_cbuf e1)\<rparr>)))"

text \<open>The loop of \<open>flush\<close>. Each turn takes one or two characters out of the buffer.\<close>

lemma cb_pop_front_count: "m_count b \<noteq> 0 \<Longrightarrow> m_count (cb_pop_front b) = (m_count b - 1) mod 2 ^ 32"
proof -
  assume "m_count b \<noteq> 0"
  then have e: "m_count b + 2 ^ 32 - 1 = (m_count b - 1) + 2 ^ 32" by simp
  have "m_count (cb_pop_front b) = (m_count b + 2 ^ 32 - 1) mod 2 ^ 32" by (simp add: cb_pop_front_def)
  then show ?thesis by (simp only: e mod_add_self2)
qed

lemma cb_pop_front_less: "m_count b \<noteq> 0 \<Longrightarrow> m_count (cb_pop_front b) < m_count b"
  using mod_less_eq_dividend[of "m_count b - 1" "2 ^ 32"] by (simp add: cb_pop_front_count)

lemma qp_out_keeps [simp]:
  "q_cbuf (snd (qp_write c e)) = q_cbuf e" "q_cbuf (snd (qp_writeHex c e)) = q_cbuf e"
  "q_cbuf (snd (hardLineBrk e)) = q_cbuf e"
  by (simp_all add: qp_write_def qp_writeHex_def softLineBrk_def hardLineBrk_def Let_def)

lemma encodeChar_count: "m_count (q_cbuf (snd (encodeChar c e))) \<le> m_count (q_cbuf e)"
  using cb_pop_front_less[of "q_cbuf e"] by (cases "qp_class_of c") (simp_all add: encodeChar_def Let_def less_imp_le)

function qp_flush :: "qp_encoder \<Rightarrow> byte list \<times> qp_encoder" where
  "qp_flush e =
     (if cb_empty (q_cbuf e) then ([], e)
      else let (o1, e1) = encodeChar (cb_front (q_cbuf e)) (e\<lparr>q_cbuf := cb_pop_front (q_cbuf e)\<rparr>);
               (o2, e2) = qp_flush e1
           in (o1 @ o2, e2))"
  by pat_completeness auto

termination
proof (relation "measure (\<lambda>e. m_count (q_cbuf e))")
  fix e o1 e1 and x :: "byte list \<times> qp_encoder"
  assume e: "\<not> cb_empty (q_cbuf e)" and x: "x = encodeChar (cb_front (q_cbuf e)) (e\<lparr>q_cbuf := cb_pop_front (q_cbuf e)\<rparr>)" "(o1, e1) = x"
  have "m_count (q_cbuf e1) \<le> m_count (cb_pop_front (q_cbuf e))"
    using encodeChar_count[of "cb_front (q_cbuf e)" "e\<lparr>q_cbuf := cb_pop_front (q_cbuf e)\<rparr>"] x by (auto dest: sym)
  also have "\<dots> < m_count (q_cbuf e)" using e by (simp add: cb_pop_front_less cb_empty_def)
  finally show "(e1, e) \<in> measure (\<lambda>e. m_count (q_cbuf e))" by simp
qed simp

declare qp_flush.simps [simp del]

subsection \<open>The decoder\<close>

text \<open>The states that the decoder enters; no statement sets \<open>sOtherChar\<close>.\<close>

datatype qp_state = sWaitingChar | sAfterEq | sWaitingFirstHex | sWaitingSecondHex | sBlank | sNewline

record qp_decoder =
  p_state :: qp_state
  p_nl :: byte
  p_prev :: "byte list"

definition QP_Decoder :: qp_decoder where
  "QP_Decoder = \<lparr>p_state = sWaitingChar, p_nl = 0, p_prev = []\<rparr>"

definition isnl :: "byte \<Rightarrow> bool" where
  "isnl c \<longleftrightarrow> c = CR \<or> c = LF"

definition isblank :: "byte \<Rightarrow> bool" where
  "isblank c \<longleftrightarrow> c = SP \<or> c = TAB"

definition hex_to_int :: "byte \<Rightarrow> byte" where
  "hex_to_int c =
     (if 0x30 \<le> c \<and> c \<le> 0x39 then c - 0x30
      else if 0x41 \<le> c \<and> c \<le> 0x46 then c - 0x41 + 10
      else if 0x61 \<le> c \<and> c \<le> 0x66 then c - 0x61 + 10
      else 0)"

definition ishex :: "byte \<Rightarrow> bool" where
  "ishex c \<longleftrightarrow> 0x30 \<le> c \<and> c \<le> 0x39 \<or> 0x41 \<le> c \<and> c \<le> 0x46 \<or> 0x61 \<le> c \<and> c \<le> 0x66"

definition prefix_out :: "byte list \<Rightarrow> (byte list \<times> 's) cres \<Rightarrow> (byte list \<times> 's) cres" where
  "prefix_out o1 m = bindR m (\<lambda>(o2, s). Ret (o1 @ o2, s))"

text \<open>The measure for the loop of \<open>decodeChar\<close>.\<close>

definition qp_rank :: "byte \<Rightarrow> qp_decoder \<Rightarrow> nat" where
  "qp_rank c d = (if p_nl d = 0 then 0 else 4) +
     (case p_state d of sAfterEq \<Rightarrow> 2 | sBlank \<Rightarrow> if isblank c then 0 else 2 | sWaitingChar \<Rightarrow> 1 | _ \<Rightarrow> 0)"

text \<open>
  The endless loop of \<open>decodeChar\<close>: \<open>continue\<close> is a recursive call. The assertion in \<open>sWaitingSecondHex\<close> is \<open>Abort\<close>.
\<close>

function decodeChar :: "byte \<Rightarrow> qp_decoder \<Rightarrow> (byte list \<times> qp_decoder) cres" where
  "decodeChar c d =
     (case p_state d of
        sBlank \<Rightarrow>
          if isblank c then Ret ([], d\<lparr>p_prev := p_prev d @ [c]\<rparr>)
          else if isnl c then Ret ([], d\<lparr>p_prev := [], p_state := sWaitingChar\<rparr>)
          else prefix_out (p_prev d) (decodeChar c (d\<lparr>p_prev := [], p_state := sWaitingChar\<rparr>))
      | sAfterEq \<Rightarrow>
          if isblank c then Ret ([], d\<lparr>p_prev := p_prev d @ [c]\<rparr>)
          else if isnl c then decodeChar c (d\<lparr>p_state := sNewline\<rparr>)
          else if length (p_prev d) > 1 then prefix_out (p_prev d) (decodeChar c (d\<lparr>p_prev := [], p_state := sWaitingChar\<rparr>))
          else decodeChar c (d\<lparr>p_state := sWaitingFirstHex\<rparr>)
      | sWaitingFirstHex \<Rightarrow>
          if \<not> ishex c then Ret (p_prev d @ [c], d\<lparr>p_prev := [], p_state := sWaitingChar\<rparr>)
          else Ret ([], d\<lparr>p_prev := p_prev d @ [c], p_state := sWaitingSecondHex\<rparr>)
      | sWaitingSecondHex \<Rightarrow>
          if \<not> ishex c then Ret (p_prev d @ [c], d\<lparr>p_prev := [], p_state := sWaitingChar\<rparr>)
          else if p_prev d = [] then Abort
          else Ret ([push_bit 4 (hex_to_int (last (p_prev d))) OR hex_to_int c], d\<lparr>p_prev := [], p_state := sWaitingChar\<rparr>)
      | sNewline \<Rightarrow>
          if p_nl d = 0 then Ret ([], d\<lparr>p_nl := c\<rparr>)
          else let o1 = (if p_prev d = [] \<or> hd (p_prev d) \<noteq> EQ then [LF] else []);
                   is2Ch = (c = (if p_nl d = CR then LF else CR));
                   d1 = d\<lparr>p_prev := [], p_state := sWaitingChar, p_nl := 0\<rparr>
               in if is2Ch then Ret (o1, d1) else prefix_out o1 (decodeChar c d1)
      | sWaitingChar \<Rightarrow>
          if isblank c then decodeChar c (d\<lparr>p_state := sBlank\<rparr>)
          else if isnl c then decodeChar c (d\<lparr>p_state := sNewline\<rparr>)
          else if c = EQ then Ret ([], d\<lparr>p_state := sAfterEq, p_prev := p_prev d @ [c]\<rparr>)
          else if c < 32 \<and> c \<noteq> TAB then Ret ([], d)
          else Ret ([c], d))"
  by pat_completeness auto

termination
  by (relation "measure (\<lambda>(c, d). qp_rank c d)") (auto simp: qp_rank_def split: if_splits)

declare decodeChar.simps [simp del]

definition qp_decode_process :: "qp_decoder \<Rightarrow> byte \<Rightarrow> (byte list \<times> qp_decoder) cres" where
  "qp_decode_process d ic = decodeChar ic d"

definition qp_decode_flush :: "qp_decoder \<Rightarrow> (byte list \<times> qp_decoder) cres" where
  "qp_decode_flush d =
     (let prev = p_prev d
      in Ret (if prev \<noteq> [] then
                if length prev = 1 then [EQ] else EQ # (if prev ! 1 \<noteq> SP then [prev ! 1] else [])
              else if p_nl d \<noteq> 0 then [LF] else [], d))"

section \<open>Search\<close>

text \<open>
  \<open>find_bm\<close> for random access iterators, on the offsets from \<open>bit\<close>. The bytes of the text are compared as \<open>unsigned char\<close>
  with those of the word as \<open>char\<close>, which is signed. The two nested loops are one recursion: after a difference \<open>i\<close> moves
  on and the comparison starts again at the end of the word.
\<close>

definition bm_shift :: "byte list \<Rightarrow> byte \<Rightarrow> int" where
  "bm_shift pWord =
     foldl (\<lambda>sh i. sh(pWord ! i := int (length pWord) - int i - 1)) (\<lambda>_. int (length pWord)) [0..<length pWord]"

definition bm_differs :: "byte \<Rightarrow> byte \<Rightarrow> bool" where
  "bm_differs c w \<longleftrightarrow> uint c \<noteq> sint w"

function bm_loop :: "byte list \<Rightarrow> byte list \<Rightarrow> int \<Rightarrow> int \<Rightarrow> int" where
  "bm_loop txt pWord i t =
     (if t < 0 then i + 1
      else if i \<ge> int (length txt) then int (length txt)
      else if bm_differs (txt ! nat i) (pWord ! nat t) then
        let j = i + max (int (length pWord) - t) (bm_shift pWord (txt ! nat i))
        in if j \<ge> int (length txt) then int (length txt) else bm_loop txt pWord j (int (length pWord) - 1)
      else bm_loop txt pWord (i - 1) (t - 1))"
  by pat_completeness auto

termination
  by (relation "measures [\<lambda>(txt, w, i, t). nat (int (length txt) - (i - t)), \<lambda>(txt, w, i, t). nat (t + 1)]") auto

declare bm_loop.simps [simp del]

definition find_bm :: "byte list \<Rightarrow> byte list \<Rightarrow> int" where
  "find_bm txt pWord = bm_loop txt pWord (int (length pWord) - 1) (int (length pWord) - 1)"

section \<open>Other codecs\<close>

text \<open>The unbuffered codecs; \<open>char\<close> values keep their order among the letters. \<open>flush\<close> of an unbuffered codec writes nothing.\<close>

definition NullCodec_process :: "unit \<Rightarrow> byte \<Rightarrow> (byte list \<times> unit) cres" where
  "NullCodec_process s c = Ret ([c], s)"

definition ToUpperCase_process :: "unit \<Rightarrow> byte \<Rightarrow> (byte list \<times> unit) cres" where
  "ToUpperCase_process s c = Ret ([if 0x61 \<le> c \<and> c \<le> 0x7A then c - 32 else c], s)"

definition ToLowerCase_process :: "unit \<Rightarrow> byte \<Rightarrow> (byte list \<times> unit) cres" where
  "ToLowerCase_process s c = Ret ([if 0x41 \<le> c \<and> c \<le> 0x5A then c + 32 else c], s)"

text \<open>The state of \<open>Lf2CrLf\<close> is \<open>m_prev\<close>.\<close>

definition Lf2CrLf_process :: "byte \<Rightarrow> byte \<Rightarrow> (byte list \<times> byte) cres" where
  "Lf2CrLf_process prev c = Ret (if c = LF \<and> prev \<noteq> CR then [CR, LF] else [c], c)"

text \<open>The state of \<open>MaxLineLen\<close> is \<open>m_max\<close> and \<open>m_written\<close>, which wraps around.\<close>

definition MaxLineLen_process :: "32 word \<times> 32 word \<Rightarrow> byte \<Rightarrow> (byte list \<times> (32 word \<times> 32 word)) cres" where
  "MaxLineLen_process = (\<lambda>(mx, written) c.
     Ret (if mx \<noteq> 0 then if written = mx then ([CR, LF, c], (mx, 1)) else ([c], (mx, written + 1))
          else ([c], (mx, written))))"

definition unbuffered_flush :: "'s \<Rightarrow> (byte list \<times> 's) cres" where
  "unbuffered_flush s = Ret ([], s)"

text \<open>
  \<open>codec_chain\<close>: a node writes what its codec gives into the next node, which processes it at once; \<open>flush\<close> flushes the
  codec into the next node, then the next node. The quoted-printable decoder is no first node of a chain: it is declared as
  \<open>chainable_codec<Encoder>\<close>, and \<open>flushPrev\<close> writes into a copy of the next node.
\<close>

definition chain_process ::
  "('s \<Rightarrow> byte \<Rightarrow> (byte list \<times> 's) cres) \<Rightarrow> ('n \<Rightarrow> byte \<Rightarrow> (byte list \<times> 'n) cres) \<Rightarrow>
   's \<times> 'n \<Rightarrow> byte \<Rightarrow> (byte list \<times> ('s \<times> 'n)) cres" where
  "chain_process p q = (\<lambda>(m_c, m_next) c.
     bindR (p m_c c) (\<lambda>(o1, s1). bindR (code_loop q m_next o1) (\<lambda>(o2, s2). Ret (o2, (s1, s2)))))"

definition chain_flush ::
  "('s \<Rightarrow> (byte list \<times> 's) cres) \<Rightarrow> ('n \<Rightarrow> byte \<Rightarrow> (byte list \<times> 'n) cres) \<Rightarrow> ('n \<Rightarrow> (byte list \<times> 'n) cres) \<Rightarrow>
   's \<times> 'n \<Rightarrow> (byte list \<times> ('s \<times> 'n)) cres" where
  "chain_flush fp q fq = (\<lambda>(m_c, m_next).
     bindR (fp m_c) (\<lambda>(o1, s1). bindR (code_loop q m_next o1) (\<lambda>(o2, n1).
     bindR (fq n1) (\<lambda>(o3, n2). Ret (o2 @ o3, (s1, n2))))))"

end
