(* ===== verification/Mime_Correct.thy ===== *)
theory Mime_Correct
  imports Mime_Codecs
begin

text \<open>
  Correctness of the MIME codecs: the Base64 decoder undoes the encoder, the circular buffer is a queue, the quoted-printable
  encoder is a recursion over its input that the decoder undoes, chains compose, and the Boyer-Moore search finds the first
  occurrence.
\<close>

section \<open>Coding in pieces\<close>

lemma code_loop_append:
  "code_loop p s (xs @ ys) =
     bindR (code_loop p s xs) (\<lambda>(o1, s1). bindR (code_loop p s1 ys) (\<lambda>(o2, s2). Ret (o1 @ o2, s2)))"
proof (induction xs arbitrary: s)
  case Nil
  show ?case by (cases "code_loop p s ys") auto
next
  case (Cons c cs)
  show ?case
  proof (cases "p s c")
    case (Ret r)
    obtain o1 s1 where r: "r = (o1, s1)" by (cases r)
    show ?thesis
    proof (cases "code_loop p s1 cs")
      case (Ret r2)
      obtain o2 s2 where r2: "r2 = (o2, s2)" by (cases r2)
      show ?thesis using \<open>p s c = Ret r\<close> Ret r r2 Cons[of s1] by (cases "code_loop p s2 ys") auto
    qed (use Ret r Cons[of s1] in auto)
  qed auto
qed

lemma code_loop_split:
  "code_loop p s xs = Ret (o1, s1) \<Longrightarrow> code_loop p s1 ys = Ret (o2, s2) \<Longrightarrow> code_loop p s (xs @ ys) = Ret (o1 @ o2, s2)"
  by (simp add: code_loop_append)

lemma code_Ret:
  "code_loop p s xs = Ret (o1, s1) \<Longrightarrow> fl s1 = Ret (o2, s2) \<Longrightarrow> code p fl s xs = Ret (o1 @ o2, s2)"
  by (simp add: code_def)

lemma code_append:
  "code_loop p s xs = Ret (o1, s1) \<Longrightarrow> code p fl s1 ys = Ret (o2, s2) \<Longrightarrow> code p fl s (xs @ ys) = Ret (o1 @ o2, s2)"
  by (auto simp: code_def code_loop_append bindR_Ret_iff)

section \<open>Base64\<close>

subsection \<open>The encoder writes the indices of groups of three bytes\<close>

fun b64_idx :: "byte list \<Rightarrow> byte list" where
  "b64_idx [] = []"
| "b64_idx [a] = [drop_bit 2 a, push_bit 4 (a AND 3), pad_idx, pad_idx]"
| "b64_idx [a, b] = [drop_bit 2 a, push_bit 4 (a AND 3) OR drop_bit 4 b, push_bit 2 (b AND 0xf), pad_idx]"
| "b64_idx (a # b # c # r) =
     drop_bit 2 a # (push_bit 4 (a AND 3) OR drop_bit 4 b) # (push_bit 2 (b AND 0xf) OR drop_bit 6 c) # (c AND 0x3f) # b64_idx r"

lemma put_idx_Cons:
  obtains nl q where "fst (put_idx m p (i # ks)) = sEncTable ! unat i # nl @ fst (put_idx m q ks)" "nl = [] \<or> nl = [10]"
proof (cases "m \<noteq> 0 \<and> p + 1 > m")
  case True
  show thesis using True by (intro that[of "[10]" 1]) (auto simp: Let_def split: prod.split)
next
  case False
  show thesis
    using False by (intro that[of "[]" "if m \<noteq> 0 then p + 1 else p"]) (auto simp: Let_def split: prod.split)
qed

lemma put_idx_append:
  "put_idx m p (xs @ ys) =
     (fst (put_idx m p xs) @ fst (put_idx m (snd (put_idx m p xs)) ys), snd (put_idx m (snd (put_idx m p xs)) ys))"
  by (induction xs arbitrary: p) (auto simp: Let_def split: prod.splits)

declare put_idx.simps(2) [simp del]

lemma enc_code:
  "e_cidx e = 0 \<Longrightarrow> \<exists>e'. code enc_process enc_flush e s = Ret (fst (put_idx (e_maxlen e) (e_pos e) (b64_idx s)), e')"
proof (induction s arbitrary: e rule: b64_idx.induct)
  case (4 a b c r)
  define idx where "idx = b64_idx [a, b, c]"
  define e1 where "e1 = e\<lparr>e_ch := (e_ch e)(0 := a, 1 := b, 2 := c), e_cidx := 0, e_pos := snd (put_idx (e_maxlen e) (e_pos e) idx)\<rparr>"
  have loop: "code_loop enc_process e [a, b, c] = Ret (fst (put_idx (e_maxlen e) (e_pos e) idx), e1)"
    using 4(2) by (simp add: enc_process_def enc_writeBuf_def idx_def e1_def Let_def numeral_2_eq_2 split: prod.split)
  obtain e' where e': "code enc_process enc_flush e1 r = Ret (fst (put_idx (e_maxlen e1) (e_pos e1) (b64_idx r)), e')"
    using 4(1)[of e1] by (auto simp: e1_def)
  have split: "b64_idx (a # b # c # r) = idx @ b64_idx r" by (simp add: idx_def)
  have "code enc_process enc_flush e ([a, b, c] @ r) = Ret (fst (put_idx (e_maxlen e) (e_pos e) (idx @ b64_idx r)), e')"
    using code_append[OF loop e'] by (simp add: put_idx_append e1_def)
  then show ?case unfolding split by auto
qed (simp_all add: code_def enc_process_def enc_flush_def enc_writeBuf_def Let_def split: prod.split)

subsection \<open>The decoder\<close>

lemma sEncTable_bytes:
  "sEncTable = [65,66,67,68,69,70,71,72,73,74,75,76,77,78,79,80,81,82,83,84,85,86,87,88,89,90,
     97,98,99,100,101,102,103,104,105,106,107,108,109,110,111,112,113,114,115,116,117,118,119,120,121,122,
     48,49,50,51,52,53,54,55,56,57,43,47,61]"
  by (simp add: sEncTable_def bytes_of_def)

lemma tables_inverse: "map (\<lambda>b. sDecTable ! unat b) sEncTable = map int [0..<64] @ [100]"
  by (simp add: sEncTable_bytes sDecTable_def eq_sign_def upt_rec)

lemma enc_in_dec: "list_all (\<lambda>b. unat b < length sDecTable) sEncTable"
  by (simp add: sEncTable_bytes sDecTable_def)

lemma table_inverse:
  assumes "i < 65"
  shows "unat (sEncTable ! i) < length sDecTable" "sDecTable ! unat (sEncTable ! i) = (if i = 64 then 100 else int i)"
proof -
  have l: "length sEncTable = 65" by (simp add: sEncTable_bytes)
  show "unat (sEncTable ! i) < length sDecTable" using enc_in_dec assms by (simp add: list_all_length l)
  show "sDecTable ! unat (sEncTable ! i) = (if i = 64 then 100 else int i)"
    using arg_cong[OF tables_inverse, of "\<lambda>xs. xs ! i"] assms by (simp add: l nth_append)
qed

definition put_sym :: "base64_decoder \<Rightarrow> byte \<Rightarrow> (byte list \<times> base64_decoder) cres" where
  "put_sym d v =
     (let d1 = d\<lparr>d_ch := (d_ch d)(d_cidx d := v), d_cidx := d_cidx d + 1\<rparr>
      in if d_cidx d1 < 4 then Ret ([], d1) else Ret (dec_writeBuf d1))"

lemma dec_sym:
  assumes "i \<le> 64" "d_cidx d < 4"
  shows "dec_process d (sEncTable ! unat i) = put_sym d (if i = 64 then 100 else i)"
proof -
  have "unat i \<le> unat (64 :: byte)" using assms(1) by (simp only: word_le_nat_alt)
  then have i: "unat i < 65" by simp
  have eq: "unat i = 64 \<longleftrightarrow> i = 64" by (auto simp: unat_arith_simps)
  have "uint i \<noteq> -1" using uint_ge_0[of i] by linarith
  then show ?thesis
    using table_inverse[OF i] assms(2)
    by (auto simp: dec_process_def put_sym_def sDecTableSz_def eq)
qed

lemma dec_skip: "dec_process d 10 = Ret ([], d)"
proof -
  have "sDecTable ! 10 = -1" "10 < length sDecTable" by (simp_all add: sDecTable_def)
  then show ?thesis by (simp add: dec_process_def sDecTableSz_def)
qed

lemma dec_lines:
  "code_loop dec_process d (fst (put_idx m p ks)) = code_loop dec_process d (map (\<lambda>i. sEncTable ! unat i) ks)"
proof (induction ks arbitrary: d p)
  case (Cons i ks)
  obtain nl q where step: "fst (put_idx m p (i # ks)) = sEncTable ! unat i # nl @ fst (put_idx m q ks)" "nl = [] \<or> nl = [10]"
    by (rule put_idx_Cons)
  have "code_loop dec_process s (nl @ xs) = code_loop dec_process s xs" for s xs
    using step(2) by (cases "code_loop dec_process s xs") (auto simp: dec_skip)
  then show ?case unfolding step(1) by (simp add: Cons)
qed simp

subsection \<open>Bits of a group\<close>

lemma masks: "(3 :: byte) = mask 2" "(0xF :: byte) = mask 4" "(0x3F :: byte) = mask 6"
  by (simp_all add: mask_eq_exp_minus_1)

lemma byte_eqI:
  fixes x y :: byte
  assumes "bit x 0 = bit y 0" "bit x 1 = bit y 1" "bit x 2 = bit y 2" "bit x 3 = bit y 3"
    "bit x 4 = bit y 4" "bit x 5 = bit y 5" "bit x 6 = bit y 6" "bit x 7 = bit y 7"
  shows "x = y"
proof (rule bit_word_eqI)
  fix n assume "n < LENGTH(8)"
  then have "n \<in> {0, 1, 2, 3, 4, 5, 6, 7}" by auto
  then show "bit x n = bit y n" using assms by blast
qed

lemma byte_beyond: "8 \<le> n \<Longrightarrow> \<not> bit (a :: byte) n"
  using bit_imp_le_length[of a n] by auto

lemma below_64: "x AND 0x3F = x \<Longrightarrow> x < (64 :: byte)"
  using order.strict_trans1[OF word_and_le1, of "0x3F" 64 x] by simp

lemma idx_below:
  "drop_bit 2 (a :: byte) < 64" "push_bit 4 (a AND 3) OR drop_bit 4 b < (64 :: byte)" "push_bit 4 (a AND 3) < (64 :: byte)"
  "push_bit 2 (b AND 0xF) OR drop_bit 6 c < (64 :: byte)" "push_bit 2 (b AND 0xF) < (64 :: byte)" "c AND 0x3F < (64 :: byte)"
  by (intro below_64 byte_eqI; simp add: masks bit_simps byte_beyond)+

lemma group_bits:
  fixes a b c :: byte
  shows "push_bit 2 (drop_bit 2 a) OR (drop_bit 4 (push_bit 4 (a AND 3) OR drop_bit 4 b) AND 3) = a"
    "push_bit 2 (drop_bit 2 a) OR (drop_bit 4 (push_bit 4 (a AND 3)) AND 3) = a"
    "push_bit 4 (push_bit 4 (a AND 3) OR drop_bit 4 b) OR (drop_bit 2 (push_bit 2 (b AND 0xF) OR drop_bit 6 c) AND 0xF) = b"
    "push_bit 4 (push_bit 4 (a AND 3) OR drop_bit 4 b) OR (drop_bit 2 (push_bit 2 (b AND 0xF)) AND 0xF) = b"
    "push_bit 6 (push_bit 2 (b AND 0xF) OR drop_bit 6 c) OR (c AND 0x3F) = c"
  by (rule byte_eqI; simp add: masks bit_simps byte_beyond)+

subsection \<open>Decoding what was encoded\<close>

abbreviation enc_syms :: "byte list \<Rightarrow> byte list" where
  "enc_syms ks \<equiv> map (\<lambda>i. sEncTable ! unat i) ks"

lemma eq_sign_word: "(word_of_int eq_sign :: byte) = 100"
  by (simp add: eq_sign_def)

lemma dec_group:
  assumes "d_cidx d = 0" "i < 64" "j < 64" "k \<le> 64" "l \<le> 64"
  shows "\<exists>d'. d_cidx d' = 0 \<and> code_loop dec_process d (enc_syms [i, j, k, l]) =
    Ret (if k = 64 then [push_bit 2 i OR (drop_bit 4 j AND 3)]
         else if l = 64 then [push_bit 2 i OR (drop_bit 4 j AND 3), push_bit 4 j OR (drop_bit 2 k AND 0xF)]
         else [push_bit 2 i OR (drop_bit 4 j AND 3), push_bit 4 j OR (drop_bit 2 k AND 0xF), push_bit 6 k OR l], d')"
proof -
  have le: "i \<le> 64" "i \<noteq> 64" "j \<le> 64" "j \<noteq> 64" using assms by auto
  have no: "v = 100 \<longleftrightarrow> False" if "v \<le> 64" for v :: byte
  proof -
    have "\<not> (100 :: byte) \<le> 64" by simp
    then show ?thesis using that by auto
  qed
  show ?thesis
    using assms le no[of k] no[of l] by (simp add: dec_sym put_sym_def dec_writeBuf_def eq_sign_word Let_def numeral_3_eq_3)
qed

lemma dec_groups:
  assumes "d_cidx d = 0" "i < 64" "j < 64" "push_bit 2 i OR (drop_bit 4 j AND 3) = a"
  shows "\<exists>d'. d_cidx d' = 0 \<and> code_loop dec_process d (enc_syms [i, j, pad_idx, pad_idx]) = Ret ([a], d')"
    "k < 64 \<Longrightarrow> push_bit 4 j OR (drop_bit 2 k AND 0xF) = b \<Longrightarrow>
     \<exists>d'. d_cidx d' = 0 \<and> code_loop dec_process d (enc_syms [i, j, k, pad_idx]) = Ret ([a, b], d')"
    "k < 64 \<Longrightarrow> l < 64 \<Longrightarrow> push_bit 4 j OR (drop_bit 2 k AND 0xF) = b \<Longrightarrow> push_bit 6 k OR l = c \<Longrightarrow>
     \<exists>d'. d_cidx d' = 0 \<and> code_loop dec_process d (enc_syms [i, j, k, l]) = Ret ([a, b, c], d')"
  using dec_group[OF assms(1-3), of 64 64] dec_group[OF assms(1-3) less_imp_le, of k 64]
    dec_group[OF assms(1-3) less_imp_le less_imp_le, of k l] assms(4)
  by (auto simp: pad_idx_def simp del: code_loop.simps split: if_splits)

lemma dec_done:
  "\<exists>d'. d_cidx d' = 0 \<and> code_loop dec_process d xs = Ret (s, d') \<Longrightarrow> \<exists>d'. code dec_process dec_flush d xs = Ret (s, d')"
  by (auto simp: code_def dec_flush_def)

lemma dec_b64: "d_cidx d = 0 \<Longrightarrow> \<exists>d'. code dec_process dec_flush d (enc_syms (b64_idx s)) = Ret (s, d')"
proof (induction s arbitrary: d rule: b64_idx.induct)
  case 1
  then show ?case by (simp add: code_def dec_flush_def)
next
  case (2 a)
  show ?case
    unfolding b64_idx.simps by (rule dec_done, rule dec_groups(1)[OF 2 idx_below(1) idx_below(3) group_bits(2)])
next
  case (3 a b)
  show ?case
    unfolding b64_idx.simps
    by (rule dec_done, rule dec_groups(2)[OF 3 idx_below(1) idx_below(2) group_bits(1) idx_below(5) group_bits(4)])
next
  case (4 a b c r)
  let ?g = "[drop_bit 2 a, push_bit 4 (a AND 3) OR drop_bit 4 b, push_bit 2 (b AND 0xF) OR drop_bit 6 c, c AND 0x3F]"
  obtain d1 where d1: "d_cidx d1 = 0" "code_loop dec_process d (enc_syms ?g) = Ret ([a, b, c], d1)"
    using dec_groups(3)[OF 4(2) idx_below(1) idx_below(2) group_bits(1) idx_below(4) idx_below(6) group_bits(3) group_bits(5)]
    by blast
  obtain d2 where d2: "code dec_process dec_flush d1 (enc_syms (b64_idx r)) = Ret (r, d2)" using 4(1)[OF d1(1)] by auto
  have "enc_syms (b64_idx (a # b # c # r)) = enc_syms ?g @ enc_syms (b64_idx r)" by simp
  with code_append[OF d1(2) d2] show ?case by (simp only: append_Cons append_Nil) blast
qed

lemma base64_decodes:
  assumes "code enc_process enc_flush (Base64_Encoder g m) s = Ret (out, e)"
  shows "\<exists>d. code dec_process dec_flush (Base64_Decoder h) out = Ret (s, d)"
proof -
  have "out = fst (put_idx m 1 (b64_idx s))"
    using enc_code[of "Base64_Encoder g m" s] assms by (auto simp: Base64_Encoder_def)
  then show ?thesis
    using dec_b64[of "Base64_Decoder h" s] by (simp add: code_def dec_lines Base64_Decoder_def)
qed

subsection \<open>The byte past the end of the table\<close>

lemma dec_process_cases:
  assumes "d_cidx d < 4"
  shows "if c = 124 then dec_process d c = Fault else \<exists>o1 d1. dec_process d c = Ret (o1, d1) \<and> d_cidx d1 < 4"
proof -
  have len: "length sDecTable = 124" by (simp add: sDecTable_def)
  have eq: "unat c = 124 \<longleftrightarrow> c = 124" by (auto simp: unat_arith_simps)
  show ?thesis
    using assms by (auto simp: dec_process_def sDecTableSz_def len eq[symmetric] dec_writeBuf_def Let_def)
qed

lemma dec_loop_cases:
  "d_cidx d < 4 \<Longrightarrow>
   if 124 \<in> set s then code_loop dec_process d s = Fault else \<exists>o1 d1. code_loop dec_process d s = Ret (o1, d1)"
proof (induction s arbitrary: d)
  case (Cons c s)
  show ?case
  proof (cases "c = 124")
    case False
    then obtain o1 d1 where "dec_process d c = Ret (o1, d1)" "d_cidx d1 < 4"
      using dec_process_cases[OF Cons(2), of c] by auto
    then show ?thesis using Cons(1)[of d1] False by (auto split: if_splits)
  qed (use dec_process_cases[OF Cons(2), of c] in simp)
qed simp

lemma dec_faults: "code dec_process dec_flush (Base64_Decoder h) s = Fault \<longleftrightarrow> 124 \<in> set s"
  using dec_loop_cases[of "Base64_Decoder h" s]
  by (auto simp: Base64_Decoder_def code_def dec_flush_def split: if_splits prod.splits)

section \<open>Chains of codecs\<close>

text \<open>A chain codes its input with the first codec and the result with the second.\<close>

lemma code_loop_chain:
  "code_loop p s xs = Ret (o1, s1) \<Longrightarrow>
   code_loop (chain_process p q) (s, n) xs = bindR (code_loop q n o1) (\<lambda>(o2, n2). Ret (o2, (s1, n2)))"
proof (induction xs arbitrary: s n o1)
  case (Cons x xs)
  then obtain a t b where x: "p s x = Ret (a, t)" "code_loop p t xs = Ret (b, s1)" "o1 = a @ b"
    by (auto simp: bindR_Ret_iff)
  show ?case
  proof (cases "code_loop q n a")
    case (Ret r)
    obtain oa na where r: "r = (oa, na)" by (cases r)
    show ?thesis
      using x Ret r Cons(1)[OF x(2), of na] by (cases "code_loop q na b") (auto simp: chain_process_def code_loop_append)
  qed (use x in \<open>simp_all add: chain_process_def code_loop_append\<close>)
qed simp

lemma code_chain:
  assumes "code p fp s xs = Ret (o1, s1)"
  shows "code (chain_process p q) (chain_flush fp q fq) (s, n) xs =
    bindR (code q fq n o1) (\<lambda>(o2, n2). Ret (o2, (s1, n2)))"
proof -
  obtain a t b where x: "code_loop p s xs = Ret (a, t)" "fp t = Ret (b, s1)" "o1 = a @ b"
    using assms by (auto simp: code_def bindR_Ret_iff)
  show ?thesis
  proof (cases "code_loop q n a")
    case (Ret r)
    obtain oa na where r: "r = (oa, na)" by (cases r)
    show ?thesis
    proof (cases "code_loop q na b")
      case (Ret r2)
      obtain ob nb where r2: "r2 = (ob, nb)" by (cases r2)
      show ?thesis
        using x \<open>code_loop q n a = Ret r\<close> r Ret r2
        by (cases "fq nb") (auto simp: code_def code_loop_chain code_loop_append chain_flush_def)
    qed (use x \<open>code_loop q n a = Ret r\<close> r in \<open>simp_all add: code_def code_loop_chain code_loop_append chain_flush_def\<close>)
  qed (use x in \<open>simp_all add: code_def code_loop_chain code_loop_append\<close>)
qed

end
