(* ===== verification/Qp_Correct.thy ===== *)
theory Qp_Correct
  imports Mime_Correct
begin

text \<open>
  The quoted-printable codec. The contract of its look-ahead buffer is the locale \<open>bounded_queue\<close>, which the circular buffer
  keeps; over it the encoder is a recursion on its input, \<open>qp_ref\<close>, which the decoder undoes.
\<close>

section \<open>The look-ahead buffer\<close>

locale bounded_queue =
  fixes inv :: "'q \<Rightarrow> bool" and items :: "'q \<Rightarrow> 'a list" and cap :: "'q \<Rightarrow> nat"
    and push :: "'a \<Rightarrow> 'q \<Rightarrow> 'q" and pop :: "'q \<Rightarrow> 'q" and front :: "'q \<Rightarrow> 'a" and at :: "'q \<Rightarrow> nat \<Rightarrow> 'a"
  assumes push_inv: "inv q \<Longrightarrow> length (items q) < cap q \<Longrightarrow> inv (push c q)"
    and push_items: "inv q \<Longrightarrow> length (items q) < cap q \<Longrightarrow> items (push c q) = items q @ [c]"
    and push_cap: "cap (push c q) = cap q"
    and pop_inv: "inv q \<Longrightarrow> items q \<noteq> [] \<Longrightarrow> inv (pop q)"
    and pop_items: "inv q \<Longrightarrow> items q \<noteq> [] \<Longrightarrow> items (pop q) = tl (items q)"
    and pop_cap: "cap (pop q) = cap q"
    and front_items: "inv q \<Longrightarrow> items q \<noteq> [] \<Longrightarrow> front q = hd (items q)"
    and at_items: "inv q \<Longrightarrow> i < length (items q) \<Longrightarrow> at q i = items q ! i"
begin

lemma slide:
  assumes "inv q" "length (items q) < cap q"
  shows "inv (pop (push c q))" "items (pop (push c q)) = tl (items q @ [c])" "front (push c q) = hd (items q @ [c])"
  using assms by (simp_all add: push_inv push_items pop_inv pop_items front_items)

lemma at_0: "inv q \<Longrightarrow> items q \<noteq> [] \<Longrightarrow> at q 0 = hd (items q)"
  by (simp add: at_items hd_conv_nth)

lemma window:
  assumes "inv q" "n \<le> length (items q)" "length r = n"
  shows "list_all (\<lambda>i. at q i = r ! i) [0..<n] \<longleftrightarrow> take n (items q) = r"
proof -
  have "list_all (\<lambda>i. at q i = r ! i) [0..<n] \<longleftrightarrow> (\<forall>i < n. items q ! i = r ! i)"
    using assms by (auto simp: list_all_iff at_items)
  also have "\<dots> \<longleftrightarrow> take n (items q) = r"
    using assms(2,3) by (simp add: list_eq_iff_nth_eq[of "take n (items q)"])
  finally show ?thesis .
qed

end

definition cb_inv :: "'a circular_buffer \<Rightarrow> bool" where
  "cb_inv b \<longleftrightarrow> m_first b < m_sz b \<and> m_sz b < 2 ^ 32 \<and> m_count b \<le> m_sz b \<and> m_last b = (m_first b + m_count b) mod m_sz b"

lemma mod_shift: "(f :: nat) < n \<Longrightarrow> i \<le> n \<Longrightarrow> (f + i) mod n = (if f + i < n then f + i else f + i - n)"
  by (auto simp: mod_if)

lemma length_cb_str [simp]: "length (cb_str b) = m_count b"
  by (simp add: cb_str_def)

lemma cb_str_Nil [simp]: "cb_str b = [] \<longleftrightarrow> m_count b = 0"
  by (simp add: cb_str_def)

lemma cb_sz_keeps [simp]: "m_sz (cb_push_back c b) = m_sz b" "m_sz (cb_pop_front b) = m_sz b"
  by (simp_all add: cb_push_back_def cb_pop_front_def)

lemma cb_push_items:
  assumes "cb_inv b" "m_count b < m_sz b"
  shows "cb_inv (cb_push_back c b)" "cb_str (cb_push_back c b) = cb_str b @ [c]"
proof -
  have ne: "(m_first b + i) mod m_sz b \<noteq> m_last b" if "i < m_count b" for i
    using that assms by (auto simp: cb_inv_def mod_shift)
  show "cb_inv (cb_push_back c b)"
    using assms by (auto simp: cb_inv_def cb_push_back_def mod_simps)
  show "cb_str (cb_push_back c b) = cb_str b @ [c]"
    using assms ne by (auto simp: cb_str_def cb_push_back_def cb_nth_def cb_inv_def)
qed

lemma cb_pop_items:
  assumes "cb_inv b" "m_count b \<noteq> 0"
  shows "cb_inv (cb_pop_front b)" "cb_str (cb_pop_front b) = tl (cb_str b)"
proof -
  have cnt: "m_count (cb_pop_front b) = m_count b - 1"
    using assms cb_pop_front_count[of b] by (auto simp: cb_inv_def)
  have same: "m_sz (cb_pop_front b) = m_sz b" "m_first (cb_pop_front b) = (m_first b + 1) mod m_sz b"
    "m_last (cb_pop_front b) = m_last b" "m_pItem (cb_pop_front b) = m_pItem b" by (simp_all add: cb_pop_front_def)
  show "cb_inv (cb_pop_front b)"
    using assms unfolding cb_inv_def cnt same by (cases "m_count b") (auto simp: mod_simps)
  show "cb_str (cb_pop_front b) = tl (cb_str b)"
    using assms by (intro nth_equalityI) (auto simp: cnt nth_tl cb_str_def cb_nth_def same mod_simps)
qed

interpretation cb: bounded_queue cb_inv cb_str m_sz cb_push_back cb_pop_front cb_front cb_nth
proof unfold_locales
  show "cb_front q = hd (cb_str q)" if "cb_inv q" "cb_str q \<noteq> []" for q :: "'a circular_buffer"
    using that by (simp add: hd_conv_nth) (simp add: cb_str_def cb_front_def cb_nth_def cb_inv_def)
  show "cb_nth q i = cb_str q ! i" if "i < length (cb_str q)" for q :: "'a circular_buffer" and i
    using that by (simp add: cb_str_def)
qed (simp_all add: cb_push_items cb_pop_items)

section \<open>The encoder as a recursion\<close>

text \<open>
  What one character writes, where \<open>rest\<close> is the input after it: the output and the column after it. \<open>qp_ref\<close> is the encoder
  on a list.
\<close>

definition ref_break :: "bool \<Rightarrow> nat \<Rightarrow> byte list \<times> nat" where
  "ref_break full pos = (if full then ([EQ, LF], 1) else ([], pos))"

definition ref_hex :: "nat \<Rightarrow> nat \<Rightarrow> byte list \<Rightarrow> byte \<Rightarrow> byte list \<times> nat" where
  "ref_hex mx pos rest c =
     (let (o1, p) = ref_break (pos + (if rest = [] then 1 else 2) \<ge> mx) pos
      in (o1 @ [EQ, hexc ! unat (drop_bit 4 c), hexc ! unat (c AND 0xf)], p + 3))"

definition ref_plain :: "nat \<Rightarrow> nat \<Rightarrow> byte list \<Rightarrow> byte \<Rightarrow> byte list \<times> nat" where
  "ref_plain mx pos rest c = (let (o1, p) = ref_break (rest \<noteq> [] \<and> pos = mx) pos in (o1 @ [c], p + 1))"

definition at_line_end :: "byte list \<Rightarrow> bool" where
  "at_line_end rest \<longleftrightarrow> rest = [] \<or> qp_class_of (hd rest) = newline"

definition needs_hex :: "nat \<Rightarrow> bool \<Rightarrow> byte list \<Rightarrow> byte \<Rightarrow> bool" where
  "needs_hex pos bin rest c =
     (case qp_class_of c of
        printable \<Rightarrow> pos = 1 \<and> (c = 0x46 \<and> take 4 rest = bytes_of ''rom '' \<or> c = 0x2E \<and> at_line_end rest)
      | tab \<Rightarrow> bin \<or> at_line_end rest
      | sp \<Rightarrow> bin \<or> at_line_end rest
      | newline \<Rightarrow> bin
      | _ \<Rightarrow> True)"

definition ref_char :: "nat \<Rightarrow> nat \<Rightarrow> bool \<Rightarrow> byte list \<Rightarrow> byte \<Rightarrow> byte list \<times> nat" where
  "ref_char mx pos bin rest c =
     (if needs_hex pos bin rest c then ref_hex mx pos rest c
      else if qp_class_of c = newline then ([LF], 1)
      else ref_plain mx pos rest c)"

text \<open>The input after a line break of one or two characters.\<close>

definition eaten :: "bool \<Rightarrow> byte \<Rightarrow> byte list \<Rightarrow> bool" where
  "eaten bin c rest \<longleftrightarrow>
     qp_class_of c = newline \<and> \<not> bin \<and> rest \<noteq> [] \<and> hd rest = (if c = CR then LF else CR)"

function qp_ref :: "nat \<Rightarrow> nat \<Rightarrow> bool \<Rightarrow> byte list \<Rightarrow> byte list" where
  "qp_ref mx pos bin [] = []"
| "qp_ref mx pos bin (c # rest) =
     fst (ref_char mx pos bin rest c) @
     qp_ref mx (snd (ref_char mx pos bin rest c)) (bin \<or> qp_class_of c = binary) (if eaten bin c rest then tl rest else rest)"
  by pat_completeness auto

termination
  by (relation "measure (\<lambda>(mx, pos, bin, s). length s)") auto

definition enc_ok :: "qp_encoder \<Rightarrow> bool" where
  "enc_ok e \<longleftrightarrow> cb_inv (q_cbuf e) \<and> m_sz (q_cbuf e) = 5"

text \<open>One character of the encoder, whose buffer shows as much of the input as a decision needs.\<close>

lemma qp_write_ref:
  assumes "cb_empty (q_cbuf e) \<longleftrightarrow> rest = []"
  shows "qp_write c e = (fst (ref_plain (q_maxlen e) (q_pos e) rest c), e\<lparr>q_pos := snd (ref_plain (q_maxlen e) (q_pos e) rest c)\<rparr>)"
    "qp_writeHex c e = (fst (ref_hex (q_maxlen e) (q_pos e) rest c), e\<lparr>q_pos := snd (ref_hex (q_maxlen e) (q_pos e) rest c)\<rparr>)"
  using assms
  by (simp_all add: qp_write_def qp_writeHex_def ref_plain_def ref_hex_def ref_break_def softLineBrk_def hardLineBrk_def Let_def)

lemma encodeChar_ref:
  assumes ok: "enc_ok e" and items: "cb_str (q_cbuf e) = xs" and rest: "xs = rest \<or> (length xs = 4 \<and> take 4 rest = xs)"
  obtains e' where "encodeChar c e = (fst (ref_char (q_maxlen e) (q_pos e) (q_binary e) rest c), e')"
    "q_pos e' = snd (ref_char (q_maxlen e) (q_pos e) (q_binary e) rest c)" "q_maxlen e' = q_maxlen e"
    "q_binary e' = (q_binary e \<or> qp_class_of c = binary)" "enc_ok e'"
    "cb_str (q_cbuf e') = (if eaten (q_binary e) c rest then tl xs else xs)"
proof -
  have inv: "cb_inv (q_cbuf e)" using ok by (simp add: enc_ok_def)
  have cnt: "m_count (q_cbuf e) = length xs" using items length_cb_str[of "q_cbuf e"] by simp
  have nil: "rest = [] \<longleftrightarrow> xs = []" using rest by auto
  have hd: "hd xs = hd rest" if "xs \<noteq> []" using rest that by (metis hd_take zero_less_numeral)
  have at0: "cb_nth (q_cbuf e) 0 = hd rest" if "xs \<noteq> []" using cb.at_0[OF inv] that items hd by simp
  have rom: "4 \<le> length xs \<and> cb_compare (q_cbuf e) 0 4 (bytes_of ''rom '') \<longleftrightarrow> take 4 rest = bytes_of ''rom ''"
  proof (cases "4 \<le> length xs")
    case True
    then have "take 4 xs = take 4 rest" using rest by auto
    then show ?thesis using cb.window[OF inv, of 4 "bytes_of ''rom ''"] True items by (simp add: cb_compare_def bytes_of_def)
  next
    case False
    then show ?thesis using rest by (auto simp: bytes_of_def dest: arg_cong[of _ _ length])
  qed
  have empty: "cb_empty (q_cbuf e) \<longleftrightarrow> rest = []" using cnt nil by (simp add: cb_empty_def)
  have pop: "xs \<noteq> [] \<Longrightarrow> cb_inv (cb_pop_front (q_cbuf e)) \<and> cb_str (cb_pop_front (q_cbuf e)) = tl xs"
    using cb.pop_inv[OF inv] cb.pop_items[OF inv] items by simp
  have ends: "xs = [] \<or> qp_class_of (cb_nth (q_cbuf e) 0) = newline \<longleftrightarrow> at_line_end rest"
    using at0 nil by (auto simp: at_line_end_def)
  have eats: "eaten (q_binary e) c rest \<longleftrightarrow> qp_class_of c = newline \<and> \<not> q_binary e \<and> xs \<noteq> [] \<and>
      cb_nth (q_cbuf e) 0 = (if c = CR then LF else CR)"
    using at0 nil by (auto simp: eaten_def)
  define bin where "bin = (q_binary e \<or> qp_class_of c = binary)"
  have same: "q_binary e \<Longrightarrow> e\<lparr>q_binary := True\<rparr> = e" by (cases e) simp
  have key: "encodeChar c e =
      (if needs_hex (q_pos e) (q_binary e) rest c then qp_writeHex c (e\<lparr>q_binary := bin\<rparr>)
       else if qp_class_of c = newline then
         hardLineBrk (if eaten (q_binary e) c rest then e\<lparr>q_cbuf := cb_pop_front (q_cbuf e)\<rparr> else e)
       else qp_write c e)"
    unfolding eats encodeChar_def Let_def cnt
    by (cases "qp_class_of c") (auto simp: rom ends needs_hex_def bin_def same cong: if_cong)
  define bf where "bf = (if eaten (q_binary e) c rest then cb_pop_front (q_cbuf e) else q_cbuf e)"
  have bf: "cb_inv bf" "m_sz bf = 5" "cb_str bf = (if eaten (q_binary e) c rest then tl xs else xs)"
    using ok pop items eats by (auto simp: bf_def enc_ok_def)
  have "bin = q_binary e" "bf = q_cbuf e" if "\<not> needs_hex (q_pos e) (q_binary e) rest c" "qp_class_of c \<noteq> newline"
    using that by (auto simp: bin_def bf_def needs_hex_def eaten_def)
  moreover have "bf = q_cbuf e" if "needs_hex (q_pos e) (q_binary e) rest c"
    using that by (auto simp: bf_def needs_hex_def eaten_def)
  moreover have "bin = q_binary e" if "qp_class_of c = newline" using that by (simp add: bin_def)
  ultimately have "encodeChar c e = (fst (ref_char (q_maxlen e) (q_pos e) (q_binary e) rest c),
      e\<lparr>q_pos := snd (ref_char (q_maxlen e) (q_pos e) (q_binary e) rest c), q_binary := bin, q_cbuf := bf\<rparr>)"
    using empty unfolding key by (auto simp: qp_write_ref[of _ rest] ref_char_def hardLineBrk_def bf_def)
  from that[OF this] show thesis using bf by (simp add: enc_ok_def bin_def)
qed

lemma qp_flush_ref:
  assumes "enc_ok e" "cb_str (q_cbuf e) = xs"
  shows "fst (qp_flush e) = qp_ref (q_maxlen e) (q_pos e) (q_binary e) xs"
  using assms
proof (induction "length xs" arbitrary: e xs rule: less_induct)
  case less
  have inv: "cb_inv (q_cbuf e)" using less(2) by (simp add: enc_ok_def)
  show ?case
  proof (cases xs)
    case Nil
    then show ?thesis using less(3) by (simp add: qp_flush.simps[of e] cb_empty_def)
  next
    case (Cons c rest)
    then have ne: "cb_str (q_cbuf e) \<noteq> []" using less(3) by simp
    let ?e = "e\<lparr>q_cbuf := cb_pop_front (q_cbuf e)\<rparr>"
    have "enc_ok ?e" "cb_str (q_cbuf ?e) = rest" "cb_front (q_cbuf e) = c"
      using less(2,3) cb.pop_inv[OF inv ne] cb.pop_items[OF inv ne] cb.front_items[OF inv ne] Cons by (simp_all add: enc_ok_def)
    from encodeChar_ref[OF this(1,2), of rest c] this(3) obtain e' where
      e': "encodeChar (cb_front (q_cbuf e)) ?e = (fst (ref_char (q_maxlen e) (q_pos e) (q_binary e) rest c), e')"
      "q_pos e' = snd (ref_char (q_maxlen e) (q_pos e) (q_binary e) rest c)" "q_maxlen e' = q_maxlen e"
      "q_binary e' = (q_binary e \<or> qp_class_of c = binary)" "enc_ok e'"
      "cb_str (q_cbuf e') = (if eaten (q_binary e) c rest then tl rest else rest)"
      by auto
    have "fst (qp_flush e') = qp_ref (q_maxlen e') (q_pos e') (q_binary e') (if eaten (q_binary e) c rest then tl rest else rest)"
      using e' Cons by (intro less(1)) auto
    then show ?thesis using ne e' Cons by (cases "qp_flush e'") (auto simp: qp_flush.simps[of e] cb_empty_def)
  qed
qed

lemma qp_code_ref:
  assumes "enc_ok e" "cb_str (q_cbuf e) = xs" "length xs \<le> 4"
  shows "\<exists>e'. code qp_process (\<lambda>e. Ret (qp_flush e)) e ys = Ret (qp_ref (q_maxlen e) (q_pos e) (q_binary e) (xs @ ys), e')"
  using assms
proof (induction ys arbitrary: e xs)
  case Nil
  then show ?case using qp_flush_ref[OF Nil(1,2)] by (cases "qp_flush e") (simp add: code_def)
next
  case (Cons y ys)
  have inv: "cb_inv (q_cbuf e)" and sz: "m_sz (q_cbuf e) = 5" using Cons(2) by (simp_all add: enc_ok_def)
  have room: "length (cb_str (q_cbuf e)) < m_sz (q_cbuf e)" using Cons(3,4) sz by simp
  let ?b = "cb_push_back y (q_cbuf e)"
  let ?e = "e\<lparr>q_cbuf := ?b\<rparr>"
  have b: "cb_inv ?b" "cb_str ?b = xs @ [y]" using cb.push_inv[OF inv room] cb.push_items[OF inv room] Cons(3) by simp_all
  have cnt: "m_count ?b = length xs + 1" using b(2) length_cb_str[of ?b] by simp
  have step: "code qp_process (\<lambda>e. Ret (qp_flush e)) e (y # ys) = Ret (o1 @ o2, e2)"
    if "qp_process e y = Ret (o1, e1)" "code qp_process (\<lambda>e. Ret (qp_flush e)) e1 ys = Ret (o2, e2)" for o1 o2 e1 e2
    using code_append[of qp_process e "[y]" o1 e1 _ ys] that by simp
  show ?case
  proof (cases "length xs < 4")
    case True
    then have p: "qp_process e y = Ret ([], ?e)" using cnt by (simp add: qp_process_def qp_laBufSz_def)
    have "enc_ok ?e" "cb_str (q_cbuf ?e) = xs @ [y]" "length (xs @ [y]) \<le> 4" using b sz True by (simp_all add: enc_ok_def)
    from Cons(1)[OF this] step[OF p] show ?thesis by fastforce
  next
    case False
    then obtain c zs where xs: "xs = c # zs" "length zs = 3" using Cons(4) by (cases xs) auto
    let ?p = "?e\<lparr>q_cbuf := cb_pop_front ?b\<rparr>"
    have ok: "enc_ok ?p" "cb_str (q_cbuf ?p) = zs @ [y]" "cb_front ?b = c"
      using cb.slide[OF inv room, of y] Cons(3) xs sz by (simp_all add: enc_ok_def)
    from encodeChar_ref[OF ok(1,2), of "zs @ y # ys" c] xs(2) obtain e1 where
      e1: "encodeChar c ?p = (fst (ref_char (q_maxlen e) (q_pos e) (q_binary e) (zs @ y # ys) c), e1)"
      "q_pos e1 = snd (ref_char (q_maxlen e) (q_pos e) (q_binary e) (zs @ y # ys) c)" "q_maxlen e1 = q_maxlen e"
      "q_binary e1 = (q_binary e \<or> qp_class_of c = binary)" "enc_ok e1"
      "cb_str (q_cbuf e1) = (if eaten (q_binary e) c (zs @ y # ys) then tl (zs @ [y]) else zs @ [y])"
      by (auto simp: ok(3))
    have p: "qp_process e y = Ret (fst (ref_char (q_maxlen e) (q_pos e) (q_binary e) (zs @ y # ys) c), e1)"
      using cnt xs e1(1) ok(3) by (simp add: qp_process_def qp_laBufSz_def)
    let ?r = "if eaten (q_binary e) c (zs @ y # ys) then tl (zs @ [y]) else zs @ [y]"
    have r: "?r @ ys = (if eaten (q_binary e) c (zs @ y # ys) then tl (zs @ y # ys) else zs @ y # ys)"
      using xs(2) by (cases zs) auto
    have len: "length ?r \<le> 4" using xs(2) by simp
    obtain e2 where "code qp_process (\<lambda>e. Ret (qp_flush e)) e1 ys = Ret (qp_ref (q_maxlen e1) (q_pos e1) (q_binary e1) (?r @ ys), e2)"
      using Cons(1)[OF e1(5,6) len] by blast
    from step[OF p this] show ?thesis unfolding r by (auto simp: xs e1)
  qed
qed

section \<open>The table of classes\<close>

lemma sTb_entries:
  "list_all (\<lambda>(n, k). k = 0 \<and> 32 < n \<and> n \<noteq> 61 \<or> k = 1 \<and> n = 9 \<or> k = 2 \<and> n = 32 \<or> k = 3 \<and> (n = 10 \<or> n = 13) \<or> k = 4 \<or> k = (5::nat))
     (enumerate 0 sTb)"
  by (simp add: sTb_def)

lemma qp_classes:
  "qp_class_of c = printable \<Longrightarrow> 32 < c \<and> c \<noteq> EQ" "qp_class_of c = tab \<Longrightarrow> c = TAB" "qp_class_of c = sp \<Longrightarrow> c = SP"
  "qp_class_of c = newline \<Longrightarrow> c = LF \<or> c = CR"
proof -
  let ?n = "unat c" and ?k = "sTb ! unat c"
  have "?n < 2 ^ LENGTH(8)" by (rule unsigned_less)
  then have "?n < length sTb" by (simp add: sTb_def)
  then have entry: "?k = 0 \<and> 32 < ?n \<and> ?n \<noteq> 61 \<or> ?k = 1 \<and> ?n = 9 \<or> ?k = 2 \<and> ?n = 32 \<or> ?k = 3 \<and> (?n = 10 \<or> ?n = 13) \<or> ?k = 4 \<or> ?k = 5"
    using sTb_entries by (auto simp: list_all_length nth_enumerate_eq)
  have num: "32 < c \<longleftrightarrow> 32 < ?n" "c = 61 \<longleftrightarrow> ?n = 61" "c = 9 \<longleftrightarrow> ?n = 9" "c = 32 \<longleftrightarrow> ?n = 32" "c = 10 \<longleftrightarrow> ?n = 10" "c = 13 \<longleftrightarrow> ?n = 13"
    by (auto simp: unat_arith_simps)
  show "qp_class_of c = printable \<Longrightarrow> 32 < c \<and> c \<noteq> EQ" "qp_class_of c = tab \<Longrightarrow> c = TAB" "qp_class_of c = sp \<Longrightarrow> c = SP"
    "qp_class_of c = newline \<Longrightarrow> c = LF \<or> c = CR"
    using entry unfolding qp_class_of_def num by (auto simp: nth_Cons' split: if_splits)
qed

section \<open>The decoder on what the encoder writes\<close>

definition "d_wait = \<lparr>p_state = sWaitingChar, p_nl = 0, p_prev = []\<rparr>"
definition "d_eq = \<lparr>p_state = sAfterEq, p_nl = 0, p_prev = [EQ]\<rparr>"
definition "d_soft = \<lparr>p_state = sNewline, p_nl = LF, p_prev = [EQ]\<rparr>"
definition "d_hard = \<lparr>p_state = sNewline, p_nl = LF, p_prev = []\<rparr>"
definition d_blank :: "byte list \<Rightarrow> qp_decoder" where
  "d_blank bs = \<lparr>p_state = sBlank, p_nl = 0, p_prev = bs\<rparr>"

lemmas d_defs = d_wait_def d_eq_def d_soft_def d_hard_def d_blank_def

text \<open>Between two characters; \<open>held\<close> is what the decoder has read and not written.\<close>

definition settled :: "qp_decoder \<Rightarrow> bool" where
  "settled d \<longleftrightarrow> d = d_wait \<or> d = d_hard \<or> (\<exists>bs. d = d_blank bs)"

definition held :: "qp_decoder \<Rightarrow> byte list" where
  "held d = (if p_state d = sNewline then if p_prev d = [] then [LF] else [] else p_prev d)"

lemma held_simps [simp]: "held d_wait = []" "held d_hard = [LF]" "held d_soft = []" "held (d_blank bs) = bs"
  by (simp_all add: held_def d_defs)

lemma decode_plain:
  assumes "settled d \<or> d = d_soft" "32 < c" "c \<noteq> EQ"
  shows "decodeChar c d = Ret (held d @ [c], d_wait)"
proof -
  have c: "\<not> isblank c" "\<not> isnl c" "\<not> c < 32" "c \<noteq> CR" using assms(2) by (auto simp: isblank_def isnl_def)
  show ?thesis
    using assms(1,3) c unfolding settled_def
    by (auto simp: d_defs held_def decodeChar.simps prefix_out_def)
qed

lemma decode_eq: "settled d \<or> d = d_soft \<Longrightarrow> decodeChar EQ d = Ret (held d, d_eq)"
  unfolding settled_def by (auto simp: d_defs held_def decodeChar.simps prefix_out_def isblank_def isnl_def)

lemma decode_soft: "decodeChar LF d_eq = Ret ([], d_soft)"
  by (simp add: d_defs decodeChar.simps isblank_def isnl_def)

lemma decode_blank:
  assumes "settled d \<or> d = d_soft" "c = SP \<or> c = TAB"
  shows "\<exists>o1 bs. decodeChar c d = Ret (o1, d_blank bs) \<and> o1 @ bs = held d @ [c]"
  using assms unfolding settled_def
  by (auto simp: d_defs held_def decodeChar.simps prefix_out_def isblank_def isnl_def)

lemma decode_hard: "d = d_wait \<or> d = d_hard \<Longrightarrow> decodeChar LF d = Ret (held d, d_hard)"
  by (auto simp: d_defs held_def decodeChar.simps prefix_out_def isblank_def isnl_def)

lemma hexc_entries:
  "list_all (\<lambda>(n, h). ishex h \<and> hex_to_int h = of_nat n \<and> \<not> isblank h \<and> \<not> isnl h) (enumerate 0 hexc)"
  by (simp add: hexc_def bytes_of_def ishex_def hex_to_int_def isblank_def isnl_def)

lemma hexc_entry:
  assumes "unat (n :: byte) < 16"
  shows "ishex (hexc ! unat n)" "hex_to_int (hexc ! unat n) = n" "\<not> isblank (hexc ! unat n)" "\<not> isnl (hexc ! unat n)"
proof -
  have "length hexc = 16" by (simp add: hexc_def bytes_of_def)
  then show "ishex (hexc ! unat n)" "hex_to_int (hexc ! unat n) = n" "\<not> isblank (hexc ! unat n)" "\<not> isnl (hexc ! unat n)"
    using hexc_entries assms by (auto simp: list_all_length nth_enumerate_eq)
qed

lemma nibbles:
  fixes c :: byte
  shows "unat (drop_bit 4 c) < 16" "unat (c AND 0xf) < 16" "push_bit 4 (drop_bit 4 c) OR (c AND 0xf) = c"
proof -
  have "unat c < 2 ^ LENGTH(8)" by (rule unsigned_less)
  then have "drop_bit 4 (unat c) < 16" by (simp add: drop_bit_eq_div)
  then show "unat (drop_bit 4 c) < 16" by (simp only: unat_drop_bit_eq)
  have "unat (c AND 0xf) \<le> unat (0xf :: byte)" by (simp only: word_and_le1 flip: word_le_nat_alt)
  then show "unat (c AND 0xf) < 16" by simp
  show "push_bit 4 (drop_bit 4 c) OR (c AND 0xf) = c" by (rule byte_eqI; simp add: masks bit_simps)
qed

abbreviation run :: "qp_decoder \<Rightarrow> byte list \<Rightarrow> (byte list \<times> qp_decoder) cres" where
  "run \<equiv> code_loop qp_decode_process"

lemma decode_hex: "run d_eq [hexc ! unat (drop_bit 4 c), hexc ! unat (c AND 0xf)] = Ret ([c], d_wait)"
  using hexc_entry[OF nibbles(1)] hexc_entry[OF nibbles(2)] nibbles(3)
  by (simp add: qp_decode_process_def decodeChar.simps d_defs)

lemma run_break:
  assumes "settled d"
  obtains d1 where "settled d1 \<or> d1 = d_soft" "run d (fst (ref_break full pos)) = Ret (if full then held d else [], d1)"
    "(if full then held d else []) @ held d1 = held d"
  using assms decode_eq[of d] decode_soft by (cases full) (auto simp: ref_break_def qp_decode_process_def)

lemma run_hex:
  assumes "settled d"
  shows "run d (fst (ref_hex mx pos rest c)) = Ret (held d @ [c], d_wait)"
proof -
  let ?full = "pos + (if rest = [] then 1 else 2) \<ge> mx"
  obtain d1 where d1: "settled d1 \<or> d1 = d_soft" "run d (fst (ref_break ?full pos)) = Ret (if ?full then held d else [], d1)"
    "(if ?full then held d else []) @ held d1 = held d" using run_break[OF assms] .
  have "run d1 (EQ # [hexc ! unat (drop_bit 4 c), hexc ! unat (c AND 0xf)]) = Ret (held d1 @ [c], d_wait)"
    unfolding code_loop.simps(2)[of _ d1] using decode_eq[OF d1(1)] decode_hex[of c] by (simp add: qp_decode_process_def del: code_loop.simps)
  from code_loop_split[OF d1(2) this] d1(3) show ?thesis
    by (simp add: ref_hex_def case_prod_beta del: code_loop.simps flip: append_assoc)
qed

lemma run_plain:
  assumes "settled d" "32 < c" "c \<noteq> EQ"
  shows "run d (fst (ref_plain mx pos rest c)) = Ret (held d @ [c], d_wait)"
proof -
  obtain d1 where d1: "settled d1 \<or> d1 = d_soft"
    "run d (fst (ref_break (rest \<noteq> [] \<and> pos = mx) pos)) = Ret (if rest \<noteq> [] \<and> pos = mx then held d else [], d1)"
    "(if rest \<noteq> [] \<and> pos = mx then held d else []) @ held d1 = held d" using run_break[OF assms(1)] .
  have "run d1 [c] = Ret (held d1 @ [c], d_wait)" using decode_plain[OF d1(1) assms(2,3)] by (simp add: qp_decode_process_def)
  from code_loop_split[OF d1(2) this] d1(3) show ?thesis
    by (simp add: ref_plain_def case_prod_beta del: code_loop.simps flip: append_assoc)
qed

lemma run_blank:
  assumes "settled d" "c = SP \<or> c = TAB"
  shows "\<exists>o1 bs. run d (fst (ref_plain mx pos rest c)) = Ret (o1, d_blank bs) \<and> o1 @ bs = held d @ [c]"
proof -
  obtain d1 where d1: "settled d1 \<or> d1 = d_soft"
    "run d (fst (ref_break (rest \<noteq> [] \<and> pos = mx) pos)) = Ret (if rest \<noteq> [] \<and> pos = mx then held d else [], d1)"
    "(if rest \<noteq> [] \<and> pos = mx then held d else []) @ held d1 = held d" using run_break[OF assms(1)] .
  obtain o1 bs where b: "decodeChar c d1 = Ret (o1, d_blank bs)" "o1 @ bs = held d1 @ [c]" using decode_blank[OF d1(1) assms(2)] by blast
  have "run d1 [c] = Ret (o1, d_blank bs)" using b(1) by (simp add: qp_decode_process_def)
  from code_loop_split[OF d1(2) this]
  have "run d (fst (ref_plain mx pos rest c)) = Ret ((if rest \<noteq> [] \<and> pos = mx then held d else []) @ o1, d_blank bs)"
    by (simp add: ref_plain_def case_prod_beta del: code_loop.simps)
  moreover have "((if rest \<noteq> [] \<and> pos = mx then held d else []) @ o1) @ bs = held d @ [c]"
    using arg_cong[OF d1(3), of "\<lambda>xs. xs @ [c]"] b(2) by (simp only: append_assoc)
  ultimately show ?thesis by blast
qed

section \<open>Round trip\<close>

text \<open>
  What a round trip makes of a text: line breaks of one or two characters become line feeds, unless the encoder is in
  binary mode, which the first byte of class \<open>binary\<close> switches on.
\<close>

function qp_norm :: "bool \<Rightarrow> byte list \<Rightarrow> byte list" where
  "qp_norm bin [] = []"
| "qp_norm bin (c # rest) =
     (if qp_class_of c = newline \<and> \<not> bin then LF else c) #
     qp_norm (bin \<or> qp_class_of c = binary) (if eaten bin c rest then tl rest else rest)"
  by pat_completeness auto

termination
  by (relation "measure (\<lambda>(bin, s). length s)") auto

definition goes_on :: "bool \<Rightarrow> byte list \<Rightarrow> bool" where
  "goes_on bin s \<longleftrightarrow> s \<noteq> [] \<and> \<not> (qp_class_of (hd s) = newline \<and> \<not> bin)"

lemma run_ref_char:
  assumes d: "settled d" "(\<exists>bs. d = d_blank bs) \<Longrightarrow> goes_on bin (c # rest)"
  obtains o1 d1 where "run d (fst (ref_char mx pos bin rest c)) = Ret (o1, d1)" "settled d1"
    "o1 @ held d1 = held d @ [if qp_class_of c = newline \<and> \<not> bin then LF else c]"
    "(\<exists>bs. d1 = d_blank bs) \<Longrightarrow> goes_on (bin \<or> qp_class_of c = binary) (if eaten bin c rest then tl rest else rest)"
proof -
  have wait: "settled d_wait" "d_wait \<noteq> d_blank bs" "settled d_hard" "d_hard \<noteq> d_blank bs" "settled (d_blank bs)" for bs
    by (auto simp: settled_def d_defs)
  consider (hex) "needs_hex pos bin rest c" | (nl) "\<not> needs_hex pos bin rest c" "qp_class_of c = newline" "\<not> bin"
    | (plain) "\<not> needs_hex pos bin rest c" "qp_class_of c = printable"
    | (blank) "\<not> needs_hex pos bin rest c" "qp_class_of c \<noteq> newline" "c = SP \<or> c = TAB" "\<not> at_line_end rest"
    using qp_classes[of c] by (cases "qp_class_of c") (auto simp: needs_hex_def)
  then show thesis
  proof cases
    case hex
    then have "\<not> (qp_class_of c = newline \<and> \<not> bin)" by (auto simp: needs_hex_def)
    then show thesis using that[of "held d @ [c]" d_wait] run_hex[OF d(1)] hex wait by (auto simp: ref_char_def)
  next
    case nl
    have "d = d_wait \<or> d = d_hard" using d nl by (auto simp: settled_def goes_on_def)
    then have "run d [LF] = Ret (held d, d_hard)" using decode_hard by (simp add: qp_decode_process_def)
    then show thesis using that[of "held d" d_hard] nl wait by (auto simp: ref_char_def)
  next
    case plain
    then show thesis using that[of "held d @ [c]" d_wait] run_plain[OF d(1)] qp_classes(1) wait by (auto simp: ref_char_def)
  next
    case blank
    obtain o1 bs where "run d (fst (ref_plain mx pos rest c)) = Ret (o1, d_blank bs)" "o1 @ bs = held d @ [c]"
      using run_blank[OF d(1) blank(3)] by blast
    then show thesis using that[of o1 "d_blank bs"] blank wait
      by (auto simp: ref_char_def goes_on_def at_line_end_def eaten_def)
  qed
qed

lemma run_ref:
  "settled d \<Longrightarrow> ((\<exists>bs. d = d_blank bs) \<Longrightarrow> goes_on bin s) \<Longrightarrow>
   \<exists>o1 d1. run d (qp_ref mx pos bin s) = Ret (o1, d1) \<and> settled d1 \<and> (\<forall>bs. d1 \<noteq> d_blank bs) \<and> o1 @ held d1 = held d @ qp_norm bin s"
proof (induction mx pos bin s arbitrary: d rule: qp_ref.induct)
  case (1 mx pos bin)
  then show ?case by (auto simp: goes_on_def)
next
  case (2 mx pos bin c rest)
  obtain o1 d1 where d1: "run d (fst (ref_char mx pos bin rest c)) = Ret (o1, d1)" "settled d1"
    "o1 @ held d1 = held d @ [if qp_class_of c = newline \<and> \<not> bin then LF else c]"
    "(\<exists>bs. d1 = d_blank bs) \<Longrightarrow> goes_on (bin \<or> qp_class_of c = binary) (if eaten bin c rest then tl rest else rest)"
    using run_ref_char[OF 2(2,3)] by blast
  from 2(1)[OF d1(2) d1(4)] obtain o2 d2 where d2:
    "run d1 (qp_ref mx (snd (ref_char mx pos bin rest c)) (bin \<or> qp_class_of c = binary) (if eaten bin c rest then tl rest else rest)) = Ret (o2, d2)"
    "settled d2" "\<forall>bs. d2 \<noteq> d_blank bs"
    "o2 @ held d2 = held d1 @ qp_norm (bin \<or> qp_class_of c = binary) (if eaten bin c rest then tl rest else rest)"
    by blast
  have "(o1 @ o2) @ held d2 = held d @ qp_norm bin (c # rest)"
    using d2(4) arg_cong[OF d1(3), of "\<lambda>xs. xs @ qp_norm (bin \<or> qp_class_of c = binary) (if eaten bin c rest then tl rest else rest)"]
    by (simp only: append_assoc qp_norm.simps append_Cons append_Nil)
  then show ?case using code_loop_split[OF d1(1) d2(1)] d2(2,3) unfolding qp_ref.simps by blast
qed

lemma qp_decodes: "\<exists>d. code qp_decode_process qp_decode_flush QP_Decoder (qp_ref mx pos bin s) = Ret (qp_norm bin s, d)"
proof -
  have "settled d_wait" "d_wait \<noteq> d_blank bs" for bs by (simp_all add: settled_def d_defs)
  then obtain o1 d1 where r: "run d_wait (qp_ref mx pos bin s) = Ret (o1, d1)" "settled d1" "\<forall>bs. d1 \<noteq> d_blank bs" "o1 @ held d1 = qp_norm bin s"
    using run_ref[of d_wait bin s mx pos] by auto
  have "qp_decode_flush d1 = Ret (held d1, d1)"
    using r(2,3) by (auto simp: settled_def d_defs held_def qp_decode_flush_def)
  then show ?thesis using code_Ret[OF r(1)] r(4) by (auto simp: d_wait_def QP_Decoder_def)
qed

lemma qp_norm_binary: "qp_norm True s = s"
  by (induction "True" s rule: qp_norm.induct) (auto simp: eaten_def)

lemma qp_norm_lf: "CR \<notin> set s \<Longrightarrow> qp_norm bin s = s"
  using qp_classes(4) by (induction bin s rule: qp_norm.induct) (auto simp: eaten_def dest: hd_in_set)

section \<open>The length of lines\<close>

fun text_lines :: "byte list \<Rightarrow> byte list list" where
  "text_lines [] = [[]]"
| "text_lines (x # xs) = (if x = LF then [] # text_lines xs else (x # hd (text_lines xs)) # tl (text_lines xs))"

text \<open>Every line has at most \<open>mx\<close> characters, where the first continues a line of \<open>col\<close>.\<close>

fun fits :: "nat \<Rightarrow> nat \<Rightarrow> byte list \<Rightarrow> bool" where
  "fits mx col [] \<longleftrightarrow> col \<le> mx"
| "fits mx col (x # xs) \<longleftrightarrow> (if x = LF then col \<le> mx \<and> fits mx 0 xs else fits mx (col + 1) xs)"

lemma text_lines_ne [simp]: "text_lines xs \<noteq> []"
  by (cases xs) simp_all

lemma fits_lines: "fits mx col xs \<longleftrightarrow> col + length (hd (text_lines xs)) \<le> mx \<and> (\<forall>l \<in> set (tl (text_lines xs)). length l \<le> mx)"
proof (induction xs arbitrary: col)
  case (Cons x xs)
  have "set (text_lines xs) = insert (hd (text_lines xs)) (set (tl (text_lines xs)))"
    by (metis list.collapse list.simps(15) text_lines_ne)
  then show ?case by (simp add: Cons)
qed simp

lemma fits_all: "fits mx 0 xs \<longleftrightarrow> (\<forall>l \<in> set (text_lines xs). length l \<le> mx)"
  by (cases "text_lines xs") (auto simp: fits_lines)

lemma hexc_no_lf: "unat (n :: byte) < 16 \<Longrightarrow> hexc ! unat n \<noteq> LF"
  using hexc_entry(4)[of n] by (auto simp: isnl_def)

lemma ref_char_fits:
  assumes "4 \<le> mx" "1 \<le> pos" "pos \<le> mx" "ref_char mx pos bin rest c = (o1, p)"
  shows "1 \<le> p" "p \<le> mx + 1" "rest \<noteq> [] \<Longrightarrow> p \<le> mx" "fits mx (p - 1) tail \<Longrightarrow> fits mx (pos - 1) (o1 @ tail)"
proof -
  have hex: "hexc ! unat (drop_bit 4 c) \<noteq> LF" "hexc ! unat (c AND 0xf) \<noteq> LF"
    by (simp_all only: hexc_no_lf nibbles not_False_eq_True)
  have plain: "c \<noteq> LF" if "\<not> needs_hex pos bin rest c" "qp_class_of c \<noteq> newline"
    using that qp_classes[of c] by (cases "qp_class_of c") (auto simp: needs_hex_def)
  consider "(o1, p) = ref_hex mx pos rest c" | "(o1, p) = ([LF], 1)" | "(o1, p) = ref_plain mx pos rest c" "c \<noteq> LF"
    using assms(4) plain by (auto simp: ref_char_def split: if_splits)
  then have "1 \<le> p \<and> p \<le> mx + 1 \<and> (rest \<noteq> [] \<longrightarrow> p \<le> mx) \<and> (fits mx (p - 1) tail \<longrightarrow> fits mx (pos - 1) (o1 @ tail))"
    using assms(1-3) hex by cases (auto simp: ref_hex_def ref_plain_def ref_break_def Let_def numeral_3_eq_3 split: if_splits)
  then show "1 \<le> p" "p \<le> mx + 1" "rest \<noteq> [] \<Longrightarrow> p \<le> mx" "fits mx (p - 1) tail \<Longrightarrow> fits mx (pos - 1) (o1 @ tail)"
    by auto
qed

lemma qp_ref_fits:
  "4 \<le> mx \<Longrightarrow> 1 \<le> pos \<Longrightarrow> pos \<le> mx + 1 \<Longrightarrow> (s \<noteq> [] \<Longrightarrow> pos \<le> mx) \<Longrightarrow> fits mx (pos - 1) (qp_ref mx pos bin s)"
proof (induction mx pos bin s rule: qp_ref.induct)
  case (2 mx pos bin c rest)
  obtain o1 p where r: "ref_char mx pos bin rest c = (o1, p)" by (cases "ref_char mx pos bin rest c")
  have pos: "pos \<le> mx" using 2 by simp
  note f = ref_char_fits[OF 2(2,3) pos r]
  have "(if eaten bin c rest then tl rest else rest) \<noteq> [] \<Longrightarrow> p \<le> mx" using f(3) by (cases rest) (auto split: if_splits)
  then have "fits mx (p - 1) (qp_ref mx p (bin \<or> qp_class_of c = binary) (if eaten bin c rest then tl rest else rest))"
    using 2(1)[OF 2(2)] f(1,2) by (simp add: r)
  then show ?case using f(4) by (simp add: r)
qed simp

end
