(* ===== verification/Bm_Correct.thy ===== *)
theory Bm_Correct
  imports Mime_Codecs
begin

text \<open>
  The Boyer-Moore search: \<open>find_bm\<close> gives the first occurrence of the word, or the end of the text, for words of bytes below 128.
  A byte that is negative as a \<open>char\<close> equals no byte of the text.
\<close>

section \<open>The table of shifts\<close>

lemma bm_shift_fold:
  assumes "n \<le> length w"
  defines "f \<equiv> foldl (\<lambda>sh i. sh(w ! i := int (length w) - int i - 1)) (\<lambda>_. int (length w)) [0..<n]"
  shows "f c \<le> int (length w)" "j < n \<Longrightarrow> f (w ! j) \<le> int (length w) - int j - 1"
  using assms(1) unfolding f_def by (induction n) (auto simp: less_Suc_eq)

lemma bm_shift_le:
  "bm_shift w c \<le> int (length w)" "j < length w \<Longrightarrow> bm_shift w (w ! j) \<le> int (length w) - int j - 1"
  using bm_shift_fold[of "length w" w] by (simp_all add: bm_shift_def)

section \<open>The search\<close>

definition bm_match :: "byte list \<Rightarrow> byte list \<Rightarrow> nat \<Rightarrow> bool" where
  "bm_match u w a \<longleftrightarrow> a + length w \<le> length u \<and> (\<forall>k < length w. \<not> bm_differs (u ! (a + k)) (w ! k))"

definition first_match :: "byte list \<Rightarrow> byte list \<Rightarrow> int \<Rightarrow> bool" where
  "first_match u w r \<longleftrightarrow> (\<exists>a. r = int a \<and> (\<forall>b < a. \<not> bm_match u w b) \<and> (bm_match u w a \<or> (a = length u \<and> (\<forall>b. \<not> bm_match u w b))))"

lemma no_match_skipped:
  assumes i: "i = a + t" "t < length w" "bm_differs (u ! i) (w ! t)"
    and eq: "\<And>c v. \<not> bm_differs c v \<Longrightarrow> c = v"
    and b: "a \<le> b" "int b < int i + max (int (length w) - int t) (bm_shift w (u ! i)) - (int (length w) - 1)"
  shows "\<not> bm_match u w b"
proof
  assume m: "bm_match u w b"
  show False
  proof (cases "b = a")
    case True
    then show False using m i by (auto simp: bm_match_def)
  next
    case False
    show False
    proof (cases "b \<le> i")
      case True
      have k: "i - b < length w" using i False b(1) True by linarith
      then have "\<not> bm_differs (u ! i) (w ! (i - b))" using m True by (auto simp: bm_match_def dest!: spec[of _ "i - b"])
      then have "bm_shift w (u ! i) \<le> int (length w) - int (i - b) - 1" using bm_shift_le(2)[OF k] eq by metis
      then show False using b i False True by linarith
    next
      case False
      then show False using b i bm_shift_le(1)[of w "u ! i"] by linarith
    qed
  qed
qed

lemma bm_differs_iff: "bm_differs c v \<longleftrightarrow> c \<noteq> v \<or> sint v < 0"
proof (cases "sint v < 0")
  case True
  then show ?thesis using uint_ge_0[of c] unfolding bm_differs_def by linarith
next
  case False
  moreover have "sint v < 2 ^ LENGTH(8)" using sint_less[of v] by simp
  ultimately have "sint v = uint v" by (simp add: uint_sint[of v] take_bit_int_eq_self)
  then show ?thesis using False by (auto simp: bm_differs_def word_uint_eq_iff)
qed

lemma bm_loop_first:
  assumes "-1 \<le> t" "t < int (length w)" "t \<le> i" "i - t \<le> int (length u)"
    and "\<And>b. b < nat (i - t) \<Longrightarrow> \<not> bm_match u w b"
    and "t = int (length w) - 1 \<or> (i - t) + int (length w) \<le> int (length u)"
    and "\<And>k. t < int k \<Longrightarrow> k < length w \<Longrightarrow> \<not> bm_differs (u ! (nat (i - t) + k)) (w ! k)"
  shows "first_match u w (bm_loop u w i t)"
  using assms
proof (induction u w i t rule: bm_loop.induct)
  case (1 u w i t)
  define a where "a = nat (i - t)"
  have a: "i = int a + t" using 1(5) by (simp add: a_def)
  note before = 1(7)[folded a_def] and room = 1(8) and suffix = 1(9)[folded a_def]
  consider (found) "t < 0" | (out) "0 \<le> t" "int (length u) \<le> i"
    | (diff) "0 \<le> t" "i < int (length u)" "bm_differs (u ! nat i) (w ! nat t)"
    | (same) "0 \<le> t" "i < int (length u)" "\<not> bm_differs (u ! nat i) (w ! nat t)" by linarith
  then show ?case
  proof cases
    case found
    then have t: "t = -1" using 1(3) by simp
    have "a + length w \<le> length u" using room 1(6) a t by linarith
    then have "bm_match u w a" using suffix t by (simp add: bm_match_def)
    moreover have "bm_loop u w i t = int a" using a t by (simp add: bm_loop.simps)
    ultimately show ?thesis using before by (auto simp: first_match_def)
  next
    case out
    then have "int (length u) < int a + int (length w)" using room a 1(4) by linarith
    then have "\<not> bm_match u w b" for b using before[of b] by (cases "b < a") (auto simp: bm_match_def)
    then show ?thesis using out by (auto simp: first_match_def bm_loop.simps[of u w i t])
  next
    case diff
    define j where "j = i + max (int (length w) - t) (bm_shift w (u ! nat i))"
    have nats: "nat i = a + nat t" "nat t < length w" "int (nat i) = i" "int (nat t) = t" using a diff(1) 1(4) by auto
    have skip: "\<not> bm_match u w b" if "int b < j - (int (length w) - 1)" for b
    proof (cases "b < a")
      case False
      show ?thesis
        by (rule no_match_skipped[OF nats(1,2) diff(3)]) (use False that nats in \<open>auto simp: j_def bm_differs_iff\<close>)
    qed (use before in blast)
    have low: "int (length w) - 1 \<le> j" using a diff(1) by (simp add: j_def)
    have skip': "\<not> bm_match u w b" if "b < nat (j - (int (length w) - 1))" for b using skip[of b] that by linarith
    show ?thesis
    proof (cases "int (length u) \<le> j")
      case True
      have "\<not> bm_match u w b" for b using skip[of b] True by (auto simp: bm_match_def)
      then show ?thesis using True diff by (auto simp: first_match_def bm_loop.simps[of u w i t] j_def Let_def)
    next
      case False
      have "first_match u w (bm_loop u w j (int (length w) - 1))"
        by (rule 1(1)[OF _ _ diff(3) j_def])
           (use diff(1,2) False skip' low 1(4) in auto)
      then show ?thesis using False diff by (simp add: bm_loop.simps[of u w i t] j_def Let_def)
    qed
  next
    case same
    have "first_match u w (bm_loop u w (i - 1) (t - 1))"
    proof (rule 1(2))
      show "\<not> bm_differs (u ! (nat (i - 1 - (t - 1)) + k)) (w ! k)" if "t - 1 < int k" "k < length w" for k
      proof (cases "int k = t")
        case True
        then have "nat (i - 1 - (t - 1)) + k = nat i" "k = nat t" using a same(1) by auto
        then show ?thesis using same(3) by simp
      qed (use suffix[of k] that in \<open>simp add: a_def\<close>)
    qed (use same 1(4,5,6,7) room in auto)
    then show ?thesis using same by (simp add: bm_loop.simps[of u w i t])
  qed
qed

section \<open>The first occurrence\<close>

primrec first_occurrence :: "byte list \<Rightarrow> byte list \<Rightarrow> nat" where
  "first_occurrence w [] = 0"
| "first_occurrence w (x # xs) = (if take (length w) (x # xs) = w then 0 else Suc (first_occurrence w xs))"

lemma bm_match_take:
  assumes "\<forall>v \<in> set w. 0 \<le> sint v"
  shows "bm_match u w a \<longleftrightarrow> a + length w \<le> length u \<and> take (length w) (drop a u) = w"
proof -
  have "\<not> bm_differs (u ! (a + k)) (w ! k) \<longleftrightarrow> u ! (a + k) = w ! k" if "k < length w" for k
    using bspec[OF assms nth_mem[OF that]] by (auto simp: bm_differs_iff)
  then show ?thesis
    by (auto simp: bm_match_def list_eq_iff_nth_eq[of "take (length w) (drop a u)" w])
qed

lemma first_match_unique: "first_match u w r \<Longrightarrow> first_match u w r' \<Longrightarrow> r = r'"
  unfolding first_match_def by (metis linorder_neqE_nat)

lemma first_occurrence_first:
  assumes "\<forall>v \<in> set w. 0 \<le> sint v"
  shows "first_match u w (int (first_occurrence w u))"
proof (induction u)
  case Nil
  then show ?case using bm_match_take[OF assms, of "[]"] by (auto simp: first_match_def)
next
  case (Cons x xs)
  have shift: "bm_match (x # xs) w (Suc b) \<longleftrightarrow> bm_match xs w b" for b by (simp add: bm_match_def)
  show ?case
  proof (cases "take (length w) (x # xs) = w")
    case True
    then have "length w \<le> length (x # xs)" by (metis length_take min.cobounded1)
    then have "bm_match (x # xs) w 0" using bm_match_take[OF assms] True by simp
    then show ?thesis using True by (auto simp: first_match_def)
  next
    case False
    then have no: "\<not> bm_match (x # xs) w 0" using bm_match_take[OF assms] by auto
    let ?a = "first_occurrence w xs"
    have "(\<forall>b < ?a. \<not> bm_match xs w b) \<and> (bm_match xs w ?a \<or> ?a = length xs \<and> (\<forall>b. \<not> bm_match xs w b))"
      using Cons by (simp add: first_match_def)
    then have "(\<forall>b < Suc ?a. \<not> bm_match (x # xs) w b) \<and>
        (bm_match (x # xs) w (Suc ?a) \<or> Suc ?a = length (x # xs) \<and> (\<forall>b. \<not> bm_match (x # xs) w b))"
      using no by (auto simp: shift less_Suc_eq_0_disj not0_implies_Suc) (metis not0_implies_Suc shift)
    then show ?thesis using False unfolding first_match_def by (intro exI[of _ "Suc ?a"]) simp
  qed
qed

lemma find_bm_first: "first_match u w (find_bm u w)"
  unfolding find_bm_def by (rule bm_loop_first) auto

lemma find_bm_occurrence:
  "find_bm u w = int (if \<exists>v \<in> set w. sint v < 0 then length u else first_occurrence w u)"
proof (cases "\<exists>v \<in> set w. sint v < 0")
  case True
  then obtain k where "k < length w" "sint (w ! k) < 0" by (metis in_set_conv_nth)
  then have "\<not> bm_match u w b" for b by (auto simp: bm_match_def bm_differs_iff)
  then show ?thesis using find_bm_first[of u w] True by (auto simp: first_match_def)
next
  case False
  then show ?thesis
    using first_match_unique[OF find_bm_first[of u w] first_occurrence_first[of w u]] by (auto simp: not_less)
qed

end
