(* ===== verification/Mime_Properties.thy ===== *)
theory Mime_Properties
  imports Qp_Correct Bm_Correct
begin

text \<open>The properties of the MIME codecs, with witnesses.\<close>

section \<open>Base64\<close>

text \<open>
  C17: Base64 round trip. For every line length and whatever the buffers held before, encoding a text returns, and decoding the
  result, line breaks and padding included, gives the text.
\<close>

theorem base64_roundtrip:
  "\<exists>out e d. code enc_process enc_flush (Base64_Encoder g m) s = Ret (out, e) \<and>
     code dec_process dec_flush (Base64_Decoder h) out = Ret (s, d)"
proof -
  obtain e where e: "code enc_process enc_flush (Base64_Encoder g m) s = Ret (fst (put_idx m 1 (b64_idx s)), e)"
    using enc_code[of "Base64_Encoder g m" s] by (auto simp: Base64_Encoder_def)
  then show ?thesis using base64_decodes[OF e] by blast
qed

text \<open>
  The Base64 decoder reads past the end of its table on a vertical bar, byte 124, and on no other byte.
\<close>

theorem base64_decoder_overread: "code dec_process dec_flush (Base64_Decoder h) s = Fault \<longleftrightarrow> 124 \<in> set s"
  by (rule dec_faults)

section \<open>Quoted-printable\<close>

abbreviation qp_encode :: "(nat \<Rightarrow> byte) \<Rightarrow> bool \<Rightarrow> nat \<Rightarrow> byte list \<Rightarrow> (byte list \<times> qp_encoder) cres" where
  "qp_encode g bin m \<equiv> code qp_process (\<lambda>e. Ret (qp_flush e)) (qp_set_maxlen m (QP_Encoder g bin))"

abbreviation qp_decode :: "byte list \<Rightarrow> (byte list \<times> qp_decoder) cres" where
  "qp_decode \<equiv> code qp_decode_process qp_decode_flush QP_Decoder"

lemma qp_encode_ref: "\<exists>e. qp_encode g bin m s = Ret (qp_ref m 1 bin s, e)"
  using qp_code_ref[of "qp_set_maxlen m (QP_Encoder g bin)" "[]" s]
  by (auto simp: qp_set_maxlen_def QP_Encoder_def circular_buffer_new_def enc_ok_def cb_inv_def cb_str_def qp_laBufSz_def)

text \<open>
  C18: Quoted-printable round trip. For every line length, encoding a text returns, and decoding the result gives the text with
  each line break of one or two characters as one line feed; in binary mode, which the caller or a byte of class binary
  switches on, bytes stay as they are.
\<close>

theorem qp_roundtrip:
  "(\<exists>out e d. qp_encode g bin m s = Ret (out, e) \<and> qp_decode out = Ret (qp_norm bin s, d)) \<and> qp_norm True s = s"
  using qp_encode_ref[of m g bin s] qp_decodes[of m 1 bin s] qp_norm_binary by blast

text \<open>
  C19: No line of quoted-printable output is longer than the maximum, soft line breaks included, for a maximum of at least four.
\<close>

theorem qp_lines_bounded:
  assumes "4 \<le> m"
  shows "\<exists>out e. qp_encode g bin m s = Ret (out, e) \<and> (\<forall>l \<in> set (text_lines out). length l \<le> m)"
  using qp_encode_ref[of m g bin s] qp_ref_fits[of m 1 s bin] assms by (auto simp: fits_all)

theorem qp_lines_bounded_witness:
  "\<exists>out e. qp_encode (\<lambda>_. 0) False 12 (bytes_of ''unsafe!#$ and more'') = Ret (out, e) \<and>
     (\<forall>l \<in> set (text_lines out). length l \<le> 12)"
  by (rule qp_lines_bounded) simp

section \<open>Search\<close>

text \<open>
  C20: The Boyer-Moore search gives the position of the first occurrence of the word, or the end of the text when there is none,
  for a word of bytes below 128; a word with another byte is never found, since \<open>char\<close> is signed.
\<close>

theorem find_bm_finds: "find_bm u w = int (if \<exists>v \<in> set w. sint v < 0 then length u else first_occurrence w u)"
  by (rule find_bm_occurrence)

end
