(* ===== verification/Spec2Isabelle.thy ===== *)
theory Spec2Isabelle
  imports Core_Properties Page_Properties Fcgi_Properties Session_Properties Front_Properties Module_Properties Mime_Properties
begin

text \<open>
  \<^bold>\<open>dbPager Server\<close> turns XML pages into responses: a parser (libxml2 below it) builds a tree of tags, an
  interpreter runs the tags, which write text, read and set variables, call expressions and functions,
  and a server, a CGI program or a module of Apache carries requests and responses. This development models the
  language and its run time (\<open>src/libdbpager\<close>, \<open>src/dbpager/tag\<close>, \<open>src/dbpager/parser\<close>), the FastCGI library
  that the repository bundles (\<open>src/fcgi-2.4.1-SNAP-0910052249/libfcgi\<close>), sessions, environment and servers
  (\<open>src/dbpager/services\<close>, \<open>interpreter\<close>, \<open>application\<close>), the modules for sessions, databases and services
  (\<open>src/modules\<close>) and the codecs of the bundled MIME library (\<open>src/mimetic\<close>), and proves what makes them correct.

  \<^bold>\<open>The page language.\<close>
  \<^item> \<open>Prelude\<close>: outcomes (a value, a C++ exception, a crash, no end), strings, association lists.
  \<^item> \<open>Contexts\<close>: \<open>context.cpp\<close>. A chain of contexts, each a stack of layers of variables. The abstract
    environment is a map; assignment and lookup refine it.
  \<^item> \<open>Tag_Store\<close>: \<open>tag_impl.cpp\<close>. Tags are records behind addresses, because expressions make and delete
    tags while a page runs. Shape invariants of the store and what each operation keeps of them.
  \<^item> \<open>Tag_Factory\<close>: \<open>tag_factory.cpp\<close>, the table of built-in classes and the plugins.
  \<^item> \<open>Exec_Monad\<close>: the state of a running page, the combinators of the tag classes, and the library
    services the tags call (\<open>'d world\<close>: floating point, JSON, PCRE, cURL, digests, files), which are
    parameters.
  \<^item> \<open>Evaluator\<close>: \<open>tag_expression.cpp\<close>, scanner, tokenizer and calculator. \<open>Evaluator_Correct\<close>: a printed
    expression is computed to the value its grammar gives it, templates are substituted piece by piece.
  \<^item> \<open>Core_Tags\<close>, \<open>Functions\<close>, \<open>Data_Tags\<close>, \<open>Html_Tags\<close>, \<open>IO_Tags\<close>: one definition per \<open>execute\<close> method.
  \<^item> \<open>Interp\<close>: \<open>dispatch\<close>, the virtual call, and \<open>execute\<close>, the interpreter. A page may loop, so \<open>execute\<close>
    takes fuel; \<open>Fuel\<close> shows that a run that ends is the same with any more fuel, so that results do not
    depend on the bound.
  \<^item> \<open>Frame\<close>, \<open>Invariants\<close>: what running a page leaves alone. The locales \<open>tag_frame\<close>, \<open>data_frame\<close> and \<open>chain_frame\<close> carry
    the argument from the tag classes to the interpreter; they are interpreted for the tree, the
    contexts and the containers.
  \<^item> \<open>Strings\<close>, \<open>Html_Correct\<close>, \<open>Control\<close>: replacement and splitting, escaping and rendering of static
    documents, the control-flow tags.
  \<^item> \<open>Parser\<close>: \<open>dbpx_parser.cpp\<close> and \<open>optimizer.cpp\<close>. The sequence of nodes that libxml2 reports is a
    parameter. \<open>Parser_Correct\<close>: the tree that the parser builds from the nodes of a static document; it meets
    the rendering of \<open>Html_Correct\<close> in the round trip of a page.
  \<^item> \<open>Sample\<close>: small worlds and pages for the witnesses. \<open>Core_Properties\<close>, \<open>Page_Properties\<close>: the properties.

  \<^bold>\<open>The FastCGI library.\<close>
  \<^item> \<open>Fcgi_Kernel\<close>: \<open>os_unix.c\<close>. The kernel is a state: per connection the bytes and errors that \<open>read\<close>
    will give and how much each \<open>write\<close> takes, the coming results of \<open>accept\<close>, and what was sent. A C
    function gives \<open>Ret\<close>, \<open>Fault\<close> (memory outside of an object), \<open>Abort\<close> (a failed assertion) or \<open>Hang\<close>.
  \<^item> \<open>Fcgi_Protocol\<close>: \<open>fastcgi.h\<close>, headers, alignment at the widths of the code.
  \<^item> \<open>Fcgi_Stream\<close>, \<open>Fcgi_Reader\<close>, \<open>Fcgi_Request\<close>: \<open>fcgiapp.c\<close>. Streams with their buffers (pointers are
    offsets), the reading and writing operations, \<open>EmptyBuffProc\<close> and \<open>FillBuffProc\<close>, parameters, management
    records, and the life of a request from \<open>FCGX_Accept_r\<close> to \<open>FCGX_Finish_r\<close>. The recursion of
    \<open>FillBuffProc\<close> through \<open>ProcessHeader\<close> and the loops on input take fuel.
  \<^item> \<open>Fcgi_Writer_Correct\<close>: the invariant of an output stream, and the records on the wire: their contents
    join to what was put, for any buffer size and any partial writes.
  \<^item> \<open>Fcgi_Reader_Correct\<close>: a decoder of byte lists, and that \<open>FillBuffProc\<close> gives the application what the
    decoder gives, in whatever pieces the bytes arrive. Fuel above the number of bytes still to come is
    enough; the theorems state the bound and conclude that the calls return.
  \<^item> \<open>Fcgi_Params\<close>: records as a client sends them, name-value pairs. \<open>ReadParams\<close> is proved over the locale
    \<open>byte_source\<close>, the contract of \<open>FCGX_GetChar\<close> and \<open>FCGX_GetStr\<close>, which is interpreted on \<open>FillBuffProc\<close>.
  \<^item> \<open>Fcgi_Request_Correct\<close>, \<open>Fcgi_Session\<close>: accepting a request, and the response that reaches the client
    when it is finished. \<open>Fcgi_Properties\<close>: the properties.

  \<^bold>\<open>The server.\<close>
  \<^item> \<open>Sessions\<close>: \<open>session.h\<close> and the built-in provider \<open>session_int.h\<close>; the HTTP classes of dcl are a record of
    functions. \<open>Environment\<close>: \<open>environment.cpp\<close>, the four contexts of a request and its variables from headers,
    query, body and path. \<open>Application\<close>: \<open>interpreter.cpp\<close> and \<open>dbpager_application.cpp\<close>, configuration, choice of
    services, plugins, the cache of pages. \<open>Server\<close>: a worker of \<open>dbpagerd.cpp\<close>, from \<open>get_request\<close> to the loop.
  \<^item> \<open>Environment_Correct\<close>: the list of assignments that a request makes. \<open>Session_Correct\<close>: the locale
    \<open>session_provider\<close> is what an environment relies on, and the environment under it; it is
    interpreted for the built-in provider here and for Redis and memcached in \<open>Session_Modules_Correct\<close>.
    \<open>Request_Correct\<close>: the fields of a request, query strings, what a built-in session keeps.
    \<open>Server_Correct\<close>, \<open>Server_Properties\<close>: the response, the cache, and the way of a request from the bytes of the
    client to the bytes of the answer.
  \<^item> \<open>Front_Ends\<close>: \<open>dbp_cgi.cpp\<close>, \<open>mod_dbp.cpp\<close> and \<open>dbpager.cpp\<close>. \<open>Front_Ends_Correct\<close>, \<open>Front_Properties\<close>: the path that
    the CGI program takes out of its variables, and that it answers a page as the FastCGI server does.
  \<^item> \<open>Session_Modules\<close>: \<open>mod_session_redis\<close>, \<open>mod_session_memcached\<close> and \<open>mod_session_jwt\<close> over their client
    libraries. \<open>Session_Persistence\<close>, \<open>Session_Properties\<close>: what one request saves a later one loads.

  \<^bold>\<open>Database and service modules.\<close>
  \<^item> \<open>Sqlite_Tags\<close>, \<open>Pgsql_Tags\<close>, \<open>Odbc_Tags\<close>, \<open>Redis_Tags\<close>, \<open>Bdb_Tags\<close>, \<open>Ldap_Tags\<close>, \<open>Mqtt_Tags\<close>, \<open>Xslt_Tags\<close>: the tags of
    \<open>src/modules/dbp_*\<close>. Each client library is a record of functions; what it keeps, on the server or in
    the process, is the field \<open>remote\<close> of the state, and the connections of a pool are \<open>pooled\<close>. Loops over rows and
    retries run on the fuel of the interpreter: a call that used it up is \<open>Diverge\<close>, no result.
  \<^item> \<open>Module_Interp\<close>: \<open>execute_with\<close>, the interpreter of pages that hold tags of modules; without such tags it is
    \<open>execute\<close>. The locale \<open>module_frame\<close> extends the frame argument to it, \<open>lib_frame\<close> and the locales below it carry
    relations on the state of a library from its calls to whole pages.
  \<^item> \<open>Sqlite_Correct\<close>: a page gives back every connection and every statement it took, and
    what transactions leave behind. \<open>Pgsql_Correct\<close>: the numbering of parameters, attempts on a broken connection.
    \<open>Bdb_Correct\<close>: the records that an iteration visits. \<open>Module_Properties\<close>: the properties.

  \<^bold>\<open>The MIME codecs.\<close> \<open>Mime_Codecs\<close>: the circular buffer, Base64, quoted-printable, chains and the Boyer-Moore search of the bundled
  library \<open>src/mimetic\<close>, on bytes and with the reads outside of arrays as \<open>Fault\<close>. \<open>Mime_Correct\<close>: Base64 and chains. \<open>Qp_Correct\<close>: the locale
  \<open>bounded_queue\<close> is the contract of the look-ahead buffer, interpreted on the circular buffer; the encoder implements a
  recursion over its input, which the decoder undoes. \<open>Bm_Correct\<close>: the search. \<open>Mime_Properties\<close>: the properties. No fuel: the
  loops have termination proofs. The environment of a request takes the parsed message as a parameter, so that the server
  rests on no more of the library than that.

  \<^bold>\<open>How the parts meet.\<close> \<open>Server\<close> connects them: the FastCGI library delivers parameters and input, the
  environment turns them into variables, the parser and the cache give the page, the interpreter runs it, and
  its text goes back through an output stream. The property of a static page in \<open>Server_Properties\<close> goes this way from
  end to end, on the lemmas of each part. Modules enter at two places: as session providers below the environment, and
  as tags below the interpreter.

  \<^bold>\<open>Fuel.\<close> \<open>execute\<close> and the loops on input take a bound. Where a property says that something returns, it states
  the bound that is enough or that there is one; where it relates two runs, \<open>Fuel\<close> makes it independent of the bound.

  \<^bold>\<open>Not modelled.\<close> \<open>FCGX_VFPrintF\<close>, the formatted output of the streams, which pages do not use; \<open>OS_DoIo\<close> and
  the creation of sockets; the command line, the daemon and the start of threads in \<open>dbpagerd.cpp\<close>;
  \<open>dbp_isapi.cpp\<close>, which does not fit the interpreter any more. The modules for MongoDB and scripts, glue with unfinished tags,
  and the logger. The messages, headers and the parser of the vendored MIME library, the MongoDB driver, and the layer of the
  FastCGI library for Windows. Threads: a worker runs alone, mutexes and the sizes of pools are left out, and
  \<open>dbp:async\<close> is modelled for the schedule that runs its children in turn. Allocation never fails.
\<close>

end
